(* ===== verification/Py_Runtime.thy ===== *)
theory Py_Runtime
  imports Complex_Main "HOL-Library.Product_Lexorder" "HOL-Library.List_Lexorder" "HOL-Library.Char_ord"
begin

text \<open>
  The prelude: the parts of the Python runtime every component uses. Exceptions are values
  of a sum type; an operation that changes state is a function from the state to its result
  and the new state, so that what an exception leaves behind is visible; a database session
  commits or rolls back; rows are lists in insertion order; aware and naive datetimes.
\<close>

section \<open>Exceptions\<close>

datatype exn_class =
    ValueError | ValidationError | InvalidOperation | StopIteration | KeyError | AssertionError
  | IntegrityError | DataError | StaleDataError | ArithmeticError | OverflowError
  | PersistenceConflictError | RecordNotFoundError | LedgerConflictError
  | ApprovalError | IdentityError | AutonomyControlError | WorkflowError
  | AdapterError | ActionExecutionError | AdapterTimeout | AmbiguousProviderTimeout
  | AdapterRateLimited | MalformedAdapterResponse | AdapterAuthError
  | UnknownModelPricingError | OpenAIBudgetError | OpenAIBudgetExceededError
  | OpenAIPerRunLimitError | OpenAIBudgetConfigurationError | OpenAIRunNotFoundError
  | OpenAIAgentUnavailableError | AgentOutputValidationError | OpenAIResponseError | HTTPException
  | RuntimeError | SystemExit | HTTPStatusError | TransportError | FileNotFoundError

text \<open>An exception object: its class, \<open>str(exc)\<close>, and the attributes some classes carry.\<close>

datatype exn = Exn (exn_cls: exn_class) (exn_str: string) (exn_args: "string list")

abbreviation err :: "exn_class \<Rightarrow> string \<Rightarrow> exn" where
  "err c m \<equiv> Exn c m []"

section \<open>Results and stateful operations\<close>

type_synonym 'a res = "exn + 'a"

definition bind_res :: "'a res \<Rightarrow> ('a \<Rightarrow> 'b res) \<Rightarrow> 'b res" where
  "bind_res r f = (case r of Inl e \<Rightarrow> Inl e | Inr x \<Rightarrow> f x)"

type_synonym ('s, 'a) prog = "'s \<Rightarrow> 'a res \<times> 's"

definition ret :: "'a \<Rightarrow> ('s, 'a) prog" where
  "ret x = (\<lambda>s. (Inr x, s))"

definition raise :: "exn \<Rightarrow> ('s, 'a) prog" where
  "raise e = (\<lambda>s. (Inl e, s))"

definition bind :: "('s, 'a) prog \<Rightarrow> ('a \<Rightarrow> ('s, 'b) prog) \<Rightarrow> ('s, 'b) prog" where
  "bind m f = (\<lambda>s. case m s of (Inl e, s') \<Rightarrow> (Inl e, s') | (Inr x, s') \<Rightarrow> f x s')"

definition catch :: "('s, 'a) prog \<Rightarrow> (exn \<Rightarrow> ('s, 'a) prog) \<Rightarrow> ('s, 'a) prog" where
  "catch m h = (\<lambda>s. case m s of (Inl e, s') \<Rightarrow> h e s' | (Inr x, s') \<Rightarrow> (Inr x, s'))"

definition of_res :: "'a res \<Rightarrow> ('s, 'a) prog" where
  "of_res r = (\<lambda>s. (r, s))"

definition get_state :: "('s, 's) prog" where
  "get_state = (\<lambda>s. (Inr s, s))"

definition modify :: "('s \<Rightarrow> 's) \<Rightarrow> ('s, unit) prog" where
  "modify f = (\<lambda>s. (Inr (), f s))"

text \<open>\<open>with database.session()\<close>: the block commits when it ends, and an exception rolls
  back everything it did.\<close>

definition session :: "('s, 'a) prog \<Rightarrow> ('s, 'a) prog" where
  "session m = (\<lambda>s. case m s of (Inl e, _) \<Rightarrow> (Inl e, s) | (Inr x, s') \<Rightarrow> (Inr x, s'))"

text \<open>An operation on one part of a larger state.\<close>

definition on_part :: "('s \<Rightarrow> 't) \<Rightarrow> ('t \<Rightarrow> 's \<Rightarrow> 's) \<Rightarrow> ('t, 'a) prog \<Rightarrow> ('s, 'a) prog" where
  "on_part get put m = (\<lambda>s. let (r, t) = m (get s) in (r, put t s))"

definition returns :: "'a res \<times> 's \<Rightarrow> bool" where
  "returns p \<longleftrightarrow> (case p of (Inr _, _) \<Rightarrow> True | (Inl _, _) \<Rightarrow> False)"

named_theorems prog_simps \<open>equations of the operations of programs\<close>

lemma bind_res_simps [simp]:
  "bind_res (Inl e) f = Inl e"
  "bind_res (Inr x) f = f x"
  by (simp_all add: bind_res_def)

lemma bind_res_Inr: "bind_res r f = Inr y \<longleftrightarrow> (\<exists>x. r = Inr x \<and> f x = Inr y)"
  by (cases r) auto

lemma bind_res_Inl: "bind_res r f = Inl e \<longleftrightarrow> r = Inl e \<or> (\<exists>x. r = Inr x \<and> f x = Inl e)"
  by (cases r) auto

lemma ret_app [simp, prog_simps]: "ret x s = (Inr x, s)"
  by (simp add: ret_def)

lemma raise_app [simp, prog_simps]: "raise e s = (Inl e, s)"
  by (simp add: raise_def)

lemma of_res_app [simp, prog_simps]: "of_res r s = (r, s)"
  by (simp add: of_res_def)

lemma get_state_app [simp, prog_simps]: "get_state s = (Inr s, s)"
  by (simp add: get_state_def)

lemma modify_app [simp, prog_simps]: "modify f s = (Inr (), f s)"
  by (simp add: modify_def)

lemma bind_app [prog_simps]:
  "bind m f s = (case m s of (Inl e, s') \<Rightarrow> (Inl e, s') | (Inr x, s') \<Rightarrow> f x s')"
  by (simp add: bind_def)

lemma bind_Inl [simp]: "m s = (Inl e, s') \<Longrightarrow> bind m f s = (Inl e, s')"
  by (simp add: bind_def)

lemma bind_Inr [simp]: "m s = (Inr x, s') \<Longrightarrow> bind m f s = f x s'"
  by (simp add: bind_def)

lemma catch_Inl [simp]: "m s = (Inl e, s') \<Longrightarrow> catch m h s = h e s'"
  by (simp add: catch_def)

lemma catch_Inr [simp]: "m s = (Inr x, s') \<Longrightarrow> catch m h s = (Inr x, s')"
  by (simp add: catch_def)

lemma bind_InrE:
  assumes "bind m f s = (Inr y, t)"
  obtains x s' where "m s = (Inr x, s')" and "f x s' = (Inr y, t)"
  using assms by (auto simp: bind_def split: prod.splits sum.splits)

lemma bind_cases:
  assumes "bind m f s = (r, t)"
  obtains (stopped) e where "m s = (Inl e, t)" and "r = Inl e"
  | (went_on) x u where "m s = (Inr x, u)" and "f x u = (r, t)"
  using assms by (cases "m s"; cases "fst (m s)") auto

lemma session_Inr: "session m s = (Inr x, t) \<longleftrightarrow> m s = (Inr x, t)"
  by (auto simp: session_def split: prod.splits sum.splits)

lemma session_InlD: "session m s = (Inl e, t) \<Longrightarrow> t = s \<and> (\<exists>u. m s = (Inl e, u))"
  by (auto simp: session_def split: prod.splits sum.splits)

lemma session_app [prog_simps]:
  "session m s = (case m s of (Inl e, _) \<Rightarrow> (Inl e, s) | (Inr x, s') \<Rightarrow> (Inr x, s'))"
  by (simp add: session_def)

text \<open>A relation every step keeps is kept by the whole program: the rule the invariants of
  the components are lifted with.\<close>

lemma bind_preserves:
  assumes "\<And>r t. m s = (r, t) \<Longrightarrow> P t"
    and "\<And>x t r u. m s = (Inr x, t) \<Longrightarrow> P t \<Longrightarrow> f x t = (r, u) \<Longrightarrow> P u"
    and "bind m f s = (r, u)"
  shows "P u"
  using assms by (cases "m s"; cases "fst (m s)") (auto simp: bind_def)

lemma session_preserves:
  assumes "P s" and "\<And>x t. m s = (Inr x, t) \<Longrightarrow> P t" and "session m s = (r, u)"
  shows "P u"
  using assms by (auto simp: session_def split: prod.splits sum.splits)

text \<open>A reflexive and transitive relation that every stage of a program keeps between the states
  before and after it is kept by the program.\<close>

definition keeps :: "('s \<Rightarrow> 's \<Rightarrow> bool) \<Rightarrow> ('s, 'a) prog \<Rightarrow> bool" where
  "keeps R m \<longleftrightarrow> (\<forall>s. R s (snd (m s)))"

lemma keepsI: "(\<And>s r t. m s = (r, t) \<Longrightarrow> R s t) \<Longrightarrow> keeps R m"
  by (simp add: keeps_def) (metis prod.collapse)

lemma keepsD: "keeps R m \<Longrightarrow> m s = (r, t) \<Longrightarrow> R s t"
  by (metis keeps_def snd_conv)

locale frame_relation =
  fixes R :: "'s \<Rightarrow> 's \<Rightarrow> bool"
  assumes refl: "R s s" and trans: "R s t \<Longrightarrow> R t u \<Longrightarrow> R s u"

context frame_relation begin

lemma keeps_pure [intro, simp]: "keeps R (ret x)" "keeps R (raise e)" "keeps R (of_res r)" "keeps R get_state"
  by (simp_all add: keeps_def refl)

lemma keeps_bind [intro]:
  assumes "keeps R m" and "\<And>x. keeps R (f x)"
  shows "keeps R (bind m f)"
proof (rule keepsI)
  fix s r u assume run: "bind m f s = (r, u)"
  obtain q t where q: "m s = (q, t)" by fastforce
  have st: "R s t" using assms(1) q by (rule keepsD)
  show "R s u"
  proof (cases q)
    case (Inl e)
    then show ?thesis using run q st by simp
  next
    case (Inr x)
    then have "f x t = (r, u)" using run q by simp
    with assms(2) have "R t u" by (rule keepsD)
    with st show ?thesis by (rule trans)
  qed
qed

lemma keeps_catch [intro]:
  assumes "keeps R m" and "\<And>e. keeps R (h e)"
  shows "keeps R (catch m h)"
proof (rule keepsI)
  fix s r u assume run: "catch m h s = (r, u)"
  obtain q t where q: "m s = (q, t)" by fastforce
  have st: "R s t" using assms(1) q by (rule keepsD)
  show "R s u"
  proof (cases q)
    case (Inr x)
    then show ?thesis using run q st by simp
  next
    case (Inl e)
    then have "h e t = (r, u)" using run q by simp
    with assms(2) have "R t u" by (rule keepsD)
    with st show ?thesis by (rule trans)
  qed
qed

lemma keeps_session [intro]: "keeps R m \<Longrightarrow> keeps R (session m)"
  by (rule keepsI) (auto simp: session_def refl split: prod.splits sum.splits dest: keepsD)

end

section \<open>Built-ins\<close>

text \<open>\<open>next(x for x in xs if p(x))\<close>\<close>

definition py_next :: "('a \<Rightarrow> bool) \<Rightarrow> 'a list \<Rightarrow> 'a res" where
  "py_next p xs = (case List.find p xs of Some x \<Rightarrow> Inr x | None \<Rightarrow> Inl (err StopIteration []))"

lemma py_next_InrD: "py_next p xs = Inr x \<Longrightarrow> x \<in> set xs \<and> p x"
  by (auto simp: py_next_def find_Some_iff split: option.splits)

lemma py_next_Inl: "py_next p xs = Inl e \<Longrightarrow> (\<forall>x\<in>set xs. \<not> p x) \<and> e = err StopIteration []"
  by (auto simp: py_next_def find_None_iff split: option.splits)

lemma py_next_exists: "\<exists>x\<in>set xs. p x \<Longrightarrow> \<exists>x. py_next p xs = Inr x"
  by (cases "py_next p xs") (auto dest: py_next_Inl)

text \<open>\<open>sorted(xs, key=k, reverse=True)\<close> is stable: equal keys keep their order.\<close>

definition sorted_desc :: "('a \<Rightarrow> 'k::linorder) \<Rightarrow> 'a list \<Rightarrow> 'a list" where
  "sorted_desc k xs = rev (sort_key k (rev xs))"

lemma set_sorted_desc [simp]: "set (sorted_desc k xs) = set xs"
  by (simp add: sorted_desc_def)

lemma length_sorted_desc [simp]: "length (sorted_desc k xs) = length xs"
  by (simp add: sorted_desc_def)

lemma sorted_desc_sorted: "sorted (rev (map k (sorted_desc k xs)))"
  by (simp add: sorted_desc_def rev_map [symmetric])

lemma sorted_desc_hd:
  assumes "sorted_desc k xs = y # ys" and "x \<in> set xs" shows "k x \<le> k y"
proof -
  have "sorted (rev (k y # map k ys))" using sorted_desc_sorted [of k xs] assms(1) by simp
  moreover have "x \<in> insert y (set ys)" using assms set_sorted_desc [of k xs] by simp
  ultimately show ?thesis by (auto simp: sorted_append)
qed

fun join :: "string \<Rightarrow> string list \<Rightarrow> string" where
  "join sep [] = []"
| "join sep [x] = x"
| "join sep (x # y # ys) = x @ sep @ join sep (y # ys)"

text \<open>\<open>str\<close> of an int and of a bool.\<close>

fun str_nat :: "nat \<Rightarrow> string" where
  "str_nat n =
     (if n < 10 then [char_of (48 + n)] else str_nat (n div 10) @ [char_of (48 + n mod 10)])"

declare str_nat.simps [simp del]

definition str_int :: "int \<Rightarrow> string" where
  "str_int i = (if i < 0 then ''-'' @ str_nat (nat (- i)) else str_nat (nat i))"

definition str_bool :: "bool \<Rightarrow> string" where
  "str_bool b = (if b then ''True'' else ''False'')"

definition nat_of_digits :: "string \<Rightarrow> nat" where
  "nat_of_digits ds = foldl (\<lambda>n c. 10 * n + (of_char c - 48)) 0 ds"

lemma of_char_digit: "n < 10 \<Longrightarrow> of_char (char_of (48 + n :: nat)) = (48 + n :: nat)"
  by (simp add: of_char_of take_bit_eq_mod)

lemma nat_of_digits_str_nat [simp]: "nat_of_digits (str_nat n) = n"
proof (induction n rule: str_nat.induct)
  case (1 n)
  then show ?case by (subst str_nat.simps) (auto simp: nat_of_digits_def of_char_digit)
qed

lemma str_nat_digits: "c \<in> set (str_nat n) \<Longrightarrow> 48 \<le> (of_char c :: nat) \<and> (of_char c :: nat) \<le> 57"
proof (induction n rule: str_nat.induct)
  case (1 n)
  show ?case using 1 by (subst (asm) (2) str_nat.simps) (auto simp: of_char_digit split: if_splits)
qed

lemma str_nat_inject [simp]: "str_nat m = str_nat n \<longleftrightarrow> m = n"
  by (metis nat_of_digits_str_nat)

text \<open>Digits before a separator can be read back.\<close>

lemma takeWhile_sep: "sep \<notin> set xs \<Longrightarrow> takeWhile (\<lambda>c. c \<noteq> sep) (xs @ sep # ys) = xs"
  by (induction xs) auto

lemma str_nat_sep: "of_char sep < (48::nat) \<or> 57 < (of_char sep :: nat) \<Longrightarrow> sep \<notin> set (str_nat n)"
  using str_nat_digits by fastforce

lemma str_nat_append_sep:
  assumes "of_char sep < (48::nat) \<or> 57 < (of_char sep :: nat)"
  shows "str_nat m @ sep # xs = str_nat n @ sep # ys \<longleftrightarrow> m = n \<and> xs = ys"
proof
  assume e: "str_nat m @ sep # xs = str_nat n @ sep # ys"
  then have "str_nat m = str_nat n"
    using takeWhile_sep str_nat_sep [OF assms] by metis
  with e show "m = n \<and> xs = ys" by simp
qed simp

lemma str_nat_nonempty [simp]: "str_nat n \<noteq> []"
  by (subst str_nat.simps) simp

lemma str_nat_minus: "str_nat n \<noteq> CHR ''-'' # xs"
  using str_nat_digits [of "CHR ''-''" n] by fastforce

lemma str_int_inject [simp]: "str_int i = str_int j \<longleftrightarrow> i = j"
  using str_nat_minus str_nat_minus [symmetric] by (auto simp: str_int_def)

lemma str_int_nonempty [simp]: "str_int i \<noteq> []"
  by (simp add: str_int_def)

lemma str_int_sep:
  "sep \<noteq> CHR ''-'' \<Longrightarrow> of_char sep < (48::nat) \<or> 57 < (of_char sep :: nat) \<Longrightarrow> sep \<notin> set (str_int i)"
  using str_nat_sep by (auto simp: str_int_def)

lemma str_int_append_sep:
  assumes "sep \<noteq> CHR ''-''" and "of_char sep < (48::nat) \<or> 57 < (of_char sep :: nat)"
  shows "str_int i @ sep # xs = str_int j @ sep # ys \<longleftrightarrow> i = j \<and> xs = ys"
proof
  assume e: "str_int i @ sep # xs = str_int j @ sep # ys"
  then have "str_int i = str_int j" using takeWhile_sep str_int_sep [OF assms] by metis
  with e show "i = j \<and> xs = ys" by simp
qed simp

text \<open>\<open>repr\<close> of a string: quoted by apostrophes, or by double quotes where the text holds an
  apostrophe and no double quote, with the escapes of the characters that are not printed.\<close>

definition hex_digit :: "nat \<Rightarrow> char" where
  "hex_digit n = char_of (if n < 10 then 48 + n else 87 + n)"

definition repr_char :: "char \<Rightarrow> char \<Rightarrow> string" where
  "repr_char q c = (let n = (of_char c :: nat) in
     if c = q \<or> n = 92 then [CHR 0x5C, c]
     else if n = 9 then [CHR 0x5C, CHR ''t'']
     else if n = 10 then [CHR 0x5C, CHR ''n'']
     else if n = 13 then [CHR 0x5C, CHR ''r'']
     else if n < 32 \<or> (127 \<le> n \<and> n \<le> 160) \<or> n = 173
     then [CHR 0x5C, CHR ''x'', hex_digit (n div 16), hex_digit (n mod 16)]
     else [c])"

definition repr_str :: "string \<Rightarrow> string" where
  "repr_str s =
     (let q = (if CHR 0x27 \<in> set s \<and> CHR 0x22 \<notin> set s then CHR 0x22 else CHR 0x27)
      in [q] @ concat (map (repr_char q) s) @ [q])"

text \<open>\<open>s.strip()\<close>: the characters \<open>str.isspace\<close> holds of, dropped at both ends.\<close>

definition is_space :: "char \<Rightarrow> bool" where
  "is_space c \<longleftrightarrow> (let n = (of_char c :: nat) in
     (9 \<le> n \<and> n \<le> 13) \<or> (28 \<le> n \<and> n \<le> 32) \<or> n = 133 \<or> n = 160)"

definition strip :: "string \<Rightarrow> string" where
  "strip s = rev (dropWhile is_space (rev (dropWhile is_space s)))"

definition startswith :: "string \<Rightarrow> string \<Rightarrow> bool" where
  "startswith p s \<longleftrightarrow> take (length p) s = p"

text \<open>\<open>s.lower()\<close> on ASCII letters.\<close>

definition lower_char :: "char \<Rightarrow> char" where
  "lower_char c = (if CHR ''A'' \<le> c \<and> c \<le> CHR ''Z'' then char_of (of_char c + 32 :: nat) else c)"

definition lower :: "string \<Rightarrow> string" where
  "lower s = map lower_char s"

definition len_within :: "nat \<Rightarrow> nat \<Rightarrow> string \<Rightarrow> bool" where
  "len_within lo hi s \<longleftrightarrow> lo \<le> length s \<and> length s \<le> hi"

section \<open>Datetimes\<close>

text \<open>
  Microseconds of the local clock, and the UTC offset in microseconds where the value is
  timezone-aware. Two aware values compare by the instant they name.
\<close>

record datetime =
  dt_local :: int
  dt_offset :: "int option"

definition tz_aware :: "datetime \<Rightarrow> bool" where
  "tz_aware d \<longleftrightarrow> dt_offset d \<noteq> None"

definition instant :: "datetime \<Rightarrow> int" where
  "instant d = dt_local d - (case dt_offset d of None \<Rightarrow> 0 | Some z \<Rightarrow> z)"

definition to_utc :: "datetime \<Rightarrow> datetime" where
  "to_utc d = \<lparr>dt_local = instant d, dt_offset = Some 0\<rparr>"

text \<open>\<open>now or datetime.now(UTC)\<close>, for a clock that reads \<open>wall\<close>.\<close>

definition now_or :: "datetime option \<Rightarrow> datetime \<Rightarrow> datetime" where
  "now_or now wall = (case now of None \<Rightarrow> wall | Some n \<Rightarrow> n)"

definition plus_us :: "datetime \<Rightarrow> int \<Rightarrow> datetime" where
  "plus_us d us = d\<lparr>dt_local := dt_local d + us\<rparr>"

abbreviation utc :: "int \<Rightarrow> datetime" where
  "utc us \<equiv> \<lparr>dt_local = us, dt_offset = Some 0\<rparr>"

lemma instant_to_utc [simp]: "instant (to_utc d) = instant d"
  by (simp add: to_utc_def instant_def)

lemma to_utc_aware [simp]: "tz_aware (to_utc d)"
  by (simp add: to_utc_def tz_aware_def)

lemma to_utc_idem [simp]: "to_utc (to_utc d) = to_utc d"
  by (simp add: to_utc_def instant_def)

lemma instant_plus_us [simp]: "instant (plus_us d us) = instant d + us"
  by (simp add: instant_def plus_us_def)

section \<open>Rows\<close>

text \<open>
  A table is the list of its rows in insertion order. \<open>session.get\<close> finds a row by its
  primary key, an insert with a key that is taken raises \<open>IntegrityError\<close> at the flush,
  and an update of a row's attributes is written back in place.
\<close>

definition row_get :: "('r \<Rightarrow> 'k) \<Rightarrow> 'k \<Rightarrow> 'r list \<Rightarrow> 'r option" where
  "row_get key k rows = List.find (\<lambda>r. key r = k) rows"

definition row_insert :: "('r \<Rightarrow> 'k) \<Rightarrow> 'r \<Rightarrow> 'r list \<Rightarrow> 'r list res" where
  "row_insert key r rows =
     (case row_get key (key r) rows of
        Some _ \<Rightarrow> Inl (err IntegrityError ''UNIQUE constraint failed'')
      | None \<Rightarrow> Inr (rows @ [r]))"

definition row_put :: "('r \<Rightarrow> 'k) \<Rightarrow> 'r \<Rightarrow> 'r list \<Rightarrow> 'r list" where
  "row_put key r rows = map (\<lambda>x. if key x = key r then r else x) rows"

text \<open>The first row of a query ordered by a column, descending.\<close>

definition first_desc :: "('r \<Rightarrow> 'k::linorder) \<Rightarrow> 'r list \<Rightarrow> 'r option" where
  "first_desc k rows = (case sorted_desc k rows of [] \<Rightarrow> None | r # _ \<Rightarrow> Some r)"

definition keys_distinct :: "('r \<Rightarrow> 'k) \<Rightarrow> 'r list \<Rightarrow> bool" where
  "keys_distinct key rows \<longleftrightarrow> distinct (map key rows)"

lemma row_get_SomeD: "row_get key k rows = Some r \<Longrightarrow> r \<in> set rows \<and> key r = k"
  by (auto simp: row_get_def find_Some_iff)

lemma row_get_None: "row_get key k rows = None \<longleftrightarrow> k \<notin> key ` set rows"
  by (auto simp: row_get_def find_None_iff)

lemma row_get_Nil [simp]: "row_get key k [] = None"
  by (simp add: row_get_def)

lemma row_get_append:
  "row_get key k (xs @ ys) = (case row_get key k xs of Some r \<Rightarrow> Some r | None \<Rightarrow> row_get key k ys)"
  by (induction xs) (auto simp: row_get_def)

lemma row_get_single [simp]: "row_get key k [r] = (if key r = k then Some r else None)"
  by (simp add: row_get_def)

lemma row_insert_InrD:
  "row_insert key r rows = Inr rows' \<Longrightarrow> rows' = rows @ [r] \<and> row_get key (key r) rows = None"
  by (auto simp: row_insert_def split: option.splits)

lemma row_insert_fresh: "row_get key (key r) rows = None \<Longrightarrow> row_insert key r rows = Inr (rows @ [r])"
  by (simp add: row_insert_def)

lemma row_put_keys [simp]: "map key (row_put key r rows) = map key rows"
  by (auto simp: row_put_def)

lemma row_get_put:
  "row_get key k (row_put key r rows) =
     (if k = key r \<and> row_get key k rows \<noteq> None then Some r else row_get key k rows)"
  by (induction rows) (auto simp: row_get_def row_put_def)

lemma row_put_set: "x \<in> set (row_put key r rows) \<Longrightarrow> x = r \<or> (x \<in> set rows \<and> key x \<noteq> key r)"
  by (auto simp: row_put_def split: if_splits)

lemma keys_distinct_insert:
  "row_insert key r rows = Inr rows' \<Longrightarrow> keys_distinct key rows \<Longrightarrow> keys_distinct key rows'"
  by (auto dest!: row_insert_InrD simp: row_get_None keys_distinct_def)

lemma keys_distinct_put [simp]: "keys_distinct key (row_put key r rows) = keys_distinct key rows"
  by (simp add: keys_distinct_def)

lemma row_get_in: "keys_distinct key rows \<Longrightarrow> r \<in> set rows \<Longrightarrow> row_get key (key r) rows = Some r"
  by (induction rows) (auto simp: row_get_def keys_distinct_def)

lemma keys_distinct_inj:
  "keys_distinct key rows \<Longrightarrow> a \<in> set rows \<Longrightarrow> b \<in> set rows \<Longrightarrow> key a = key b \<Longrightarrow> a = b"
  by (auto simp: keys_distinct_def distinct_map inj_on_def)

text \<open>A row written back leaves every column alone that it does not change.\<close>

lemma map_row_put:
  assumes "keys_distinct key rows" and "row_get key (key s) rows = Some r" and "f s = f r"
  shows "map f (row_put key s rows) = map f rows"
proof -
  have "f s = f x" if "x \<in> set rows" "key x = key s" for x
    using keys_distinct_inj [OF assms(1) that(1)] row_get_SomeD [OF assms(2)] that(2) assms(3) by metis
  then show ?thesis by (auto simp: row_put_def)
qed

lemma first_desc_SomeD:
  assumes "first_desc k rows = Some r" shows "r \<in> set rows \<and> (\<forall>x\<in>set rows. k x \<le> k r)"
proof -
  obtain ys where ys: "sorted_desc k rows = r # ys"
    using assms by (auto simp: first_desc_def split: list.splits)
  then have "r \<in> set rows" by (metis list.set_intros(1) set_sorted_desc)
  with ys show ?thesis by (auto dest: sorted_desc_hd)
qed

lemma first_desc_None [simp]: "first_desc k rows = None \<longleftrightarrow> rows = []"
  using length_sorted_desc [of k rows]
  by (cases "sorted_desc k rows") (auto simp: first_desc_def simp del: length_sorted_desc)

end
