(* ===== verification/Py_Numbers.thy ===== *)
theory Py_Numbers
  imports Complex_Main
begin

text \<open>
  The two number systems the code computes with, at the level of their values. A Python
  float is a rational that is a fixpoint of \<open>fl\<close> (53 significant bits), a
  \<open>decimal.Decimal\<close> is a rational whose arithmetic results are rounded by
  \<open>dctx\<close> (28 significant decimal digits, the default context). Both are one
  function, \<open>round_sig\<close>: round half to even to a number of significant digits of a
  base. What an operation returns depends on the values of its operands only, so this
  level is exact; the exponent limits of the two systems are out of reach of the code's
  values and are left out, as is the sign of zero.
\<close>

section \<open>Rounding to significant digits\<close>

function ilog :: "int \<Rightarrow> int \<Rightarrow> nat" where
  "ilog b n = (if b \<le> 1 \<or> n < b then 0 else Suc (ilog b (n div b)))"
  by pat_completeness auto
termination
  by (relation "measure (\<lambda>(b, n). nat n)") (auto simp: int_div_less_self)

declare ilog.simps [simp del]

definition expo :: "nat \<Rightarrow> rat \<Rightarrow> int" where
  "expo b x =
     (let (p, q) = quotient_of \<bar>x\<bar>;
          d = int (ilog (int b) p) - int (ilog (int b) q)
      in if rat_of_nat b powi d \<le> \<bar>x\<bar> then d else d - 1)"

definition round_half_even :: "rat \<Rightarrow> int" where
  "round_half_even x =
     (let f = \<lfloor>x\<rfloor>; d = x - of_int f
      in if d < 1/2 then f else if 1/2 < d then f + 1 else if even f then f else f + 1)"

definition round_sig :: "nat \<Rightarrow> nat \<Rightarrow> rat \<Rightarrow> rat" where
  "round_sig b n x =
     (if x = 0 then 0
      else let u = rat_of_nat b powi (expo b x + 1 - int n)
           in of_int (round_half_even (x / u)) * u)"

lemma ilog_bounds:
  assumes "2 \<le> b" and "0 < n"
  shows "b ^ ilog b n \<le> n \<and> n < b ^ Suc (ilog b n)"
  using assms
proof (induction b n rule: ilog.induct)
  case (1 b n)
  show ?case
  proof (cases "n < b")
    case True
    then show ?thesis using "1.prems" by (simp add: ilog.simps [of b n])
  next
    case False
    then have pos: "0 < n div b" using "1.prems" by (simp add: pos_imp_zdiv_pos_iff)
    have IH: "b ^ ilog b (n div b) \<le> n div b" "n div b < b ^ Suc (ilog b (n div b))"
      using "1.IH" False "1.prems" pos by auto
    have nb: "n = b * (n div b) + n mod b" "0 \<le> n mod b" "n mod b < b"
      using "1.prems" by auto
    have "b * b ^ ilog b (n div b) \<le> b * (n div b)"
      using IH(1) "1.prems" by (intro mult_left_mono) auto
    then have "b * b ^ ilog b (n div b) \<le> n" using nb by linarith
    moreover have "b * (n div b + 1) \<le> b * b ^ Suc (ilog b (n div b))"
      using IH(2) "1.prems" by (intro mult_left_mono) auto
    moreover have "b * (n div b + 1) = b * (n div b) + b" by (simp add: distrib_left)
    ultimately have "b * b ^ ilog b (n div b) \<le> n" "n < b * b ^ Suc (ilog b (n div b))"
      using nb by linarith+
    then show ?thesis
      using False "1.prems" by (simp add: ilog.simps [of b n])
  qed
qed

lemma powi_add_rat: "(B::rat) \<noteq> 0 \<Longrightarrow> B powi (i + j) = B powi i * B powi j"
  by (simp add: power_int_add)

lemma expo_bounds:
  assumes b: "2 \<le> b" and x: "x \<noteq> 0"
  shows "rat_of_nat b powi expo b x \<le> \<bar>x\<bar>" and "\<bar>x\<bar> < rat_of_nat b powi (expo b x + 1)"
proof -
  let ?B = "rat_of_nat b"
  obtain p q where pq: "quotient_of \<bar>x\<bar> = (p, q)" by fastforce
  have q: "0 < q" using quotient_of_denom_pos [OF pq] .
  have xpq: "\<bar>x\<bar> = of_int p / of_int q" using quotient_of_div [OF pq] .
  then have "0 < of_int p / (of_int q :: rat)" using x by simp
  then have p: "0 < p" using q by (simp add: zero_less_divide_iff)
  have b': "2 \<le> int b" using b by simp
  let ?lp = "ilog (int b) p" and ?lq = "ilog (int b) q"
  have "rat_of_int (int b ^ ?lp) \<le> of_int p" "rat_of_int p < of_int (int b ^ Suc ?lp)"
    using ilog_bounds [OF b' p] by (simp_all only: of_int_le_iff of_int_less_iff)
  then have P: "?B ^ ?lp \<le> of_int p" "of_int p < ?B ^ Suc ?lp" by auto
  have "rat_of_int (int b ^ ?lq) \<le> of_int q" "rat_of_int q < of_int (int b ^ Suc ?lq)"
    using ilog_bounds [OF b' q] by (simp_all only: of_int_le_iff of_int_less_iff)
  then have Q: "?B ^ ?lq \<le> of_int q" "of_int q < ?B ^ Suc ?lq" by auto
  let ?d = "int ?lp - int ?lq"
  have B0: "?B \<noteq> 0" "0 < ?B" using b by auto
  have Bd: "?B powi ?d = ?B ^ ?lp / ?B ^ ?lq" using B0 by (simp add: power_int_diff)
  have up: "\<bar>x\<bar> < ?B powi (?d + 1)"
  proof -
    have "\<bar>x\<bar> \<le> of_int p / ?B ^ ?lq"
      unfolding xpq using P Q B0 p q by (intro divide_left_mono) auto
    also have "\<dots> < ?B ^ Suc ?lp / ?B ^ ?lq" using P B0 by (simp add: divide_strict_right_mono)
    also have "\<dots> = ?B powi (?d + 1)" using B0 Bd by (simp add: powi_add_rat)
    finally show ?thesis .
  qed
  have lo: "?B powi (?d - 1) \<le> \<bar>x\<bar>"
  proof -
    have "?B powi (?d - 1) = ?B ^ ?lp / ?B ^ Suc ?lq"
      using B0 Bd by (simp add: power_int_diff)
    also have "\<dots> \<le> of_int p / ?B ^ Suc ?lq" using P B0 by (intro divide_right_mono) auto
    also have "\<dots> \<le> \<bar>x\<bar>"
      unfolding xpq using Q B0 p q by (intro divide_left_mono) auto
    finally show ?thesis .
  qed
  have e: "expo b x = (if ?B powi ?d \<le> \<bar>x\<bar> then ?d else ?d - 1)"
    by (simp add: expo_def pq)
  show "?B powi expo b x \<le> \<bar>x\<bar>" using lo by (simp add: e)
  show "\<bar>x\<bar> < ?B powi (expo b x + 1)" using up by (simp add: e)
qed

lemma round_half_even_bounds: "\<lfloor>x\<rfloor> \<le> round_half_even x" "round_half_even x \<le> \<lfloor>x\<rfloor> + 1"
  by (auto simp: round_half_even_def Let_def)

lemma round_half_even_of_int [simp]: "round_half_even (of_int k) = k"
  by (simp add: round_half_even_def)

lemma round_half_even_mono:
  assumes "x \<le> y" shows "round_half_even x \<le> round_half_even y"
proof (cases "\<lfloor>x\<rfloor> = \<lfloor>y\<rfloor>")
  case True
  then show ?thesis using assms by (auto simp: round_half_even_def Let_def)
next
  case False
  then have "\<lfloor>x\<rfloor> + 1 \<le> \<lfloor>y\<rfloor>" using floor_mono [OF assms] by simp
  then show ?thesis using round_half_even_bounds [of x] round_half_even_bounds [of y] by linarith
qed

lemma round_half_even_le_iff: "x \<le> of_int k \<Longrightarrow> round_half_even x \<le> k"
  using round_half_even_mono [of x "of_int k"] by simp

lemma round_half_even_ge_iff: "of_int k \<le> x \<Longrightarrow> k \<le> round_half_even x"
  using round_half_even_mono [of "of_int k" x] by simp

lemma round_half_even_error: "\<bar>of_int (round_half_even x) - x\<bar> \<le> 1/2"
proof -
  have "0 \<le> x - of_int \<lfloor>x\<rfloor>" "x - of_int \<lfloor>x\<rfloor> < 1" by linarith+
  then show ?thesis by (auto simp: round_half_even_def Let_def)
qed

lemma round_half_even_minus: "round_half_even (- x) = - round_half_even x"
proof (cases "x = of_int \<lfloor>x\<rfloor>")
  case True
  then obtain k where "x = of_int k" by blast
  moreover have "round_half_even (- of_int k) = - k"
    using round_half_even_of_int [of "- k"] by simp
  ultimately show ?thesis by simp
next
  case False
  then have "\<lfloor>- x\<rfloor> = - \<lfloor>x\<rfloor> - 1" by linarith
  then show ?thesis by (auto simp: round_half_even_def Let_def)
qed


lemma round_sig_0 [simp]: "round_sig b n 0 = 0"
  by (simp add: round_sig_def)

lemma expo_minus [simp]: "expo b (- x) = expo b x"
  by (simp add: expo_def)

lemma round_sig_minus: "round_sig b n (- x) = - round_sig b n x"
  by (simp add: round_sig_def Let_def round_half_even_minus)

text \<open>The numbers with at most \<open>n\<close> significant digits are the fixpoints of the rounding.\<close>

definition sig_digits :: "nat \<Rightarrow> nat \<Rightarrow> rat \<Rightarrow> bool" where
  "sig_digits b n x \<longleftrightarrow> (\<exists>k j. x = of_int k * rat_of_nat b powi j \<and> \<bar>k\<bar> \<le> int b ^ n)"

lemma sig_digitsI: "x = of_int k * rat_of_nat b powi j \<Longrightarrow> \<bar>k\<bar> \<le> int b ^ n \<Longrightarrow> sig_digits b n x"
  unfolding sig_digits_def by blast

lemma powi_mono_rat: "(1::rat) \<le> B \<Longrightarrow> i \<le> j \<Longrightarrow> B powi i \<le> B powi j"
  by (rule power_int_increasing) auto

lemma round_sig_fixed:
  assumes b: "2 \<le> b" and n: "1 \<le> n" and r: "sig_digits b n x"
  shows "round_sig b n x = x"
proof (cases "x = 0")
  case False
  let ?B = "rat_of_nat b" and ?e = "expo b x"
  obtain u where u: "u = ?B powi (?e + 1 - int n)" by simp
  have B: "?B \<noteq> 0" "1 < ?B" "0 < ?B" using b by auto
  have u0: "u \<noteq> 0" using B u by simp
  obtain k j where x: "x = of_int k * ?B powi j" and k: "\<bar>k\<bar> \<le> int b ^ n"
    using r by (auto simp: sig_digits_def)
  have lo: "?B powi ?e \<le> \<bar>x\<bar>" by (rule expo_bounds [OF b False])
  have Bn: "?B ^ n = ?B powi int n" by simp
  have kB: "of_int \<bar>k\<bar> \<le> ?B ^ n"
  proof -
    have "rat_of_int \<bar>k\<bar> \<le> rat_of_int (int b ^ n)" using k by (simp only: of_int_le_iff)
    then show ?thesis by simp
  qed
  have absx: "\<bar>x\<bar> = of_int \<bar>k\<bar> * ?B powi j" using B by (simp add: x abs_mult)
  have "\<exists>m::int. x / u = of_int m"
  proof (cases "?e + 1 - int n \<le> j")
    case True
    then obtain i where i: "j = (?e + 1 - int n) + int i" by (metis zle_iff_zadd)
    have pj: "?B powi j = u * ?B ^ i" unfolding i u using B by (subst powi_add_rat) auto
    have "x = of_int k * ?B ^ i * u" using x pj by simp
    then have "x / u = of_int k * ?B ^ i" using u0 by simp
    then have "x / u = of_int (k * int b ^ i)" by simp
    then show ?thesis by blast
  next
    case False
    have "?B powi (?e - j) \<le> of_int \<bar>k\<bar>"
      using lo B by (simp add: absx power_int_diff divide_le_eq)
    also have "\<dots> \<le> ?B powi int n" using kB by simp
    finally have ge: "?B powi (?e - j) \<le> ?B powi int n" .
    have "?e - j \<le> int n"
    proof (rule ccontr)
      assume "\<not> ?e - j \<le> int n"
      then have "?B powi int n < ?B powi (?e - j)" using B by (intro power_int_strict_increasing) auto
      then show False using ge by simp
    qed
    then have ej: "?e - j = int n" using False by simp
    have "of_int \<bar>k\<bar> = ?B ^ n"
      using kB \<open>?B powi (?e - j) \<le> of_int \<bar>k\<bar>\<close> ej by simp
    then have "rat_of_int \<bar>k\<bar> = rat_of_int (int b ^ n)" by simp
    then have kk: "\<bar>k\<bar> = int b ^ n" by (simp only: of_int_eq_iff)
    have j: "j = (?e + 1 - int n) - 1" using ej by simp
    obtain n' where n': "n = Suc n'" using n by (cases n) auto
    have "?B powi (j + 1) = ?B powi j * ?B" using B by (simp add: powi_add_rat)
    moreover have "j + 1 = ?e + 1 - int n" using j by simp
    ultimately have "?B powi j * ?B = u" unfolding u by simp
    then have "x / u = of_int k / ?B" using B u0 x by (simp add: field_simps)
    moreover have "k = sgn k * (int b ^ n' * int b)" using kk n'
      by (metis abs_mult_sgn mult.commute power_Suc)
    then have "rat_of_int k = of_int (sgn k * int b ^ n') * ?B"
      by (metis mult.assoc of_int_mult of_int_of_nat_eq)
    then have "rat_of_int k / ?B = of_int (sgn k * int b ^ n')"
      using B by (metis nonzero_mult_div_cancel_right)
    ultimately show ?thesis by metis
  qed
  then obtain m :: int where m: "x / u = of_int m" by blast
  have "x = of_int m * u" using m u0 by (simp add: field_simps)
  then show ?thesis using False m u by (simp add: round_sig_def Let_def)
qed simp

lemma round_sig_bounds:
  assumes b: "2 \<le> b" and n: "1 \<le> n" and x: "0 < x"
  shows "rat_of_nat b powi expo b x \<le> round_sig b n x"
    and "round_sig b n x \<le> rat_of_nat b powi (expo b x + 1)"
    and "\<exists>k j. round_sig b n x = of_int k * rat_of_nat b powi j \<and> 0 \<le> k \<and> k \<le> int b ^ n"
proof -
  let ?B = "rat_of_nat b" and ?e = "expo b x"
  let ?u = "?B powi (?e + 1 - int n)"
  have B: "?B \<noteq> 0" "0 < ?B" using b by auto
  have u: "0 < ?u" using B by simp
  have bd: "?B powi ?e \<le> x" "x < ?B powi (?e + 1)" using expo_bounds [OF b, of x] x by auto
  obtain n' where n': "n = Suc n'" using n by (cases n) auto
  have e1: "?B powi ?e / ?u = ?B ^ n'" using B by (simp add: n' power_int_diff powi_add_rat)
  have e2: "?B powi (?e + 1) / ?u = ?B ^ n" using B by (simp add: power_int_diff powi_add_rat)
  have r: "round_sig b n x = of_int (round_half_even (x / ?u)) * ?u"
    using x by (simp add: round_sig_def Let_def)
  have "?B ^ n' \<le> x / ?u" using bd(1) u e1 by (metis divide_right_mono less_imp_le)
  then have "of_int (int b ^ n') \<le> x / ?u" by simp
  then have lo: "int b ^ n' \<le> round_half_even (x / ?u)" by (rule round_half_even_ge_iff)
  have "x / ?u \<le> ?B ^ n" using bd(2) u e2 by (metis divide_right_mono less_imp_le)
  then have "x / ?u \<le> of_int (int b ^ n)" by simp
  then have hi: "round_half_even (x / ?u) \<le> int b ^ n" by (rule round_half_even_le_iff)
  have "rat_of_int (int b ^ n') \<le> of_int (round_half_even (x / ?u))" using lo by (simp only: of_int_le_iff)
  then have "?B ^ n' * ?u \<le> round_sig b n x" using u r by (simp add: mult_right_mono)
  moreover have "?B ^ n' * ?u = ?B powi ?e" using e1 u by (metis less_irrefl nonzero_divide_eq_eq)
  ultimately show "?B powi ?e \<le> round_sig b n x" by simp
  have "rat_of_int (round_half_even (x / ?u)) \<le> of_int (int b ^ n)" using hi by (simp only: of_int_le_iff)
  then have "round_sig b n x \<le> ?B ^ n * ?u" using u r by (simp add: mult_right_mono)
  moreover have "?B ^ n * ?u = ?B powi (?e + 1)" using e2 u by (metis less_irrefl nonzero_divide_eq_eq)
  ultimately show "round_sig b n x \<le> ?B powi (?e + 1)" by simp
  have "0 \<le> round_half_even (x / ?u)" using lo by (meson order_trans zero_le_power of_nat_0_le_iff)
  then show "\<exists>k j. round_sig b n x = of_int k * ?B powi j \<and> 0 \<le> k \<and> k \<le> int b ^ n"
    using hi r by blast
qed

lemma expo_mono:
  assumes b: "2 \<le> b" and x: "0 < x" "x \<le> y"
  shows "expo b x \<le> expo b y"
proof (rule ccontr)
  let ?B = "rat_of_nat b"
  assume "\<not> expo b x \<le> expo b y"
  then have "?B powi (expo b y + 1) \<le> ?B powi expo b x" using b by (intro powi_mono_rat) auto
  then show False using expo_bounds [OF b, of x] expo_bounds [OF b, of y] x by auto
qed

lemma round_sig_pos_mono:
  assumes b: "2 \<le> b" and n: "1 \<le> n" and x: "0 < x" "x \<le> y"
  shows "round_sig b n x \<le> round_sig b n y"
proof (cases "expo b x = expo b y")
  case True
  let ?u = "rat_of_nat b powi (expo b y + 1 - int n)"
  have u: "0 < ?u" using b by simp
  have "round_half_even (x / ?u) \<le> round_half_even (y / ?u)"
    using x u by (intro round_half_even_mono) (simp add: divide_right_mono)
  then show ?thesis using True x u by (simp add: round_sig_def Let_def mult_right_mono)
next
  case False
  then have "expo b x + 1 \<le> expo b y" using expo_mono [OF b x] by simp
  then have "rat_of_nat b powi (expo b x + 1) \<le> rat_of_nat b powi expo b y"
    using b by (intro powi_mono_rat) auto
  moreover have "round_sig b n x \<le> rat_of_nat b powi (expo b x + 1)"
    "rat_of_nat b powi expo b y \<le> round_sig b n y"
    using round_sig_bounds [OF b n, of x] round_sig_bounds [OF b n, of y] x by auto
  ultimately show ?thesis by linarith
qed

lemma round_sig_nonneg:
  assumes "2 \<le> b" "1 \<le> n" "0 \<le> x" shows "0 \<le> round_sig b n x"
proof (cases "x = 0")
  case False
  then have "rat_of_nat b powi expo b x \<le> round_sig b n x"
    using round_sig_bounds [OF assms(1,2), of x] assms(3) by simp
  moreover have "0 \<le> rat_of_nat b powi expo b x" by simp
  ultimately show ?thesis by linarith
qed simp

lemma round_sig_mono:
  assumes b: "2 \<le> b" and n: "1 \<le> n" and xy: "x \<le> y"
  shows "round_sig b n x \<le> round_sig b n y"
proof -
  consider "0 < x" | "x \<le> 0" "0 \<le> y" | "y < 0" by linarith
  then show ?thesis
  proof cases
    case 1
    then show ?thesis using round_sig_pos_mono [OF b n _ xy] by simp
  next
    case 2
    then have "0 \<le> round_sig b n (- x)" "0 \<le> round_sig b n y"
      using round_sig_nonneg [OF b n] by simp_all
    then show ?thesis by (simp add: round_sig_minus)
  next
    case 3
    then have "round_sig b n (- y) \<le> round_sig b n (- x)"
      using round_sig_pos_mono [OF b n, of "- y" "- x"] xy by simp
    then show ?thesis by (simp add: round_sig_minus)
  qed
qed

lemma round_sig_is_sig_digits:
  assumes "2 \<le> b" "1 \<le> n" shows "sig_digits b n (round_sig b n x)"
proof -
  have pos: "sig_digits b n (round_sig b n z)" if "0 < z" for z
    using round_sig_bounds(3) [OF assms that] by (fastforce simp: sig_digits_def)
  have neg: "sig_digits b n (- z) \<Longrightarrow> sig_digits b n z" for z
    unfolding sig_digits_def by (metis abs_minus_cancel add.inverse_inverse mult_minus_left of_int_minus)
  consider "x = 0" | "0 < x" | "x < 0" by linarith
  then show ?thesis
  proof cases
    case 1
    then show ?thesis by (auto simp: sig_digits_def intro: exI [of _ 0])
  next
    case 3
    then show ?thesis using pos [of "- x"] by (auto simp: round_sig_minus intro: neg)
  qed (rule pos)
qed


text \<open>What every computation on floats or decimals relies on: the rounding is monotone and
  leaves the numbers of the system alone.\<close>

locale rounding =
  fixes rnd :: "rat \<Rightarrow> rat" and rep :: "rat \<Rightarrow> bool"
  assumes rnd_mono: "x \<le> y \<Longrightarrow> rnd x \<le> rnd y"
    and rnd_rep: "rep (rnd x)"
    and rep_fixed: "rep x \<Longrightarrow> rnd x = x"
    and rep_0: "rep 0"
    and rep_1: "rep 1"
begin

lemma rnd_idem: "rnd (rnd x) = rnd x"
  by (rule rep_fixed [OF rnd_rep])

lemma rnd_0: "rnd 0 = 0"
  by (rule rep_fixed [OF rep_0])

lemma rnd_1: "rnd 1 = 1"
  by (rule rep_fixed [OF rep_1])

lemma rnd_le_rep: "rep c \<Longrightarrow> x \<le> c \<Longrightarrow> rnd x \<le> c"
  using rnd_mono [of x c] rep_fixed [of c] by simp

lemma rnd_ge_rep: "rep c \<Longrightarrow> c \<le> x \<Longrightarrow> c \<le> rnd x"
  using rnd_mono [of c x] rep_fixed [of c] by simp

lemma rnd_nonneg: "0 \<le> x \<Longrightarrow> 0 \<le> rnd x"
  by (rule rnd_ge_rep [OF rep_0])

lemma rnd_nonpos: "x \<le> 0 \<Longrightarrow> rnd x \<le> 0"
  by (rule rnd_le_rep [OF rep_0])

lemma rnd_le_1: "x \<le> 1 \<Longrightarrow> rnd x \<le> 1"
  by (rule rnd_le_rep [OF rep_1])

lemma rnd_diff_nonneg: "y \<le> x \<Longrightarrow> 0 \<le> rnd (x - y)"
  by (rule rnd_nonneg) simp

lemma rnd_one_minus: "0 \<le> x \<Longrightarrow> x \<le> 1 \<Longrightarrow> 0 \<le> rnd (1 - x) \<and> rnd (1 - x) \<le> 1"
  using rnd_nonneg [of "1 - x"] rnd_le_1 [of "1 - x"] by simp

end

section \<open>Python floats\<close>

definition fl :: "rat \<Rightarrow> rat" where
  "fl x = round_sig 2 53 x"

definition is_float :: "rat \<Rightarrow> bool" where
  "is_float x \<longleftrightarrow> fl x = x"

definition fadd :: "rat \<Rightarrow> rat \<Rightarrow> rat" where "fadd x y = fl (x + y)"
definition fsub :: "rat \<Rightarrow> rat \<Rightarrow> rat" where "fsub x y = fl (x - y)"
definition fmul :: "rat \<Rightarrow> rat \<Rightarrow> rat" where "fmul x y = fl (x * y)"
definition fdiv :: "rat \<Rightarrow> rat \<Rightarrow> rat" where "fdiv x y = fl (x / y)"

text \<open>\<open>round(x, n)\<close> rounds the exact value of the float to \<open>n\<close> decimals, ties to even, and
  returns the float nearest to the result.\<close>

definition py_round :: "nat \<Rightarrow> rat \<Rightarrow> rat" where
  "py_round n x = fl (of_int (round_half_even (x * 10 ^ n)) / 10 ^ n)"

lemma round_sig_idem: "2 \<le> b \<Longrightarrow> 1 \<le> n \<Longrightarrow> round_sig b n (round_sig b n x) = round_sig b n x"
  by (rule round_sig_fixed) (auto intro: round_sig_is_sig_digits)

lemma round_sig_1: "2 \<le> b \<Longrightarrow> 1 \<le> n \<Longrightarrow> round_sig b n 1 = 1"
  by (rule round_sig_fixed) (auto intro!: sig_digitsI [of _ 1 _ 0])

lemma fl_is_float [simp]: "is_float (fl x)"
  by (simp add: is_float_def fl_def round_sig_idem)

lemma is_float_0 [simp]: "is_float 0"
  by (simp add: is_float_def fl_def)

lemma is_float_1 [simp]: "is_float 1"
  by (simp add: is_float_def fl_def round_sig_1)

interpretation float: rounding fl is_float
  by unfold_locales (auto simp: is_float_def fl_def round_sig_idem round_sig_1 intro: round_sig_mono)

lemma py_round_mono: "x \<le> y \<Longrightarrow> py_round n x \<le> py_round n y"
  unfolding py_round_def
  by (intro float.rnd_mono divide_right_mono)
    (auto intro: round_half_even_mono mult_right_mono)

lemma py_round_is_float [simp]: "is_float (py_round n x)"
  by (simp add: py_round_def)

lemma py_round_0 [simp]: "py_round n 0 = 0"
  using round_half_even_of_int [of 0] by (simp add: py_round_def float.rnd_0)

lemma py_round_1 [simp]: "py_round n 1 = 1"
  using round_half_even_of_int [of "10 ^ n"] by (simp add: py_round_def float.rnd_1)

lemma py_round_unit: "0 \<le> x \<Longrightarrow> x \<le> 1 \<Longrightarrow> 0 \<le> py_round n x \<and> py_round n x \<le> 1"
  using py_round_mono [of 0 x n] py_round_mono [of x 1 n] by simp

section \<open>Decimals\<close>

definition dctx :: "rat \<Rightarrow> rat" where
  "dctx x = round_sig 10 28 x"

definition is_decimal28 :: "rat \<Rightarrow> bool" where
  "is_decimal28 x \<longleftrightarrow> dctx x = x"

definition dadd :: "rat \<Rightarrow> rat \<Rightarrow> rat" where "dadd x y = dctx (x + y)"
definition dsub :: "rat \<Rightarrow> rat \<Rightarrow> rat" where "dsub x y = dctx (x - y)"
definition dmul :: "rat \<Rightarrow> rat \<Rightarrow> rat" where "dmul x y = dctx (x * y)"
definition ddiv :: "rat \<Rightarrow> rat \<Rightarrow> rat" where "ddiv x y = dctx (x / y)"

lemma dctx_decimal28 [simp]: "is_decimal28 (dctx x)"
  by (simp add: is_decimal28_def dctx_def round_sig_idem)

interpretation dec: rounding dctx is_decimal28
  by unfold_locales (auto simp: is_decimal28_def dctx_def round_sig_idem round_sig_1 intro: round_sig_mono)

lemma decimal28I: "x = of_int k / 10 ^ m \<Longrightarrow> \<bar>k\<bar> \<le> 10 ^ 28 \<Longrightarrow> is_decimal28 x"
  unfolding is_decimal28_def dctx_def
  by (rule round_sig_fixed) (auto intro!: sig_digitsI [of _ k _ "- int m"] simp: power_int_minus divide_inverse)

text \<open>
  \<open>x.quantize(Decimal(1).scaleb(-n), rounding)\<close> rounds the exact value to \<open>n\<close> decimals and
  raises \<open>InvalidOperation\<close> (here \<open>None\<close>) when the result needs more digits than the
  context has. The code uses two rounding modes.
\<close>

definition round_half_up :: "rat \<Rightarrow> int" where
  "round_half_up x = (if x < 0 then - \<lfloor>- x + 1/2\<rfloor> else \<lfloor>x + 1/2\<rfloor>)"

definition round_up :: "rat \<Rightarrow> int" where
  "round_up x = (if x < 0 then \<lfloor>x\<rfloor> else \<lceil>x\<rceil>)"

definition quantize :: "(rat \<Rightarrow> int) \<Rightarrow> nat \<Rightarrow> rat \<Rightarrow> rat option" where
  "quantize mode n x =
     (let k = mode (x * 10 ^ n)
      in if \<bar>k\<bar> < 10 ^ 28 then Some (of_int k / 10 ^ n) else None)"

lemma round_half_up_nonneg: "0 \<le> x \<Longrightarrow> 0 \<le> round_half_up x"
  by (simp add: round_half_up_def zero_le_floor)

lemma round_half_up_nonpos: "x \<le> 0 \<Longrightarrow> round_half_up x \<le> 0"
  by (auto simp: round_half_up_def zero_le_floor intro: floor_unique)

lemma round_half_up_mono:
  assumes "x \<le> y" shows "round_half_up x \<le> round_half_up y"
proof -
  have m: "\<lfloor>x + 1/2\<rfloor> \<le> \<lfloor>y + 1/2\<rfloor>" "\<lfloor>- y + 1/2\<rfloor> \<le> \<lfloor>- x + 1/2\<rfloor>"
    using assms by (auto intro: floor_mono)
  consider "x < 0" "y < 0" | "0 \<le> x" "0 \<le> y" | "x < 0" "0 \<le> y" using assms by linarith
  then show ?thesis
  proof cases
    case 3
    then show ?thesis using round_half_up_nonneg [of y] round_half_up_nonpos [of x] by simp
  qed (use m in \<open>simp_all add: round_half_up_def\<close>)
qed

lemma round_half_up_of_int [simp]: "round_half_up (of_int k) = k"
proof -
  have h: "\<lfloor>of_int i + 1/2 :: rat\<rfloor> = i" for i by (rule floor_unique) auto
  show ?thesis using h [of k] h [of "- k"] by (simp add: round_half_up_def)
qed

lemma round_half_up_error: "\<bar>of_int (round_half_up x) - x\<bar> \<le> 1/2"
proof -
  have "of_int \<lfloor>z + 1/2\<rfloor> \<le> z + 1/2" "z + 1/2 < of_int \<lfloor>z + 1/2\<rfloor> + (1::rat)" for z :: rat
    by linarith+
  note h = this [of x] this [of "- x"]
  show ?thesis
  proof (cases "x < 0")
    case True
    then have "round_half_up x = - \<lfloor>- x + 1/2\<rfloor>" by (simp add: round_half_up_def)
    then show ?thesis using h(3,4) by linarith
  next
    case False
    then have "round_half_up x = \<lfloor>x + 1/2\<rfloor>" by (simp add: round_half_up_def)
    then show ?thesis using h(1,2) by linarith
  qed
qed

lemma round_up_ge: "0 \<le> x \<Longrightarrow> x \<le> of_int (round_up x)"
  by (simp add: round_up_def)

lemma round_up_mono_nonneg: "0 \<le> x \<Longrightarrow> x \<le> y \<Longrightarrow> round_up x \<le> round_up y"
  by (auto simp: round_up_def intro: ceiling_mono)

lemma quantize_SomeD:
  "quantize mode n x = Some y \<Longrightarrow> y = of_int (mode (x * 10 ^ n)) / 10 ^ n \<and> \<bar>mode (x * 10 ^ n)\<bar> < 10 ^ 28"
  by (auto simp: quantize_def Let_def split: if_splits)


section \<open>From a float to a decimal\<close>

text \<open>
  \<open>Decimal(str(x))\<close>: \<open>str\<close> prints the shortest decimal that reads back as the same float,
  and among those the closest one. With \<open>n\<close> digits the candidates are the two \<open>n\<close>-digit
  numbers around \<open>x\<close>, the nearer one first; seventeen digits are always enough, and the
  last line is never used on a float.
\<close>

definition decimal_candidates :: "rat \<Rightarrow> nat \<Rightarrow> rat list" where
  "decimal_candidates x n =
     (let u = 10 powi (expo 10 x + 1 - int n)
      in [of_int (round_half_even (x / u)) * u, of_int \<lfloor>x / u\<rfloor> * u, of_int \<lceil>x / u\<rceil> * u])"

fun shortest_decimal :: "nat list \<Rightarrow> rat \<Rightarrow> rat" where
  "shortest_decimal [] x = x"
| "shortest_decimal (n # ns) x =
     (case filter (\<lambda>c. fl c = x) (decimal_candidates x n) of
        c # _ \<Rightarrow> c
      | [] \<Rightarrow> shortest_decimal ns x)"

definition decimal_of_float :: "rat \<Rightarrow> rat" where
  "decimal_of_float x = (if x = 0 then 0 else shortest_decimal [1..<18] x)"

lemma shortest_decimal_reads_back: "is_float x \<Longrightarrow> fl (shortest_decimal ns x) = x"
proof (induction ns)
  case Nil
  then show ?case by (simp add: is_float_def)
next
  case (Cons n ns)
  let ?cs = "filter (\<lambda>c. fl c = x) (decimal_candidates x n)"
  show ?case
  proof (cases ?cs)
    case Nil
    then show ?thesis using Cons by simp
  next
    case (Cons c cs)
    have "c \<in> set ?cs" unfolding Cons by simp
    then have "fl c = x" by (simp only: set_filter mem_Collect_eq)
    with Cons show ?thesis by simp
  qed
qed

lemma decimal_of_float_reads_back: "is_float x \<Longrightarrow> fl (decimal_of_float x) = x"
  by (simp add: decimal_of_float_def shortest_decimal_reads_back float.rnd_0)

lemma decimal_of_float_0 [simp]: "decimal_of_float 0 = 0"
  by (simp add: decimal_of_float_def)

lemma decimal_of_float_1 [simp]: "decimal_of_float 1 = 1"
  by code_simp

lemma decimal_of_float_unit:
  assumes "is_float x" "0 \<le> x" "x \<le> 1"
  shows "0 \<le> decimal_of_float x \<and> decimal_of_float x \<le> 1"
proof (cases "x = 0 \<or> x = 1")
  case False
  then have x: "0 < x" "x < 1" using assms by auto
  have "fl (decimal_of_float x) = x" using assms(1) by (rule decimal_of_float_reads_back)
  then show ?thesis
    using x float.rnd_nonpos [of "decimal_of_float x"] float.rnd_mono [of 1 "decimal_of_float x"]
    by (metis float.rnd_1 linorder_le_cases linorder_not_less)
qed auto

lemma decimal_of_float_mono:
  assumes "is_float x" "is_float y" "x < y"
  shows "decimal_of_float x < decimal_of_float y"
proof (rule ccontr)
  assume "\<not> ?thesis"
  then have "fl (decimal_of_float y) \<le> fl (decimal_of_float x)" by (intro float.rnd_mono) simp
  then show False using assms by (simp add: decimal_of_float_reads_back)
qed

end
