(* ===== verification/Domain_Models.thy ===== *)
theory Domain_Models
  imports Py_Runtime Py_Numbers
begin

text \<open>
  The typed contracts of \<^verbatim>\<open>src/src/promiseguard/models.py\<close>: the enumerations with their
  string values, the pydantic models as records, and for each model with constraints the
  boolean predicate that its validators check. A record is built unchecked where the code
  uses \<open>model_copy\<close>, and through the predicate where it calls the constructor.
\<close>

section \<open>Enumerations\<close>

datatype operating_mode = OBSERVE | SHADOW | RECOMMENDATION | APPROVAL | BOUNDED_AUTONOMY

fun operating_mode_value :: "operating_mode \<Rightarrow> string" where
  "operating_mode_value OBSERVE = ''OBSERVE''"
| "operating_mode_value SHADOW = ''SHADOW''"
| "operating_mode_value RECOMMENDATION = ''RECOMMENDATION''"
| "operating_mode_value APPROVAL = ''APPROVAL''"
| "operating_mode_value BOUNDED_AUTONOMY = ''BOUNDED_AUTONOMY''"

datatype recovery_action = TAKE_NO_ACTION | REROUTE | CARRIER_UPGRADE | SPLIT_SHIPMENT | HUMAN_ESCALATION

fun recovery_action_value :: "recovery_action \<Rightarrow> string" where
  "recovery_action_value TAKE_NO_ACTION = ''TAKE_NO_ACTION''"
| "recovery_action_value REROUTE = ''REROUTE''"
| "recovery_action_value CARRIER_UPGRADE = ''CARRIER_UPGRADE''"
| "recovery_action_value SPLIT_SHIPMENT = ''SPLIT_SHIPMENT''"
| "recovery_action_value HUMAN_ESCALATION = ''HUMAN_ESCALATION''"

datatype policy_disposition =
  AUTO_EXECUTE | REQUEST_APPROVAL | ESCALATE | BLOCK | PD_TAKE_NO_ACTION

fun policy_disposition_value :: "policy_disposition \<Rightarrow> string" where
  "policy_disposition_value AUTO_EXECUTE = ''AUTO_EXECUTE''"
| "policy_disposition_value REQUEST_APPROVAL = ''REQUEST_APPROVAL''"
| "policy_disposition_value ESCALATE = ''ESCALATE''"
| "policy_disposition_value BLOCK = ''BLOCK''"
| "policy_disposition_value PD_TAKE_NO_ACTION = ''TAKE_NO_ACTION''"

datatype decision_status =
  OBSERVED | SHADOW_RECORDED | RECOMMENDED | AWAITING_APPROVAL | READY_FOR_EXECUTION
  | EXECUTION_NOT_IMPLEMENTED

datatype approval_status = AP_PENDING | AP_APPROVED | AP_REJECTED | AP_EXPIRED

datatype action_status =
  AC_PENDING | AC_EXECUTING | AC_SUCCEEDED | AC_VERIFIED | AC_COMPENSATED | AC_FAILED
  | AC_MANUAL_RECOVERY_REQUIRED

fun action_status_value :: "action_status \<Rightarrow> string" where
  "action_status_value AC_PENDING = ''PENDING''"
| "action_status_value AC_EXECUTING = ''EXECUTING''"
| "action_status_value AC_SUCCEEDED = ''SUCCEEDED''"
| "action_status_value AC_VERIFIED = ''VERIFIED''"
| "action_status_value AC_COMPENSATED = ''COMPENSATED''"
| "action_status_value AC_FAILED = ''FAILED''"
| "action_status_value AC_MANUAL_RECOVERY_REQUIRED = ''MANUAL_RECOVERY_REQUIRED''"

datatype step_status = ST_SUCCEEDED | ST_FAILED | ST_COMPENSATED | ST_SKIPPED

datatype verification_status = VS_VERIFIED | VS_FAILED | VS_MANUAL_REVIEW_REQUIRED

datatype user_role = OPERATIONS_ANALYST | OPERATIONS_MANAGER | AUDITOR | SERVICE_IDENTITY

fun user_role_value :: "user_role \<Rightarrow> string" where
  "user_role_value OPERATIONS_ANALYST = ''OPERATIONS_ANALYST''"
| "user_role_value OPERATIONS_MANAGER = ''OPERATIONS_MANAGER''"
| "user_role_value AUDITOR = ''AUDITOR''"
| "user_role_value SERVICE_IDENTITY = ''SERVICE_IDENTITY''"

datatype autonomy_level =
  AL_OBSERVE | AL_RECOMMEND | AL_APPROVAL_REQUIRED | AL_BOUNDED_AUTONOMY | AL_SUSPENDED

lemma recovery_action_value_inject [simp]:
  "recovery_action_value a = recovery_action_value b \<longleftrightarrow> a = b"
  by (cases a; cases b) auto

lemma operating_mode_value_inject [simp]:
  "operating_mode_value a = operating_mode_value b \<longleftrightarrow> a = b"
  by (cases a; cases b) auto

section \<open>Field constraints\<close>

definition is_probability :: "rat \<Rightarrow> bool" where
  "is_probability p \<longleftrightarrow> 0 \<le> p \<and> p \<le> 1"

definition non_negative_money :: "rat \<Rightarrow> bool" where
  "non_negative_money m \<longleftrightarrow> 0 \<le> m"

definition positive_quantity :: "int \<Rightarrow> bool" where
  "positive_quantity q \<longleftrightarrow> 1 \<le> q \<and> q \<le> 10000"

definition is_digit :: "char \<Rightarrow> bool" where
  "is_digit c \<longleftrightarrow> CHR ''0'' \<le> c \<and> c \<le> CHR ''9''"

definition is_upper :: "char \<Rightarrow> bool" where
  "is_upper c \<longleftrightarrow> CHR ''A'' \<le> c \<and> c \<le> CHR ''Z''"

text \<open>The patterns \<open>^v\d+$\<close> and \<open>^[A-Z]{3}$\<close>.\<close>

fun schema_version_pattern :: "string \<Rightarrow> bool" where
  "schema_version_pattern [] = False"
| "schema_version_pattern (c # ds) = (c = CHR ''v'' \<and> ds \<noteq> [] \<and> list_all is_digit ds)"

definition currency_pattern :: "string \<Rightarrow> bool" where
  "currency_pattern s \<longleftrightarrow> length s = 3 \<and> list_all is_upper s"

section \<open>Source references, events and orders\<close>

record source_reference =
  sr_system :: string
  sr_record_id :: string
  sr_observed_at :: datetime

definition valid_source_reference :: "source_reference \<Rightarrow> bool" where
  "valid_source_reference r \<longleftrightarrow>
     len_within 1 80 (sr_system r) \<and> len_within 1 120 (sr_record_id r) \<and>
     tz_aware (sr_observed_at r)"

record operational_event =
  ev_source_system :: string
  ev_event_id :: string
  ev_event_version :: int
  ev_event_type :: string
  ev_event_time :: datetime
  ev_ingestion_time :: datetime
  ev_schema_version :: string
  ev_deduplication_key :: string

definition valid_operational_event :: "operational_event \<Rightarrow> bool" where
  "valid_operational_event e \<longleftrightarrow>
     len_within 1 80 (ev_source_system e) \<and> len_within 1 120 (ev_event_id e) \<and>
     1 \<le> ev_event_version e \<and> len_within 1 100 (ev_event_type e) \<and>
     tz_aware (ev_event_time e) \<and> tz_aware (ev_ingestion_time e) \<and>
     schema_version_pattern (ev_schema_version e) \<and> len_within 1 180 (ev_deduplication_key e)"

record order_context =
  oc_order_id :: string
  oc_evaluation_time :: datetime
  oc_promised_delivery_at :: datetime
  oc_gross_margin :: rat
  oc_cancellation_cost :: rat
  oc_support_cost :: rat
  oc_inventory_reserved :: bool
  oc_inventory_available :: bool
  oc_inventory_confidence :: rat
  oc_carrier_on_time_probability :: rat
  oc_hours_since_expected_scan :: rat
  oc_alternative_location_available :: bool
  oc_reroute_on_time_probability :: rat
  oc_carrier_upgrade_on_time_probability :: rat
  oc_reroute_cost :: rat
  oc_carrier_upgrade_cost :: rat
  oc_data_freshness_minutes :: int
  oc_source_references :: "source_reference list"
  oc_external_notes :: "string option"
  oc_customer_id :: string
  oc_customer_segment :: string
  oc_currency :: string
  oc_sku :: string
  oc_quantity :: int
  oc_current_fulfilment_location :: string
  oc_alternative_location_id :: "string option"
  oc_current_carrier_service :: string
  oc_upgraded_carrier_service :: string
  oc_split_shipment_possible :: bool
  oc_split_shipment_on_time_probability :: rat
  oc_split_shipment_cost :: rat
  oc_restricted_product :: bool
  oc_tenant_id :: string

text \<open>A float field holds a float: \<open>is_float\<close> is part of the type, not a check.\<close>

definition unit_float :: "rat \<Rightarrow> bool" where
  "unit_float p \<longleftrightarrow> is_float p \<and> is_probability p"

definition valid_order_context :: "order_context \<Rightarrow> bool" where
  "valid_order_context c \<longleftrightarrow>
     len_within 1 120 (oc_order_id c) \<and>
     tz_aware (oc_evaluation_time c) \<and> tz_aware (oc_promised_delivery_at c) \<and>
     non_negative_money (oc_gross_margin c) \<and> non_negative_money (oc_cancellation_cost c) \<and>
     non_negative_money (oc_support_cost c) \<and>
     unit_float (oc_inventory_confidence c) \<and> unit_float (oc_carrier_on_time_probability c) \<and>
     is_float (oc_hours_since_expected_scan c) \<and>
     0 \<le> oc_hours_since_expected_scan c \<and> oc_hours_since_expected_scan c \<le> 240 \<and>
     unit_float (oc_reroute_on_time_probability c) \<and>
     unit_float (oc_carrier_upgrade_on_time_probability c) \<and>
     non_negative_money (oc_reroute_cost c) \<and> non_negative_money (oc_carrier_upgrade_cost c) \<and>
     0 \<le> oc_data_freshness_minutes c \<and> oc_data_freshness_minutes c \<le> 10080 \<and>
     oc_source_references c \<noteq> [] \<and> list_all valid_source_reference (oc_source_references c) \<and>
     (case oc_external_notes c of None \<Rightarrow> True | Some n \<Rightarrow> len_within 0 2000 n) \<and>
     len_within 1 120 (oc_customer_id c) \<and> len_within 1 40 (oc_customer_segment c) \<and>
     currency_pattern (oc_currency c) \<and> len_within 1 120 (oc_sku c) \<and>
     positive_quantity (oc_quantity c) \<and>
     len_within 1 80 (oc_current_fulfilment_location c) \<and>
     (case oc_alternative_location_id c of None \<Rightarrow> True | Some l \<Rightarrow> len_within 0 80 l) \<and>
     len_within 1 80 (oc_current_carrier_service c) \<and>
     len_within 1 80 (oc_upgraded_carrier_service c) \<and>
     unit_float (oc_split_shipment_on_time_probability c) \<and>
     non_negative_money (oc_split_shipment_cost c) \<and> len_within 1 80 (oc_tenant_id c) \<and>
     instant (oc_evaluation_time c) < instant (oc_promised_delivery_at c) \<and>
     oc_alternative_location_id c \<noteq> Some (oc_current_fulfilment_location c) \<and>
     (oc_split_shipment_possible c \<longrightarrow> 0 < oc_split_shipment_on_time_probability c)"

record evaluation_request =
  er_event :: operational_event
  er_order :: order_context
  er_mode :: operating_mode

definition valid_evaluation_request :: "evaluation_request \<Rightarrow> bool" where
  "valid_evaluation_request r \<longleftrightarrow>
     valid_operational_event (er_event r) \<and> valid_order_context (er_order r) \<and>
     instant (ev_ingestion_time (er_event r)) \<le> instant (oc_evaluation_time (er_order r))"

section \<open>Risk, options and recommendations\<close>

record risk_factor =
  rf_code :: string
  rf_contribution :: rat
  rf_explanation :: string

record risk_assessment =
  ra_failure_probability :: rat
  ra_confidence :: rat
  ra_model_version :: string
  ra_feature_timestamp :: datetime
  ra_factors :: "risk_factor list"
  ra_data_quality_warnings :: "string list"
  ra_evidence_references :: "source_reference list"

definition valid_risk_assessment :: "risk_assessment \<Rightarrow> bool" where
  "valid_risk_assessment r \<longleftrightarrow> unit_float (ra_failure_probability r) \<and> unit_float (ra_confidence r)"

record recovery_option =
  ro_action :: recovery_action
  ro_feasible :: bool
  ro_on_time_probability :: rat
  ro_expected_retained_gross_margin :: rat
  ro_intervention_cost :: rat
  ro_expected_failure_cost :: rat
  ro_expected_net_value :: rat
  ro_reversible :: bool
  ro_confidence :: rat
  ro_constraints :: "string list"
  ro_evidence_references :: "source_reference list"

definition valid_recovery_option :: "recovery_option \<Rightarrow> bool" where
  "valid_recovery_option r \<longleftrightarrow>
     is_probability (ro_on_time_probability r) \<and> non_negative_money (ro_intervention_cost r) \<and>
     non_negative_money (ro_expected_failure_cost r) \<and> is_probability (ro_confidence r)"

record decision_recommendation =
  dr_selected_action :: recovery_action
  dr_ranked_options :: "recovery_option list"
  dr_expected_incremental_value_vs_no_action :: rat
  dr_rejected_options :: "string list"
  dr_confidence :: rat

record policy_evaluation =
  pe_disposition :: policy_disposition
  pe_policy_version :: string
  pe_control_version :: string
  pe_execution_allowed :: bool
  pe_reasons :: "string list"

record decision_trace =
  dt_trace_version :: string
  dt_decision_id :: string
  dt_event_id :: string
  dt_order_id :: string
  dt_mode :: operating_mode
  dt_risk :: risk_assessment
  dt_recommendation :: decision_recommendation
  dt_policy :: policy_evaluation
  dt_status :: decision_status
  dt_created_at :: datetime
  dt_tenant_id :: string

section \<open>Approvals, commands, executions and outcomes\<close>

record approval_record =
  ar_approval_id :: string
  ar_decision_id :: string
  ar_requested_action :: recovery_action
  ar_status :: approval_status
  ar_requested_by :: string
  ar_requested_at :: datetime
  ar_expires_at :: datetime
  ar_decided_by :: "string option"
  ar_decided_by_role :: "user_role option"
  ar_decision_reason :: "string option"
  ar_decided_at :: "datetime option"

record approval_decision_input =
  ad_actor_id :: string
  ad_actor_role :: user_role
  ad_reason :: string

text \<open>The values of the \<open>dict[str, Any]\<close> fields the code fills.\<close>

datatype py_value = PyStr string | PyInt int | PyBool bool | PyFloat rat | PyNone

record action_command =
  cmd_decision_id :: string
  cmd_order_id :: string
  cmd_action :: recovery_action
  cmd_idempotency_key :: string
  cmd_requested_by :: string
  cmd_approved_by :: "string option"
  cmd_expected_intervention_cost :: rat
  cmd_parameters :: "(string \<times> py_value) list"

definition valid_action_command :: "action_command \<Rightarrow> bool" where
  "valid_action_command c \<longleftrightarrow>
     len_within 8 180 (cmd_idempotency_key c) \<and>
     non_negative_money (cmd_expected_intervention_cost c)"

record action_step_result =
  sp_sequence :: int
  sp_step_name :: string
  sp_status :: step_status
  sp_attempted_at :: datetime
  sp_completed_at :: "datetime option"
  sp_provider_reference :: "string option"
  sp_details :: "(string \<times> py_value) list"
  sp_error_code :: "string option"

record action_execution =
  ae_action_id :: string
  ae_command :: action_command
  ae_status :: action_status
  ae_steps :: "action_step_result list"
  ae_started_at :: datetime
  ae_completed_at :: "datetime option"
  ae_error_code :: "string option"
  ae_manual_recovery_reason :: "string option"

record delivery_observation =
  do_order_id :: string
  do_delivered_on_time :: bool
  do_observed_at :: datetime
  do_source_reference :: source_reference

definition valid_delivery_observation :: "delivery_observation \<Rightarrow> bool" where
  "valid_delivery_observation d \<longleftrightarrow>
     len_within 1 120 (do_order_id d) \<and> tz_aware (do_observed_at d) \<and>
     valid_source_reference (do_source_reference d)"

record outcome_verification =
  ov_outcome_id :: string
  ov_decision_id :: string
  ov_action_id :: string
  ov_status :: verification_status
  ov_verified_at :: datetime
  ov_on_time_delivery_observed :: "bool option"
  ov_actual_intervention_cost :: rat
  ov_realised_gross_margin :: rat
  ov_estimated_incremental_value :: rat
  ov_evidence_references :: "source_reference list"
  ov_details :: "(string \<times> py_value) list"

record workflow_state =
  ws_decision :: decision_trace
  ws_approval :: "approval_record option"
  ws_execution :: "action_execution option"
  ws_outcome :: "outcome_verification option"

section \<open>Feedback and controls\<close>

record operator_feedback_input =
  fi_actor_id :: string
  fi_actor_role :: user_role
  fi_useful :: bool
  fi_expected_outcome_matched :: "bool option"
  fi_comment :: string

record operator_feedback =
  fb_feedback_id :: string
  fb_decision_id :: string
  fb_actor_id :: string
  fb_actor_role :: user_role
  fb_useful :: bool
  fb_expected_outcome_matched :: "bool option"
  fb_comment :: string
  fb_created_at :: datetime

record kill_switch_state =
  ks_active :: bool
  ks_reason :: string
  ks_updated_by :: string
  ks_updated_at :: datetime
  ks_version :: int

record kill_switch_update_input =
  ku_active :: bool
  ku_actor_id :: string
  ku_actor_role :: user_role
  ku_reason :: string

record autonomy_profile =
  pf_action :: recovery_action
  pf_level :: autonomy_level
  pf_verified_successes :: int
  pf_consecutive_verified_successes :: int
  pf_compensation_count :: int
  pf_failure_count :: int
  pf_recommended_for_promotion :: bool
  pf_reason :: string
  pf_last_evidence_at :: "datetime option"
  pf_updated_by :: string
  pf_updated_at :: datetime
  pf_version :: int

record autonomy_update_input =
  au_level :: autonomy_level
  au_actor_id :: string
  au_actor_role :: user_role
  au_reason :: string

section \<open>Consequences of validity\<close>

lemma unit_floatD: "unit_float p \<Longrightarrow> is_float p \<and> 0 \<le> p \<and> p \<le> 1"
  by (simp add: unit_float_def is_probability_def)

lemma unit_floatI: "is_float p \<Longrightarrow> 0 \<le> p \<Longrightarrow> p \<le> 1 \<Longrightarrow> unit_float p"
  by (simp add: unit_float_def is_probability_def)

lemma unit_float_min: "unit_float p \<Longrightarrow> unit_float q \<Longrightarrow> unit_float (min p q)"
  by (simp add: min_def)

lemma unit_float_round: "0 \<le> x \<Longrightarrow> x \<le> 1 \<Longrightarrow> unit_float (py_round n x)"
  using py_round_unit [of x n] by (simp add: unit_floatI)

lemma unit_float_0 [simp]: "unit_float 0"
  by (simp add: unit_float_def is_probability_def)

lemma valid_order_floats:
  assumes "valid_order_context c"
  shows "unit_float (oc_inventory_confidence c)" "unit_float (oc_carrier_on_time_probability c)"
    "unit_float (oc_reroute_on_time_probability c)"
    "unit_float (oc_carrier_upgrade_on_time_probability c)"
    "unit_float (oc_split_shipment_on_time_probability c)"
    "0 \<le> oc_hours_since_expected_scan c" "oc_hours_since_expected_scan c \<le> 240"
  using assms unfolding valid_order_context_def by blast+

lemma valid_order_money:
  assumes "valid_order_context c"
  shows "0 \<le> oc_gross_margin c" "0 \<le> oc_cancellation_cost c" "0 \<le> oc_support_cost c"
    "0 \<le> oc_reroute_cost c" "0 \<le> oc_carrier_upgrade_cost c" "0 \<le> oc_split_shipment_cost c"
  using assms unfolding valid_order_context_def non_negative_money_def by blast+

lemma valid_order_refs: "valid_order_context c \<Longrightarrow> oc_source_references c \<noteq> []"
  unfolding valid_order_context_def by blast

section \<open>A sample request\<close>

text \<open>A concrete order, late and short of stock, that the witnesses of the theorems evaluate.\<close>

definition sample_reference :: source_reference where
  "sample_reference = \<lparr>sr_system = ''WMS'', sr_record_id = ''INV-1'', sr_observed_at = utc 0\<rparr>"

definition sample_order :: order_context where
  "sample_order =
     \<lparr>oc_order_id = ''ORD-1'', oc_evaluation_time = utc 0,
      oc_promised_delivery_at = utc (12 * 3600 * 1000000),
      oc_gross_margin = 120, oc_cancellation_cost = 40, oc_support_cost = 10,
      oc_inventory_reserved = True, oc_inventory_available = False,
      oc_inventory_confidence = fl (7/8), oc_carrier_on_time_probability = fl (3/4),
      oc_hours_since_expected_scan = 6, oc_alternative_location_available = True,
      oc_reroute_on_time_probability = fl (15/16),
      oc_carrier_upgrade_on_time_probability = fl (7/8),
      oc_reroute_cost = 8, oc_carrier_upgrade_cost = 12, oc_data_freshness_minutes = 5,
      oc_source_references = [sample_reference], oc_external_notes = None,
      oc_customer_id = ''CUS-1'', oc_customer_segment = ''STANDARD'', oc_currency = ''AUD'',
      oc_sku = ''SKU-1'', oc_quantity = 2, oc_current_fulfilment_location = ''SYD-1'',
      oc_alternative_location_id = Some ''MEL-1'', oc_current_carrier_service = ''STANDARD'',
      oc_upgraded_carrier_service = ''EXPRESS'', oc_split_shipment_possible = False,
      oc_split_shipment_on_time_probability = 0, oc_split_shipment_cost = 0,
      oc_restricted_product = False, oc_tenant_id = ''tenant-1''\<rparr>"

definition sample_event :: operational_event where
  "sample_event =
     \<lparr>ev_source_system = ''OMS'', ev_event_id = ''EVT-1'', ev_event_version = 1,
      ev_event_type = ''SCAN_MISSED'', ev_event_time = utc 0, ev_ingestion_time = utc 0,
      ev_schema_version = ''v1'', ev_deduplication_key = ''EVT-1:1''\<rparr>"

definition sample_request :: "operating_mode \<Rightarrow> evaluation_request" where
  "sample_request mode = \<lparr>er_event = sample_event, er_order = sample_order, er_mode = mode\<rparr>"

lemma sample_order_valid: "valid_order_context sample_order"
  by code_simp

lemma sample_request_valid: "valid_evaluation_request (sample_request mode)"
  by (simp add: valid_evaluation_request_def sample_request_def sample_order_valid) code_simp

end
