(* ===== verification/Agent_Models.thy ===== *)
theory Agent_Models
  imports Domain_Models
begin

text \<open>
  The contracts of the OpenAI review layer, \<^verbatim>\<open>src/src/promiseguard/openai_models.py\<close>.
\<close>

datatype agent_rationale_code =
    HIGHEST_EXPECTED_VALUE | REVERSIBLE_ACTION | WITHIN_POLICY | APPROVAL_REQUIRED
  | BOUNDED_AUTONOMY_ALLOWED | NO_POSITIVE_VALUE | DATA_QUALITY_WARNING | LOW_CONFIDENCE
  | ARC_HUMAN_ESCALATION | POLICY_BLOCKED | KILL_SWITCH_ACTIVE

fun agent_rationale_code_value :: "agent_rationale_code \<Rightarrow> string" where
  "agent_rationale_code_value HIGHEST_EXPECTED_VALUE = ''HIGHEST_EXPECTED_VALUE''"
| "agent_rationale_code_value REVERSIBLE_ACTION = ''REVERSIBLE_ACTION''"
| "agent_rationale_code_value WITHIN_POLICY = ''WITHIN_POLICY''"
| "agent_rationale_code_value APPROVAL_REQUIRED = ''APPROVAL_REQUIRED''"
| "agent_rationale_code_value BOUNDED_AUTONOMY_ALLOWED = ''BOUNDED_AUTONOMY_ALLOWED''"
| "agent_rationale_code_value NO_POSITIVE_VALUE = ''NO_POSITIVE_VALUE''"
| "agent_rationale_code_value DATA_QUALITY_WARNING = ''DATA_QUALITY_WARNING''"
| "agent_rationale_code_value LOW_CONFIDENCE = ''LOW_CONFIDENCE''"
| "agent_rationale_code_value ARC_HUMAN_ESCALATION = ''HUMAN_ESCALATION''"
| "agent_rationale_code_value POLICY_BLOCKED = ''POLICY_BLOCKED''"
| "agent_rationale_code_value KILL_SWITCH_ACTIVE = ''KILL_SWITCH_ACTIVE''"

datatype agent_next_step = SUBMIT_DECISION | WAIT_FOR_HUMAN | NS_ESCALATE | NO_ACTION

fun agent_next_step_value :: "agent_next_step \<Rightarrow> string" where
  "agent_next_step_value SUBMIT_DECISION = ''SUBMIT_DECISION''"
| "agent_next_step_value WAIT_FOR_HUMAN = ''WAIT_FOR_HUMAN''"
| "agent_next_step_value NS_ESCALATE = ''ESCALATE''"
| "agent_next_step_value NO_ACTION = ''NO_ACTION''"

datatype agent_run_status = RUN_RESERVED | RUN_COMPLETED | RUN_REJECTED | RUN_FAILED | RUN_BUDGET_BLOCKED

record agent_decision_review =
  rv_decision_id :: string
  rv_selected_action :: recovery_action
  rv_policy_disposition :: policy_disposition
  rv_next_step :: agent_next_step
  rv_rationale_codes :: "agent_rationale_code list"
  rv_evidence_ids :: "string list"
  rv_requires_human_attention :: bool
  rv_uncertainty :: rat
  rv_summary :: string

text \<open>The digits and currency signs a summary must not hold (the euro sign is not a
  character of the model's strings).\<close>

definition forbidden_summary_char :: "char \<Rightarrow> bool" where
  "forbidden_summary_char c \<longleftrightarrow>
     is_digit c \<or> c = CHR ''$'' \<or> c = CHR 0xA3 \<or> c = CHR 0xA5"

definition valid_agent_review :: "agent_decision_review \<Rightarrow> bool" where
  "valid_agent_review r \<longleftrightarrow>
     len_within 1 64 (rv_decision_id r) \<and>
     1 \<le> length (rv_rationale_codes r) \<and> length (rv_rationale_codes r) \<le> 6 \<and>
     1 \<le> length (rv_evidence_ids r) \<and> length (rv_evidence_ids r) \<le> 20 \<and>
     unit_float (rv_uncertainty r) \<and> len_within 8 420 (rv_summary r) \<and>
     \<not> list_ex forbidden_summary_char (rv_summary r) \<and>
     distinct (rv_evidence_ids r) \<and> distinct (rv_rationale_codes r)"

text \<open>The constructor: it validates and stores the stripped summary.\<close>

definition new_agent_review :: "agent_decision_review \<Rightarrow> agent_decision_review res" where
  "new_agent_review r =
     (if valid_agent_review r then Inr (r\<lparr>rv_summary := strip (rv_summary r)\<rparr>)
      else Inl (err ValidationError ''AgentDecisionReview''))"

record agent_run_request =
  rq_decision_id :: string
  rq_actor_id :: string
  rq_advance_workflow :: bool

record agent_token_usage =
  tu_input_tokens :: int
  tu_cached_input_tokens :: int
  tu_output_tokens :: int
  tu_total_tokens :: int

definition valid_agent_token_usage :: "agent_token_usage \<Rightarrow> bool" where
  "valid_agent_token_usage u \<longleftrightarrow>
     0 \<le> tu_input_tokens u \<and> 0 \<le> tu_cached_input_tokens u \<and> 0 \<le> tu_output_tokens u \<and>
     0 \<le> tu_total_tokens u \<and>
     tu_input_tokens u + tu_output_tokens u \<le> tu_total_tokens u \<and>
     tu_cached_input_tokens u \<le> tu_input_tokens u"

definition new_agent_token_usage :: "agent_token_usage \<Rightarrow> agent_token_usage res" where
  "new_agent_token_usage u =
     (if valid_agent_token_usage u then Inr u else Inl (err ValidationError ''AgentTokenUsage''))"

record agent_budget_state =
  bs_budget_key :: string
  bs_limit_usd :: rat
  bs_reserved_usd :: rat
  bs_spent_usd :: rat
  bs_remaining_usd :: rat
  bs_updated_at :: datetime
  bs_version :: int

record agent_run_record =
  rr_run_id :: string
  rr_request_key :: string
  rr_decision_id :: string
  rr_model :: string
  rr_prompt_version :: string
  rr_status :: agent_run_status
  rr_context_fingerprint :: string
  rr_reserved_cost_usd :: rat
  rr_actual_cost_usd :: rat
  rr_usage :: "agent_token_usage option"
  rr_response_id :: "string option"
  rr_review :: "agent_decision_review option"
  rr_created_at :: datetime
  rr_completed_at :: "datetime option"
  rr_error_code :: "string option"
  rr_validation_errors :: "string list"

record agent_run_result =
  rs_run :: agent_run_record
  rs_budget :: agent_budget_state
  rs_workflow :: "workflow_state option"
  rs_reused_existing_run :: bool

end
