(* ===== verification/Store.thy ===== *)
theory Store
  imports Agent_Models
begin

text \<open>
  The relational schema of \<^verbatim>\<open>src/src/promiseguard/db_models.py\<close> and the repositories of
  \<^verbatim>\<open>persistence.py\<close>. A JSON column holds the model it was dumped from. Every operation is
  a program on the database and runs inside a session of its caller. The library functions
  the code relies on are the fields of \<open>lib\<close>: the dialect of the database, the hex digest of
  SHA-256 and the canonical JSON text of each fingerprinted model; nothing is assumed of them here.
  What a column of an event holds is checked as the database does: an integer column has 32 bits
  in PostgreSQL and 64 in SQLite, and the length of a text is enforced by PostgreSQL alone.
\<close>

section \<open>Library functions\<close>

text \<open>The databases that the engine of \<^verbatim>\<open>database.py\<close> is configured for.\<close>

datatype sql_dialect = PostgreSQL | SQLite

record lib =
  db_dialect :: sql_dialect
  sha256_hex :: "string \<Rightarrow> string"
  json_request :: "evaluation_request \<Rightarrow> string"
  json_trace :: "decision_trace \<Rightarrow> string"
  json_approval :: "approval_record \<Rightarrow> string"
  json_command :: "action_command \<Rightarrow> string"
  json_outcome :: "outcome_verification \<Rightarrow> string"

definition canonical_fingerprint :: "lib \<Rightarrow> string \<Rightarrow> string" where
  "canonical_fingerprint L canonical = sha256_hex L canonical"

text \<open>\<open>f"{prefix}{sha256(material).hexdigest()[:n]}"\<close>\<close>

definition digest_id :: "lib \<Rightarrow> string \<Rightarrow> nat \<Rightarrow> string \<Rightarrow> string" where
  "digest_id L prefix n material = prefix @ take n (sha256_hex L material)"

text \<open>A concrete instance, for the witnesses: the digest is the text itself.\<close>

definition sample_lib :: lib where
  "sample_lib = \<lparr>db_dialect = PostgreSQL, sha256_hex = (\<lambda>s. s), json_request = (\<lambda>q. ev_event_id (er_event q)),
     json_trace = dt_decision_id, json_approval = ar_approval_id, json_command = cmd_idempotency_key,
     json_outcome = ov_outcome_id\<rparr>"

section \<open>Rows\<close>

record operational_event_row =
  evr_source_system :: string
  evr_event_id :: string
  evr_event_version :: int
  evr_event_type :: string
  evr_event_time :: datetime
  evr_ingestion_time :: datetime
  evr_schema_version :: string
  evr_deduplication_key :: string
  evr_payload :: evaluation_request
  evr_fingerprint :: string
  evr_created_at :: datetime

record decision_row =
  dcr_decision_id :: string
  dcr_event_id :: string
  dcr_order_id :: string
  dcr_tenant_id :: string
  dcr_trace :: decision_trace
  dcr_fingerprint :: string
  dcr_created_at :: datetime

record approval_row =
  apr_approval_id :: string
  apr_decision_id :: string
  apr_requested_action :: recovery_action
  apr_status :: approval_status
  apr_requested_by :: string
  apr_requested_at :: datetime
  apr_expires_at :: datetime
  apr_decided_by :: "string option"
  apr_decided_by_role :: "user_role option"
  apr_decision_reason :: "string option"
  apr_decided_at :: "datetime option"

record action_row =
  acr_action_id :: string
  acr_decision_id :: string
  acr_order_id :: string
  acr_action :: recovery_action
  acr_idempotency_key :: string
  acr_status :: action_status
  acr_command :: action_command
  acr_steps :: "action_step_result list"
  acr_fingerprint :: string
  acr_started_at :: datetime
  acr_completed_at :: "datetime option"
  acr_error_code :: "string option"
  acr_manual_recovery_reason :: "string option"

record outcome_row =
  ocr_outcome :: outcome_verification
  ocr_fingerprint :: string

record runtime_control_row =
  rcr_control_key :: string
  rcr_enabled :: bool
  rcr_reason :: string
  rcr_updated_by :: string
  rcr_updated_at :: datetime
  rcr_version :: int

record autonomy_profile_row =
  pfr_action :: recovery_action
  pfr_level :: autonomy_level
  pfr_verified_successes :: int
  pfr_consecutive_verified_successes :: int
  pfr_compensation_count :: int
  pfr_failure_count :: int
  pfr_reason :: string
  pfr_last_evidence_at :: "datetime option"
  pfr_updated_by :: string
  pfr_updated_at :: datetime
  pfr_version :: int

record autonomy_evidence_row =
  aer_evidence_id :: string
  aer_action :: recovery_action
  aer_evidence_kind :: string
  aer_successful :: bool
  aer_compensated :: bool
  aer_created_at :: datetime

record openai_budget_row =
  obr_budget_key :: string
  obr_limit_usd :: rat
  obr_reserved_usd :: rat
  obr_spent_usd :: rat
  obr_updated_at :: datetime
  obr_version :: int

record openai_run_row =
  orr_run_id :: string
  orr_request_key :: string
  orr_decision_id :: string
  orr_model :: string
  orr_prompt_version :: string
  orr_status :: agent_run_status
  orr_context_fingerprint :: string
  orr_reserved_cost_usd :: rat
  orr_actual_cost_usd :: rat
  orr_usage :: "agent_token_usage option"
  orr_response_id :: "string option"
  orr_review :: "agent_decision_review option"
  orr_created_at :: datetime
  orr_completed_at :: "datetime option"
  orr_reservation_expires_at :: datetime
  orr_error_code :: "string option"
  orr_validation_errors :: "string list"

record operator_feedback_row =
  ofr_feedback :: operator_feedback

record database =
  tb_events :: "operational_event_row list"
  tb_decisions :: "decision_row list"
  tb_approvals :: "approval_row list"
  tb_actions :: "action_row list"
  tb_outcomes :: "outcome_row list"
  tb_controls :: "runtime_control_row list"
  tb_profiles :: "autonomy_profile_row list"
  tb_evidence :: "autonomy_evidence_row list"
  tb_budgets :: "openai_budget_row list"
  tb_runs :: "openai_run_row list"
  tb_feedback :: "operator_feedback_row list"

definition empty_database :: database where
  "empty_database =
     \<lparr>tb_events = [], tb_decisions = [], tb_approvals = [], tb_actions = [], tb_outcomes = [],
      tb_controls = [], tb_profiles = [], tb_evidence = [], tb_budgets = [], tb_runs = [],
      tb_feedback = []\<rparr>"

section \<open>The event inbox\<close>

definition same_event :: "operational_event \<Rightarrow> operational_event_row \<Rightarrow> bool" where
  "same_event e r \<longleftrightarrow>
     evr_source_system r = ev_source_system e \<and> evr_event_id r = ev_event_id e \<and>
     evr_event_version r = ev_event_version e"

text \<open>What binding an integer to an \<open>Integer\<close> column raises, in a condition and in a row alike, and
  whether the texts of an event fit the \<open>String\<close> columns of its row.\<close>

definition integer_error :: "sql_dialect \<Rightarrow> int \<Rightarrow> exn option" where
  "integer_error d n =
     (case d of
        PostgreSQL \<Rightarrow>
          if - (2 ^ 31) \<le> n \<and> n < 2 ^ 31 then None else Some (err DataError ''integer out of range'')
      | SQLite \<Rightarrow>
          if - (2 ^ 63) \<le> n \<and> n < 2 ^ 63 then None
          else Some (err OverflowError ''Python int too large to convert to SQLite INTEGER''))"

definition column_holds :: "sql_dialect \<Rightarrow> nat \<Rightarrow> string \<Rightarrow> bool" where
  "column_holds d n x \<longleftrightarrow> d = PostgreSQL \<longrightarrow> length x \<le> n"

definition event_texts_fit :: "sql_dialect \<Rightarrow> operational_event \<Rightarrow> bool" where
  "event_texts_fit d e \<longleftrightarrow>
     column_holds d 80 (ev_source_system e) \<and> column_holds d 120 (ev_event_id e) \<and>
     column_holds d 100 (ev_event_type e) \<and> column_holds d 20 (ev_schema_version e) \<and>
     column_holds d 180 (ev_deduplication_key e)"

definition event_storable :: "sql_dialect \<Rightarrow> operational_event \<Rightarrow> bool" where
  "event_storable d e \<longleftrightarrow> integer_error d (ev_event_version e) = None \<and> event_texts_fit d e"

definition event_ingest ::
  "lib \<Rightarrow> operational_event \<Rightarrow> evaluation_request \<Rightarrow> datetime \<Rightarrow> (database, operational_event_row) prog"
where
  "event_ingest L event payload now = (\<lambda>db.
     let fingerprint = canonical_fingerprint L (json_request L payload)
     in case integer_error (db_dialect L) (ev_event_version event) of
       Some e \<Rightarrow> (Inl e, db)
     | None \<Rightarrow>
       (case List.find (same_event event) (tb_events db) of
          Some existing \<Rightarrow>
            if evr_fingerprint existing \<noteq> fingerprint
            then (Inl (err PersistenceConflictError ''event identity was replayed with conflicting payload''), db)
            else (Inr existing, db)
        | None \<Rightarrow>
            let row = \<lparr>evr_source_system = ev_source_system event, evr_event_id = ev_event_id event,
                       evr_event_version = ev_event_version event, evr_event_type = ev_event_type event,
                       evr_event_time = ev_event_time event, evr_ingestion_time = ev_ingestion_time event,
                       evr_schema_version = ev_schema_version event,
                       evr_deduplication_key = ev_deduplication_key event,
                       evr_payload = payload, evr_fingerprint = fingerprint, evr_created_at = now\<rparr>
            in if event_texts_fit (db_dialect L) event
               then (Inr row, db\<lparr>tb_events := tb_events db @ [row]\<rparr>)
               else (Inl (err DataError ''value too long for type character varying''), db)))"

text \<open>A valid event is stored if its version fits the integer column and its schema version the text
  column; the validators bound the other texts.\<close>

lemma valid_event_storable:
  "valid_operational_event e \<Longrightarrow>
     event_storable d e \<longleftrightarrow>
       integer_error d (ev_event_version e) = None \<and> column_holds d 20 (ev_schema_version e)"
  by (auto simp: event_storable_def event_texts_fit_def column_holds_def valid_operational_event_def len_within_def)

definition get_request_payload :: "string \<Rightarrow> database \<Rightarrow> evaluation_request option" where
  "get_request_payload event_id db =
     map_option evr_payload
       (first_desc evr_event_version (filter (\<lambda>r. evr_event_id r = event_id) (tb_events db)))"

section \<open>Decisions\<close>

definition decision_record :: "lib \<Rightarrow> decision_trace \<Rightarrow> (database, decision_trace) prog" where
  "decision_record L t = (\<lambda>db.
     let fingerprint = canonical_fingerprint L (json_trace L t)
     in case row_get dcr_decision_id (dt_decision_id t) (tb_decisions db) of
       Some existing \<Rightarrow>
         if dcr_fingerprint existing \<noteq> fingerprint
         then (Inl (err PersistenceConflictError ''decision replay conflicts with the immutable ledger record''), db)
         else (Inr (dcr_trace existing), db)
     | None \<Rightarrow>
         let row = \<lparr>dcr_decision_id = dt_decision_id t, dcr_event_id = dt_event_id t,
                    dcr_order_id = dt_order_id t, dcr_tenant_id = dt_tenant_id t,
                    dcr_trace = t, dcr_fingerprint = fingerprint, dcr_created_at = dt_created_at t\<rparr>
         in (Inr t, db\<lparr>tb_decisions := tb_decisions db @ [row]\<rparr>))"

definition decision_get :: "string \<Rightarrow> database \<Rightarrow> decision_trace option" where
  "decision_get decision_id db =
     map_option dcr_trace (row_get dcr_decision_id decision_id (tb_decisions db))"

definition decision_count :: "database \<Rightarrow> nat" where
  "decision_count db = length (map dcr_decision_id (tb_decisions db))"

definition decision_list_recent :: "nat \<Rightarrow> string option \<Rightarrow> database \<Rightarrow> decision_trace list" where
  "decision_list_recent limit tenant_id db =
     map dcr_trace (take limit (sorted_desc (\<lambda>r. instant (dcr_created_at r))
       (case tenant_id of None \<Rightarrow> tb_decisions db
        | Some t \<Rightarrow> filter (\<lambda>r. dcr_tenant_id r = t) (tb_decisions db))))"

section \<open>Approvals\<close>

definition approval_to_model :: "approval_row \<Rightarrow> approval_record" where
  "approval_to_model r =
     \<lparr>ar_approval_id = apr_approval_id r, ar_decision_id = apr_decision_id r,
      ar_requested_action = apr_requested_action r, ar_status = apr_status r,
      ar_requested_by = apr_requested_by r, ar_requested_at = to_utc (apr_requested_at r),
      ar_expires_at = to_utc (apr_expires_at r), ar_decided_by = apr_decided_by r,
      ar_decided_by_role = apr_decided_by_role r, ar_decision_reason = apr_decision_reason r,
      ar_decided_at = map_option to_utc (apr_decided_at r)\<rparr>"

definition approval_get :: "string \<Rightarrow> database \<Rightarrow> approval_record option" where
  "approval_get approval_id db =
     map_option approval_to_model (row_get apr_approval_id approval_id (tb_approvals db))"

definition approval_create :: "lib \<Rightarrow> approval_record \<Rightarrow> (database, approval_record) prog" where
  "approval_create L rec = (\<lambda>db.
     case row_get apr_approval_id (ar_approval_id rec) (tb_approvals db) of
       Some existing \<Rightarrow>
         let persisted = approval_to_model existing
         in if canonical_fingerprint L (json_approval L persisted)
                 \<noteq> canonical_fingerprint L (json_approval L rec)
            then (Inl (err PersistenceConflictError ''approval identity conflicts with existing record''), db)
            else (Inr persisted, db)
     | None \<Rightarrow>
         let row = \<lparr>apr_approval_id = ar_approval_id rec, apr_decision_id = ar_decision_id rec,
                    apr_requested_action = ar_requested_action rec, apr_status = ar_status rec,
                    apr_requested_by = ar_requested_by rec, apr_requested_at = ar_requested_at rec,
                    apr_expires_at = ar_expires_at rec, apr_decided_by = ar_decided_by rec,
                    apr_decided_by_role = ar_decided_by_role rec,
                    apr_decision_reason = ar_decision_reason rec, apr_decided_at = ar_decided_at rec\<rparr>
         in (Inr rec, db\<lparr>tb_approvals := tb_approvals db @ [row]\<rparr>))"

definition approval_get_by_decision :: "string \<Rightarrow> database \<Rightarrow> approval_record option" where
  "approval_get_by_decision decision_id db =
     map_option approval_to_model
       (first_desc (\<lambda>r. instant (apr_requested_at r))
         (filter (\<lambda>r. apr_decision_id r = decision_id) (tb_approvals db)))"

definition approval_values :: "approval_record \<Rightarrow> approval_row \<Rightarrow> approval_row" where
  "approval_values rec r =
     r\<lparr>apr_status := ar_status rec, apr_decided_by := ar_decided_by rec,
       apr_decided_by_role := ar_decided_by_role rec,
       apr_decision_reason := ar_decision_reason rec, apr_decided_at := ar_decided_at rec\<rparr>"

definition approval_update :: "approval_record \<Rightarrow> (database, approval_record) prog" where
  "approval_update rec = (\<lambda>db.
     case row_get apr_approval_id (ar_approval_id rec) (tb_approvals db) of
       None \<Rightarrow> (Inl (err RecordNotFoundError (''approval '' @ repr_str (ar_approval_id rec) @ '' not found'')), db)
     | Some r \<Rightarrow> (Inr rec, db\<lparr>tb_approvals :=
           row_put apr_approval_id (approval_values rec r) (tb_approvals db)\<rparr>))"

text \<open>The compare-and-set: one \<open>UPDATE\<close> that matches the pending row only.\<close>

definition approval_update_if_pending :: "approval_record \<Rightarrow> (database, approval_record) prog" where
  "approval_update_if_pending rec = (\<lambda>db.
     let matches = (\<lambda>r. apr_approval_id r = ar_approval_id rec \<and> apr_status r = AP_PENDING)
     in if length (filter matches (tb_approvals db)) \<noteq> 1
        then case row_get apr_approval_id (ar_approval_id rec) (tb_approvals db) of
            None \<Rightarrow> (Inl (err RecordNotFoundError (''approval '' @ repr_str (ar_approval_id rec) @ '' not found'')), db)
          | Some _ \<Rightarrow> (Inl (err PersistenceConflictError ''approval is no longer pending''), db)
        else (Inr rec, db\<lparr>tb_approvals :=
               map (\<lambda>r. if matches r then approval_values rec r else r) (tb_approvals db)\<rparr>))"

definition approval_list_pending :: "database \<Rightarrow> approval_record list" where
  "approval_list_pending db =
     map approval_to_model (sort_key (\<lambda>r. instant (apr_requested_at r))
       (filter (\<lambda>r. apr_status r = AP_PENDING) (tb_approvals db)))"

section \<open>Actions\<close>

definition action_to_model :: "action_row \<Rightarrow> action_execution" where
  "action_to_model r =
     \<lparr>ae_action_id = acr_action_id r, ae_command = acr_command r, ae_status = acr_status r,
      ae_steps = acr_steps r, ae_started_at = to_utc (acr_started_at r),
      ae_completed_at = map_option to_utc (acr_completed_at r), ae_error_code = acr_error_code r,
      ae_manual_recovery_reason = acr_manual_recovery_reason r\<rparr>"

definition action_record :: "lib \<Rightarrow> action_execution \<Rightarrow> (database, action_execution) prog" where
  "action_record L x = (\<lambda>db.
     let fingerprint = canonical_fingerprint L (json_command L (ae_command x))
     in case List.find (\<lambda>r. acr_idempotency_key r = cmd_idempotency_key (ae_command x)) (tb_actions db) of
       Some existing \<Rightarrow>
         if acr_fingerprint existing \<noteq> fingerprint
         then (Inl (err PersistenceConflictError ''idempotency key was reused for a different action command''), db)
         else (Inr (action_to_model existing), db)
     | None \<Rightarrow>
         (case row_insert acr_action_id
            \<lparr>acr_action_id = ae_action_id x, acr_decision_id = cmd_decision_id (ae_command x),
             acr_order_id = cmd_order_id (ae_command x), acr_action = cmd_action (ae_command x),
             acr_idempotency_key = cmd_idempotency_key (ae_command x), acr_status = ae_status x,
             acr_command = ae_command x, acr_steps = ae_steps x, acr_fingerprint = fingerprint,
             acr_started_at = ae_started_at x, acr_completed_at = ae_completed_at x,
             acr_error_code = ae_error_code x,
             acr_manual_recovery_reason = ae_manual_recovery_reason x\<rparr> (tb_actions db) of
            Inl e \<Rightarrow> (Inl e, db)
          | Inr rows \<Rightarrow> (Inr x, db\<lparr>tb_actions := rows\<rparr>)))"

definition action_values :: "action_execution \<Rightarrow> action_row \<Rightarrow> action_row" where
  "action_values x r =
     r\<lparr>acr_status := ae_status x, acr_steps := ae_steps x, acr_completed_at := ae_completed_at x,
       acr_error_code := ae_error_code x,
       acr_manual_recovery_reason := ae_manual_recovery_reason x\<rparr>"

definition action_update :: "action_execution \<Rightarrow> (database, action_execution) prog" where
  "action_update x = (\<lambda>db.
     case row_get acr_action_id (ae_action_id x) (tb_actions db) of
       None \<Rightarrow> (Inl (err RecordNotFoundError (''action '' @ repr_str (ae_action_id x) @ '' not found'')), db)
     | Some r \<Rightarrow> (Inr x, db\<lparr>tb_actions := row_put acr_action_id (action_values x r) (tb_actions db)\<rparr>))"

definition action_get :: "string \<Rightarrow> database \<Rightarrow> action_execution option" where
  "action_get action_id db = map_option action_to_model (row_get acr_action_id action_id (tb_actions db))"

definition action_get_by_decision :: "string \<Rightarrow> database \<Rightarrow> action_execution option" where
  "action_get_by_decision decision_id db =
     map_option action_to_model
       (first_desc (\<lambda>r. instant (acr_started_at r))
         (filter (\<lambda>r. acr_decision_id r = decision_id) (tb_actions db)))"

section \<open>Outcomes\<close>

definition outcome_to_model :: "outcome_row \<Rightarrow> outcome_verification" where
  "outcome_to_model r =
     (ocr_outcome r)\<lparr>ov_verified_at := to_utc (ov_verified_at (ocr_outcome r))\<rparr>"

definition outcome_record :: "lib \<Rightarrow> outcome_verification \<Rightarrow> (database, outcome_verification) prog" where
  "outcome_record L outcome = (\<lambda>db.
     let fingerprint = canonical_fingerprint L (json_outcome L outcome)
     in case List.find (\<lambda>r. ov_decision_id (ocr_outcome r) = ov_decision_id outcome) (tb_outcomes db) of
       Some existing \<Rightarrow>
         if ocr_fingerprint existing \<noteq> fingerprint
         then (Inl (err PersistenceConflictError ''decision already has a conflicting verified outcome''), db)
         else (Inr (outcome_to_model existing), db)
     | None \<Rightarrow>
         (case row_insert (\<lambda>r. ov_outcome_id (ocr_outcome r))
             \<lparr>ocr_outcome = outcome, ocr_fingerprint = fingerprint\<rparr> (tb_outcomes db) of
            Inl e \<Rightarrow> (Inl e, db)
          | Inr rows \<Rightarrow> (Inr outcome, db\<lparr>tb_outcomes := rows\<rparr>)))"

definition outcome_get_by_decision :: "string \<Rightarrow> database \<Rightarrow> outcome_verification option" where
  "outcome_get_by_decision decision_id db =
     map_option outcome_to_model
       (List.find (\<lambda>r. ov_decision_id (ocr_outcome r) = decision_id) (tb_outcomes db))"

section \<open>Feedback\<close>

definition feedback_record :: "operator_feedback \<Rightarrow> (database, operator_feedback) prog" where
  "feedback_record f = (\<lambda>db.
     case row_insert (\<lambda>r. fb_feedback_id (ofr_feedback r)) \<lparr>ofr_feedback = f\<rparr> (tb_feedback db) of
       Inl e \<Rightarrow> (Inl e, db)
     | Inr rows \<Rightarrow> (Inr f, db\<lparr>tb_feedback := rows\<rparr>))"

definition feedback_list_for_decision :: "string \<Rightarrow> database \<Rightarrow> operator_feedback list" where
  "feedback_list_for_decision decision_id db =
     map (\<lambda>r. (ofr_feedback r)\<lparr>fb_created_at := to_utc (fb_created_at (ofr_feedback r))\<rparr>)
       (sort_key (\<lambda>r. instant (fb_created_at (ofr_feedback r)))
         (filter (\<lambda>r. fb_decision_id (ofr_feedback r) = decision_id) (tb_feedback db)))"

end
