(* ===== verification/OpenAI_Cost.thy ===== *)
theory OpenAI_Cost
  imports Agent_Models
begin

text \<open>
  \<^verbatim>\<open>src/src/promiseguard/openai_cost.py\<close>: the price table, the conservative token estimate and
  the cost of a usage in decimal arithmetic, rounded up to a millionth of a dollar. The lemmas
  show that on token counts up to \<open>10^18\<close> no decimal operation rounds before the last step,
  and that the estimate covers every usage within it.
\<close>

section \<open>Prices\<close>

record model_pricing =
  input_per_million_usd :: rat
  cached_input_per_million_usd :: rat
  output_per_million_usd :: rat

definition MODEL_PRICING :: "(string \<times> model_pricing) list" where
  "MODEL_PRICING =
     [(''gpt-5-nano'', \<lparr>input_per_million_usd = 5/100, cached_input_per_million_usd = 5/1000,
        output_per_million_usd = 40/100\<rparr>),
      (''gpt-4.1-nano'', \<lparr>input_per_million_usd = 10/100, cached_input_per_million_usd = 25/1000,
        output_per_million_usd = 40/100\<rparr>),
      (''gpt-4o-mini'', \<lparr>input_per_million_usd = 15/100, cached_input_per_million_usd = 75/1000,
        output_per_million_usd = 60/100\<rparr>)]"

definition pricing_for_model :: "string \<Rightarrow> model_pricing res" where
  "pricing_for_model model =
     (case List.find (\<lambda>(known, _). model = known \<or> startswith (known @ ''-'') model) MODEL_PRICING of
        Some (_, pricing) \<Rightarrow> Inr pricing
      | None \<Rightarrow> Inl (err UnknownModelPricingError
          (''model '' @ repr_str model @ '' has no reviewed pricing entry; configure a supported model'')))"

section \<open>Estimates and costs\<close>

text \<open>The characters of a model string are code points below 256: one or two bytes of UTF-8.\<close>

definition utf8_length :: "string \<Rightarrow> nat" where
  "utf8_length text = sum_list (map (\<lambda>c. if (of_char c :: nat) < 128 then 1 else 2) text)"

definition conservative_token_estimate :: "string \<Rightarrow> int" where
  "conservative_token_estimate text = max 1 \<lceil>fdiv (of_nat (utf8_length text)) 3\<rceil>"

text \<open>The estimate is at most one token per byte: the division rounds monotonically.\<close>

lemma utf8_length_le: "utf8_length s \<le> 2 * length s"
  by (induction s) (auto simp: utf8_length_def)

lemma token_estimate_le:
  assumes "utf8_length s \<le> n" and "n \<le> 2 ^ 53"
  shows "conservative_token_estimate s \<le> max 1 (int n)"
proof -
  have "fl (of_nat n) = of_nat n"
    unfolding fl_def by (rule round_sig_fixed) (use assms(2) in \<open>auto intro!: sig_digitsI [of _ "int n" _ 0]\<close>)
  moreover have "fdiv (of_nat (utf8_length s)) 3 \<le> fl (of_nat n)"
    unfolding fdiv_def using assms(1) by (intro float.rnd_mono) simp
  ultimately have "\<lceil>fdiv (of_nat (utf8_length s)) 3\<rceil> \<le> int n" by (simp add: ceiling_le_iff)
  then show ?thesis by (simp add: conservative_token_estimate_def)
qed

definition exact_cost :: "model_pricing \<Rightarrow> agent_token_usage \<Rightarrow> rat" where
  "exact_cost p u =
     (of_int (tu_input_tokens u - tu_cached_input_tokens u) * input_per_million_usd p
      + of_int (tu_cached_input_tokens u) * cached_input_per_million_usd p
      + of_int (tu_output_tokens u) * output_per_million_usd p) / 1000000"

definition cost_amount :: "model_pricing \<Rightarrow> agent_token_usage \<Rightarrow> rat" where
  "cost_amount p u =
     (let uncached = tu_input_tokens u - tu_cached_input_tokens u
      in ddiv (dadd (dadd (dmul (of_int uncached) (input_per_million_usd p))
                          (dmul (of_int (tu_cached_input_tokens u)) (cached_input_per_million_usd p)))
                    (dmul (of_int (tu_output_tokens u)) (output_per_million_usd p))) 1000000)"

definition cost_for_usage :: "string \<Rightarrow> agent_token_usage \<Rightarrow> rat res" where
  "cost_for_usage model u =
     bind_res (pricing_for_model model) (\<lambda>p.
       case quantize round_up 6 (cost_amount p u) of
         Some y \<Rightarrow> Inr y
       | None \<Rightarrow> Inl (err InvalidOperation ''[<class 'decimal.InvalidOperation'>]''))"

definition estimated_run_cost :: "string \<Rightarrow> string \<Rightarrow> int \<Rightarrow> (int \<times> rat) res" where
  "estimated_run_cost model input_text max_output_tokens =
     (let input_tokens = conservative_token_estimate input_text
      in bind_res (new_agent_token_usage
             \<lparr>tu_input_tokens = input_tokens, tu_cached_input_tokens = 0,
              tu_output_tokens = max_output_tokens, tu_total_tokens = input_tokens + max_output_tokens\<rparr>)
           (\<lambda>usage. bind_res (cost_for_usage model usage) (\<lambda>cost. Inr (input_tokens, cost))))"

section \<open>No operation rounds before the last\<close>

text \<open>A price is a multiple of a tenth of a cent, between zero and one dollar, and cached tokens
  cost no more than fresh ones.\<close>

definition price_good :: "model_pricing \<Rightarrow> bool" where
  "price_good p \<longleftrightarrow>
     (\<exists>i c out :: int. input_per_million_usd p = of_int i / 1000 \<and>
        cached_input_per_million_usd p = of_int c / 1000 \<and> output_per_million_usd p = of_int out / 1000 \<and>
        0 \<le> c \<and> c \<le> i \<and> i \<le> 1000 \<and> 0 \<le> out \<and> out \<le> 1000)"

lemma find_in: "List.find P xs = Some x \<Longrightarrow> x \<in> set xs"
  by (auto simp: find_Some_iff)

lemma pricing_good: "pricing_for_model m = Inr p \<Longrightarrow> price_good p"
proof -
  assume "pricing_for_model m = Inr p"
  then have "\<exists>k. (k, p) \<in> set MODEL_PRICING"
    by (auto simp: pricing_for_model_def split: option.splits dest!: find_in)
  then consider "p = \<lparr>input_per_million_usd = 5/100, cached_input_per_million_usd = 5/1000,
        output_per_million_usd = 40/100\<rparr>"
    | "p = \<lparr>input_per_million_usd = 10/100, cached_input_per_million_usd = 25/1000,
        output_per_million_usd = 40/100\<rparr>"
    | "p = \<lparr>input_per_million_usd = 15/100, cached_input_per_million_usd = 75/1000,
        output_per_million_usd = 60/100\<rparr>"
    by (auto simp: MODEL_PRICING_def)
  then show "price_good p"
  proof cases
    case 1
    then show ?thesis by (auto simp: price_good_def intro!: exI [of _ 50] exI [of _ 5] exI [of _ 400])
  next
    case 2
    then show ?thesis by (auto simp: price_good_def intro!: exI [of _ 100] exI [of _ 25] exI [of _ 400])
  next
    case 3
    then show ?thesis by (auto simp: price_good_def intro!: exI [of _ 150] exI [of _ 75] exI [of _ 600])
  qed
qed

definition bounded_usage :: "agent_token_usage \<Rightarrow> bool" where
  "bounded_usage u \<longleftrightarrow>
     valid_agent_token_usage u \<and> tu_input_tokens u + tu_output_tokens u \<le> 10 ^ 18"

lemma dctx_exact: "x = of_int k / 10 ^ m \<Longrightarrow> \<bar>k\<bar> \<le> 10 ^ 28 \<Longrightarrow> dctx x = x"
  using decimal28I [of x k m] by (simp add: is_decimal28_def)

lemma dctx_milli: "\<bar>k\<bar> \<le> 10 ^ 28 \<Longrightarrow> dctx (of_int k / 1000) = of_int k / 1000"
  by (rule dctx_exact [of _ k 3]) simp_all

lemma dadd_milli:
  assumes "\<bar>k + l\<bar> \<le> 10 ^ 28"
  shows "dadd (of_int k / 1000) (of_int l / 1000) = of_int (k + l) / 1000"
proof -
  have "of_int k / 1000 + of_int l / 1000 = (of_int (k + l) / 1000 :: rat)" by (simp add: add_divide_distrib)
  then show ?thesis using dctx_milli [OF assms] by (simp only: dadd_def)
qed

lemma milli_sums:
  assumes "0 \<le> a \<and> a \<le> 10 ^ 21" and "0 \<le> b \<and> b \<le> 10 ^ 21" and "0 \<le> d \<and> d \<le> 10 ^ 21"
  shows "dadd (of_int a / 1000) (of_int b / 1000) = of_int (a + b) / 1000"
    and "dadd (of_int (a + b) / 1000) (of_int d / 1000) = of_int (a + b + d) / 1000"
    and "ddiv (of_int (a + b + d) / 1000) 1000000 = of_int (a + b + d) / 10 ^ 9"
    and "0 \<le> a + b + d \<and> a + b + d \<le> 3 * 10 ^ 21"
proof -
  have "\<bar>a + b\<bar> \<le> 10 ^ 28" and "\<bar>a + b + d\<bar> \<le> 10 ^ 28" using assms by simp_all
  then show "dadd (of_int a / 1000) (of_int b / 1000) = of_int (a + b) / 1000"
    and "dadd (of_int (a + b) / 1000) (of_int d / 1000) = of_int (a + b + d) / 1000"
    and "ddiv (of_int (a + b + d) / 1000) 1000000 = of_int (a + b + d) / 10 ^ 9"
    using dctx_exact [of "of_int (a + b + d) / 10 ^ 9" "a + b + d" 9]
    by (simp_all only: dadd_milli) (simp add: ddiv_def)
  show "0 \<le> a + b + d \<and> a + b + d \<le> 3 * 10 ^ 21" using assms by simp
qed

lemma product_bounds:
  fixes a b :: int
  assumes "0 \<le> a" "a \<le> 10 ^ 18" "0 \<le> b" "b \<le> 1000"
  shows "0 \<le> a * b \<and> a * b \<le> 10 ^ 21"
  using mult_mono [OF assms(2,4)] assms by simp

lemma cost_amount_exact:
  assumes "price_good p" and "bounded_usage u"
  shows "cost_amount p u = exact_cost p u \<and> (\<exists>k. exact_cost p u = of_int k / 10 ^ 9 \<and> 0 \<le> k \<and> k \<le> 3 * 10 ^ 21)"
proof -
  obtain i c out where p: "input_per_million_usd p = of_int i / 1000"
    "cached_input_per_million_usd p = of_int c / 1000" "output_per_million_usd p = of_int out / 1000"
    and b: "0 \<le> c" "c \<le> i" "i \<le> 1000" "0 \<le> out" "out \<le> 1000"
    using assms(1) unfolding price_good_def by blast
  let ?n = "tu_input_tokens u - tu_cached_input_tokens u" and ?c = "tu_cached_input_tokens u" and ?o = "tu_output_tokens u"
  have u: "0 \<le> ?n" "?n \<le> 10 ^ 18" "0 \<le> ?c" "?c \<le> 10 ^ 18" "0 \<le> ?o" "?o \<le> 10 ^ 18"
    using assms(2) by (auto simp: bounded_usage_def valid_agent_token_usage_def)
  have x: "0 \<le> ?n * i \<and> ?n * i \<le> 10 ^ 21" "0 \<le> ?c * c \<and> ?c * c \<le> 10 ^ 21" "0 \<le> ?o * out \<and> ?o * out \<le> 10 ^ 21"
    using product_bounds u b by simp_all
  let ?a = "?n * i" and ?b = "?c * c" and ?d = "?o * out"
  have m: "dmul (of_int ?n) (input_per_million_usd p) = of_int ?a / 1000"
    "dmul (of_int ?c) (cached_input_per_million_usd p) = of_int ?b / 1000"
    "dmul (of_int ?o) (output_per_million_usd p) = of_int ?d / 1000"
    using x by (simp_all add: dmul_def p dctx_milli flip: of_int_mult of_int_diff)
  note sums = milli_sums [OF x]
  have e: "exact_cost p u = of_int (?a + ?b + ?d) / 10 ^ 9"
    by (simp add: exact_cost_def p add_divide_distrib)
  have "cost_amount p u = of_int (?a + ?b + ?d) / 10 ^ 9"
    unfolding cost_amount_def Let_def m sums ..
  then show ?thesis using e sums(4) by (intro conjI exI [of _ "?a + ?b + ?d"]) simp_all
qed

lemma quantize_up_micro:
  assumes "x = of_int k / 10 ^ 9" and "0 \<le> k" and "k \<le> 3 * 10 ^ 21"
  shows "quantize round_up 6 x = Some (of_int \<lceil>x * 10 ^ 6\<rceil> / 10 ^ 6)"
proof -
  have nonneg: "0 \<le> x * 10 ^ 6" using assms by simp
  have "x * 10 ^ 6 \<le> 3 * 10 ^ 18"
    using assms by (simp add: divide_le_eq)
  then have "\<lceil>x * 10 ^ 6\<rceil> \<le> 3 * 10 ^ 18" by (simp add: ceiling_le_iff)
  moreover have "0 \<le> \<lceil>x * 10 ^ 6\<rceil>" using nonneg by linarith
  ultimately show ?thesis
    using nonneg by (simp add: quantize_def round_up_def Let_def)
qed

lemma cost_for_usage_ceiling:
  assumes "pricing_for_model m = Inr p" and "bounded_usage u"
  shows "cost_for_usage m u = Inr (of_int \<lceil>exact_cost p u * 10 ^ 6\<rceil> / 10 ^ 6)"
  using cost_amount_exact [OF pricing_good [OF assms(1)] assms(2)] quantize_up_micro assms(1)
  by (auto simp: cost_for_usage_def)

lemma exact_cost_mono:
  assumes "price_good p" and "valid_agent_token_usage u"
    and "tu_input_tokens u \<le> n" and "tu_output_tokens u \<le> k"
  shows "exact_cost p u \<le> exact_cost p \<lparr>tu_input_tokens = n, tu_cached_input_tokens = 0,
      tu_output_tokens = k, tu_total_tokens = t\<rparr>"
proof -
  obtain i c out :: int where p: "input_per_million_usd p = of_int i / 1000"
    "cached_input_per_million_usd p = of_int c / 1000" "output_per_million_usd p = of_int out / 1000"
    and b: "0 \<le> c" "c \<le> i" "0 \<le> out"
    using assms(1) unfolding price_good_def by blast
  let ?i = "input_per_million_usd p" and ?c = "cached_input_per_million_usd p" and ?o = "output_per_million_usd p"
  have r: "0 \<le> ?i" "?c \<le> ?i" "0 \<le> ?o" using p b by (auto simp: divide_right_mono)
  have u: "0 \<le> tu_cached_input_tokens u" using assms(2) by (simp add: valid_agent_token_usage_def)
  have "of_int (tu_cached_input_tokens u) * ?c \<le> of_int (tu_cached_input_tokens u) * ?i"
    using r u by (simp add: mult_left_mono)
  moreover have "of_int (tu_input_tokens u) * ?i \<le> of_int n * ?i"
    using r assms(3) by (simp add: mult_right_mono)
  moreover have "of_int (tu_output_tokens u) * ?o \<le> of_int k * ?o"
    using r assms(4) by (simp add: mult_right_mono)
  ultimately show ?thesis
    by (simp add: exact_cost_def divide_right_mono algebra_simps)
qed

section \<open>Costs are covered\<close>

text \<open>On every usage of up to \<open>10^18\<close> tokens the charged cost is a whole number of
  millionths of a dollar, never below the exact cost of the usage at the reviewed prices and less
  than one millionth above it.\<close>

theorem cost_rounds_up_once:
  assumes "pricing_for_model m = Inr p" and "bounded_usage u"
  shows "\<exists>k :: int. cost_for_usage m u = Inr (of_int k / 10 ^ 6) \<and>
    exact_cost p u \<le> of_int k / 10 ^ 6 \<and> of_int k / 10 ^ 6 < exact_cost p u + 1 / 10 ^ 6"
proof (intro exI conjI)
  let ?k = "\<lceil>exact_cost p u * 10 ^ 6\<rceil>"
  show "cost_for_usage m u = Inr (of_int ?k / 10 ^ 6)" using assms by (rule cost_for_usage_ceiling)
  show "exact_cost p u \<le> of_int ?k / 10 ^ 6"
    using le_of_int_ceiling [of "exact_cost p u * 10 ^ 6"] by (simp add: field_simps)
  have "of_int ?k < exact_cost p u * 10 ^ 6 + 1" using ceiling_correct [of "exact_cost p u * 10 ^ 6"] by linarith
  then show "of_int ?k / 10 ^ 6 < exact_cost p u + 1 / 10 ^ 6" by (simp add: field_simps)
qed

text \<open>C27: The reservation made before a call covers it: a usage with at most the estimated input
  tokens and at most the output limit, however many of its tokens were cached, costs no more than
  the estimate.\<close>

theorem estimate_covers_usage:
  assumes "estimated_run_cost m text limit = Inr (n, reserved)" and "n + limit \<le> 10 ^ 18"
    and "valid_agent_token_usage u" and "tu_input_tokens u \<le> n" and "tu_output_tokens u \<le> limit"
  shows "\<exists>y. cost_for_usage m u = Inr y \<and> y \<le> reserved"
proof -
  let ?e = "\<lparr>tu_input_tokens = n, tu_cached_input_tokens = 0, tu_output_tokens = limit,
    tu_total_tokens = n + limit\<rparr>"
  have e: "valid_agent_token_usage ?e" "cost_for_usage m ?e = Inr reserved"
    using assms(1) by (auto simp: estimated_run_cost_def Let_def new_agent_token_usage_def bind_res_def
        split: if_splits sum.splits)
  then obtain p where p: "pricing_for_model m = Inr p"
    by (auto simp: cost_for_usage_def bind_res_def split: sum.splits)
  have b: "bounded_usage ?e" "bounded_usage u"
    using e(1) assms(2-5) by (simp_all add: bounded_usage_def)
  have r: "reserved = of_int \<lceil>exact_cost p ?e * 10 ^ 6\<rceil> / 10 ^ 6"
    using cost_for_usage_ceiling [OF p b(1)] e(2) by simp
  have "exact_cost p u \<le> exact_cost p ?e"
    using exact_cost_mono [OF pricing_good [OF p] assms(3-5)] by simp
  then have "\<lceil>exact_cost p u * 10 ^ 6\<rceil> \<le> \<lceil>exact_cost p ?e * 10 ^ 6\<rceil>" by (intro ceiling_mono) simp
  then have "(of_int \<lceil>exact_cost p u * 10 ^ 6\<rceil> :: rat) / 10 ^ 6 \<le> reserved" unfolding r by simp
  then show ?thesis using cost_for_usage_ceiling [OF p b(2)] by blast
qed

definition sample_usage :: agent_token_usage where
  "sample_usage = \<lparr>tu_input_tokens = 3, tu_cached_input_tokens = 1, tu_output_tokens = 40, tu_total_tokens = 43\<rparr>"

lemma estimate_covers_usage_witness:
  "\<exists>y reserved. estimated_run_cost ''gpt-5-nano'' ''review it'' 50 = Inr (3, reserved) \<and>
     cost_for_usage ''gpt-5-nano'' sample_usage = Inr y \<and> y \<le> reserved"
proof -
  have est: "conservative_token_estimate ''review it'' = 3" by code_simp
  let ?e = "\<lparr>tu_input_tokens = 3, tu_cached_input_tokens = 0, tu_output_tokens = 50, tu_total_tokens = 53\<rparr>"
  have "pricing_for_model ''gpt-5-nano'' = Inr \<lparr>input_per_million_usd = 5/100,
      cached_input_per_million_usd = 5/1000, output_per_million_usd = 40/100\<rparr>"
    by (simp add: pricing_for_model_def MODEL_PRICING_def startswith_def)
  moreover have "bounded_usage ?e" by (simp add: bounded_usage_def valid_agent_token_usage_def)
  ultimately obtain r where "cost_for_usage ''gpt-5-nano'' ?e = Inr r"
    using cost_for_usage_ceiling by blast
  then have e: "estimated_run_cost ''gpt-5-nano'' ''review it'' 50 = Inr (3, r)"
    by (simp add: estimated_run_cost_def est new_agent_token_usage_def valid_agent_token_usage_def)
  have "\<exists>y. cost_for_usage ''gpt-5-nano'' sample_usage = Inr y \<and> y \<le> r"
    by (rule estimate_covers_usage [OF e]) (simp_all add: sample_usage_def valid_agent_token_usage_def)
  with e show ?thesis by blast
qed

end
