(* ===== verification/OpenAI_Budget.thy ===== *)
theory OpenAI_Budget
  imports Store OpenAI_Cost
begin

text \<open>
  \<^verbatim>\<open>src/src/promiseguard/openai_budget.py\<close>: the persistent budget guard. A run reserves its
  estimated cost before the call, is finalised once with its actual cost, and a reservation
  that outlives its lifetime is charged in full. From the row lock of \<open>with_for_update\<close> on, a
  session is one step, as PostgreSQL has it; what a session reads before the lock may be out of date
  by then, so a settlement is two steps, the read of its run and the rest. The columns hold amounts
  of six decimals, which every amount here has.
\<close>

section \<open>The manager\<close>

definition BUDGET_KEY :: string where "BUDGET_KEY = ''promiseguard-openai''"

record budget_manager =
  bm_limit_usd :: rat
  bm_per_run_limit_usd :: rat
  bm_reservation_ttl :: int

definition new_budget_manager :: "rat \<Rightarrow> rat \<Rightarrow> int \<Rightarrow> budget_manager res" where
  "new_budget_manager limit per_run ttl =
     (if limit \<le> 0 \<or> per_run \<le> 0 then Inl (err ValueError ''OpenAI budget limits must be positive'')
      else if limit < per_run then Inl (err ValueError ''per-run limit cannot exceed the project budget'')
      else Inr \<lparr>bm_limit_usd = limit, bm_per_run_limit_usd = per_run, bm_reservation_ttl = ttl\<rparr>)"

definition request_key :: "lib \<Rightarrow> string \<Rightarrow> string \<Rightarrow> string \<Rightarrow> string \<Rightarrow> string" where
  "request_key L decision_id model prompt_version context_fingerprint =
     sha256_hex L (join ''|'' [decision_id, model, prompt_version, context_fingerprint])"

definition llm_run_id :: "lib \<Rightarrow> string \<Rightarrow> nat \<Rightarrow> string" where
  "llm_run_id L key attempt = digest_id L ''llm_'' 24 (key @ ''|'' @ str_nat attempt)"

section \<open>From rows to models\<close>

text \<open>The model's constructor validates again: the usage, the review and the two costs.\<close>

definition run_to_model :: "openai_run_row \<Rightarrow> agent_run_record res" where
  "run_to_model r =
     bind_res (case orr_usage r of None \<Rightarrow> Inr None
               | Some u \<Rightarrow> bind_res (new_agent_token_usage u) (\<lambda>v. Inr (Some v))) (\<lambda>usage.
     bind_res (case orr_review r of None \<Rightarrow> Inr None
               | Some v \<Rightarrow> bind_res (new_agent_review v) (\<lambda>x. Inr (Some x))) (\<lambda>review.
       if orr_reserved_cost_usd r < 0 \<or> orr_actual_cost_usd r < 0
       then Inl (err ValidationError ''AgentRunRecord'')
       else Inr \<lparr>rr_run_id = orr_run_id r, rr_request_key = orr_request_key r,
              rr_decision_id = orr_decision_id r, rr_model = orr_model r,
              rr_prompt_version = orr_prompt_version r, rr_status = orr_status r,
              rr_context_fingerprint = orr_context_fingerprint r,
              rr_reserved_cost_usd = orr_reserved_cost_usd r,
              rr_actual_cost_usd = orr_actual_cost_usd r, rr_usage = usage,
              rr_response_id = orr_response_id r, rr_review = review,
              rr_created_at = to_utc (orr_created_at r),
              rr_completed_at = map_option to_utc (orr_completed_at r),
              rr_error_code = orr_error_code r, rr_validation_errors = orr_validation_errors r\<rparr>))"

definition budget_remaining :: "openai_budget_row \<Rightarrow> rat" where
  "budget_remaining b = max 0 (dsub (dsub (obr_limit_usd b) (obr_spent_usd b)) (obr_reserved_usd b))"

definition budget_model :: "openai_budget_row \<Rightarrow> agent_budget_state res" where
  "budget_model b =
     (if obr_limit_usd b < 0 \<or> obr_reserved_usd b < 0 \<or> obr_spent_usd b < 0 \<or> obr_version b < 1
      then Inl (err ValidationError ''AgentBudgetState'')
      else Inr \<lparr>bs_budget_key = obr_budget_key b, bs_limit_usd = obr_limit_usd b,
             bs_reserved_usd = obr_reserved_usd b, bs_spent_usd = obr_spent_usd b,
             bs_remaining_usd = budget_remaining b, bs_updated_at = to_utc (obr_updated_at b),
             bs_version = obr_version b\<rparr>)"

section \<open>The locked budget row\<close>

definition new_budget :: "budget_manager \<Rightarrow> datetime \<Rightarrow> openai_budget_row" where
  "new_budget M timestamp =
     \<lparr>obr_budget_key = BUDGET_KEY, obr_limit_usd = bm_limit_usd M, obr_reserved_usd = 0,
      obr_spent_usd = 0, obr_updated_at = timestamp, obr_version = 1\<rparr>"

text \<open>Assigning to a budget row in a session writes it back, with a new time and version.\<close>

definition touch_budget :: "datetime \<Rightarrow> openai_budget_row \<Rightarrow> openai_budget_row" where
  "touch_budget timestamp b = b\<lparr>obr_updated_at := timestamp, obr_version := obr_version b + 1\<rparr>"

definition save_budget :: "openai_budget_row \<Rightarrow> database \<Rightarrow> database" where
  "save_budget b db = db\<lparr>tb_budgets := row_put obr_budget_key b (tb_budgets db)\<rparr>"

definition locked_budget :: "budget_manager \<Rightarrow> datetime \<Rightarrow> (database, openai_budget_row) prog" where
  "locked_budget M timestamp = (\<lambda>db.
     case row_get obr_budget_key BUDGET_KEY (tb_budgets db) of
       None \<Rightarrow> (Inr (new_budget M timestamp), db\<lparr>tb_budgets := tb_budgets db @ [new_budget M timestamp]\<rparr>)
     | Some row \<Rightarrow>
         if bm_limit_usd M < dadd (obr_spent_usd row) (obr_reserved_usd row)
         then (Inl (err OpenAIBudgetConfigurationError
                 ''configured OpenAI budget is below already spent or reserved cost''), db)
         else if obr_limit_usd row \<noteq> bm_limit_usd M
         then let row' = touch_budget timestamp (row\<lparr>obr_limit_usd := bm_limit_usd M\<rparr>)
              in (Inr row', save_budget row' db)
         else (Inr row, db))"

text \<open>Stale reservations are charged at their full estimate.\<close>

definition is_stale :: "datetime \<Rightarrow> openai_run_row \<Rightarrow> bool" where
  "is_stale now r \<longleftrightarrow> orr_status r = RUN_RESERVED \<and> instant (orr_reservation_expires_at r) < instant now"

definition charge_stale :: "openai_budget_row \<Rightarrow> openai_run_row \<Rightarrow> openai_budget_row" where
  "charge_stale b r =
     b\<lparr>obr_reserved_usd := max 0 (dsub (obr_reserved_usd b) (orr_reserved_cost_usd r)),
       obr_spent_usd := dadd (obr_spent_usd b) (orr_reserved_cost_usd r)\<rparr>"

definition stale_run :: "datetime \<Rightarrow> openai_run_row \<Rightarrow> openai_run_row" where
  "stale_run now r =
     r\<lparr>orr_status := RUN_FAILED, orr_actual_cost_usd := orr_reserved_cost_usd r,
       orr_error_code := Some ''STALE_RESERVATION_CHARGED_CONSERVATIVELY'', orr_completed_at := Some now\<rparr>"

definition reclaim_stale :: "openai_budget_row \<Rightarrow> datetime \<Rightarrow> (database, openai_budget_row) prog" where
  "reclaim_stale budget now = (\<lambda>db.
     let stale = filter (is_stale now) (tb_runs db) in
     if stale = [] then (Inr budget, db)
     else let b = touch_budget now (foldl charge_stale budget stale)
          in (Inr b, save_budget b
               (db\<lparr>tb_runs := map (\<lambda>r. if is_stale now r then stale_run now r else r) (tb_runs db)\<rparr>)))"

section \<open>Reserving\<close>

definition reserved_row ::
  "lib \<Rightarrow> budget_manager \<Rightarrow> string \<Rightarrow> string \<Rightarrow> string \<Rightarrow> string \<Rightarrow> rat \<Rightarrow> datetime \<Rightarrow> nat \<Rightarrow> openai_run_row"
where
  "reserved_row L M decision_id model prompt_version context_fingerprint cost timestamp attempt =
     (let key = request_key L decision_id model prompt_version context_fingerprint
      in \<lparr>orr_run_id = llm_run_id L key attempt, orr_request_key = key, orr_decision_id = decision_id,
         orr_model = model, orr_prompt_version = prompt_version, orr_status = RUN_RESERVED,
         orr_context_fingerprint = context_fingerprint, orr_reserved_cost_usd = cost,
         orr_actual_cost_usd = 0, orr_usage = None, orr_response_id = None, orr_review = None,
         orr_created_at = timestamp, orr_completed_at = None,
         orr_reservation_expires_at = plus_us timestamp (bm_reservation_ttl M),
         orr_error_code = None, orr_validation_errors = []\<rparr>)"

definition completed_run :: "string \<Rightarrow> database \<Rightarrow> openai_run_row option" where
  "completed_run key db =
     first_desc (\<lambda>r. instant (orr_created_at r))
       (filter (\<lambda>r. orr_request_key r = key \<and> orr_status r = RUN_COMPLETED) (tb_runs db))"

text \<open>From the locked budget to the inserted row.\<close>

definition reserve_locked ::
  "lib \<Rightarrow> budget_manager \<Rightarrow> string \<Rightarrow> string \<Rightarrow> string \<Rightarrow> string \<Rightarrow> rat \<Rightarrow> datetime \<Rightarrow> openai_budget_row
   \<Rightarrow> (database, agent_run_record \<times> bool) prog"
where
  "reserve_locked L M decision_id model prompt_version context_fingerprint cost timestamp budget = (\<lambda>db.
     if obr_limit_usd budget < dadd (dadd (obr_spent_usd budget) (obr_reserved_usd budget)) cost
     then (Inl (err OpenAIBudgetExceededError
             ''OpenAI application budget would be exceeded before the request''), db)
     else
       let key = request_key L decision_id model prompt_version context_fingerprint;
           attempt = length (filter (\<lambda>r. orr_request_key r = key) (tb_runs db)) + 1;
           row = reserved_row L M decision_id model prompt_version context_fingerprint cost timestamp attempt;
           b = touch_budget timestamp (budget\<lparr>obr_reserved_usd := dadd (obr_reserved_usd budget) cost\<rparr>)
       in case row_insert orr_run_id row (tb_runs db) of
            Inl e \<Rightarrow> (Inl e, db)
          | Inr rows \<Rightarrow>
              bind (of_res (run_to_model row)) (\<lambda>x. ret (x, False)) (save_budget b (db\<lparr>tb_runs := rows\<rparr>)))"

text \<open>The session from the lock of the budget on.\<close>

definition reserve_admit ::
  "lib \<Rightarrow> budget_manager \<Rightarrow> string \<Rightarrow> string \<Rightarrow> string \<Rightarrow> string \<Rightarrow> rat \<Rightarrow> datetime
   \<Rightarrow> (database, agent_run_record \<times> bool) prog"
where
  "reserve_admit L M decision_id model prompt_version context_fingerprint cost timestamp =
     bind (locked_budget M timestamp) (\<lambda>budget.
     bind (reclaim_stale budget timestamp) (\<lambda>budget.
       reserve_locked L M decision_id model prompt_version context_fingerprint cost timestamp budget))"

definition budget_reserve ::
  "lib \<Rightarrow> budget_manager \<Rightarrow> datetime \<Rightarrow> string \<Rightarrow> string \<Rightarrow> string \<Rightarrow> string \<Rightarrow> rat \<Rightarrow> datetime option
   \<Rightarrow> (database, agent_run_record \<times> bool) prog"
where
  "budget_reserve L M wall decision_id model prompt_version context_fingerprint cost now =
     (let timestamp = now_or now wall in
      session (bind get_state (\<lambda>db.
        case completed_run (request_key L decision_id model prompt_version context_fingerprint) db of
          Some existing \<Rightarrow> bind (of_res (run_to_model existing)) (\<lambda>x. ret (x, True))
        | None \<Rightarrow>
            if bm_per_run_limit_usd M < cost
            then raise (err OpenAIPerRunLimitError
                   ''conservative OpenAI run estimate exceeds the configured per-run cap'')
            else reserve_admit L M decision_id model prompt_version context_fingerprint cost timestamp)))"

section \<open>Finalising\<close>

record settlement =
  st_status :: agent_run_status
  st_usage :: "agent_token_usage option"
  st_actual_cost_usd :: rat
  st_response_id :: "string option"
  st_review :: "agent_decision_review option"
  st_error_code :: "string option"
  st_validation_errors :: "string list"

definition settled_run :: "settlement \<Rightarrow> datetime \<Rightarrow> openai_run_row \<Rightarrow> openai_run_row" where
  "settled_run s timestamp r =
     r\<lparr>orr_status := st_status s, orr_actual_cost_usd := st_actual_cost_usd s,
       orr_response_id := st_response_id s, orr_review := st_review s,
       orr_completed_at := Some timestamp, orr_error_code := st_error_code s,
       orr_validation_errors := st_validation_errors s,
       orr_usage := (case st_usage s of None \<Rightarrow> orr_usage r | Some u \<Rightarrow> Some u)\<rparr>"

definition settled_budget :: "settlement \<Rightarrow> datetime \<Rightarrow> openai_run_row \<Rightarrow> openai_budget_row \<Rightarrow> openai_budget_row" where
  "settled_budget s timestamp r b =
     touch_budget timestamp
       (b\<lparr>obr_reserved_usd := max 0 (dsub (obr_reserved_usd b) (orr_reserved_cost_usd r)),
          obr_spent_usd := dadd (obr_spent_usd b) (st_actual_cost_usd s)\<rparr>)"

text \<open>A flush writes the attributes of a row that the session has changed since it loaded it, and those
  alone, onto the row that is stored.\<close>

definition flushed :: "('r \<Rightarrow> 'a) \<Rightarrow> 'r \<Rightarrow> 'r \<Rightarrow> 'r \<Rightarrow> 'a" where
  "flushed f loaded changed stored = (if f changed = f loaded then f stored else f changed)"

definition flush_run :: "openai_run_row \<Rightarrow> openai_run_row \<Rightarrow> openai_run_row \<Rightarrow> openai_run_row" where
  "flush_run loaded changed stored =
     stored\<lparr>orr_status := flushed orr_status loaded changed stored,
       orr_actual_cost_usd := flushed orr_actual_cost_usd loaded changed stored,
       orr_response_id := flushed orr_response_id loaded changed stored,
       orr_review := flushed orr_review loaded changed stored,
       orr_completed_at := flushed orr_completed_at loaded changed stored,
       orr_error_code := flushed orr_error_code loaded changed stored,
       orr_validation_errors := flushed orr_validation_errors loaded changed stored,
       orr_usage := flushed orr_usage loaded changed stored\<rparr>"

text \<open>The run is read before the budget is locked.\<close>

definition finalise_read :: "string \<Rightarrow> (database, openai_run_row) prog" where
  "finalise_read run_id = (\<lambda>db.
     case row_get orr_run_id run_id (tb_runs db) of
       None \<Rightarrow> (Inl (err OpenAIRunNotFoundError run_id), db)
     | Some row \<Rightarrow> (Inr row, db))"

text \<open>The rest of the session works on the row that was read.\<close>

definition finalise_locked ::
  "budget_manager \<Rightarrow> settlement \<Rightarrow> datetime \<Rightarrow> openai_run_row \<Rightarrow> (database, agent_run_record) prog"
where
  "finalise_locked M s timestamp row =
     bind (locked_budget M timestamp) (\<lambda>budget.
     bind (\<lambda>db. case row_get orr_run_id (orr_run_id row) (tb_runs db) of
              None \<Rightarrow> (Inl (err StaleDataError ''UPDATE statement on table openai_runs expected to update 1 row(s)''), db)
            | Some stored \<Rightarrow>
                (Inr (), save_budget (settled_budget s timestamp row budget)
                  (db\<lparr>tb_runs := row_put orr_run_id (flush_run row (settled_run s timestamp row) stored) (tb_runs db)\<rparr>)))
       (\<lambda>_. of_res (run_to_model (settled_run s timestamp row))))"

definition budget_finalise ::
  "budget_manager \<Rightarrow> datetime \<Rightarrow> string \<Rightarrow> settlement \<Rightarrow> datetime option \<Rightarrow> (database, agent_run_record) prog"
where
  "budget_finalise M wall run_id s now =
     (if st_actual_cost_usd s < 0 then raise (err ValueError ''actual OpenAI cost cannot be negative'')
      else session (bind (finalise_read run_id) (\<lambda>row.
        if orr_status row \<noteq> RUN_RESERVED then of_res (run_to_model row)
        else finalise_locked M s (now_or now wall) row)))"

lemma flush_run_same: "flush_run r (settled_run s t r) r = settled_run s t r"
  by (simp add: flush_run_def flushed_def settled_run_def split: option.split)

lemma finalise_read_app:
  "finalise_read k db = (case row_get orr_run_id k (tb_runs db) of
     None \<Rightarrow> (Inl (err OpenAIRunNotFoundError k), db) | Some row \<Rightarrow> (Inr row, db))"
  by (simp add: finalise_read_def)

text \<open>What a settlement writes, whatever has happened to its run since it was read.\<close>

lemma finalise_locked_InrE:
  assumes "finalise_locked M s t row db = (Inr x, db')"
  obtains b db1 stored where "locked_budget M t db = (Inr b, db1)" "tb_runs db1 = tb_runs db"
    "row_get orr_run_id (orr_run_id row) (tb_runs db) = Some stored"
    "db' = save_budget (settled_budget s t row b)
      (db1\<lparr>tb_runs := row_put orr_run_id (flush_run row (settled_run s t row) stored) (tb_runs db1)\<rparr>)"
    "run_to_model (settled_run s t row) = Inr x"
proof -
  from assms obtain b db1 where l: "locked_budget M t db = (Inr b, db1)"
    unfolding finalise_locked_def by (rule bind_InrE)
  have runs: "tb_runs db1 = tb_runs db"
    using l by (auto simp: locked_budget_def save_budget_def Let_def split: option.splits if_splits)
  from assms l runs show thesis
    by (auto simp: finalise_locked_def bind_app split: option.splits intro: that)
qed

definition budget_complete ::
  "budget_manager \<Rightarrow> datetime \<Rightarrow> string \<Rightarrow> agent_token_usage \<Rightarrow> rat \<Rightarrow> string \<Rightarrow> agent_decision_review
   \<Rightarrow> datetime option \<Rightarrow> (database, agent_run_record) prog"
where
  "budget_complete M wall run_id usage cost response_id review now =
     budget_finalise M wall run_id
       \<lparr>st_status = RUN_COMPLETED, st_usage = Some usage, st_actual_cost_usd = cost,
        st_response_id = Some response_id, st_review = Some review, st_error_code = None,
        st_validation_errors = []\<rparr> now"

definition budget_reject ::
  "budget_manager \<Rightarrow> datetime \<Rightarrow> string \<Rightarrow> agent_token_usage \<Rightarrow> rat \<Rightarrow> string \<Rightarrow> string \<Rightarrow> string list
   \<Rightarrow> datetime option \<Rightarrow> (database, agent_run_record) prog"
where
  "budget_reject M wall run_id usage cost response_id error_code errors now =
     budget_finalise M wall run_id
       \<lparr>st_status = RUN_REJECTED, st_usage = Some usage, st_actual_cost_usd = cost,
        st_response_id = Some response_id, st_review = None, st_error_code = Some error_code,
        st_validation_errors = errors\<rparr> now"

definition budget_fail ::
  "budget_manager \<Rightarrow> datetime \<Rightarrow> string \<Rightarrow> string \<Rightarrow> rat \<Rightarrow> datetime option \<Rightarrow> (database, agent_run_record) prog"
where
  "budget_fail M wall run_id error_code cost now =
     budget_finalise M wall run_id
       \<lparr>st_status = RUN_FAILED, st_usage = None, st_actual_cost_usd = cost, st_response_id = None,
        st_review = None, st_error_code = Some error_code, st_validation_errors = []\<rparr> now"

section \<open>Reading\<close>

definition budget_get :: "string \<Rightarrow> (database, agent_run_record option) prog" where
  "budget_get run_id = (\<lambda>db.
     case row_get orr_run_id run_id (tb_runs db) of
       None \<Rightarrow> (Inr None, db)
     | Some row \<Rightarrow> (bind_res (run_to_model row) (\<lambda>x. Inr (Some x)), db))"

definition budget_state :: "budget_manager \<Rightarrow> datetime \<Rightarrow> datetime option \<Rightarrow> (database, agent_budget_state) prog" where
  "budget_state M wall now =
     (let timestamp = now_or now wall in
      session (bind (locked_budget M timestamp) (\<lambda>budget.
        bind (reclaim_stale budget timestamp) (\<lambda>budget. of_res (budget_model budget)))))"

section \<open>Amounts are exact\<close>

text \<open>Whole millionths of a dollar: sums and differences of up to \<open>10^22\<close> dollars are not rounded.\<close>

definition micro :: "rat \<Rightarrow> bool" where
  "micro x \<longleftrightarrow> (\<exists>k :: int. x = of_int k / 10 ^ 6)"

definition amount :: "rat \<Rightarrow> bool" where
  "amount x \<longleftrightarrow> micro x \<and> 0 \<le> x \<and> x \<le> 10 ^ 21"

lemma micro_add [intro]: "micro x \<Longrightarrow> micro y \<Longrightarrow> micro (x + y)"
  unfolding micro_def by (metis add_divide_distrib of_int_add)

lemma micro_diff [intro]: "micro x \<Longrightarrow> micro y \<Longrightarrow> micro (x - y)"
  unfolding micro_def by (metis diff_divide_distrib of_int_diff)

lemma micro_0 [simp, intro]: "micro 0"
  unfolding micro_def by (rule exI [of _ 0]) simp

lemma micro_sum: "(\<And>x. x \<in> set xs \<Longrightarrow> micro (f x)) \<Longrightarrow> micro (sum_list (map f xs))"
  by (induction xs) auto

lemma dctx_micro:
  assumes "micro x" and "\<bar>x\<bar> \<le> 10 ^ 22"
  shows "dctx x = x"
proof -
  obtain k :: int where k: "x = of_int k / 10 ^ 6" using assms(1) micro_def by blast
  have "\<bar>of_int k :: rat\<bar> \<le> 10 ^ 28" using assms(2) by (simp add: k abs_divide divide_le_eq)
  then have "\<bar>k\<bar> \<le> 10 ^ 28" by (metis of_int_abs of_int_le_iff of_int_numeral of_int_power)
  then show ?thesis by (rule dctx_exact [OF k])
qed

lemma dadd_micro: "micro x \<Longrightarrow> micro y \<Longrightarrow> \<bar>x + y\<bar> \<le> 10 ^ 22 \<Longrightarrow> dadd x y = x + y"
  by (simp add: dadd_def dctx_micro micro_add)

lemma dsub_micro: "micro x \<Longrightarrow> micro y \<Longrightarrow> \<bar>x - y\<bar> \<le> 10 ^ 22 \<Longrightarrow> dsub x y = x - y"
  by (simp add: dsub_def dctx_micro micro_diff)

lemma amountD: "amount x \<Longrightarrow> micro x" "amount x \<Longrightarrow> 0 \<le> x" "amount x \<Longrightarrow> x \<le> 10 ^ 21"
  by (simp_all add: amount_def)

section \<open>Well-formed accounts\<close>

definition open_cost :: "openai_run_row \<Rightarrow> rat" where
  "open_cost r = (if orr_status r = RUN_RESERVED then orr_reserved_cost_usd r else 0)"

definition run_good :: "openai_run_row \<Rightarrow> bool" where
  "run_good r \<longleftrightarrow>
     amount (orr_reserved_cost_usd r) \<and>
     micro (orr_actual_cost_usd r) \<and> 0 \<le> orr_actual_cost_usd r \<and>
     (orr_status r = RUN_RESERVED \<longrightarrow> orr_actual_cost_usd r = 0) \<and>
     (\<exists>x. run_to_model r = Inr x)"

definition open_total :: "openai_run_row list \<Rightarrow> rat" where
  "open_total rs = sum_list (map open_cost rs)"

definition spent_total :: "openai_run_row list \<Rightarrow> rat" where
  "spent_total rs = sum_list (map orr_actual_cost_usd rs)"

text \<open>What settled runs cost beyond their reservations.\<close>

definition overrun_total :: "openai_run_row list \<Rightarrow> rat" where
  "overrun_total rs = sum_list (map (\<lambda>r. max 0 (orr_actual_cost_usd r - orr_reserved_cost_usd r)) rs)"

text \<open>What a budget row keeps of its runs. No cost of a run is missing from what is spent, and no more is
  reserved than the open reservations. Where the accounts are exact, the row holds the two sums, which
  exceed the limit by the overruns at most.\<close>

definition budget_row_kept :: "bool \<Rightarrow> openai_run_row list \<Rightarrow> openai_budget_row \<Rightarrow> bool" where
  "budget_row_kept exact rs b \<longleftrightarrow>
     amount (obr_reserved_usd b) \<and> obr_reserved_usd b \<le> open_total rs \<and>
     micro (obr_spent_usd b) \<and> spent_total rs \<le> obr_spent_usd b \<and> obr_spent_usd b \<le> 2 * 10 ^ 21 \<and>
     amount (obr_limit_usd b) \<and> 1 \<le> obr_version b \<and>
     (exact \<longrightarrow> obr_reserved_usd b = open_total rs \<and> obr_spent_usd b = spent_total rs \<and>
        obr_spent_usd b + obr_reserved_usd b \<le> obr_limit_usd b + overrun_total rs)"

definition accounts_kept :: "bool \<Rightarrow> database \<Rightarrow> bool" where
  "accounts_kept exact db \<longleftrightarrow>
     keys_distinct orr_run_id (tb_runs db) \<and> keys_distinct obr_budget_key (tb_budgets db) \<and>
     (\<forall>r\<in>set (tb_runs db). run_good r) \<and>
     (case row_get obr_budget_key BUDGET_KEY (tb_budgets db) of
        None \<Rightarrow> tb_runs db = []
      | Some b \<Rightarrow> budget_row_kept exact (tb_runs db) b)"

abbreviation accounts_good :: "database \<Rightarrow> bool" where
  "accounts_good \<equiv> accounts_kept True"

definition manager_good :: "budget_manager \<Rightarrow> bool" where
  "manager_good M \<longleftrightarrow>
     new_budget_manager (bm_limit_usd M) (bm_per_run_limit_usd M) (bm_reservation_ttl M) = Inr M \<and>
     amount (bm_limit_usd M)"

lemma totals_simps [simp]:
  "open_total [] = 0" "open_total (r # rs) = open_cost r + open_total rs"
  "open_total (rs @ ss) = open_total rs + open_total ss"
  "spent_total [] = 0" "spent_total (r # rs) = orr_actual_cost_usd r + spent_total rs"
  "spent_total (rs @ ss) = spent_total rs + spent_total ss"
  "overrun_total [] = 0"
  "overrun_total (r # rs) = max 0 (orr_actual_cost_usd r - orr_reserved_cost_usd r) + overrun_total rs"
  "overrun_total (rs @ ss) = overrun_total rs + overrun_total ss"
  by (simp_all add: open_total_def spent_total_def overrun_total_def)

lemma run_good_costs:
  assumes "run_good r"
  shows "micro (open_cost r)" "0 \<le> open_cost r" "micro (orr_actual_cost_usd r)" "0 \<le> orr_actual_cost_usd r"
  using assms by (auto simp: run_good_def open_cost_def amount_def)

lemma totals_good:
  assumes "\<And>r. r \<in> set rs \<Longrightarrow> run_good r"
  shows "micro (open_total rs)" "0 \<le> open_total rs" "micro (spent_total rs)" "0 \<le> spent_total rs"
  unfolding open_total_def spent_total_def
  using run_good_costs [OF assms] by (auto intro!: micro_sum sum_list_nonneg)

lemma overrun_nonneg: "0 \<le> overrun_total rs"
  by (auto simp: overrun_total_def intro!: sum_list_nonneg)

lemma overrun_covered: "\<forall>r\<in>set rs. orr_actual_cost_usd r \<le> orr_reserved_cost_usd r \<Longrightarrow> overrun_total rs = 0"
  by (induction rs) auto

lemma accounts_keptD:
  assumes "accounts_kept C db"
  shows "keys_distinct orr_run_id (tb_runs db)" "keys_distinct obr_budget_key (tb_budgets db)"
    "r \<in> set (tb_runs db) \<Longrightarrow> run_good r"
    "row_get obr_budget_key BUDGET_KEY (tb_budgets db) = Some b \<Longrightarrow> budget_row_kept C (tb_runs db) b"
  using assms by (auto simp: accounts_kept_def)

lemma accounts_kept_weaken: "accounts_kept C db \<Longrightarrow> (C' \<Longrightarrow> C) \<Longrightarrow> accounts_kept C' db"
  by (auto simp: accounts_kept_def budget_row_kept_def split: option.splits)

lemma accounts_good_empty: "accounts_good empty_database"
  by (simp add: accounts_kept_def empty_database_def keys_distinct_def)

lemma budget_row_amounts:
  assumes "accounts_kept C db" and "row_get obr_budget_key BUDGET_KEY (tb_budgets db) = Some b"
  shows "micro (obr_reserved_usd b)" "0 \<le> obr_reserved_usd b" "micro (obr_spent_usd b)" "0 \<le> obr_spent_usd b"
    "obr_reserved_usd b \<le> 10 ^ 21" "obr_spent_usd b \<le> 2 * 10 ^ 21" "obr_limit_usd b \<le> 10 ^ 21"
  using accounts_keptD(4) [OF assms] totals_good(4) [OF accounts_keptD(3) [OF assms(1)], of "tb_runs db"]
  by (auto simp: budget_row_kept_def amount_def)

text \<open>What the accounts say depends on the two tables only.\<close>

lemma accounts_kept_save:
  assumes "keys_distinct orr_run_id (tb_runs db)" and "keys_distinct obr_budget_key (tb_budgets db)"
    and "\<And>r. r \<in> set (tb_runs db) \<Longrightarrow> run_good r"
    and "row_get obr_budget_key BUDGET_KEY (tb_budgets db) = Some a" and "obr_budget_key b = BUDGET_KEY"
    and "budget_row_kept C (tb_runs db) b"
  shows "accounts_kept C (save_budget b db) \<and>
    row_get obr_budget_key BUDGET_KEY (tb_budgets (save_budget b db)) = Some b"
  using assms by (auto simp: accounts_kept_def save_budget_def row_get_put)

lemma budget_key_of: "row_get obr_budget_key BUDGET_KEY bs = Some b \<Longrightarrow> obr_budget_key b = BUDGET_KEY"
  by (auto dest: row_get_SomeD)

lemma save_budget_runs [simp]: "tb_runs (save_budget b db) = tb_runs db"
  by (simp add: save_budget_def)

section \<open>Each stage keeps the accounts\<close>

definition accounts_at :: "bool \<Rightarrow> budget_manager \<Rightarrow> openai_budget_row \<Rightarrow> database \<Rightarrow> bool" where
  "accounts_at C M b db \<longleftrightarrow>
     accounts_kept C db \<and> row_get obr_budget_key BUDGET_KEY (tb_budgets db) = Some b \<and>
     obr_limit_usd b = bm_limit_usd M"

lemma locked_budget_at:
  assumes "accounts_kept C db" and "manager_good M" and "locked_budget M t db = (Inr b, db')"
  shows "accounts_at C M b db' \<and> tb_runs db' = tb_runs db \<and> obr_spent_usd b + obr_reserved_usd b \<le> bm_limit_usd M"
proof (cases "row_get obr_budget_key BUDGET_KEY (tb_budgets db)")
  case None
  have runs: "tb_runs db = []" using assms(1) None by (simp add: accounts_kept_def)
  have lim: "amount (bm_limit_usd M)" using assms(2) by (simp add: manager_good_def)
  have kd: "keys_distinct obr_budget_key (tb_budgets db @ [new_budget M t])"
    using accounts_keptD(2) [OF assms(1)] None
    by (auto simp: keys_distinct_def row_get_None new_budget_def)
  have "b = new_budget M t" "db' = db\<lparr>tb_budgets := tb_budgets db @ [new_budget M t]\<rparr>"
    using assms(3) None by (auto simp: locked_budget_def)
  then show ?thesis
    using None runs lim kd
    by (auto simp: accounts_at_def accounts_kept_def new_budget_def row_get_append budget_row_kept_def
        keys_distinct_def amount_def)
next
  case (Some row)
  note am = budget_row_amounts [OF assms(1) Some]
  have d: "dadd (obr_spent_usd row) (obr_reserved_usd row) = obr_spent_usd row + obr_reserved_usd row"
    by (rule dadd_micro) (use am in auto)
  have le: "obr_spent_usd row + obr_reserved_usd row \<le> bm_limit_usd M"
    using assms(3) Some by (auto simp: locked_budget_def d split: if_splits)
  let ?b = "touch_budget t (row\<lparr>obr_limit_usd := bm_limit_usd M\<rparr>)"
  show ?thesis
  proof (cases "obr_limit_usd row = bm_limit_usd M")
    case True
    then show ?thesis using assms(1,3) Some le by (auto simp: locked_budget_def d accounts_at_def)
  next
    case False
    then have b: "b = ?b" "db' = save_budget ?b db"
      using assms(3) Some le by (auto simp: locked_budget_def d Let_def)
    have "budget_row_kept C (tb_runs db) ?b"
      using accounts_keptD(4) [OF assms(1) Some] assms(2) le overrun_nonneg [of "tb_runs db"]
      by (auto simp: budget_row_kept_def touch_budget_def manager_good_def)
    then have "accounts_kept C (save_budget ?b db) \<and>
        row_get obr_budget_key BUDGET_KEY (tb_budgets (save_budget ?b db)) = Some ?b"
      using accounts_keptD [OF assms(1)] Some budget_key_of [OF Some]
      by (intro accounts_kept_save) (auto simp: touch_budget_def)
    then show ?thesis using le by (simp add: b accounts_at_def touch_budget_def)
  qed
qed

lemma run_to_model_ok:
  "(\<exists>x. run_to_model r = Inr x) \<longleftrightarrow>
     (\<forall>u. orr_usage r = Some u \<longrightarrow> valid_agent_token_usage u) \<and>
     (\<forall>v. orr_review r = Some v \<longrightarrow> valid_agent_review v) \<and>
     0 \<le> orr_reserved_cost_usd r \<and> 0 \<le> orr_actual_cost_usd r"
  by (auto simp: run_to_model_def bind_res_Inr new_agent_token_usage_def new_agent_review_def not_less
      split: option.split)

lemma charge_all:
  assumes "\<And>r. r \<in> set rs \<Longrightarrow> run_good r \<and> orr_status r = RUN_RESERVED"
    and "amount (obr_reserved_usd b)" "micro (obr_spent_usd b)" "0 \<le> obr_spent_usd b"
    and "obr_spent_usd b + open_total rs \<le> 10 ^ 22"
  shows "foldl charge_stale b rs =
    b\<lparr>obr_reserved_usd := max 0 (obr_reserved_usd b - open_total rs), obr_spent_usd := obr_spent_usd b + open_total rs\<rparr>"
  using assms
proof (induction rs arbitrary: b)
  case Nil
  then show ?case by (simp add: amount_def)
next
  case (Cons r rs)
  let ?c = "orr_reserved_cost_usd r"
  have r: "run_good r" "open_cost r = ?c" "amount ?c" and c: "micro ?c" "0 \<le> ?c" "?c \<le> 10 ^ 21"
    using Cons.prems(1) [of r] by (auto simp: run_good_def open_cost_def amount_def)
  have rest: "\<And>x. x \<in> set rs \<Longrightarrow> run_good x \<and> orr_status x = RUN_RESERVED" using Cons.prems(1) by simp
  have t: "0 \<le> open_total rs" using totals_good(2) [of rs] rest by auto
  note b = Cons.prems(2) [unfolded amount_def]
  have sub: "dsub (obr_reserved_usd b) ?c = obr_reserved_usd b - ?c"
    by (rule dsub_micro) (use b c in \<open>auto simp: abs_le_iff\<close>)
  have add: "dadd (obr_spent_usd b) ?c = obr_spent_usd b + ?c"
    by (rule dadd_micro) (use c t r(2) Cons.prems in auto)
  let ?b = "b\<lparr>obr_reserved_usd := max 0 (obr_reserved_usd b - ?c), obr_spent_usd := obr_spent_usd b + ?c\<rparr>"
  have step: "charge_stale b r = ?b" by (simp add: charge_stale_def sub add)
  have "amount (max 0 (obr_reserved_usd b - ?c))" using b c by (auto simp: amount_def max_def)
  then have "foldl charge_stale ?b rs =
      ?b\<lparr>obr_reserved_usd := max 0 (obr_reserved_usd ?b - open_total rs),
        obr_spent_usd := obr_spent_usd ?b + open_total rs\<rparr>"
    by (intro Cons.IH) (use rest r c Cons.prems in auto)
  then show ?case using t by (simp add: step r(2) algebra_simps max_def)
qed

text \<open>Charging a stale run moves its reservation to what is spent.\<close>

definition reclaimed :: "datetime \<Rightarrow> openai_run_row list \<Rightarrow> openai_run_row list" where
  "reclaimed now rs = map (\<lambda>r. if is_stale now r then stale_run now r else r) rs"

lemma stale_run_reserved [simp]: "orr_reserved_cost_usd (stale_run now r) = orr_reserved_cost_usd r"
  by (simp add: stale_run_def)

lemma stale_run_simps [simp]:
  "orr_run_id (stale_run now r) = orr_run_id r" "open_cost (stale_run now r) = 0"
  "orr_actual_cost_usd (stale_run now r) = orr_reserved_cost_usd r"
  "orr_status (stale_run now r) = RUN_FAILED"
  by (simp_all add: stale_run_def open_cost_def)

lemma stale_run_good: "run_good r \<Longrightarrow> run_good (stale_run now r)"
  by (auto simp: run_good_def run_to_model_ok amount_def) (simp_all add: stale_run_def)

lemma reclaimed_keys [simp]: "map orr_run_id (reclaimed now rs) = map orr_run_id rs"
  by (auto simp: reclaimed_def)

lemma reclaimed_good: "(\<And>r. r \<in> set rs \<Longrightarrow> run_good r) \<Longrightarrow> x \<in> set (reclaimed now rs) \<Longrightarrow> run_good x"
  by (auto simp: reclaimed_def stale_run_good split: if_splits)

lemma reclaimed_totals:
  assumes "\<And>r. r \<in> set rs \<Longrightarrow> run_good r"
  shows "open_total (reclaimed now rs) = open_total rs - open_total (filter (is_stale now) rs)"
    and "spent_total (reclaimed now rs) = spent_total rs + open_total (filter (is_stale now) rs)"
    and "overrun_total (reclaimed now rs) = overrun_total rs"
proof -
  have "open_total (reclaimed now rs) = open_total rs - open_total (filter (is_stale now) rs) \<and>
      spent_total (reclaimed now rs) = spent_total rs + open_total (filter (is_stale now) rs) \<and>
      overrun_total (reclaimed now rs) = overrun_total rs"
    using assms
  proof (induction rs)
    case (Cons r rs)
    have "run_good r" using Cons.prems by simp
    then show ?case
      using Cons by (auto simp: reclaimed_def open_cost_def is_stale_def run_good_def amount_def)
  qed (simp add: reclaimed_def)
  then show "open_total (reclaimed now rs) = open_total rs - open_total (filter (is_stale now) rs)"
    and "spent_total (reclaimed now rs) = spent_total rs + open_total (filter (is_stale now) rs)"
    and "overrun_total (reclaimed now rs) = overrun_total rs"
    by simp_all
qed

lemma reclaimed_none: "filter (is_stale now) rs = [] \<Longrightarrow> reclaimed now rs = rs"
  by (auto simp: reclaimed_def filter_empty_conv intro: map_idI)

lemma open_filter_le:
  "(\<And>r. r \<in> set rs \<Longrightarrow> run_good r) \<Longrightarrow> open_total (filter P rs) \<le> open_total rs"
proof (induction rs)
  case (Cons r rs)
  have "0 \<le> open_cost r" using Cons.prems [of r] run_good_costs(2) by simp
  then show ?case using Cons by auto
qed simp

lemma reclaim_stale_at:
  assumes "accounts_at C M b db" and "obr_spent_usd b + obr_reserved_usd b \<le> bm_limit_usd M"
    and "C \<or> open_total (tb_runs db) \<le> 10 ^ 21" and "reclaim_stale b now db = (r, db')"
  shows "\<exists>c. r = Inr c \<and> accounts_at C M c db' \<and> tb_runs db' = reclaimed now (tb_runs db)"
proof (cases "filter (is_stale now) (tb_runs db) = []")
  case True
  then show ?thesis using assms by (auto simp: reclaim_stale_def reclaimed_none)
next
  case False
  let ?st = "filter (is_stale now) (tb_runs db)" and ?rs = "reclaimed now (tb_runs db)"
  have kept: "accounts_kept C db" and row: "row_get obr_budget_key BUDGET_KEY (tb_budgets db) = Some b"
    and lim: "obr_limit_usd b = bm_limit_usd M"
    using assms(1) by (auto simp: accounts_at_def)
  note am = budget_row_amounts [OF kept row] and bg = accounts_keptD(4) [OF kept row]
  note runs = accounts_keptD(3) [OF kept]
  have st: "0 \<le> open_total ?st" "open_total ?st \<le> open_total (tb_runs db)" "micro (open_total ?st)"
    using open_filter_le [OF runs, of "tb_runs db" "is_stale now"] totals_good(1,2) [of ?st] runs by auto
  have small: "open_total ?st \<le> 10 ^ 21" "obr_spent_usd b \<le> 10 ^ 21"
    using assms(2,3) st bg am lim by (auto simp: budget_row_kept_def)
  have all: "foldl charge_stale b ?st = b\<lparr>obr_reserved_usd := max 0 (obr_reserved_usd b - open_total ?st),
      obr_spent_usd := obr_spent_usd b + open_total ?st\<rparr>"
    by (rule charge_all) (use am small runs in \<open>auto simp: is_stale_def amount_def\<close>)
  let ?c = "touch_budget now (foldl charge_stale b ?st)"
  let ?db = "db\<lparr>tb_runs := ?rs\<rparr>"
  have run: "r = Inr ?c" "db' = save_budget ?c ?db"
    using assms(4) False by (simp_all add: reclaim_stale_def reclaimed_def Let_def)
  have "budget_row_kept C ?rs ?c"
    using bg reclaimed_totals [OF runs, of "tb_runs db" now] st small
    by (auto simp: all budget_row_kept_def touch_budget_def amount_def max_def)
  then have "accounts_kept C (save_budget ?c ?db) \<and>
      row_get obr_budget_key BUDGET_KEY (tb_budgets (save_budget ?c ?db)) = Some ?c"
    using accounts_keptD [OF kept] row budget_key_of [OF row] reclaimed_good [OF runs]
    by (intro accounts_kept_save) (auto simp: touch_budget_def all keys_distinct_def)
  then show ?thesis using lim by (auto simp: run accounts_at_def touch_budget_def all)
qed

text \<open>A run that is admitted is within the limit, and is the one row that is added.\<close>

lemma reserve_locked_at:
  assumes "accounts_at C M b db" and "amount cost"
    and "reserve_locked L M d m p f cost t b db = (Inr (x, reused), db')"
  shows "accounts_kept C db' \<and> \<not> reused \<and>
    (\<exists>row c. tb_runs db' = tb_runs db @ [row] \<and> run_to_model row = Inr x \<and>
       orr_status row = RUN_RESERVED \<and> orr_reserved_cost_usd row = cost \<and>
       orr_request_key row = request_key L d m p f \<and>
       row_get obr_budget_key BUDGET_KEY (tb_budgets db') = Some c \<and>
       obr_spent_usd c + obr_reserved_usd c \<le> bm_limit_usd M)"
proof -
  have kept: "accounts_kept C db" and row: "row_get obr_budget_key BUDGET_KEY (tb_budgets db) = Some b"
    and lim: "obr_limit_usd b = bm_limit_usd M"
    using assms(1) by (auto simp: accounts_at_def)
  note am = budget_row_amounts [OF kept row] and bg = accounts_keptD(4) [OF kept row]
    and ac = amountD [OF assms(2)]
  have d: "dadd (obr_spent_usd b) (obr_reserved_usd b) = obr_spent_usd b + obr_reserved_usd b"
    by (rule dadd_micro) (use am in auto)
  have e: "dadd (obr_spent_usd b + obr_reserved_usd b) cost = obr_spent_usd b + obr_reserved_usd b + cost"
    by (rule dadd_micro) (use am ac in auto)
  have f: "dadd (obr_reserved_usd b) cost = obr_reserved_usd b + cost"
    by (rule dadd_micro) (use am ac in auto)
  obtain n where n: "n = length (filter (\<lambda>r. orr_request_key r = request_key L d m p f) (tb_runs db)) + 1"
    by simp
  let ?row = "reserved_row L M d m p f cost t n"
  let ?b = "touch_budget t (b\<lparr>obr_reserved_usd := obr_reserved_usd b + cost\<rparr>)"
  have fits: "obr_spent_usd b + obr_reserved_usd b + cost \<le> obr_limit_usd b"
    using assms(3) by (auto simp: reserve_locked_def d e split: if_splits)
  then obtain rows where ins: "row_insert orr_run_id ?row (tb_runs db) = Inr rows"
    and x: "run_to_model ?row = Inr x" "\<not> reused"
    and db': "db' = save_budget ?b (db\<lparr>tb_runs := rows\<rparr>)"
    using assms(3) by (auto simp: reserve_locked_def d e f Let_def n bind_app split: if_splits sum.splits)
  have rows: "rows = tb_runs db @ [?row]" using row_insert_InrD [OF ins] by simp
  have row_good: "run_good ?row"
    using assms(2) x by (auto simp: run_good_def) (simp_all add: reserved_row_def Let_def)
  have sel: "open_cost ?row = cost" "orr_actual_cost_usd ?row = 0" "orr_reserved_cost_usd ?row = cost"
    by (simp_all add: open_cost_def reserved_row_def Let_def)
  have "budget_row_kept C rows ?b"
    using bg fits am ac overrun_nonneg [of "tb_runs db"]
    by (auto simp: rows sel budget_row_kept_def touch_budget_def amount_def max_def)
  then have "accounts_kept C db' \<and> row_get obr_budget_key BUDGET_KEY (tb_budgets db') = Some ?b"
    unfolding db' using accounts_keptD [OF kept] row budget_key_of [OF row] row_good
      keys_distinct_insert [OF ins]
    by (intro accounts_kept_save) (auto simp: touch_budget_def rows)
  moreover have "obr_spent_usd ?b + obr_reserved_usd ?b \<le> bm_limit_usd M"
    using fits lim by (simp add: touch_budget_def algebra_simps)
  moreover have "tb_runs db' = tb_runs db @ [?row]" by (simp add: db' rows)
  ultimately show ?thesis
    using x by (intro conjI exI [of _ ?row] exI [of _ ?b]) (auto simp: reserved_row_def Let_def)
qed

section \<open>The operations\<close>

lemma budget_reserve_cases:
  assumes "budget_reserve L M wall d m p f cost now db = (r, db')"
  obtains (refused) e where "r = Inl e" "db' = db"
  | (reused) row x where "completed_run (request_key L d m p f) db = Some row" "run_to_model row = Inr x"
      "r = Inr (x, True)" "db' = db"
  | (admitted) b db1 c db2 y where "completed_run (request_key L d m p f) db = None"
      "cost \<le> bm_per_run_limit_usd M"
      "locked_budget M (now_or now wall) db = (Inr b, db1)"
      "reclaim_stale b (now_or now wall) db1 = (Inr c, db2)"
      "reserve_locked L M d m p f cost (now_or now wall) c db2 = (Inr y, db')" "r = Inr y"
proof (cases r)
  case (Inl e)
  have "db' = db" using assms unfolding budget_reserve_def reserve_admit_def Let_def Inl by (blast dest: session_InlD)
  with Inl show ?thesis by (rule refused)
next
  case (Inr y)
  let ?F = "\<lambda>db. case completed_run (request_key L d m p f) db of
      Some existing \<Rightarrow> bind (of_res (run_to_model existing)) (\<lambda>x. ret (x, True))
    | None \<Rightarrow> if bm_per_run_limit_usd M < cost
        then raise (err OpenAIPerRunLimitError
          ''conservative OpenAI run estimate exceeds the configured per-run cap'')
        else bind (locked_budget M (now_or now wall)) (\<lambda>b.
             bind (reclaim_stale b (now_or now wall)) (\<lambda>c.
               reserve_locked L M d m p f cost (now_or now wall) c))"
  have run: "?F db db = (Inr y, db')"
    using assms unfolding budget_reserve_def reserve_admit_def Let_def Inr session_Inr by simp
  show ?thesis
  proof (cases "completed_run (request_key L d m p f) db")
    case (Some row)
    then have "bind (of_res (run_to_model row)) (\<lambda>x. ret (x, True)) db = (Inr y, db')" using run by simp
    then show ?thesis
      by (rule bind_InrE) (use Some Inr in \<open>auto intro: reused\<close>)
  next
    case None
    then have cap: "cost \<le> bm_per_run_limit_usd M" using run by (simp add: not_less split: if_splits)
    then have "bind (locked_budget M (now_or now wall)) (\<lambda>b.
        bind (reclaim_stale b (now_or now wall)) (\<lambda>c.
          reserve_locked L M d m p f cost (now_or now wall) c)) db = (Inr y, db')"
      using run None by simp
    then show ?thesis
    proof (rule bind_InrE)
      fix b db1 assume l: "locked_budget M (now_or now wall) db = (Inr b, db1)"
        and rest: "bind (reclaim_stale b (now_or now wall))
          (\<lambda>c. reserve_locked L M d m p f cost (now_or now wall) c) db1 = (Inr y, db')"
      from rest show ?thesis
        by (rule bind_InrE) (rule admitted [OF None cap l _ _ Inr])
    qed
  qed
qed

text \<open>An admission keeps the accounts; a call of \<open>reserve\<close> is one at most.\<close>

lemma reserve_admit_InrE:
  assumes "reserve_admit L M d m p f cost t db = (Inr y, db')"
  obtains b db1 c db2 where "locked_budget M t db = (Inr b, db1)" "reclaim_stale b t db1 = (Inr c, db2)"
    "reserve_locked L M d m p f cost t c db2 = (Inr y, db')"
proof -
  from assms obtain b db1 where l: "locked_budget M t db = (Inr b, db1)"
    and rest: "bind (reclaim_stale b t) (\<lambda>c. reserve_locked L M d m p f cost t c) db1 = (Inr y, db')"
    unfolding reserve_admit_def by (rule bind_InrE)
  from rest show thesis by (rule bind_InrE) (rule that [OF l])
qed

lemma reserve_admit_kept:
  assumes "accounts_kept C db" and "manager_good M" and "amount cost" and "C \<or> open_total (tb_runs db) \<le> 10 ^ 21"
    and "session (reserve_admit L M d m p f cost t) db = (r, db')"
  shows "accounts_kept C db'"
proof (cases r)
  case (Inl e)
  then show ?thesis using assms(1,5) by (auto dest!: session_InlD)
next
  case (Inr y)
  then have "reserve_admit L M d m p f cost t db = (Inr y, db')" using assms(5) by (simp add: session_Inr)
  then obtain b db1 c db2 where l: "locked_budget M t db = (Inr b, db1)"
    and s: "reclaim_stale b t db1 = (Inr c, db2)" and a: "reserve_locked L M d m p f cost t c db2 = (Inr y, db')"
    by (rule reserve_admit_InrE)
  obtain x q where y: "y = (x, q)" by fastforce
  note at = locked_budget_at [OF assms(1,2) l]
  have "accounts_at C M c db2" using reclaim_stale_at [OF _ _ _ s] at assms(4) by auto
  from reserve_locked_at [OF this assms(3)] a y show ?thesis by blast
qed

lemma budget_reserve_admits:
  assumes "budget_reserve L M wall d m p f cost now db = (r, db')"
  shows "db' = db \<or> session (reserve_admit L M d m p f cost (now_or now wall)) db = (r, db')"
  using assms
proof (cases rule: budget_reserve_cases)
  case (admitted b db1 c db2 y)
  then show ?thesis by (simp add: session_Inr reserve_admit_def bind_app)
qed auto

lemma budget_reserve_good:
  assumes "accounts_good db" and "manager_good M" and "amount cost"
    and "budget_reserve L M wall d m p f cost now db = (r, db')"
  shows "accounts_good db'"
  using budget_reserve_admits [OF assms(4)] reserve_admit_kept [OF assms(1-3)] assms(1) by blast

lemma budget_finalise_cases:
  assumes "budget_finalise M wall k s now db = (r, db')"
  obtains (refused) e where "r = Inl e" "db' = db"
  | (settled_before) row where "row_get orr_run_id k (tb_runs db) = Some row" "orr_status row \<noteq> RUN_RESERVED"
      "r = run_to_model row" "db' = db"
  | (settled_now) row b db1 x where "row_get orr_run_id k (tb_runs db) = Some row" "orr_status row = RUN_RESERVED"
      "locked_budget M (now_or now wall) db = (Inr b, db1)"
      "db' = save_budget (settled_budget s (now_or now wall) row b)
        (db1\<lparr>tb_runs := row_put orr_run_id (settled_run s (now_or now wall) row) (tb_runs db1)\<rparr>)"
      "run_to_model (settled_run s (now_or now wall) row) = Inr x" "r = Inr x" "0 \<le> st_actual_cost_usd s"
proof (cases r)
  case (Inl e)
  have "db' = db" using assms unfolding budget_finalise_def Inl by (auto split: if_splits dest: session_InlD)
  with Inl show ?thesis by (rule refused)
next
  case (Inr y)
  have nonneg: "0 \<le> st_actual_cost_usd s"
    using assms Inr by (auto simp: budget_finalise_def not_less split: if_splits)
  have run: "bind (finalise_read k) (\<lambda>row. if orr_status row \<noteq> RUN_RESERVED then of_res (run_to_model row)
      else finalise_locked M s (now_or now wall) row) db = (Inr y, db')"
    using assms nonneg unfolding budget_finalise_def Inr by (simp add: session_Inr)
  then obtain row where row: "row_get orr_run_id k (tb_runs db) = Some row"
    by (auto simp: bind_app finalise_read_app split: option.splits)
  have key: "orr_run_id row = k" using row_get_SomeD [OF row] by simp
  show ?thesis
  proof (cases "orr_status row = RUN_RESERVED")
    case False
    then show ?thesis using settled_before [OF row False] run row Inr by (simp add: bind_app finalise_read_app)
  next
    case True
    then have "finalise_locked M s (now_or now wall) row db = (Inr y, db')"
      using run row by (simp add: bind_app finalise_read_app)
    then show ?thesis
    proof (cases rule: finalise_locked_InrE)
      case (1 b db1 stored)
      then show ?thesis using settled_now [OF row True] row key Inr nonneg by (simp add: flush_run_same)
    qed
  qed
qed

definition settlement_good :: "settlement \<Rightarrow> bool" where
  "settlement_good s \<longleftrightarrow>
     amount (st_actual_cost_usd s) \<and> st_status s \<noteq> RUN_RESERVED \<and>
     (\<forall>u. st_usage s = Some u \<longrightarrow> valid_agent_token_usage u) \<and>
     (\<forall>v. st_review s = Some v \<longrightarrow> valid_agent_review v)"

lemma sum_row_put:
  fixes g :: "'r \<Rightarrow> rat"
  assumes "keys_distinct key rows" and "row_get key (key s) rows = Some r"
  shows "sum_list (map g (row_put key s rows)) = sum_list (map g rows) - g r + g s"
  using assms
proof (induction rows)
  case (Cons x rows)
  show ?case
  proof (cases "key x = key s")
    case True
    have "key s \<notin> key ` set rows" using Cons.prems(1) unfolding True [symmetric] by (simp add: keys_distinct_def)
    then have "key y \<noteq> key s" if "y \<in> set rows" for y using that by (metis image_eqI)
    then have "row_put key s rows = rows" by (auto simp: row_put_def intro!: map_idI)
    then show ?thesis using True Cons.prems(2) by (simp add: row_put_def row_get_def)
  next
    case False
    then show ?thesis
      using Cons by (simp add: row_put_def row_get_def keys_distinct_def)
  qed
qed simp

lemma settled_run_simps [simp]:
  "orr_run_id (settled_run s t r) = orr_run_id r" "orr_status (settled_run s t r) = st_status s"
  "orr_actual_cost_usd (settled_run s t r) = st_actual_cost_usd s"
  "orr_reserved_cost_usd (settled_run s t r) = orr_reserved_cost_usd r"
  by (simp_all add: settled_run_def)

lemma settled_run_good:
  assumes "run_good r" and "settlement_good s"
  shows "run_good (settled_run s t r) \<and> open_cost (settled_run s t r) = 0"
  using assms
  by (auto simp: run_good_def run_to_model_ok settlement_good_def amount_def open_cost_def)
    (auto simp: settled_run_def split: option.splits)

text \<open>A run that a session read while it was reserved: what it costs to reserve never changes.\<close>

definition read_run :: "openai_run_row list \<Rightarrow> openai_run_row \<Rightarrow> bool" where
  "read_run rs row \<longleftrightarrow>
     orr_status row = RUN_RESERVED \<and> run_good row \<and>
     (\<exists>stored. row_get orr_run_id (orr_run_id row) rs = Some stored \<and>
        orr_reserved_cost_usd stored = orr_reserved_cost_usd row)"

lemma flush_run_sel:
  assumes "orr_status row = RUN_RESERVED" and "run_good row" and "settlement_good s"
  shows "orr_run_id (flush_run row (settled_run s t row) stored) = orr_run_id stored"
    "orr_status (flush_run row (settled_run s t row) stored) = st_status s"
    "orr_reserved_cost_usd (flush_run row (settled_run s t row) stored) = orr_reserved_cost_usd stored"
    "orr_actual_cost_usd (flush_run row (settled_run s t row) stored) =
       (if st_actual_cost_usd s = 0 then orr_actual_cost_usd stored else st_actual_cost_usd s)"
    "orr_usage (flush_run row (settled_run s t row) stored) \<in> {orr_usage stored, st_usage s}"
    "orr_review (flush_run row (settled_run s t row) stored) \<in> {orr_review stored, st_review s}"
  using assms
  by (auto simp: flush_run_def flushed_def settlement_good_def run_good_def settled_run_def split: option.splits)

lemma flush_run_good:
  assumes "orr_status row = RUN_RESERVED" and "run_good row" and "settlement_good s" and "run_good stored"
  shows "run_good (flush_run row (settled_run s t row) stored) \<and>
    open_cost (flush_run row (settled_run s t row) stored) = 0 \<and>
    orr_actual_cost_usd (flush_run row (settled_run s t row) stored) \<le>
      orr_actual_cost_usd stored + st_actual_cost_usd s"
proof -
  note sel = flush_run_sel [OF assms(1-3), of t stored]
  have "run_good (flush_run row (settled_run s t row) stored)"
    using assms(3,4) sel unfolding run_good_def run_to_model_ok settlement_good_def amount_def by auto
  moreover have "0 \<le> orr_actual_cost_usd stored" "0 \<le> st_actual_cost_usd s"
    using run_good_costs(4) [OF assms(4)] assms(3) by (simp_all add: settlement_good_def amount_def)
  ultimately show ?thesis using sel assms(3) by (auto simp: open_cost_def settlement_good_def)
qed

text \<open>A settlement keeps the accounts, exactly if it finds its run as it read it.\<close>

lemma finalise_locked_kept:
  assumes "accounts_kept C db" and "manager_good M" and "settlement_good s" and "read_run (tb_runs db) row"
    and "finalise_locked M s t row db = (Inr x, db')"
  shows "accounts_kept (C \<and> row_get orr_run_id (orr_run_id row) (tb_runs db) = Some row) db'"
  using assms(5)
proof (cases rule: finalise_locked_InrE)
  case (1 b db1 stored)
  let ?C = "C \<and> row_get orr_run_id (orr_run_id row) (tb_runs db) = Some row"
  let ?s = "flush_run row (settled_run s t row) stored" and ?b = "settled_budget s t row b"
  let ?rows = "row_put orr_run_id ?s (tb_runs db1)"
  note at = locked_budget_at [OF assms(1,2) 1(1)]
  have kept: "accounts_kept C db1" and brow: "row_get obr_budget_key BUDGET_KEY (tb_budgets db1) = Some b"
    and lim: "obr_limit_usd b = bm_limit_usd M" "obr_spent_usd b + obr_reserved_usd b \<le> obr_limit_usd b"
    using at by (auto simp: accounts_at_def)
  note am = budget_row_amounts [OF kept brow] and bg = accounts_keptD(4) [OF kept brow]
  have stored: "stored \<in> set (tb_runs db1)" "orr_run_id stored = orr_run_id row"
    "orr_reserved_cost_usd stored = orr_reserved_cost_usd row"
    using row_get_SomeD [OF 1(3)] assms(4) 1(3) by (auto simp: 1(2) read_run_def)
  have rd: "orr_status row = RUN_RESERVED" "run_good row" using assms(4) by (simp_all add: read_run_def)
  have sg: "run_good stored" using accounts_keptD(3) [OF kept stored(1)] .
  note sel = flush_run_sel [OF rd assms(3), of t stored] and fg = flush_run_good [OF rd assms(3) sg, of t]
  have got: "row_get orr_run_id (orr_run_id ?s) (tb_runs db1) = Some stored"
    using 1(2,3) sel(1) stored(2) by simp
  note sums = sum_row_put [OF accounts_keptD(1) [OF kept] got]
  have good_rows: "run_good x" if "x \<in> set ?rows" for x
    using row_put_set [OF that] accounts_keptD(3) [OF kept] fg by auto
  have o: "open_total ?rows = open_total (tb_runs db1) - open_cost stored"
    using sums [of open_cost] fg by (simp add: open_total_def)
  have sp: "spent_total ?rows = spent_total (tb_runs db1) - orr_actual_cost_usd stored + orr_actual_cost_usd ?s"
    using sums [of orr_actual_cost_usd] by (simp add: spent_total_def)
  have ov: "overrun_total ?rows = overrun_total (tb_runs db1) -
      max 0 (orr_actual_cost_usd stored - orr_reserved_cost_usd stored) +
      max 0 (orr_actual_cost_usd ?s - orr_reserved_cost_usd ?s)"
    using sums [of "\<lambda>r. max 0 (orr_actual_cost_usd r - orr_reserved_cost_usd r)"] by (simp add: overrun_total_def)
  have o0: "0 \<le> open_total ?rows" using good_rows by (rule totals_good(2))
  have act: "micro (st_actual_cost_usd s)" "0 \<le> st_actual_cost_usd s" "st_actual_cost_usd s \<le> 10 ^ 21"
    using assms(3) by (auto simp: settlement_good_def amount_def)
  have res: "micro (orr_reserved_cost_usd row)" "0 \<le> orr_reserved_cost_usd row" "orr_reserved_cost_usd row \<le> 10 ^ 21"
    using rd(2) by (auto simp: run_good_def amount_def)
  have ds: "dsub (obr_reserved_usd b) (orr_reserved_cost_usd row) = obr_reserved_usd b - orr_reserved_cost_usd row"
    by (rule dsub_micro) (use am res in \<open>auto simp: abs_le_iff\<close>)
  have da: "dadd (obr_spent_usd b) (st_actual_cost_usd s) = obr_spent_usd b + st_actual_cost_usd s"
    by (rule dadd_micro) (use am act in auto)
  have b: "?b = touch_budget t (b\<lparr>obr_reserved_usd := max 0 (obr_reserved_usd b - orr_reserved_cost_usd row),
      obr_spent_usd := obr_spent_usd b + st_actual_cost_usd s\<rparr>)"
    by (simp add: settled_budget_def ds da)
  have reserved: "max 0 (obr_reserved_usd b - orr_reserved_cost_usd row) \<le> open_total ?rows"
    using bg o o0 stored(3) res by (auto simp: budget_row_kept_def open_cost_def split: if_splits)
  have exact: "max 0 (obr_reserved_usd b - orr_reserved_cost_usd row) = open_total ?rows \<and>
      obr_spent_usd b + st_actual_cost_usd s = spent_total ?rows \<and>
      obr_spent_usd b + st_actual_cost_usd s + max 0 (obr_reserved_usd b - orr_reserved_cost_usd row) \<le>
        obr_limit_usd b + overrun_total ?rows" if ?C
  proof -
    have "stored = row" using that 1(3) by simp
    then have z: "open_cost stored = orr_reserved_cost_usd row" "orr_actual_cost_usd stored = 0"
      "orr_actual_cost_usd ?s = st_actual_cost_usd s" "orr_reserved_cost_usd ?s = orr_reserved_cost_usd row"
      using rd sel by (auto simp: open_cost_def run_good_def)
    have e: "obr_reserved_usd b = open_total (tb_runs db1)" "obr_spent_usd b = spent_total (tb_runs db1)"
      "obr_spent_usd b + obr_reserved_usd b \<le> obr_limit_usd b + overrun_total (tb_runs db1)"
      using bg that by (auto simp: budget_row_kept_def)
    have "max 0 (obr_reserved_usd b - orr_reserved_cost_usd row) = open_total ?rows" using o o0 z e by simp
    moreover have "max 0 (- orr_reserved_cost_usd row) = 0" using res by simp
    ultimately show ?thesis using sp ov z e o stored(3) by (auto simp: max_def)
  qed
  have "amount (max 0 (obr_reserved_usd b - orr_reserved_cost_usd row))"
    using am res by (auto simp: amount_def max_def)
  then have "budget_row_kept ?C ?rows ?b"
    unfolding b using bg reserved exact sp fg act am lim
    by (auto simp: budget_row_kept_def touch_budget_def amount_def)
  then have "accounts_kept ?C (save_budget ?b (db1\<lparr>tb_runs := ?rows\<rparr>)) \<and>
      row_get obr_budget_key BUDGET_KEY (tb_budgets (save_budget ?b (db1\<lparr>tb_runs := ?rows\<rparr>))) = Some ?b"
    using accounts_keptD(1,2) [OF kept] brow budget_key_of [OF brow] good_rows
    by (intro accounts_kept_save) (auto simp: b touch_budget_def)
  then show ?thesis by (simp add: 1(4))
qed

lemma budget_finalise_locks:
  assumes "budget_finalise M wall k s now db = (r, db')"
  shows "db' = db \<or> (\<exists>row. finalise_read k db = (Inr row, db) \<and> orr_status row = RUN_RESERVED \<and>
    session (finalise_locked M s (now_or now wall) row) db = (r, db'))"
proof (cases "st_actual_cost_usd s < 0")
  case False
  then show ?thesis
    using assms
    by (auto simp: budget_finalise_def session_app bind_app finalise_read_app
        split: option.splits if_splits sum.splits)
qed (use assms in \<open>simp add: budget_finalise_def\<close>)

lemma budget_state_kept:
  assumes "accounts_kept C db" and "manager_good M" and "C \<or> open_total (tb_runs db) \<le> 10 ^ 21"
    and "budget_state M wall now db = (r, db')"
  shows "accounts_kept C db'"
proof (cases r)
  case (Inl e)
  then show ?thesis using assms by (auto simp: budget_state_def Let_def dest!: session_InlD)
next
  case (Inr x)
  then obtain b db1 c where l: "locked_budget M (now_or now wall) db = (Inr b, db1)"
    and s: "reclaim_stale b (now_or now wall) db1 = (Inr c, db')"
    using assms(4) by (auto simp: budget_state_def Let_def session_Inr prog_simps split: prod.splits sum.splits)
  from reclaim_stale_at [OF _ _ _ s] locked_budget_at [OF assms(1,2) l] assms(3)
  show ?thesis by (auto simp: accounts_at_def)
qed

section \<open>Interleaved sessions\<close>

text \<open>A state of the guard: the database, the reserved runs that settlements have read and not yet
  written back, and whether every settlement so far has found its run as it read it. Any managers
  whose limits the constructor accepts take part, at any times; sums of open reservations that no
  budget of dollars reaches are left out.\<close>

type_synonym guard_state = "database \<times> openai_run_row list \<times> bool"

inductive budget_step :: "lib \<Rightarrow> guard_state \<Rightarrow> guard_state \<Rightarrow> bool" for L :: lib where
  admitting: "manager_good M \<Longrightarrow> amount cost \<Longrightarrow> open_total (tb_runs db) \<le> 10 ^ 21 \<Longrightarrow>
    session (reserve_admit L M d m p f cost t) db = (r, db') \<Longrightarrow>
    budget_step L (db, reads, undisturbed) (db', reads, undisturbed)"
| loading: "finalise_read k db = (Inr row, db) \<Longrightarrow> orr_status row = RUN_RESERVED \<Longrightarrow>
    budget_step L (db, reads, undisturbed) (db, row # reads, undisturbed)"
| settling: "manager_good M \<Longrightarrow> settlement_good s \<Longrightarrow> row \<in> set reads \<Longrightarrow>
    session (finalise_locked M s t row) db = (x, db') \<Longrightarrow>
    budget_step L (db, reads, undisturbed)
      (db', remove1 row reads, undisturbed \<and> row_get orr_run_id (orr_run_id row) (tb_runs db) = Some row)"
| reading: "manager_good M \<Longrightarrow> open_total (tb_runs db) \<le> 10 ^ 21 \<Longrightarrow> budget_state M wall now db = (b, db') \<Longrightarrow>
    budget_step L (db, reads, undisturbed) (db', reads, undisturbed)"

text \<open>Runs stay, with what they reserved.\<close>

definition runs_stay :: "database \<Rightarrow> database \<Rightarrow> bool" where
  "runs_stay db db' \<longleftrightarrow>
     (\<forall>k r. row_get orr_run_id k (tb_runs db) = Some r \<longrightarrow>
        (\<exists>r'. row_get orr_run_id k (tb_runs db') = Some r' \<and> orr_reserved_cost_usd r' = orr_reserved_cost_usd r))"

lemma read_run_stays: "runs_stay db db' \<Longrightarrow> read_run (tb_runs db) row \<Longrightarrow> read_run (tb_runs db') row"
  unfolding runs_stay_def read_run_def by metis

lemma row_get_reclaimed:
  "row_get orr_run_id k (reclaimed now rs) =
     map_option (\<lambda>r. if is_stale now r then stale_run now r else r) (row_get orr_run_id k rs)"
  by (induction rs) (auto simp: reclaimed_def row_get_def)

lemma reclaim_stale_stays: "reclaim_stale b now db = (r, db') \<Longrightarrow> runs_stay db db'"
proof -
  assume r: "reclaim_stale b now db = (r, db')"
  have "tb_runs db' = reclaimed now (tb_runs db) \<or> db' = db"
    using r by (auto simp: reclaim_stale_def reclaimed_def Let_def split: if_splits)
  then show ?thesis by (auto simp: runs_stay_def row_get_reclaimed)
qed

lemma locked_budget_stays: "locked_budget M t db = (r, db') \<Longrightarrow> tb_runs db' = tb_runs db"
  by (auto simp: locked_budget_def Let_def split: option.splits if_splits)

lemma reserve_admit_stays: "session (reserve_admit L M d m p f cost t) db = (r, db') \<Longrightarrow> runs_stay db db'"
proof (cases r)
  case (Inr y)
  assume "session (reserve_admit L M d m p f cost t) db = (r, db')"
  then have "reserve_admit L M d m p f cost t db = (Inr y, db')" using Inr by (simp add: session_Inr)
  then obtain b db1 c db2 where l: "locked_budget M t db = (Inr b, db1)"
    and s: "reclaim_stale b t db1 = (Inr c, db2)" and a: "reserve_locked L M d m p f cost t c db2 = (Inr y, db')"
    by (rule reserve_admit_InrE)
  have "\<exists>row. tb_runs db' = tb_runs db2 @ [row]"
    using a by (auto simp: reserve_locked_def Let_def bind_app split: if_splits sum.splits dest!: row_insert_InrD)
  then have "runs_stay db2 db'" by (auto simp: runs_stay_def row_get_append)
  then show ?thesis
    using reclaim_stale_stays [OF s] locked_budget_stays [OF l] unfolding runs_stay_def by metis
qed (auto dest!: session_InlD simp: runs_stay_def)

lemma finalise_locked_stays:
  assumes "settlement_good s" and "read_run (tb_runs db) row" and "session (finalise_locked M s t row) db = (x, db')"
  shows "runs_stay db db'"
proof (cases x)
  case (Inr y)
  then have "finalise_locked M s t row db = (Inr y, db')" using assms(3) by (simp add: session_Inr)
  then show ?thesis
  proof (cases rule: finalise_locked_InrE)
    case (1 b db1 stored)
    have "orr_status row = RUN_RESERVED" "run_good row" using assms(2) by (simp_all add: read_run_def)
    note sel = flush_run_sel(1,3) [OF this assms(1), of t stored]
    show ?thesis using 1 row_get_SomeD [OF 1(3)] sel by (auto simp: runs_stay_def row_get_put)
  qed
qed (use assms(3) in \<open>auto dest!: session_InlD simp: runs_stay_def\<close>)

lemma budget_state_stays: "budget_state M wall now db = (r, db') \<Longrightarrow> runs_stay db db'"
proof (cases r)
  case (Inr x)
  assume "budget_state M wall now db = (r, db')"
  then obtain b db1 c where l: "locked_budget M (now_or now wall) db = (Inr b, db1)"
    and s: "reclaim_stale b (now_or now wall) db1 = (Inr c, db')"
    using Inr by (auto simp: budget_state_def Let_def session_Inr prog_simps split: prod.splits sum.splits)
  show ?thesis using reclaim_stale_stays [OF s] locked_budget_stays [OF l] by (simp add: runs_stay_def)
qed (auto simp: budget_state_def Let_def runs_stay_def dest!: session_InlD)

definition guard_good :: "guard_state \<Rightarrow> bool" where
  "guard_good g = (case g of (db, reads, undisturbed) \<Rightarrow>
     accounts_kept undisturbed db \<and> (\<forall>row\<in>set reads. read_run (tb_runs db) row))"

lemma budget_step_good: "budget_step L g g' \<Longrightarrow> guard_good g \<Longrightarrow> guard_good g'"
proof (induction rule: budget_step.induct)
  case (admitting M cost db d m p f t r db' reads u)
  then show ?case
    using reserve_admit_kept [of u db M cost] reserve_admit_stays read_run_stays by (fastforce simp: guard_good_def)
next
  case (loading k db row reads u)
  then have "row_get orr_run_id k (tb_runs db) = Some row" by (simp add: finalise_read_app split: option.splits)
  from row_get_SomeD [OF this] this have "read_run (tb_runs db) row"
    using loading accounts_keptD(3) by (auto simp: guard_good_def read_run_def)
  then show ?case using loading by (simp add: guard_good_def)
next
  case (settling M s row reads t db x db' u)
  then have rd: "read_run (tb_runs db) row" and kept: "accounts_kept u db" by (simp_all add: guard_good_def)
  have "accounts_kept (u \<and> row_get orr_run_id (orr_run_id row) (tb_runs db) = Some row) db'"
  proof (cases x)
    case (Inl e)
    then show ?thesis using settling(4) kept by (auto dest!: session_InlD elim!: accounts_kept_weaken)
  next
    case (Inr y)
    then show ?thesis using finalise_locked_kept [OF kept settling(1,2) rd] settling(4) by (simp add: session_Inr)
  qed
  moreover have "\<forall>r\<in>set (remove1 row reads). read_run (tb_runs db') r"
    using settling(5) read_run_stays [OF finalise_locked_stays [OF settling(2) rd settling(4)]] set_remove1_subset
    by (fastforce simp: guard_good_def)
  ultimately show ?case by (simp add: guard_good_def)
next
  case (reading M db wall now b db' reads u)
  then show ?case
    using budget_state_kept [of u db M] budget_state_stays read_run_stays by (fastforce simp: guard_good_def)
qed

lemma budget_steps_good: "(budget_step L)\<^sup>*\<^sup>* g g' \<Longrightarrow> guard_good g \<Longrightarrow> guard_good g'"
  by (induction rule: rtranclp_induct) (auto intro: budget_step_good)

text \<open>C25: However the sessions of the guard interleave from the empty database on, with settlements of
  any cost that read their run at one time and write it back at another, no cost of a run is ever missing
  from what the budget row has spent, and it never holds more as reserved than the open reservations. As
  long as every settlement has found its run as it read it, both are exact, and spent and reserved together
  exceed the limit by no more than settled runs cost beyond their reservations: not at all, if none did.\<close>

theorem budget_never_exceeded:
  assumes "(budget_step L)\<^sup>*\<^sup>* (empty_database, [], True) (db, reads, undisturbed)"
  shows "case row_get obr_budget_key BUDGET_KEY (tb_budgets db) of
      None \<Rightarrow> tb_runs db = []
    | Some b \<Rightarrow>
        spent_total (tb_runs db) \<le> obr_spent_usd b \<and> obr_reserved_usd b \<le> open_total (tb_runs db) \<and>
        (undisturbed \<longrightarrow>
           obr_reserved_usd b = open_total (tb_runs db) \<and> obr_spent_usd b = spent_total (tb_runs db) \<and>
           obr_spent_usd b + obr_reserved_usd b \<le> obr_limit_usd b + overrun_total (tb_runs db) \<and>
           ((\<forall>r\<in>set (tb_runs db). orr_actual_cost_usd r \<le> orr_reserved_cost_usd r) \<longrightarrow>
              obr_spent_usd b + obr_reserved_usd b \<le> obr_limit_usd b))"
  using budget_steps_good [OF assms] accounts_good_empty overrun_covered [of "tb_runs db"]
  by (auto simp: guard_good_def accounts_kept_def budget_row_kept_def split: option.splits)

text \<open>A call is admitted only within the caps: a reservation that is granted is the one new
  run, costs at most the per-run cap and leaves spent and reserved together within the project
  limit; a reused run is the latest completed one of the same request and changes nothing, as
  does a refusal.\<close>

theorem reservation_within_caps:
  assumes "accounts_good db" and "manager_good M" and "amount cost"
    and "budget_reserve L M wall d m p f cost now db = (r, db')"
  shows "case r of
      Inl e \<Rightarrow> db' = db
    | Inr (x, True) \<Rightarrow> db' = db \<and> (\<exists>row. completed_run (request_key L d m p f) db = Some row \<and> run_to_model row = Inr x)
    | Inr (x, False) \<Rightarrow> cost \<le> bm_per_run_limit_usd M \<and> completed_run (request_key L d m p f) db = None \<and>
        (\<exists>row b. tb_runs db' = reclaimed (now_or now wall) (tb_runs db) @ [row] \<and> run_to_model row = Inr x \<and>
           orr_status row = RUN_RESERVED \<and> orr_reserved_cost_usd row = cost \<and>
           row_get obr_budget_key BUDGET_KEY (tb_budgets db') = Some b \<and>
           obr_spent_usd b + obr_reserved_usd b \<le> bm_limit_usd M)"
  using assms(4)
proof (cases rule: budget_reserve_cases)
  case (admitted b db1 c db2 y)
  obtain x q where y: "y = (x, q)" by fastforce
  have at: "accounts_at True M b db1" "tb_runs db1 = tb_runs db" "obr_spent_usd b + obr_reserved_usd b \<le> bm_limit_usd M"
    using locked_budget_at [OF assms(1,2) admitted(3)] by auto
  from reclaim_stale_at [OF at(1,3) _ admitted(4)]
  have c: "accounts_at True M c db2" "tb_runs db2 = reclaimed (now_or now wall) (tb_runs db)" by (auto simp: at)
  from reserve_locked_at [OF c(1) assms(3)] admitted(5) y
  have "\<not> q" and "\<exists>row b. tb_runs db' = tb_runs db2 @ [row] \<and> run_to_model row = Inr x \<and>
       orr_status row = RUN_RESERVED \<and> orr_reserved_cost_usd row = cost \<and>
       row_get obr_budget_key BUDGET_KEY (tb_budgets db') = Some b \<and>
       obr_spent_usd b + obr_reserved_usd b \<le> bm_limit_usd M" by blast+
  then show ?thesis using admitted c y by auto
qed auto

text \<open>A run is settled once: after a settlement has returned, every later settlement of the
  run, with whatever outcome and cost, returns the stored record and changes nothing.\<close>

theorem run_settled_once:
  assumes "budget_finalise M wall k s now db = (Inr x, db1)" and "st_status s \<noteq> RUN_RESERVED"
    and "0 \<le> st_actual_cost_usd s'"
  shows "budget_finalise M' wall' k s' now' db1 = (Inr x, db1)"
proof -
  have "\<exists>row. row_get orr_run_id k (tb_runs db1) = Some row \<and> orr_status row \<noteq> RUN_RESERVED \<and>
      run_to_model row = Inr x"
    using assms(1)
  proof (cases rule: budget_finalise_cases)
    case (settled_now row b db0 y)
    let ?s = "settled_run s (now_or now wall) row"
    have "tb_runs db0 = tb_runs db"
      using settled_now(3) by (auto simp: locked_budget_def Let_def split: option.splits if_splits)
    then have "row_get orr_run_id k (tb_runs db1) = Some ?s"
      using settled_now(1) row_get_SomeD [OF settled_now(1)] by (simp add: settled_now(4) row_get_put)
    then show ?thesis using settled_now assms(2) by auto
  qed auto
  then show ?thesis using assms(3) by (auto simp: budget_finalise_def not_less session_Inr bind_app finalise_read_app)
qed

text \<open>C26: Once spent and reserved together exceed the limit (a call that cost more than its
  reservation can do this), the guard locks up: no new run is admitted, no open reservation can be
  settled, failed runs included, and the state of the budget cannot be read. Each of these raises a
  configuration error and changes nothing.\<close>

theorem overrun_locks_budget:
  assumes "row_get obr_budget_key BUDGET_KEY (tb_budgets db) = Some b"
    and "bm_limit_usd M < dadd (obr_spent_usd b) (obr_reserved_usd b)"
  shows "(completed_run (request_key L d m p f) db = None \<and> cost \<le> bm_per_run_limit_usd M \<longrightarrow>
      budget_reserve L M wall d m p f cost now db =
        (Inl (err OpenAIBudgetConfigurationError
           ''configured OpenAI budget is below already spent or reserved cost''), db)) \<and>
    (\<forall>row. row_get orr_run_id k (tb_runs db) = Some row \<and> orr_status row = RUN_RESERVED \<and>
        0 \<le> st_actual_cost_usd s \<longrightarrow>
      budget_finalise M wall k s now db =
        (Inl (err OpenAIBudgetConfigurationError
           ''configured OpenAI budget is below already spent or reserved cost''), db)) \<and>
    budget_state M wall now db =
      (Inl (err OpenAIBudgetConfigurationError
         ''configured OpenAI budget is below already spent or reserved cost''), db)"
proof -
  have "locked_budget M t db = (Inl (err OpenAIBudgetConfigurationError
      ''configured OpenAI budget is below already spent or reserved cost''), db)" for t
    using assms by (simp add: locked_budget_def)
  then show ?thesis
    by (auto simp: budget_reserve_def reserve_admit_def budget_finalise_def finalise_read_app finalise_locked_def
        budget_state_def Let_def session_app bind_app)
qed

section \<open>A sample run\<close>

definition sample_budget :: budget_manager where
  "sample_budget = \<lparr>bm_limit_usd = 1, bm_per_run_limit_usd = 1/2, bm_reservation_ttl = 600000000\<rparr>"

definition sample_reserve :: "(agent_run_record \<times> bool) res \<times> database" where
  "sample_reserve = budget_reserve sample_lib sample_budget (utc 0) ''dec_1'' ''gpt-5-nano'' ''v2'' ''ctx''
     (1/100) None empty_database"

definition sample_run_id :: string where
  "sample_run_id = llm_run_id sample_lib (request_key sample_lib ''dec_1'' ''gpt-5-nano'' ''v2'' ''ctx'') 1"

definition sample_failure :: "rat \<Rightarrow> settlement" where
  "sample_failure cost =
     \<lparr>st_status = RUN_FAILED, st_usage = None, st_actual_cost_usd = cost, st_response_id = None,
      st_review = None, st_error_code = Some ''timeout'', st_validation_errors = []\<rparr>"

definition sample_settle :: "rat \<Rightarrow> agent_run_record res \<times> database" where
  "sample_settle cost =
     budget_finalise sample_budget (utc 1) sample_run_id (sample_failure cost) None (snd sample_reserve)"

lemma sample_amount: "amount (1/100)" "amount 1"
proof -
  have "micro (1/100)" unfolding micro_def by (rule exI [of _ 10000]) simp
  moreover have "micro 1" unfolding micro_def by (rule exI [of _ 1000000]) simp
  ultimately show "amount (1/100)" "amount 1" by (simp_all add: amount_def)
qed

lemma sample_budget_good: "manager_good sample_budget"
  using sample_amount by (simp add: manager_good_def sample_budget_def new_budget_manager_def)

lemma sample_reserve_ok: "\<not> isl (fst sample_reserve)"
  by code_simp

lemma sample_settle_ok: "\<not> isl (fst (sample_settle 2))"
  by code_simp

lemma sample_overrun:
  "map_option (\<lambda>b. bm_limit_usd sample_budget < dadd (obr_spent_usd b) (obr_reserved_usd b))
     (row_get obr_budget_key BUDGET_KEY (tb_budgets (snd (sample_settle 2)))) = Some True"
  by code_simp

lemma sample_reserved_runs:
  "map (\<lambda>r. (orr_run_id r, orr_status r, orr_reserved_cost_usd r)) (tb_runs (snd sample_reserve)) =
     [(sample_run_id, RUN_RESERVED, 1/100)]"
  by code_simp

lemma sample_reserve_pair: "budget_reserve sample_lib sample_budget (utc 0) ''dec_1'' ''gpt-5-nano'' ''v2'' ''ctx''
     (1/100) None empty_database = (fst sample_reserve, snd sample_reserve)"
  by (simp add: sample_reserve_def)

lemma budget_never_exceeded_witness:
  "\<exists>db b. (budget_step sample_lib)\<^sup>*\<^sup>* (empty_database, [], True) (db, [], True) \<and>
     open_total (tb_runs db) = 1/100 \<and> row_get obr_budget_key BUDGET_KEY (tb_budgets db) = Some b \<and>
     obr_reserved_usd b = 1/100 \<and> obr_spent_usd b + obr_reserved_usd b \<le> obr_limit_usd b"
proof -
  let ?db = "snd sample_reserve"
  have run: "completed_run (request_key sample_lib ''dec_1'' ''gpt-5-nano'' ''v2'' ''ctx'') empty_database = None"
    by (simp add: completed_run_def first_desc_def empty_database_def sorted_desc_def)
  have "?db \<noteq> empty_database" using sample_reserved_runs by (auto simp: empty_database_def)
  with budget_reserve_admits [OF sample_reserve_pair]
  have "session (reserve_admit sample_lib sample_budget ''dec_1'' ''gpt-5-nano'' ''v2'' ''ctx'' (1/100) (now_or None (utc 0)))
      empty_database = (fst sample_reserve, ?db)" by blast
  moreover have "open_total (tb_runs empty_database) \<le> 10 ^ 21" by (simp add: empty_database_def)
  ultimately have steps: "(budget_step sample_lib)\<^sup>*\<^sup>* (empty_database, [], True) (?db, [], True)"
    by (intro r_into_rtranclp budget_step.admitting [OF sample_budget_good sample_amount(1)])
  from sample_reserved_runs obtain r where r: "tb_runs ?db = [r]"
    "orr_status r = RUN_RESERVED" "orr_reserved_cost_usd r = 1/100" by (auto simp: map_eq_Cons_conv)
  then have o: "open_total (tb_runs ?db) = 1/100" by (simp add: open_cost_def)
  have "run_good r"
    using budget_steps_good [OF steps] accounts_good_empty r(1) accounts_keptD(3) [of True ?db r]
    by (simp add: guard_good_def)
  then have "\<forall>x\<in>set (tb_runs ?db). orr_actual_cost_usd x \<le> orr_reserved_cost_usd x"
    using r by (simp add: run_good_def)
  with budget_never_exceeded [OF steps] steps o r(1) show ?thesis
    by (cases "row_get obr_budget_key BUDGET_KEY (tb_budgets ?db)") auto
qed

text \<open>What may happen otherwise: a settlement reads the run, then a read of the budget charges the
  reservation as stale, and then the settlement goes on. The run is charged its cost, and the budget that
  and the reservation.\<close>

definition sample_reclaimed :: database where
  "sample_reclaimed = snd (budget_state sample_budget (utc 600000001) None (snd sample_reserve))"

definition sample_late :: "agent_run_record res \<times> database" where
  "sample_late =
     bind (finalise_read sample_run_id) (\<lambda>row _. session
       (finalise_locked sample_budget (sample_failure (1/200)) (utc 600000002) row) sample_reclaimed)
       (snd sample_reserve)"

lemma stale_settlement_charges_twice:
  "\<not> isl (fst sample_late) \<and> map orr_actual_cost_usd (tb_runs (snd sample_late)) = [1/200] \<and>
   map obr_spent_usd (tb_budgets (snd sample_late)) = [3/200]"
  by code_simp

text \<open>A settlement of two dollars against a reservation of a cent locks the budget of one dollar.\<close>

lemma overrun_locks_budget_witness:
  "budget_state sample_budget (utc 2) None (snd (sample_settle 2)) =
     (Inl (err OpenAIBudgetConfigurationError
        ''configured OpenAI budget is below already spent or reserved cost''), snd (sample_settle 2))"
proof -
  from sample_overrun obtain b where b: "row_get obr_budget_key BUDGET_KEY (tb_budgets (snd (sample_settle 2))) = Some b"
    "bm_limit_usd sample_budget < dadd (obr_spent_usd b) (obr_reserved_usd b)" by auto
  show ?thesis using overrun_locks_budget [OF b] by blast
qed

end
