(* ===== verification/Decision_Ledger.thy ===== *)
theory Decision_Ledger
  imports Store "HOL-Library.AList"
begin

text \<open>
  \<^verbatim>\<open>src/src/promiseguard/ledger.py\<close>: the two ledgers behind the protocol \<open>DecisionLedger\<close>.
  The locale \<open>decision_ledger\<close> states the contract (write once, idempotent replay, conflict
  on a different content) and proves what a client of any ledger may rely on; both the
  in-memory and the relational ledger are interpretations of it.
\<close>

section \<open>The in-memory ledger\<close>

record in_memory_ledger =
  ml_records :: "(string \<times> decision_trace) list"
  ml_fingerprints :: "(string \<times> string) list"

definition empty_in_memory_ledger :: in_memory_ledger where
  "empty_in_memory_ledger = \<lparr>ml_records = [], ml_fingerprints = []\<rparr>"

definition trace_fingerprint :: "lib \<Rightarrow> decision_trace \<Rightarrow> string" where
  "trace_fingerprint L t = canonical_fingerprint L (json_trace L t)"

definition memory_record :: "lib \<Rightarrow> decision_trace \<Rightarrow> (in_memory_ledger, decision_trace) prog" where
  "memory_record L t = (\<lambda>s.
     let fingerprint = trace_fingerprint L t; key = dt_decision_id t
     in case map_of (ml_records s) key of
       None \<Rightarrow>
         (Inr t, s\<lparr>ml_records := AList.update key t (ml_records s),
                   ml_fingerprints := AList.update key fingerprint (ml_fingerprints s)\<rparr>)
     | Some existing \<Rightarrow>
         case map_of (ml_fingerprints s) key of
           None \<Rightarrow> (Inl (err KeyError (repr_str key)), s)
         | Some f \<Rightarrow>
             if f \<noteq> fingerprint
             then (Inl (err LedgerConflictError
                     ''decision replay conflicts with the immutable ledger record''), s)
             else (Inr existing, s))"

definition memory_get :: "string \<Rightarrow> in_memory_ledger \<Rightarrow> decision_trace option" where
  "memory_get decision_id s = map_of (ml_records s) decision_id"

definition memory_count :: "in_memory_ledger \<Rightarrow> nat" where
  "memory_count s = length (ml_records s)"

section \<open>The relational ledger\<close>

definition sql_record :: "lib \<Rightarrow> decision_trace \<Rightarrow> (database, decision_trace) prog" where
  "sql_record L t =
     catch (session (decision_record L t))
       (\<lambda>e. if exn_cls e = PersistenceConflictError
            then raise (err LedgerConflictError (exn_str e)) else raise e)"

definition sql_get :: "string \<Rightarrow> database \<Rightarrow> decision_trace option" where
  "sql_get decision_id db = decision_get decision_id db"

definition sql_count :: "database \<Rightarrow> nat" where
  "sql_count db = decision_count db"

definition sql_list_recent :: "nat \<Rightarrow> string option \<Rightarrow> database \<Rightarrow> decision_trace list" where
  "sql_list_recent limit tenant_id db = decision_list_recent limit tenant_id db"

section \<open>The contract\<close>

text \<open>\<open>good\<close> is the representation invariant of the provider, \<open>same\<close> the comparison of two
  traces by fingerprint.\<close>

locale decision_ledger =
  fixes put :: "decision_trace \<Rightarrow> ('s, decision_trace) prog"
    and look :: "string \<Rightarrow> 's \<Rightarrow> decision_trace option"
    and size_of :: "'s \<Rightarrow> nat"
    and good :: "'s \<Rightarrow> bool"
    and same :: "decision_trace \<Rightarrow> decision_trace \<Rightarrow> bool"
  assumes same_refl: "same t t"
    and look_id: "good s \<Longrightarrow> look k s = Some t \<Longrightarrow> dt_decision_id t = k"
    and put_fresh: "good s \<Longrightarrow> look (dt_decision_id t) s = None \<Longrightarrow>
      \<exists>s'. put t s = (Inr t, s') \<and> good s' \<and> look (dt_decision_id t) s' = Some t \<and>
        (\<forall>k. k \<noteq> dt_decision_id t \<longrightarrow> look k s' = look k s) \<and> size_of s' = Suc (size_of s)"
    and put_replay: "good s \<Longrightarrow> look (dt_decision_id t) s = Some old \<Longrightarrow> same old t \<Longrightarrow>
      put t s = (Inr old, s)"
    and put_conflict: "good s \<Longrightarrow> look (dt_decision_id t) s = Some old \<Longrightarrow> \<not> same old t \<Longrightarrow>
      put t s = (Inl (err LedgerConflictError
        ''decision replay conflicts with the immutable ledger record''), s)"

text \<open>A sequence of attempts to record, each with its own result.\<close>

fun put_all :: "('t \<Rightarrow> ('s, 'a) prog) \<Rightarrow> 't list \<Rightarrow> 's \<Rightarrow> 's" where
  "put_all put [] s = s"
| "put_all put (t # ts) s = put_all put ts (snd (put t s))"

context decision_ledger begin

lemma put_cases:
  assumes "good s"
  obtains (fresh) s' where "look (dt_decision_id t) s = None" "put t s = (Inr t, s')" "good s'"
      "look (dt_decision_id t) s' = Some t" "size_of s' = Suc (size_of s)"
      "\<And>k. k \<noteq> dt_decision_id t \<Longrightarrow> look k s' = look k s"
  | (replay) old where "look (dt_decision_id t) s = Some old" "same old t" "put t s = (Inr old, s)"
  | (conflict) old where "look (dt_decision_id t) s = Some old" "\<not> same old t"
      "put t s = (Inl (err LedgerConflictError
        ''decision replay conflicts with the immutable ledger record''), s)"
  using assms put_fresh [of s t] put_replay [of s t] put_conflict [of s t]
  by (cases "look (dt_decision_id t) s") blast+

lemma put_good: "good s \<Longrightarrow> good (snd (put t s))"
  by (rule put_cases [of s t]) auto

lemma put_immutable: "good s \<Longrightarrow> look k s = Some x \<Longrightarrow> look k (snd (put t s)) = Some x"
  by (rule put_cases [of s t]) (auto, metis option.distinct(1))

lemma put_InrD:
  "good s \<Longrightarrow> put t s = (Inr x, s') \<Longrightarrow>
     good s' \<and> look (dt_decision_id t) s' = Some x \<and> dt_decision_id x = dt_decision_id t \<and> same x t"
  by (rule put_cases [of s t]) (auto intro: same_refl look_id)

lemma put_InlD: "good s \<Longrightarrow> put t s = (Inl e, s') \<Longrightarrow> s' = s \<and> exn_cls e = LedgerConflictError"
  by (rule put_cases [of s t]) auto

text \<open>Recording what was recorded changes nothing and returns the record.\<close>

lemma put_idempotent: "good s \<Longrightarrow> put t s = (Inr x, s') \<Longrightarrow> put t s' = (Inr x, s')"
  using put_InrD [of s t x s'] put_replay [of s' t x] by auto

lemma put_all_good: "good s \<Longrightarrow> good (put_all put ts s)"
  by (induction ts arbitrary: s) (auto simp: put_good)

lemma put_all_immutable: "good s \<Longrightarrow> look k s = Some x \<Longrightarrow> look k (put_all put ts s) = Some x"
  by (induction ts arbitrary: s) (auto simp: put_good put_immutable)

text \<open>A recorded decision is replayed unchanged after any further attempts.\<close>

lemma put_stable:
  assumes "good s" and "put t s = (Inr x, s')"
  shows "put t (put_all put ts s') = (Inr x, put_all put ts s')"
  using put_InrD [OF assms] put_all_good [of s' ts] put_all_immutable [of s' "dt_decision_id t" x ts]
    put_replay [of "put_all put ts s'" t x]
  by blast

lemma put_size: "good s \<Longrightarrow> size_of (snd (put t s)) =
    size_of s + (if look (dt_decision_id t) s = None then 1 else 0)"
  by (rule put_cases [of s t]) auto

end

section \<open>Both ledgers keep it\<close>

definition same_trace :: "lib \<Rightarrow> decision_trace \<Rightarrow> decision_trace \<Rightarrow> bool" where
  "same_trace L t u \<longleftrightarrow> trace_fingerprint L t = trace_fingerprint L u"

definition memory_good :: "lib \<Rightarrow> in_memory_ledger \<Rightarrow> bool" where
  "memory_good L s \<longleftrightarrow>
     (\<forall>(k, t) \<in> set (ml_records s). dt_decision_id t = k) \<and>
     (\<forall>(k, t) \<in> set (ml_records s). map_of (ml_fingerprints s) k = Some (trace_fingerprint L t))"

definition decision_row_good :: "lib \<Rightarrow> decision_row \<Rightarrow> bool" where
  "decision_row_good L r \<longleftrightarrow>
     dcr_decision_id r = dt_decision_id (dcr_trace r) \<and>
     dcr_event_id r = dt_event_id (dcr_trace r) \<and>
     dcr_order_id r = dt_order_id (dcr_trace r) \<and>
     dcr_tenant_id r = dt_tenant_id (dcr_trace r) \<and>
     dcr_created_at r = dt_created_at (dcr_trace r) \<and>
     dcr_fingerprint r = trace_fingerprint L (dcr_trace r)"

definition decisions_good :: "lib \<Rightarrow> database \<Rightarrow> bool" where
  "decisions_good L db \<longleftrightarrow>
     keys_distinct dcr_decision_id (tb_decisions db) \<and> list_all (decision_row_good L) (tb_decisions db)"

lemma update_new: "map_of xs k = None \<Longrightarrow> AList.update k v xs = xs @ [(k, v)]"
  by (induction xs) (auto split: if_splits)

interpretation memory: decision_ledger "memory_record L" memory_get memory_count "memory_good L" "same_trace L"
  for L
proof unfold_locales
  fix s k and t :: decision_trace
  show "same_trace L t t" by (simp add: same_trace_def)
  show "memory_good L s \<Longrightarrow> memory_get k s = Some t \<Longrightarrow> dt_decision_id t = k"
    by (auto simp: memory_good_def memory_get_def dest!: map_of_SomeD)
next
  fix s and t :: decision_trace
  assume g: "memory_good L s" and "memory_get (dt_decision_id t) s = None"
  then have n: "map_of (ml_records s) (dt_decision_id t) = None" by (simp add: memory_get_def)
  then have notin: "(dt_decision_id t, x) \<notin> set (ml_records s)" for x
    by (auto simp: map_of_eq_None_iff image_iff)
  show "\<exists>s'. memory_record L t s = (Inr t, s') \<and> memory_good L s' \<and>
      memory_get (dt_decision_id t) s' = Some t \<and>
      (\<forall>k. k \<noteq> dt_decision_id t \<longrightarrow> memory_get k s' = memory_get k s) \<and>
      memory_count s' = Suc (memory_count s)"
    using g n notin
    by (auto simp: memory_record_def memory_get_def memory_count_def memory_good_def update_new
        update_conv' Let_def map_add_def split: option.split)
next
  fix s and t old :: decision_trace
  assume g: "memory_good L s" and "memory_get (dt_decision_id t) s = Some old"
  then have o: "map_of (ml_records s) (dt_decision_id t) = Some old" by (simp add: memory_get_def)
  then have f: "map_of (ml_fingerprints s) (dt_decision_id t) = Some (trace_fingerprint L old)"
    using g by (auto simp: memory_good_def dest!: map_of_SomeD)
  show "same_trace L old t \<Longrightarrow> memory_record L t s = (Inr old, s)"
    using o f by (simp add: memory_record_def same_trace_def Let_def)
  show "\<not> same_trace L old t \<Longrightarrow> memory_record L t s =
      (Inl (err LedgerConflictError ''decision replay conflicts with the immutable ledger record''), s)"
    using o f by (simp add: memory_record_def same_trace_def Let_def)
qed

lemma sql_record_app:
  "sql_record L t db =
     (case row_get dcr_decision_id (dt_decision_id t) (tb_decisions db) of
        Some r \<Rightarrow>
          if dcr_fingerprint r \<noteq> trace_fingerprint L t
          then (Inl (err LedgerConflictError
                  ''decision replay conflicts with the immutable ledger record''), db)
          else (Inr (dcr_trace r), db)
      | None \<Rightarrow> (Inr t, db\<lparr>tb_decisions := tb_decisions db @
          [\<lparr>dcr_decision_id = dt_decision_id t, dcr_event_id = dt_event_id t,
            dcr_order_id = dt_order_id t, dcr_tenant_id = dt_tenant_id t, dcr_trace = t,
            dcr_fingerprint = trace_fingerprint L t, dcr_created_at = dt_created_at t\<rparr>]\<rparr>))"
  by (auto simp: sql_record_def catch_def session_def decision_record_def trace_fingerprint_def
      split: option.split)

interpretation sql: decision_ledger "sql_record L" sql_get sql_count "decisions_good L" "same_trace L"
  for L
proof unfold_locales
  fix s k and t :: decision_trace
  show "same_trace L t t" by (simp add: same_trace_def)
  show "decisions_good L s \<Longrightarrow> sql_get k s = Some t \<Longrightarrow> dt_decision_id t = k"
    by (auto simp: decisions_good_def sql_get_def decision_get_def decision_row_good_def list_all_iff
        dest!: row_get_SomeD)
next
  fix s and t :: decision_trace
  assume g: "decisions_good L s" and "sql_get (dt_decision_id t) s = None"
  then have n: "row_get dcr_decision_id (dt_decision_id t) (tb_decisions s) = None"
    by (simp add: sql_get_def decision_get_def)
  then have notin: "dt_decision_id t \<notin> dcr_decision_id ` set (tb_decisions s)"
    by (simp add: row_get_None)
  show "\<exists>s'. sql_record L t s = (Inr t, s') \<and> decisions_good L s' \<and>
      sql_get (dt_decision_id t) s' = Some t \<and>
      (\<forall>k. k \<noteq> dt_decision_id t \<longrightarrow> sql_get k s' = sql_get k s) \<and> sql_count s' = Suc (sql_count s)"
    using g n notin
    by (auto simp: sql_record_app sql_get_def decision_get_def sql_count_def decision_count_def
        decisions_good_def keys_distinct_def decision_row_good_def row_get_append
        split: option.split)
next
  fix s and t old :: decision_trace
  assume g: "decisions_good L s" and "sql_get (dt_decision_id t) s = Some old"
  then obtain r where r: "row_get dcr_decision_id (dt_decision_id t) (tb_decisions s) = Some r"
    "dcr_trace r = old" by (auto simp: sql_get_def decision_get_def)
  then have f: "dcr_fingerprint r = trace_fingerprint L old"
    using g by (auto simp: decisions_good_def decision_row_good_def list_all_iff dest!: row_get_SomeD)
  show "same_trace L old t \<Longrightarrow> sql_record L t s = (Inr old, s)"
    using r f by (simp add: sql_record_app same_trace_def)
  show "\<not> same_trace L old t \<Longrightarrow> sql_record L t s =
      (Inl (err LedgerConflictError ''decision replay conflicts with the immutable ledger record''), s)"
    using r f by (simp add: sql_record_app same_trace_def)
qed

section \<open>Properties\<close>

text \<open>C9: A decision once recorded in the relational ledger is never altered: whatever traces
  are recorded afterwards, with or without conflicts, the identifier still maps to it, and
  recording the same trace again returns it without a change.\<close>

theorem sql_ledger_immutable:
  assumes "decisions_good L db" and "sql_record L t db = (Inr x, db')"
  shows "sql_get (dt_decision_id t) (put_all (sql_record L) ts db') = Some x \<and>
    sql_record L t (put_all (sql_record L) ts db') = (Inr x, put_all (sql_record L) ts db')"
  using sql.put_InrD [OF assms] sql.put_all_immutable sql.put_stable [OF assms] by blast

lemma sql_ledger_immutable_witness:
  "\<forall>t. sql_get (dt_decision_id t) (put_all (sql_record sample_lib) [t] (snd (sql_record sample_lib t empty_database))) = Some t"
proof
  fix t :: decision_trace
  have g: "decisions_good L empty_database" for L
    by (simp add: decisions_good_def empty_database_def keys_distinct_def)
  obtain db' where r: "sql_record sample_lib t empty_database = (Inr t, db')"
    by (simp add: sql_record_app empty_database_def)
  show "sql_get (dt_decision_id t) (put_all (sql_record sample_lib) [t]
      (snd (sql_record sample_lib t empty_database))) = Some t"
    using sql_ledger_immutable [OF g r, of "[t]"] r by simp
qed

text \<open>C10: Whatever is recorded, a replayed identifier whose content has another fingerprint is
  refused with \<open>LedgerConflictError\<close> and changes nothing; any other record succeeds.\<close>

theorem ledgers_conflict_iff:
  assumes "decisions_good L db" and "memory_good L ml"
  shows "((\<exists>e db'. sql_record L t db = (Inl e, db')) \<longleftrightarrow>
      (\<exists>old. sql_get (dt_decision_id t) db = Some old \<and> \<not> same_trace L old t)) \<and>
    (\<forall>e db'. sql_record L t db = (Inl e, db') \<longrightarrow> db' = db \<and> exn_cls e = LedgerConflictError) \<and>
    ((\<exists>e ml'. memory_record L t ml = (Inl e, ml')) \<longleftrightarrow>
      (\<exists>old. memory_get (dt_decision_id t) ml = Some old \<and> \<not> same_trace L old t)) \<and>
    (\<forall>e ml'. memory_record L t ml = (Inl e, ml') \<longrightarrow> ml' = ml \<and> exn_cls e = LedgerConflictError)"
proof -
  have "(\<exists>e db'. sql_record L t db = (Inl e, db')) \<longleftrightarrow>
      (\<exists>old. sql_get (dt_decision_id t) db = Some old \<and> \<not> same_trace L old t)"
    by (rule sql.put_cases [OF assms(1), of t]) auto
  moreover have "(\<exists>e ml'. memory_record L t ml = (Inl e, ml')) \<longleftrightarrow>
      (\<exists>old. memory_get (dt_decision_id t) ml = Some old \<and> \<not> same_trace L old t)"
    by (rule memory.put_cases [OF assms(2), of t]) auto
  ultimately show ?thesis
    using sql.put_InlD [OF assms(1)] memory.put_InlD [OF assms(2)] by blast
qed

lemma ledgers_conflict_iff_witness:
  "\<forall>t. (\<nexists>e db'. sql_record sample_lib t empty_database = (Inl e, db')) \<and>
    (\<nexists>e ml'. memory_record sample_lib t empty_in_memory_ledger = (Inl e, ml'))"
proof
  fix t :: decision_trace
  have g: "decisions_good sample_lib empty_database" "memory_good sample_lib empty_in_memory_ledger"
    by (simp_all add: decisions_good_def memory_good_def empty_database_def empty_in_memory_ledger_def
        keys_distinct_def)
  show "(\<nexists>e db'. sql_record sample_lib t empty_database = (Inl e, db')) \<and>
    (\<nexists>e ml'. memory_record sample_lib t empty_in_memory_ledger = (Inl e, ml'))"
    using ledgers_conflict_iff [OF g, of t]
    by (simp add: sql_get_def decision_get_def memory_get_def empty_database_def
        empty_in_memory_ledger_def)
qed

end
