(* ===== verification/Identity_Feedback.thy ===== *)
theory Identity_Feedback
  imports Decision_Ledger
begin

text \<open>
  \<^verbatim>\<open>src/src/promiseguard/identity.py\<close>, \<^verbatim>\<open>feedback.py\<close> and the boolean parser of
  \<^verbatim>\<open>config.py\<close>: the local identity directory, the binding of an actor to the role it
  claims, separation of duties, and the feedback service that relies on the binding. The
  process environment is an association list.
\<close>

type_synonym environ = "(string \<times> string) list"

definition getenv :: "environ \<Rightarrow> string \<Rightarrow> string \<Rightarrow> string" where
  "getenv env k d = (case map_of env k of None \<Rightarrow> d | Some v \<Rightarrow> v)"

section \<open>Boolean settings\<close>

definition true_words :: "string list" where
  "true_words = [''1'', ''true'', ''yes'', ''on'']"

definition false_words :: "string list" where
  "false_words = [''0'', ''false'', ''no'', ''off'']"

definition parse_bool :: "string \<Rightarrow> string \<Rightarrow> bool res" where
  "parse_bool value name =
     (let normalised = lower (strip value)
      in if normalised \<in> set true_words then Inr True
         else if normalised \<in> set false_words then Inr False
         else Inl (err ValueError (name @ '' must be a boolean value'')))"

section \<open>The directory\<close>

definition LOCAL_IDENTITY_DIRECTORY :: "(string \<times> user_role) list" where
  "LOCAL_IDENTITY_DIRECTORY =
     [(''operations-manager-ui'', OPERATIONS_MANAGER),
      (''operations-analyst-ui'', OPERATIONS_ANALYST),
      (''auditor-ui'', AUDITOR),
      (''promiseguard-service'', SERVICE_IDENTITY),
      (''openai-smoke'', SERVICE_IDENTITY),
      (''eval-runner'', SERVICE_IDENTITY)]"

definition strict_local_identity_enabled :: "environ \<Rightarrow> bool" where
  "strict_local_identity_enabled env \<longleftrightarrow>
     lower (strip (getenv env ''PROMISEGUARD_STRICT_LOCAL_IDENTITY'' ''false'')) \<in> set true_words"

definition bind_claimed_role :: "environ \<Rightarrow> string \<Rightarrow> user_role \<Rightarrow> bool option \<Rightarrow> user_role res" where
  "bind_claimed_role env actor_id claimed_role strict =
     (let enforce_strict = (case strict of None \<Rightarrow> strict_local_identity_enabled env | Some b \<Rightarrow> b)
      in case map_of LOCAL_IDENTITY_DIRECTORY actor_id of
           Some registered \<Rightarrow>
             if claimed_role \<noteq> registered
             then Inl (err IdentityError (''actor '' @ repr_str actor_id @ '' is registered as '' @
                    user_role_value registered @ '' and cannot claim '' @ user_role_value claimed_role))
             else Inr registered
         | None \<Rightarrow>
             if enforce_strict
             then Inl (err IdentityError (''actor '' @ repr_str actor_id @
                    '' is not in the local identity directory''))
             else Inr claimed_role)"

definition assert_separation_of_duties :: "string \<Rightarrow> string \<Rightarrow> unit res" where
  "assert_separation_of_duties requested_by decided_by =
     (if requested_by = decided_by
      then Inl (err IdentityError ''requester cannot approve or reject their own request'')
      else Inr ())"

definition DEFAULT_TENANT_ID :: string where
  "DEFAULT_TENANT_ID = ''local-default''"

definition normalise_tenant_id :: "string option \<Rightarrow> string" where
  "normalise_tenant_id tenant_id =
     (let candidate = strip (case tenant_id of None \<Rightarrow> DEFAULT_TENANT_ID
                             | Some t \<Rightarrow> if t = [] then DEFAULT_TENANT_ID else t)
      in if candidate = [] then DEFAULT_TENANT_ID else take 80 candidate)"

section \<open>Who may act\<close>

lemma bind_claimed_role_Inr:
  "bind_claimed_role env a r s = Inr x \<longleftrightarrow>
     x = r \<and> (case map_of LOCAL_IDENTITY_DIRECTORY a of
       Some registered \<Rightarrow> r = registered
     | None \<Rightarrow> \<not> (case s of None \<Rightarrow> strict_local_identity_enabled env | Some b \<Rightarrow> b))"
  by (auto simp: bind_claimed_role_def Let_def split: option.split if_splits)

lemma bind_claimed_role_Inl: "bind_claimed_role env a r s = Inl e \<Longrightarrow> exn_cls e = IdentityError"
  by (auto simp: bind_claimed_role_def Let_def split: option.splits if_splits)

lemma service_roles_bound:
  "bind_claimed_role env ''eval-runner'' r s = Inr x \<Longrightarrow> r = SERVICE_IDENTITY"
  by (simp add: bind_claimed_role_Inr LOCAL_IDENTITY_DIRECTORY_def)

lemma separation_Inr [simp]: "assert_separation_of_duties p q = Inr u \<longleftrightarrow> p \<noteq> q"
  by (simp add: assert_separation_of_duties_def)

lemma length_strip: "length (strip s) \<le> length s"
  unfolding strip_def
  by (metis le_trans length_dropWhile_le length_rev)

lemma normalise_tenant_bounds: "len_within 1 80 (normalise_tenant_id t)"
  by (auto simp: normalise_tenant_id_def Let_def len_within_def DEFAULT_TENANT_ID_def Suc_le_eq)

section \<open>Feedback\<close>

text \<open>\<open>isoformat\<close> is the library's text of a datetime.\<close>

definition feedback_service_record ::
  "lib \<Rightarrow> (datetime \<Rightarrow> string) \<Rightarrow> environ \<Rightarrow> datetime \<Rightarrow> string \<Rightarrow> operator_feedback_input
     \<Rightarrow> (database, operator_feedback) prog"
where
  "feedback_service_record L isoformat env now decision_id payload = (\<lambda>db.
     if sql_get decision_id db = None
     then (Inl (err RecordNotFoundError (''decision '' @ repr_str decision_id @ '' not found'')), db)
     else case bind_claimed_role env (fi_actor_id payload) (fi_actor_role payload) None of
       Inl e \<Rightarrow> (Inl e, db)
     | Inr _ \<Rightarrow>
       let material = join ''|'' [decision_id, fi_actor_id payload, isoformat now, fi_comment payload];
           feedback = \<lparr>fb_feedback_id = digest_id L ''fb_'' 24 material,
             fb_decision_id = decision_id, fb_actor_id = fi_actor_id payload,
             fb_actor_role = fi_actor_role payload, fb_useful = fi_useful payload,
             fb_expected_outcome_matched = fi_expected_outcome_matched payload,
             fb_comment = fi_comment payload, fb_created_at = now\<rparr>
       in session (feedback_record feedback) db)"

definition feedback_service_list :: "string \<Rightarrow> (database, operator_feedback list) prog" where
  "feedback_service_list decision_id = (\<lambda>db.
     if sql_get decision_id db = None
     then (Inl (err RecordNotFoundError (''decision '' @ repr_str decision_id @ '' not found'')), db)
     else (Inr (feedback_list_for_decision decision_id db), db))"

lemma feedback_service_record_InrD:
  assumes "feedback_service_record L fmt env now d payload db = (Inr f, db')"
  shows "sql_get d db \<noteq> None" "fb_decision_id f = d" "fb_actor_role f = fi_actor_role payload"
    "tb_feedback db' = tb_feedback db @ [\<lparr>ofr_feedback = f\<rparr>]"
    "db' = db\<lparr>tb_feedback := tb_feedback db'\<rparr>"
    "bind_claimed_role env (fi_actor_id payload) (fi_actor_role payload) None = Inr (fi_actor_role payload)"
  using assms
  by (auto simp: feedback_service_record_def feedback_record_def session_def Let_def bind_claimed_role_Inr
      split: if_splits sum.splits option.splits dest!: row_insert_InrD)

lemma feedback_service_record_Inl: "feedback_service_record L fmt env now d payload db = (Inl e, db') \<Longrightarrow> db' = db"
  by (auto simp: feedback_service_record_def session_def Let_def
      split: if_splits sum.splits option.splits prod.splits)

text \<open>Feedback that was accepted is listed.\<close>

lemma feedback_listed:
  assumes "feedback_service_record L fmt env now d payload db = (Inr f, db')"
  shows "\<exists>fs. feedback_service_list d db' = (Inr fs, db') \<and> f\<lparr>fb_created_at := to_utc (fb_created_at f)\<rparr> \<in> set fs"
  using feedback_service_record_InrD [OF assms]
  by (auto simp: feedback_service_list_def feedback_list_for_decision_def sql_get_def decision_get_def
      image_iff)

section \<open>When a role is bound\<close>

text \<open>A role is bound exactly when the actor is registered under that role, or is unknown
  and strict identity is off; the bound role is the claimed one. A registered actor can
  therefore never act under another role, whatever the environment says.\<close>

lemma role_binding_iff:
  "((\<exists>x. bind_claimed_role env actor role strict = Inr x) \<longleftrightarrow>
      (case map_of LOCAL_IDENTITY_DIRECTORY actor of
         Some registered \<Rightarrow> role = registered
       | None \<Rightarrow> strict = Some False \<or> (strict = None \<and> \<not> strict_local_identity_enabled env))) \<and>
    bind_claimed_role env actor role strict \<in> insert (Inr role) {Inl e |e. exn_cls e = IdentityError}"
  using bind_claimed_role_Inl [of env actor role strict]
  by (cases "bind_claimed_role env actor role strict")
    (auto simp: bind_claimed_role_Inr bind_claimed_role_def Let_def split: option.splits if_splits)

end
