(* ===== verification/Adapters.thy ===== *)
theory Adapters
  imports Identity_Feedback
begin

text \<open>
  \<^verbatim>\<open>src/src/promiseguard/adapters\<close>: the error taxonomy (errors.py), the typed requests and
  responses (contracts.py) and the sandbox systems of record behind the operations port
  (sandbox.py). The locale \<open>operations_contract\<close> states what the action gateway relies on; the
  sandbox interprets it. Correlation identifiers and call logging do not influence a result
  and are left out.
\<close>

section \<open>The error taxonomy\<close>

datatype adapter_error_class =
  AE_SUCCESS | AE_RETRYABLE | AE_FATAL | AE_AMBIGUOUS | AE_CONFLICT | AE_RATE_LIMITED | AE_MALFORMED | AE_AUTH

text \<open>The direct base class, as far as the handlers of the gateway see it.\<close>

fun base_class :: "exn_class \<Rightarrow> exn_class option" where
  "base_class ActionExecutionError = Some AdapterError"
| "base_class AdapterTimeout = Some AdapterError"
| "base_class AmbiguousProviderTimeout = Some AdapterTimeout"
| "base_class AdapterRateLimited = Some AdapterError"
| "base_class MalformedAdapterResponse = Some AdapterError"
| "base_class AdapterAuthError = Some AdapterError"
| "base_class ValidationError = Some ValueError"
| "base_class OverflowError = Some ArithmeticError"
| "base_class _ = None"

definition isa :: "exn_class \<Rightarrow> exn_class \<Rightarrow> bool" where
  "isa c d \<longleftrightarrow> c = d \<or> base_class c = Some d \<or>
     (case base_class c of None \<Rightarrow> False | Some b \<Rightarrow> base_class b = Some d)"

text \<open>The class attributes \<open>error_class\<close>, \<open>retryable\<close> and \<open>ambiguous\<close>.\<close>

fun error_class_of :: "exn_class \<Rightarrow> adapter_error_class" where
  "error_class_of AdapterTimeout = AE_RETRYABLE"
| "error_class_of AmbiguousProviderTimeout = AE_AMBIGUOUS"
| "error_class_of AdapterRateLimited = AE_RATE_LIMITED"
| "error_class_of MalformedAdapterResponse = AE_MALFORMED"
| "error_class_of AdapterAuthError = AE_AUTH"
| "error_class_of _ = AE_FATAL"

fun retryable_of :: "exn_class \<Rightarrow> bool" where
  "retryable_of AdapterTimeout = True"
| "retryable_of AdapterRateLimited = True"
| "retryable_of _ = False"

fun ambiguous_of :: "exn_class \<Rightarrow> bool" where
  "ambiguous_of AmbiguousProviderTimeout = True"
| "ambiguous_of MalformedAdapterResponse = True"
| "ambiguous_of _ = False"

text \<open>\<open>type(exc).__name__\<close>\<close>

fun class_name :: "exn_class \<Rightarrow> string" where
  "class_name ValueError = ''ValueError''"
| "class_name ValidationError = ''ValidationError''"
| "class_name InvalidOperation = ''InvalidOperation''"
| "class_name StopIteration = ''StopIteration''"
| "class_name KeyError = ''KeyError''"
| "class_name AssertionError = ''AssertionError''"
| "class_name IntegrityError = ''IntegrityError''"
| "class_name DataError = ''DataError''"
| "class_name StaleDataError = ''StaleDataError''"
| "class_name ArithmeticError = ''ArithmeticError''"
| "class_name OverflowError = ''OverflowError''"
| "class_name PersistenceConflictError = ''PersistenceConflictError''"
| "class_name RecordNotFoundError = ''RecordNotFoundError''"
| "class_name LedgerConflictError = ''LedgerConflictError''"
| "class_name ApprovalError = ''ApprovalError''"
| "class_name IdentityError = ''IdentityError''"
| "class_name AutonomyControlError = ''AutonomyControlError''"
| "class_name WorkflowError = ''WorkflowError''"
| "class_name AdapterError = ''AdapterError''"
| "class_name ActionExecutionError = ''ActionExecutionError''"
| "class_name AdapterTimeout = ''AdapterTimeout''"
| "class_name AmbiguousProviderTimeout = ''AmbiguousProviderTimeout''"
| "class_name AdapterRateLimited = ''AdapterRateLimited''"
| "class_name MalformedAdapterResponse = ''MalformedAdapterResponse''"
| "class_name AdapterAuthError = ''AdapterAuthError''"
| "class_name UnknownModelPricingError = ''UnknownModelPricingError''"
| "class_name OpenAIBudgetError = ''OpenAIBudgetError''"
| "class_name OpenAIBudgetExceededError = ''OpenAIBudgetExceededError''"
| "class_name OpenAIPerRunLimitError = ''OpenAIPerRunLimitError''"
| "class_name OpenAIBudgetConfigurationError = ''OpenAIBudgetConfigurationError''"
| "class_name OpenAIRunNotFoundError = ''OpenAIRunNotFoundError''"
| "class_name OpenAIAgentUnavailableError = ''OpenAIAgentUnavailableError''"
| "class_name AgentOutputValidationError = ''AgentOutputValidationError''"
| "class_name OpenAIResponseError = ''OpenAIResponseError''"
| "class_name HTTPException = ''HTTPException''"
| "class_name RuntimeError = ''RuntimeError''"
| "class_name SystemExit = ''SystemExit''"
| "class_name HTTPStatusError = ''HTTPStatusError''"
| "class_name TransportError = ''TransportError''"
| "class_name FileNotFoundError = ''FileNotFoundError''"

section \<open>Requests and responses\<close>

record adapter_request_meta =
  rm_idempotency_key :: string
  rm_tenant_id :: string

definition valid_request_meta :: "adapter_request_meta \<Rightarrow> bool" where
  "valid_request_meta m \<longleftrightarrow>
     len_within 8 180 (rm_idempotency_key m) \<and> len_within 1 80 (rm_tenant_id m)"

record wms_reserve_request =
  wq_meta :: adapter_request_meta
  wq_order_id :: string
  wq_sku :: string
  wq_quantity :: int
  wq_location_id :: string

definition valid_wms_reserve :: "wms_reserve_request \<Rightarrow> bool" where
  "valid_wms_reserve q \<longleftrightarrow> valid_request_meta (wq_meta q) \<and> len_within 1 120 (wq_order_id q) \<and>
     len_within 1 120 (wq_sku q) \<and> positive_quantity (wq_quantity q) \<and> len_within 1 80 (wq_location_id q)"

record wms_release_request =
  wr_meta :: adapter_request_meta
  wr_order_id :: string
  wr_location_id :: "string option"

definition valid_wms_release :: "wms_release_request \<Rightarrow> bool" where
  "valid_wms_release q \<longleftrightarrow> valid_request_meta (wr_meta q) \<and> len_within 1 120 (wr_order_id q) \<and>
     (case wr_location_id q of None \<Rightarrow> True | Some l \<Rightarrow> len_within 0 80 l)"

record oms_change_request =
  oq_meta :: adapter_request_meta
  oq_order_id :: string
  oq_from_location :: string
  oq_to_location :: string

definition valid_oms_change :: "oms_change_request \<Rightarrow> bool" where
  "valid_oms_change q \<longleftrightarrow> valid_request_meta (oq_meta q) \<and> len_within 1 120 (oq_order_id q) \<and>
     len_within 1 80 (oq_from_location q) \<and> len_within 1 80 (oq_to_location q)"

record oms_split_request =
  os_meta :: adapter_request_meta
  os_order_id :: string
  os_quantity :: int

definition valid_oms_split :: "oms_split_request \<Rightarrow> bool" where
  "valid_oms_split q \<longleftrightarrow> valid_request_meta (os_meta q) \<and> len_within 1 120 (os_order_id q) \<and>
     positive_quantity (os_quantity q)"

record carrier_upgrade_request =
  cq_meta :: adapter_request_meta
  cq_order_id :: string
  cq_from_service :: string
  cq_to_service :: string

definition valid_carrier_upgrade :: "carrier_upgrade_request \<Rightarrow> bool" where
  "valid_carrier_upgrade q \<longleftrightarrow> valid_request_meta (cq_meta q) \<and> len_within 1 120 (cq_order_id q) \<and>
     len_within 1 80 (cq_from_service q) \<and> len_within 1 80 (cq_to_service q)"

record delivery_outcome_request =
  dq_meta :: adapter_request_meta
  dq_order_id :: string
  dq_delivered_on_time :: bool

definition valid_delivery_request :: "delivery_outcome_request \<Rightarrow> bool" where
  "valid_delivery_request q \<longleftrightarrow> valid_request_meta (dq_meta q) \<and> len_within 1 120 (dq_order_id q)"

text \<open>A constructor call: the request, or \<open>ValidationError\<close>.\<close>

definition checked :: "('a \<Rightarrow> bool) \<Rightarrow> 'a \<Rightarrow> ('s, 'a) prog" where
  "checked p x = (if p x then ret x else raise (err ValidationError ''validation error''))"

text \<open>A response: its provider reference, which the response metadata bounds.\<close>

definition respond :: "string \<Rightarrow> ('s, string) prog" where
  "respond reference = checked (len_within 1 240) reference"

section \<open>The sandbox\<close>

datatype failure_mode = FM_BEFORE | FM_AFTER | FM_MALFORMED | FM_RATE_LIMITED | FM_HARD_AFTER

fun failure_mode_value :: "failure_mode \<Rightarrow> string" where
  "failure_mode_value FM_BEFORE = ''before''"
| "failure_mode_value FM_AFTER = ''after''"
| "failure_mode_value FM_MALFORMED = ''malformed''"
| "failure_mode_value FM_RATE_LIMITED = ''rate_limited''"
| "failure_mode_value FM_HARD_AFTER = ''hard_after''"

record sandbox =
  sb_order_locations :: "string \<Rightarrow> string option"
  sb_carrier_services :: "string \<Rightarrow> string option"
  sb_split_shipments :: "string set"
  sb_reservations :: "(string \<times> string) set"
  sb_delivery_outcomes :: "string \<Rightarrow> bool option"
  sb_keys :: "string \<Rightarrow> string option"
  sb_failure_modes :: "string \<Rightarrow> failure_mode option"

definition empty_sandbox :: sandbox where
  "empty_sandbox =
     \<lparr>sb_order_locations = Map.empty, sb_carrier_services = Map.empty, sb_split_shipments = {},
      sb_reservations = {}, sb_delivery_outcomes = Map.empty, sb_keys = Map.empty,
      sb_failure_modes = Map.empty\<rparr>"

definition set_default :: "'k \<Rightarrow> 'v \<Rightarrow> ('k \<Rightarrow> 'v option) \<Rightarrow> ('k \<Rightarrow> 'v option)" where
  "set_default k v m = (if m k = None then m(k \<mapsto> v) else m)"

definition seed_order :: "order_context \<Rightarrow> (sandbox, unit) prog" where
  "seed_order c = modify (\<lambda>s. s\<lparr>
     sb_order_locations := set_default (oc_order_id c) (oc_current_fulfilment_location c) (sb_order_locations s),
     sb_carrier_services := set_default (oc_order_id c) (oc_current_carrier_service c) (sb_carrier_services s)\<rparr>)"

definition inject_failure :: "string \<Rightarrow> string \<Rightarrow> (sandbox, unit) prog" where
  "inject_failure step_name when =
     (case List.find (\<lambda>m. failure_mode_value m = when)
        [FM_BEFORE, FM_AFTER, FM_MALFORMED, FM_RATE_LIMITED, FM_HARD_AFTER] of
        None \<Rightarrow> raise (err ValueError
          ''failure timing must be one of after, before, hard_after, malformed, rate_limited'')
      | Some m \<Rightarrow> modify (\<lambda>s. s\<lparr>sb_failure_modes := (sb_failure_modes s)(step_name \<mapsto> m)\<rparr>))"

definition clear_failures :: "(sandbox, unit) prog" where
  "clear_failures = modify (\<lambda>s. s\<lparr>sb_failure_modes := Map.empty\<rparr>)"

definition claim_key :: "string \<Rightarrow> string \<Rightarrow> (sandbox, unit) prog" where
  "claim_key key operation = (\<lambda>s.
     if sb_keys s key \<notin> {None, Some operation}
     then (Inl (err PersistenceConflictError
             ''provider idempotency key was reused for a different operation''), s)
     else (Inr (), s\<lparr>sb_keys := (sb_keys s)(key \<mapsto> operation)\<rparr>))"

definition before_step :: "string \<Rightarrow> (sandbox, unit) prog" where
  "before_step step = (\<lambda>s.
     (case sb_failure_modes s step of
        Some FM_BEFORE \<Rightarrow> Inl (err ActionExecutionError (''injected failure before '' @ step))
      | Some FM_RATE_LIMITED \<Rightarrow> Inl (err AdapterRateLimited (''injected rate limit before '' @ step))
      | _ \<Rightarrow> Inr (), s))"

definition after_step :: "string \<Rightarrow> (sandbox, unit) prog" where
  "after_step step = (\<lambda>s.
     (case sb_failure_modes s step of
        Some FM_AFTER \<Rightarrow> Inl (err AmbiguousProviderTimeout (''injected timeout after '' @ step))
      | Some FM_MALFORMED \<Rightarrow> Inl (err MalformedAdapterResponse (''injected malformed response after '' @ step))
      | Some FM_HARD_AFTER \<Rightarrow> Inl (err ActionExecutionError (''injected hard failure after '' @ step))
      | _ \<Rightarrow> Inr (), s))"

text \<open>The shape the four mutating adapter calls share: fail before, claim the idempotency key,
  write, fail after, answer.\<close>

definition adapter_call ::
  "string \<Rightarrow> string \<Rightarrow> string \<Rightarrow> (sandbox \<Rightarrow> sandbox) \<Rightarrow> string \<Rightarrow> (sandbox, string) prog" where
  "adapter_call step key operation effect reference =
     bind (before_step step) (\<lambda>_.
     bind (claim_key key operation) (\<lambda>_.
     bind (modify effect) (\<lambda>_.
     bind (after_step step) (\<lambda>_.
     respond reference))))"

section \<open>The three adapters\<close>

definition reserve_inventory :: "wms_reserve_request \<Rightarrow> (sandbox, string) prog" where
  "reserve_inventory q =
     adapter_call ''reserve_alternative'' (rm_idempotency_key (wq_meta q))
       (''reserve:'' @ wq_order_id q @ '':'' @ wq_location_id q)
       (\<lambda>s. s\<lparr>sb_reservations := insert (wq_order_id q, wq_location_id q) (sb_reservations s)\<rparr>)
       (''reservation:'' @ wq_order_id q @ '':'' @ wq_location_id q)"

definition release_inventory :: "wms_release_request \<Rightarrow> (sandbox, string) prog" where
  "release_inventory q =
     bind (modify (\<lambda>s. case wr_location_id q of None \<Rightarrow> s
             | Some l \<Rightarrow> s\<lparr>sb_reservations := sb_reservations s - {(wr_order_id q, l)}\<rparr>)) (\<lambda>_.
     respond (''released:'' @ wr_order_id q))"

definition change_fulfilment_location :: "oms_change_request \<Rightarrow> (sandbox, string) prog" where
  "change_fulfilment_location q =
     adapter_call ''change_location'' (rm_idempotency_key (oq_meta q))
       (''reroute:'' @ oq_order_id q @ '':'' @ oq_to_location q)
       (\<lambda>s. s\<lparr>sb_order_locations := (sb_order_locations s)(oq_order_id q \<mapsto> oq_to_location q)\<rparr>)
       (''order-location:'' @ oq_order_id q @ '':'' @ oq_to_location q)"

definition restore_fulfilment_location :: "oms_change_request \<Rightarrow> (sandbox, string) prog" where
  "restore_fulfilment_location q =
     bind (modify (\<lambda>s. s\<lparr>sb_order_locations :=
             (sb_order_locations s)(oq_order_id q \<mapsto> oq_from_location q)\<rparr>)) (\<lambda>_.
     respond (''restored-location:'' @ oq_order_id q @ '':'' @ oq_from_location q))"

definition create_split_shipment :: "oms_split_request \<Rightarrow> (sandbox, string) prog" where
  "create_split_shipment q =
     adapter_call ''create_split'' (rm_idempotency_key (os_meta q)) (''split:'' @ os_order_id q)
       (\<lambda>s. s\<lparr>sb_split_shipments := insert (os_order_id q) (sb_split_shipments s)\<rparr>)
       (''split-shipment:'' @ os_order_id q)"

definition cancel_split_shipment :: "oms_split_request \<Rightarrow> (sandbox, string) prog" where
  "cancel_split_shipment q =
     bind (modify (\<lambda>s. s\<lparr>sb_split_shipments := sb_split_shipments s - {os_order_id q}\<rparr>)) (\<lambda>_.
     respond (''cancelled-split:'' @ os_order_id q))"

definition upgrade_service :: "carrier_upgrade_request \<Rightarrow> (sandbox, string) prog" where
  "upgrade_service q =
     adapter_call ''upgrade_carrier'' (rm_idempotency_key (cq_meta q))
       (''carrier:'' @ cq_order_id q @ '':'' @ cq_to_service q)
       (\<lambda>s. s\<lparr>sb_carrier_services := (sb_carrier_services s)(cq_order_id q \<mapsto> cq_to_service q)\<rparr>)
       (''carrier-service:'' @ cq_order_id q @ '':'' @ cq_to_service q)"

definition restore_service :: "carrier_upgrade_request \<Rightarrow> (sandbox, string) prog" where
  "restore_service q =
     bind (modify (\<lambda>s. s\<lparr>sb_carrier_services :=
             (sb_carrier_services s)(cq_order_id q \<mapsto> cq_from_service q)\<rparr>)) (\<lambda>_.
     respond (''restored-carrier:'' @ cq_order_id q @ '':'' @ cq_from_service q))"

definition record_delivery :: "delivery_outcome_request \<Rightarrow> (sandbox, string) prog" where
  "record_delivery q =
     bind (modify (\<lambda>s. s\<lparr>sb_delivery_outcomes :=
             (sb_delivery_outcomes s)(dq_order_id q \<mapsto> dq_delivered_on_time q)\<rparr>)) (\<lambda>_.
     respond (''delivery:'' @ dq_order_id q @ '':'' @ str_bool (dq_delivered_on_time q)))"

section \<open>The composite adapter\<close>

definition request_meta :: "string \<Rightarrow> string \<Rightarrow> (sandbox, adapter_request_meta) prog" where
  "request_meta key tenant_id =
     checked valid_request_meta \<lparr>rm_idempotency_key = key, rm_tenant_id = tenant_id\<rparr>"

definition record_delivery_outcome :: "string \<Rightarrow> bool \<Rightarrow> (sandbox, unit) prog" where
  "record_delivery_outcome order_id delivered_on_time =
     bind (request_meta (''delivery:'' @ order_id) DEFAULT_TENANT_ID) (\<lambda>m.
     bind (checked valid_delivery_request
        \<lparr>dq_meta = m, dq_order_id = order_id, dq_delivered_on_time = delivered_on_time\<rparr>) (\<lambda>q.
     bind (record_delivery q) (\<lambda>_. ret ())))"

definition reserve_alternative :: "order_context \<Rightarrow> string \<Rightarrow> (sandbox, string) prog" where
  "reserve_alternative c key =
     (case oc_alternative_location_id c of
        None \<Rightarrow> raise (err ActionExecutionError ''alternative location is not available'')
      | Some l \<Rightarrow>
          bind (request_meta key (oc_tenant_id c)) (\<lambda>m.
          bind (checked valid_wms_reserve
             \<lparr>wq_meta = m, wq_order_id = oc_order_id c, wq_sku = oc_sku c,
              wq_quantity = oc_quantity c, wq_location_id = l\<rparr>) reserve_inventory))"

definition release_alternative :: "order_context \<Rightarrow> (sandbox, string) prog" where
  "release_alternative c =
     bind (request_meta (''release:'' @ oc_order_id c) (oc_tenant_id c)) (\<lambda>m.
     bind (checked valid_wms_release
        \<lparr>wr_meta = m, wr_order_id = oc_order_id c, wr_location_id = oc_alternative_location_id c\<rparr>)
       release_inventory)"

definition change_location :: "order_context \<Rightarrow> string \<Rightarrow> (sandbox, string) prog" where
  "change_location c key =
     (case oc_alternative_location_id c of
        None \<Rightarrow> raise (err ActionExecutionError ''alternative location is not available'')
      | Some l \<Rightarrow>
          bind (request_meta key (oc_tenant_id c)) (\<lambda>m.
          bind (checked valid_oms_change
             \<lparr>oq_meta = m, oq_order_id = oc_order_id c,
              oq_from_location = oc_current_fulfilment_location c, oq_to_location = l\<rparr>)
            change_fulfilment_location))"

text \<open>\<open>order.alternative_location_id or order.current_fulfilment_location\<close>\<close>

definition alternative_or_current :: "order_context \<Rightarrow> string" where
  "alternative_or_current c =
     (case oc_alternative_location_id c of
        None \<Rightarrow> oc_current_fulfilment_location c
      | Some l \<Rightarrow> if l = [] then oc_current_fulfilment_location c else l)"

definition restore_location :: "order_context \<Rightarrow> (sandbox, string) prog" where
  "restore_location c =
     bind (request_meta (''restore-location:'' @ oc_order_id c) (oc_tenant_id c)) (\<lambda>m.
     bind (checked valid_oms_change
        \<lparr>oq_meta = m, oq_order_id = oc_order_id c,
         oq_from_location = oc_current_fulfilment_location c,
         oq_to_location = alternative_or_current c\<rparr>)
       restore_fulfilment_location)"

definition upgrade_request :: "order_context \<Rightarrow> string \<Rightarrow> (sandbox, carrier_upgrade_request) prog" where
  "upgrade_request c key =
     bind (request_meta key (oc_tenant_id c)) (\<lambda>m.
     checked valid_carrier_upgrade
       \<lparr>cq_meta = m, cq_order_id = oc_order_id c, cq_from_service = oc_current_carrier_service c,
        cq_to_service = oc_upgraded_carrier_service c\<rparr>)"

definition upgrade_carrier :: "order_context \<Rightarrow> string \<Rightarrow> (sandbox, string) prog" where
  "upgrade_carrier c key = bind (upgrade_request c key) upgrade_service"

definition restore_carrier :: "order_context \<Rightarrow> (sandbox, string) prog" where
  "restore_carrier c = bind (upgrade_request c (''restore-carrier:'' @ oc_order_id c)) restore_service"

definition split_request :: "order_context \<Rightarrow> string \<Rightarrow> (sandbox, oms_split_request) prog" where
  "split_request c key =
     bind (request_meta key (oc_tenant_id c)) (\<lambda>m.
     checked valid_oms_split \<lparr>os_meta = m, os_order_id = oc_order_id c, os_quantity = oc_quantity c\<rparr>)"

definition create_split :: "order_context \<Rightarrow> string \<Rightarrow> (sandbox, string) prog" where
  "create_split c key =
     (if \<not> oc_split_shipment_possible c
      then raise (err ActionExecutionError ''split shipment is not feasible'')
      else bind (split_request c key) create_split_shipment)"

definition cancel_split :: "order_context \<Rightarrow> (sandbox, string) prog" where
  "cancel_split c = bind (split_request c (''cancel-split:'' @ oc_order_id c)) cancel_split_shipment"

definition postcondition :: "order_context \<Rightarrow> recovery_action \<Rightarrow> sandbox \<Rightarrow> bool" where
  "postcondition c action s =
     (if action = REROUTE
      then oc_alternative_location_id c \<noteq> None \<and>
           sb_order_locations s (oc_order_id c) = oc_alternative_location_id c
      else if action = CARRIER_UPGRADE
      then sb_carrier_services s (oc_order_id c) = Some (oc_upgraded_carrier_service c)
      else if action = SPLIT_SHIPMENT then oc_order_id c \<in> sb_split_shipments s
      else action = TAKE_NO_ACTION)"

definition action_postcondition_holds :: "order_context \<Rightarrow> recovery_action \<Rightarrow> (sandbox, bool) prog" where
  "action_postcondition_holds c action = (\<lambda>s. (Inr (postcondition c action s), s))"

definition hydrate_from_durable_action :: "order_context \<Rightarrow> action_execution \<Rightarrow> (sandbox, unit) prog" where
  "hydrate_from_durable_action c x =
     bind (seed_order c) (\<lambda>_. modify (\<lambda>s.
       if ae_status x \<notin> {AC_SUCCEEDED, AC_VERIFIED} then s
       else case cmd_action (ae_command x) of
           REROUTE \<Rightarrow>
             (case oc_alternative_location_id c of
                None \<Rightarrow> s
              | Some l \<Rightarrow> s\<lparr>sb_order_locations := (sb_order_locations s)(oc_order_id c \<mapsto> l),
                           sb_reservations := insert (oc_order_id c, l) (sb_reservations s)\<rparr>)
         | CARRIER_UPGRADE \<Rightarrow>
             s\<lparr>sb_carrier_services := (sb_carrier_services s)(oc_order_id c \<mapsto> oc_upgraded_carrier_service c)\<rparr>
         | SPLIT_SHIPMENT \<Rightarrow> s\<lparr>sb_split_shipments := insert (oc_order_id c) (sb_split_shipments s)\<rparr>
         | _ \<Rightarrow> s))"

section \<open>The operations port\<close>

record 'w operations_port =
  p_seed :: "order_context \<Rightarrow> ('w, unit) prog"
  p_record_delivery :: "string \<Rightarrow> bool \<Rightarrow> ('w, unit) prog"
  p_reserve :: "order_context \<Rightarrow> string \<Rightarrow> ('w, string) prog"
  p_release :: "order_context \<Rightarrow> ('w, string) prog"
  p_change :: "order_context \<Rightarrow> string \<Rightarrow> ('w, string) prog"
  p_restore_location :: "order_context \<Rightarrow> ('w, string) prog"
  p_upgrade :: "order_context \<Rightarrow> string \<Rightarrow> ('w, string) prog"
  p_restore_carrier :: "order_context \<Rightarrow> ('w, string) prog"
  p_split :: "order_context \<Rightarrow> string \<Rightarrow> ('w, string) prog"
  p_cancel_split :: "order_context \<Rightarrow> ('w, string) prog"
  p_holds :: "order_context \<Rightarrow> recovery_action \<Rightarrow> ('w, bool) prog"
  p_hydrate :: "order_context \<Rightarrow> action_execution \<Rightarrow> ('w, unit) prog"

definition sandbox_port :: "sandbox operations_port" where
  "sandbox_port =
     \<lparr>p_seed = seed_order, p_record_delivery = record_delivery_outcome,
      p_reserve = reserve_alternative, p_release = release_alternative,
      p_change = change_location, p_restore_location = restore_location,
      p_upgrade = upgrade_carrier, p_restore_carrier = restore_carrier,
      p_split = create_split, p_cancel_split = cancel_split,
      p_holds = action_postcondition_holds, p_hydrate = hydrate_from_durable_action\<rparr>"

text \<open>\<open>held\<close> and \<open>reserved\<close> are the facts of the external systems that the code reads: the
  postcondition of an action on an order, and the reservation of its alternative stock. A call
  that succeeds has its effect, an undo always succeeds on a valid order and removes it, and a
  call refused by a rate limit changes nothing. Nothing is promised of other failures.\<close>

locale operations_contract =
  fixes port :: "'w operations_port"
    and held :: "order_context \<Rightarrow> recovery_action \<Rightarrow> 'w \<Rightarrow> bool"
    and reserved :: "order_context \<Rightarrow> 'w \<Rightarrow> bool"
  assumes holds_read: "p_holds port c a w = (Inr (held c a w), w)"
    and seed_total: "\<exists>w'. p_seed port c w = (Inr (), w')"
    and reserve_ok: "p_reserve port c k w = (Inr r, w') \<Longrightarrow> reserved c w'"
    and change_ok: "p_change port c k w = (Inr r, w') \<Longrightarrow> held c REROUTE w'"
    and change_keeps: "p_change port c k w = (res, w') \<Longrightarrow> reserved c w' = reserved c w"
    and change_rate_limited: "p_change port c k w = (Inl e, w') \<Longrightarrow> exn_cls e = AdapterRateLimited \<Longrightarrow> w' = w"
    and restore_location_ok: "valid_order_context c \<Longrightarrow>
      \<exists>r w'. p_restore_location port c w = (Inr r, w') \<and> \<not> held c REROUTE w' \<and> reserved c w' = reserved c w"
    and release_ok: "valid_order_context c \<Longrightarrow>
      \<exists>r w'. p_release port c w = (Inr r, w') \<and> \<not> reserved c w' \<and> held c REROUTE w' = held c REROUTE w"
    and upgrade_ok: "p_upgrade port c k w = (Inr r, w') \<Longrightarrow> held c CARRIER_UPGRADE w'"
    and restore_carrier_ok: "valid_order_context c \<Longrightarrow>
      \<exists>r w'. p_restore_carrier port c w = (Inr r, w') \<and>
        (\<not> held c CARRIER_UPGRADE w' \<or> oc_upgraded_carrier_service c = oc_current_carrier_service c)"
    and split_ok: "p_split port c k w = (Inr r, w') \<Longrightarrow> held c SPLIT_SHIPMENT w'"
    and cancel_split_ok: "valid_order_context c \<Longrightarrow>
      \<exists>r w'. p_cancel_split port c w = (Inr r, w') \<and> \<not> held c SPLIT_SHIPMENT w'"

definition sandbox_reserved :: "order_context \<Rightarrow> sandbox \<Rightarrow> bool" where
  "sandbox_reserved c s \<longleftrightarrow>
     (case oc_alternative_location_id c of None \<Rightarrow> False
      | Some l \<Rightarrow> (oc_order_id c, l) \<in> sb_reservations s)"

lemma checked_app: "checked p x s = (if p x then (Inr x, s) else (Inl (err ValidationError ''validation error''), s))"
  by (simp add: checked_def)

lemma respond_Inr: "respond r s = (Inr x, s') \<Longrightarrow> x = r \<and> s' = s"
  by (auto simp: respond_def checked_app split: if_splits)

lemma respond_short: "length r \<le> 240 \<Longrightarrow> r \<noteq> [] \<Longrightarrow> respond r s = (Inr r, s)"
  by (simp add: respond_def checked_app len_within_def Suc_le_eq)

lemma before_step_state: "before_step st s = (r, s') \<Longrightarrow> s' = s"
  by (simp add: before_step_def)

lemma after_step_state:
  "after_step st s = (r, s') \<Longrightarrow> s' = s \<and> (\<forall>e. r = Inl e \<longrightarrow> exn_cls e \<noteq> AdapterRateLimited)"
  by (auto simp: after_step_def split: option.splits failure_mode.splits)

text \<open>An adapter call either leaves everything but the claimed key alone, or has had its effect.\<close>

lemma adapter_call_cases:
  assumes "adapter_call st key op eff ref s = (r, s')"
  obtains (refused) e where "r = Inl e" "s' = s"
  | (acted) ks where "s' = eff (s\<lparr>sb_keys := ks\<rparr>)" "\<forall>e. r = Inl e \<longrightarrow> exn_cls e \<noteq> AdapterRateLimited"
      "\<forall>x. r = Inr x \<longrightarrow> x = ref"
  using assms refused acted [of "(sb_keys s)(key \<mapsto> op)"]
  by (auto simp: adapter_call_def bind_def claim_key_def respond_def checked_app
      split: prod.splits sum.splits if_splits dest!: before_step_state after_step_state)

lemma adapter_call_ok:
  "adapter_call st key op eff ref s = (Inr r, s') \<Longrightarrow> \<exists>ks. s' = eff (s\<lparr>sb_keys := ks\<rparr>)"
  by (erule adapter_call_cases) auto

lemma valid_order_meta:
  assumes "valid_order_context c"
  shows "len_within 1 120 (oc_order_id c)" "len_within 1 80 (oc_tenant_id c)"
    "len_within 1 80 (oc_current_fulfilment_location c)" "positive_quantity (oc_quantity c)"
    "len_within 1 80 (oc_current_carrier_service c)" "len_within 1 80 (oc_upgraded_carrier_service c)"
    "oc_alternative_location_id c \<noteq> Some (oc_current_fulfilment_location c)"
    "case oc_alternative_location_id c of None \<Rightarrow> True | Some l \<Rightarrow> len_within 0 80 l"
  using assms unfolding valid_order_context_def by blast+

lemma restore_location_app:
  assumes "valid_order_context c"
  shows "restore_location c s = (Inr (''restored-location:'' @ oc_order_id c @ '':'' @ oc_current_fulfilment_location c),
    s\<lparr>sb_order_locations := (sb_order_locations s)(oc_order_id c \<mapsto> oc_current_fulfilment_location c)\<rparr>)"
  using valid_order_meta [OF assms]
  by (auto simp: restore_location_def bind_def request_meta_def checked_app valid_request_meta_def
      valid_oms_change_def len_within_def alternative_or_current_def restore_fulfilment_location_def
      respond_def Suc_le_eq split: option.split)

lemma release_alternative_app:
  assumes "valid_order_context c"
  shows "release_alternative c s = (Inr (''released:'' @ oc_order_id c),
    case oc_alternative_location_id c of None \<Rightarrow> s
    | Some l \<Rightarrow> s\<lparr>sb_reservations := sb_reservations s - {(oc_order_id c, l)}\<rparr>)"
  using valid_order_meta [OF assms]
  by (auto simp: release_alternative_def bind_def request_meta_def checked_app valid_request_meta_def
      valid_wms_release_def len_within_def release_inventory_def respond_def split: option.split)

lemma restore_carrier_app:
  assumes "valid_order_context c"
  shows "restore_carrier c s = (Inr (''restored-carrier:'' @ oc_order_id c @ '':'' @ oc_current_carrier_service c),
    s\<lparr>sb_carrier_services := (sb_carrier_services s)(oc_order_id c \<mapsto> oc_current_carrier_service c)\<rparr>)"
  using valid_order_meta [OF assms]
  by (auto simp: restore_carrier_def upgrade_request_def bind_def request_meta_def checked_app
      valid_request_meta_def valid_carrier_upgrade_def len_within_def restore_service_def respond_def)

lemma cancel_split_app:
  assumes "valid_order_context c"
  shows "cancel_split c s = (Inr (''cancelled-split:'' @ oc_order_id c),
    s\<lparr>sb_split_shipments := sb_split_shipments s - {oc_order_id c}\<rparr>)"
  using valid_order_meta [OF assms]
  by (auto simp: cancel_split_def split_request_def bind_def request_meta_def checked_app
      valid_request_meta_def valid_oms_split_def len_within_def cancel_split_shipment_def respond_def)

text \<open>The four calls: what is left after each result.\<close>

lemma reserve_alternative_cases:
  assumes "reserve_alternative c k s = (r, s')"
  obtains (refused) e where "r = Inl e" "s' = s"
  | (acted) l ks where "oc_alternative_location_id c = Some l"
      "s' = s\<lparr>sb_keys := ks, sb_reservations := insert (oc_order_id c, l) (sb_reservations s)\<rparr>"
  using assms
  by (auto simp: reserve_alternative_def bind_def request_meta_def checked_app reserve_inventory_def
      split: option.splits if_splits elim!: adapter_call_cases)

lemma change_location_cases:
  assumes "change_location c k s = (r, s')"
  obtains (refused) e where "r = Inl e" "s' = s"
  | (acted) l ks where "oc_alternative_location_id c = Some l"
      "s' = s\<lparr>sb_keys := ks, sb_order_locations := (sb_order_locations s)(oc_order_id c \<mapsto> l)\<rparr>"
      "\<forall>e. r = Inl e \<longrightarrow> exn_cls e \<noteq> AdapterRateLimited"
  using assms
  by (auto simp: change_location_def bind_def request_meta_def checked_app
      change_fulfilment_location_def split: option.splits if_splits elim!: adapter_call_cases)

lemma upgrade_carrier_ok:
  "upgrade_carrier c k s = (Inr r, s') \<Longrightarrow>
     sb_carrier_services s' (oc_order_id c) = Some (oc_upgraded_carrier_service c)"
  by (auto simp: upgrade_carrier_def upgrade_request_def bind_def request_meta_def checked_app
      upgrade_service_def split: if_splits dest!: adapter_call_ok)

lemma create_split_ok: "create_split c k s = (Inr r, s') \<Longrightarrow> oc_order_id c \<in> sb_split_shipments s'"
  by (auto simp: create_split_def split_request_def bind_def request_meta_def checked_app
      create_split_shipment_def split: if_splits dest!: adapter_call_ok)

interpretation sandbox: operations_contract sandbox_port postcondition sandbox_reserved
proof unfold_locales
  fix c :: order_context and a k and w w' :: sandbox and r e res
  show "p_holds sandbox_port c a w = (Inr (postcondition c a w), w)"
    by (simp add: sandbox_port_def action_postcondition_holds_def)
  show "\<exists>w'. p_seed sandbox_port c w = (Inr (), w')" by (simp add: sandbox_port_def seed_order_def)
  show "p_reserve sandbox_port c k w = (Inr r, w') \<Longrightarrow> sandbox_reserved c w'"
    by (auto simp: sandbox_port_def sandbox_reserved_def elim!: reserve_alternative_cases)
  show "p_change sandbox_port c k w = (Inr r, w') \<Longrightarrow> postcondition c REROUTE w'"
    by (auto simp: sandbox_port_def postcondition_def elim!: change_location_cases)
  show "p_change sandbox_port c k w = (res, w') \<Longrightarrow> sandbox_reserved c w' = sandbox_reserved c w"
    by (auto simp: sandbox_port_def sandbox_reserved_def elim!: change_location_cases)
  show "p_change sandbox_port c k w = (Inl e, w') \<Longrightarrow> exn_cls e = AdapterRateLimited \<Longrightarrow> w' = w"
    by (auto simp: sandbox_port_def elim!: change_location_cases)
  show "p_upgrade sandbox_port c k w = (Inr r, w') \<Longrightarrow> postcondition c CARRIER_UPGRADE w'"
    by (auto simp: sandbox_port_def postcondition_def dest!: upgrade_carrier_ok)
  show "p_split sandbox_port c k w = (Inr r, w') \<Longrightarrow> postcondition c SPLIT_SHIPMENT w'"
    by (auto simp: sandbox_port_def postcondition_def dest!: create_split_ok)
  assume c: "valid_order_context c"
  show "\<exists>r w'. p_restore_location sandbox_port c w = (Inr r, w') \<and> \<not> postcondition c REROUTE w' \<and>
      sandbox_reserved c w' = sandbox_reserved c w"
    using valid_order_meta(7) [OF c]
    by (auto simp: sandbox_port_def restore_location_app [OF c] postcondition_def sandbox_reserved_def
        split: option.splits)
  show "\<exists>r w'. p_release sandbox_port c w = (Inr r, w') \<and> \<not> sandbox_reserved c w' \<and>
      postcondition c REROUTE w' = postcondition c REROUTE w"
    by (auto simp: sandbox_port_def release_alternative_app [OF c] postcondition_def
        sandbox_reserved_def split: option.split)
  show "\<exists>r w'. p_cancel_split sandbox_port c w = (Inr r, w') \<and> \<not> postcondition c SPLIT_SHIPMENT w'"
    by (simp add: sandbox_port_def cancel_split_app [OF c] postcondition_def)
  show "\<exists>r w'. p_restore_carrier sandbox_port c w = (Inr r, w') \<and>
      (\<not> postcondition c CARRIER_UPGRADE w' \<or> oc_upgraded_carrier_service c = oc_current_carrier_service c)"
    by (simp add: sandbox_port_def restore_carrier_app [OF c] postcondition_def)
qed

end
