(* ===== verification/Approval.thy ===== *)
theory Approval
  imports Identity_Feedback
begin

text \<open>
  \<^verbatim>\<open>src/src/promiseguard/approval.py\<close>: requesting, approving and rejecting, with expiry,
  role checks, separation of duties and the compare-and-set on the pending row. A decision is
  the composition of a read and a write inside one session; \<open>race_step\<close> interleaves the reads
  and writes of any number of deciders of one approval. \<open>wall\<close> is the clock the code reads
  where the caller passes no \<open>now\<close>.
\<close>

section \<open>Requests\<close>

definition default_ttl :: int where
  "default_ttl = 60 * 60 * 1000000"

definition approval_identity :: "decision_trace \<Rightarrow> string" where
  "approval_identity decision =
     join ''|''
       [dt_decision_id decision,
        recovery_action_value (dr_selected_action (dt_recommendation decision)),
        pe_policy_version (dt_policy decision)]"

definition approval_id_of :: "lib \<Rightarrow> decision_trace \<Rightarrow> string" where
  "approval_id_of L decision = digest_id L ''apr_'' 24 (approval_identity decision)"

definition approval_request ::
  "lib \<Rightarrow> int \<Rightarrow> decision_trace \<Rightarrow> string \<Rightarrow> datetime option \<Rightarrow> datetime
     \<Rightarrow> (database, approval_record) prog"
where
  "approval_request L ttl decision requested_by now wall = (\<lambda>db.
     let action = dr_selected_action (dt_recommendation decision)
     in if action \<in> {TAKE_NO_ACTION, HUMAN_ESCALATION}
        then (Inl (err ApprovalError ''selected decision does not contain an executable action''), db)
        else
          let requested_at = to_utc (now_or now wall);
              approval_id = approval_id_of L decision;
              rec = \<lparr>ar_approval_id = approval_id, ar_decision_id = dt_decision_id decision,
                ar_requested_action = action, ar_status = AP_PENDING,
                ar_requested_by = requested_by, ar_requested_at = requested_at,
                ar_expires_at = plus_us requested_at ttl, ar_decided_by = None,
                ar_decided_by_role = None, ar_decision_reason = None, ar_decided_at = None\<rparr>
          in session (\<lambda>db. case approval_get approval_id db of
                 Some existing \<Rightarrow> (Inr existing, db)
               | None \<Rightarrow> approval_create L rec db) db)"

section \<open>Decisions\<close>

text \<open>The first half of \<open>_decide\<close>: the row must be pending and asked for by another actor.\<close>

definition decide_read :: "string \<Rightarrow> approval_decision_input \<Rightarrow> (database, approval_record) prog" where
  "decide_read approval_id inp = (\<lambda>db.
     case approval_get approval_id db of
       None \<Rightarrow> (Inl (err RecordNotFoundError (''approval '' @ repr_str approval_id @ '' not found'')), db)
     | Some rec \<Rightarrow>
         if ar_status rec \<noteq> AP_PENDING
         then (Inl (err ApprovalError ''approval is no longer pending''), db)
         else (case assert_separation_of_duties (ar_requested_by rec) (ad_actor_id inp) of
             Inl e \<Rightarrow> (Inl e, db)
           | Inr _ \<Rightarrow> (Inr rec, db)))"

definition decided_record ::
  "approval_record \<Rightarrow> approval_decision_input \<Rightarrow> approval_status \<Rightarrow> datetime \<Rightarrow> approval_record" where
  "decided_record rec inp target decided_at =
     rec\<lparr>ar_status := target, ar_decided_by := Some (ad_actor_id inp),
         ar_decided_by_role := Some (ad_actor_role inp),
         ar_decision_reason := Some (ad_reason inp), ar_decided_at := Some decided_at\<rparr>"

text \<open>The second half: the compare-and-set, of the decision or of the expiry; the flag says
  which.\<close>

definition decide_write ::
  "approval_record \<Rightarrow> approval_decision_input \<Rightarrow> approval_status \<Rightarrow> datetime
     \<Rightarrow> (database, approval_record \<times> bool) prog"
where
  "decide_write rec inp target decided_at =
     (let expired = (instant (to_utc (ar_expires_at rec)) < instant decided_at);
          updated = (if expired then rec\<lparr>ar_status := AP_EXPIRED\<rparr>
                     else decided_record rec inp target decided_at)
      in bind (catch (approval_update_if_pending updated)
                (\<lambda>e. if exn_cls e = PersistenceConflictError
                     then raise (err ApprovalError ''approval is no longer pending'') else raise e))
           (\<lambda>result. ret (result, expired)))"

definition decide_finish :: "approval_record \<times> bool \<Rightarrow> approval_record res" where
  "decide_finish p =
     (if snd p then Inl (err ApprovalError ''approval has expired'') else Inr (fst p))"

definition approval_decide ::
  "environ \<Rightarrow> string \<Rightarrow> approval_decision_input \<Rightarrow> approval_status \<Rightarrow> datetime option \<Rightarrow> datetime
     \<Rightarrow> (database, approval_record) prog"
where
  "approval_decide env approval_id inp target now wall =
     (if ad_actor_role inp \<in> {AUDITOR, SERVICE_IDENTITY}
      then raise (err ApprovalError ''actor role is not authorised to decide approvals'')
      else bind (of_res (bind_claimed_role env (ad_actor_id inp) (ad_actor_role inp) None)) (\<lambda>_.
        let decided_at = to_utc (now_or now wall)
        in bind (session (bind (decide_read approval_id inp) (\<lambda>rec.
                   decide_write rec inp target decided_at))) (\<lambda>p.
           of_res (decide_finish p))))"

definition approve ::
  "environ \<Rightarrow> string \<Rightarrow> approval_decision_input \<Rightarrow> datetime option \<Rightarrow> datetime
     \<Rightarrow> (database, approval_record) prog" where
  "approve env approval_id inp now wall = approval_decide env approval_id inp AP_APPROVED now wall"

definition reject ::
  "environ \<Rightarrow> string \<Rightarrow> approval_decision_input \<Rightarrow> datetime option \<Rightarrow> datetime
     \<Rightarrow> (database, approval_record) prog" where
  "reject env approval_id inp now wall = approval_decide env approval_id inp AP_REJECTED now wall"

definition approval_service_get :: "string \<Rightarrow> (database, approval_record option) prog" where
  "approval_service_get approval_id = (\<lambda>db. (Inr (approval_get approval_id db), db))"

definition approval_service_list_pending :: "(database, approval_record list) prog" where
  "approval_service_list_pending = (\<lambda>db. (Inr (approval_list_pending db), db))"

section \<open>The invariant of the approvals table\<close>

text \<open>Every row: deciding fields are set together and only by a decision, made by an analyst or
  a manager other than the requester, before the expiry.\<close>

definition approval_row_good :: "approval_row \<Rightarrow> bool" where
  "approval_row_good r \<longleftrightarrow>
     (case apr_status r of
        AP_PENDING \<Rightarrow> apr_decided_by r = None \<and> apr_decided_by_role r = None \<and> apr_decided_at r = None
      | AP_EXPIRED \<Rightarrow> apr_decided_by r = None \<and> apr_decided_by_role r = None \<and> apr_decided_at r = None
      | _ \<Rightarrow> (case (apr_decided_by r, apr_decided_by_role r, apr_decided_at r) of
             (Some who, Some role, Some t) \<Rightarrow>
               who \<noteq> apr_requested_by r \<and>
               role \<in> {OPERATIONS_ANALYST, OPERATIONS_MANAGER} \<and>
               instant t \<le> instant (apr_expires_at r)
           | _ \<Rightarrow> False))"

definition approvals_good :: "database \<Rightarrow> bool" where
  "approvals_good db \<longleftrightarrow>
     keys_distinct apr_approval_id (tb_approvals db) \<and> list_all approval_row_good (tb_approvals db)"

lemma approval_to_model_sel [simp]:
  "ar_approval_id (approval_to_model r) = apr_approval_id r"
  "ar_decision_id (approval_to_model r) = apr_decision_id r"
  "ar_requested_action (approval_to_model r) = apr_requested_action r"
  "ar_status (approval_to_model r) = apr_status r"
  "ar_requested_by (approval_to_model r) = apr_requested_by r"
  "ar_expires_at (approval_to_model r) = to_utc (apr_expires_at r)"
  "ar_decided_by (approval_to_model r) = apr_decided_by r"
  "ar_decided_by_role (approval_to_model r) = apr_decided_by_role r"
  "ar_decision_reason (approval_to_model r) = apr_decision_reason r"
  "ar_decided_at (approval_to_model r) = map_option to_utc (apr_decided_at r)"
  by (simp_all add: approval_to_model_def)

lemma approval_values_sel [simp]:
  "apr_approval_id (approval_values rec r) = apr_approval_id r"
  "apr_requested_by (approval_values rec r) = apr_requested_by r"
  "apr_expires_at (approval_values rec r) = apr_expires_at r"
  "apr_status (approval_values rec r) = ar_status rec"
  "apr_decided_by (approval_values rec r) = ar_decided_by rec"
  "apr_decided_by_role (approval_values rec r) = ar_decided_by_role rec"
  "apr_decided_at (approval_values rec r) = ar_decided_at rec"
  by (simp_all add: approval_values_def)

lemma filter_key: "keys_distinct key rows \<Longrightarrow>
    filter (\<lambda>r. key r = k \<and> P r) rows =
      (case row_get key k rows of Some r \<Rightarrow> if P r then [r] else [] | None \<Rightarrow> [])"
proof (induction rows)
  case (Cons a rows)
  have "row_get key (key a) rows = None" using Cons.prems by (simp add: keys_distinct_def row_get_None)
  then show ?case using Cons by (auto simp: keys_distinct_def row_get_def)
qed simp

text \<open>On distinct keys the \<open>UPDATE\<close> matches the pending row of the identifier, or nothing.\<close>

lemma update_if_pending_app:
  assumes "keys_distinct apr_approval_id (tb_approvals db)"
  shows "approval_update_if_pending rec db =
    (case row_get apr_approval_id (ar_approval_id rec) (tb_approvals db) of
       None \<Rightarrow> (Inl (err RecordNotFoundError (''approval '' @ repr_str (ar_approval_id rec) @ '' not found'')), db)
     | Some r \<Rightarrow>
         if apr_status r = AP_PENDING
         then (Inr rec, db\<lparr>tb_approvals := row_put apr_approval_id (approval_values rec r) (tb_approvals db)\<rparr>)
         else (Inl (err PersistenceConflictError ''approval is no longer pending''), db))"
proof (cases "row_get apr_approval_id (ar_approval_id rec) (tb_approvals db)")
  case None
  then show ?thesis by (simp add: approval_update_if_pending_def Let_def filter_key [OF assms])
next
  case (Some r)
  note r = row_get_SomeD [OF Some]
  have "x = r" if "x \<in> set (tb_approvals db)" "apr_approval_id x = apr_approval_id r" for x
    using row_get_in [OF assms that(1)] row_get_in [OF assms, of r] r that(2) by simp
  then have "map (\<lambda>x. if apr_approval_id x = ar_approval_id rec \<and> apr_status x = AP_PENDING
        then approval_values rec x else x) (tb_approvals db) =
      row_put apr_approval_id (approval_values rec r) (tb_approvals db)" if "apr_status r = AP_PENDING"
    using that r by (auto simp: row_put_def)
  then show ?thesis using Some
    by (simp add: approval_update_if_pending_def Let_def filter_key [OF assms])
qed

text \<open>The deciding write on a record that was read, whatever happened since.\<close>

lemma decide_write_app:
  assumes "keys_distinct apr_approval_id (tb_approvals db)"
  shows "decide_write rec inp target t db =
    (let expired = (instant (ar_expires_at rec) < instant t);
         updated = (if expired then rec\<lparr>ar_status := AP_EXPIRED\<rparr> else decided_record rec inp target t)
     in case row_get apr_approval_id (ar_approval_id rec) (tb_approvals db) of
       None \<Rightarrow> (Inl (err RecordNotFoundError (''approval '' @ repr_str (ar_approval_id rec) @ '' not found'')), db)
     | Some r \<Rightarrow>
         if apr_status r = AP_PENDING
         then (Inr (updated, expired),
               db\<lparr>tb_approvals := row_put apr_approval_id (approval_values updated r) (tb_approvals db)\<rparr>)
         else (Inl (err ApprovalError ''approval is no longer pending''), db))"
  using assms
  by (auto simp: decide_write_def Let_def bind_def catch_def update_if_pending_app decided_record_def
      split: option.split)

lemma approval_get_SomeD:
  "approval_get k db = Some rec \<Longrightarrow>
     \<exists>r. row_get apr_approval_id k (tb_approvals db) = Some r \<and> rec = approval_to_model r \<and>
       ar_approval_id rec = k"
  using row_get_SomeD [of apr_approval_id k "tb_approvals db"] by (force simp: approval_get_def)

text \<open>Every outcome of a decision, in the order the code tests.\<close>

lemma approval_decide_app:
  assumes g: "keys_distinct apr_approval_id (tb_approvals db)"
  shows "approval_decide env k inp target now wall db =
    (if ad_actor_role inp \<in> {AUDITOR, SERVICE_IDENTITY}
     then (Inl (err ApprovalError ''actor role is not authorised to decide approvals''), db)
     else case bind_claimed_role env (ad_actor_id inp) (ad_actor_role inp) None of
       Inl e \<Rightarrow> (Inl e, db)
     | Inr _ \<Rightarrow>
       (case row_get apr_approval_id k (tb_approvals db) of
          None \<Rightarrow> (Inl (err RecordNotFoundError (''approval '' @ repr_str k @ '' not found'')), db)
        | Some r \<Rightarrow>
          if apr_status r \<noteq> AP_PENDING then (Inl (err ApprovalError ''approval is no longer pending''), db)
          else if apr_requested_by r = ad_actor_id inp
          then (Inl (err IdentityError ''requester cannot approve or reject their own request''), db)
          else let t = to_utc (now_or now wall);
                   expired = (instant (apr_expires_at r) < instant t);
                   updated = (if expired then (approval_to_model r)\<lparr>ar_status := AP_EXPIRED\<rparr>
                              else decided_record (approval_to_model r) inp target t)
               in (if expired then Inl (err ApprovalError ''approval has expired'') else Inr updated,
                   db\<lparr>tb_approvals := row_put apr_approval_id (approval_values updated r) (tb_approvals db)\<rparr>)))"
proof (cases "row_get apr_approval_id k (tb_approvals db)")
  case None
  then show ?thesis
    by (auto simp: approval_decide_def bind_def session_def decide_read_def approval_get_def
        split: sum.split)
next
  case (Some r)
  then have k: "apr_approval_id r = k" by (auto dest: row_get_SomeD)
  show ?thesis
    using Some k
    by (auto simp: approval_decide_def bind_def session_def decide_read_def approval_get_def
        decide_write_app [OF g] decide_finish_def assert_separation_of_duties_def Let_def
        split: sum.split)
qed

lemma approvals_good_put:
  assumes "approvals_good db" and "approval_row_good r"
  shows "approvals_good (db\<lparr>tb_approvals := row_put apr_approval_id r (tb_approvals db)\<rparr>)"
  using assms by (auto simp: approvals_good_def list_all_iff dest!: row_put_set)

lemma decided_row_good:
  assumes "approval_row_good r" and "apr_status r = AP_PENDING" and "apr_requested_by r \<noteq> ad_actor_id inp"
    and "ad_actor_role inp \<notin> {AUDITOR, SERVICE_IDENTITY}" and "target \<in> {AP_APPROVED, AP_REJECTED}"
  shows "instant t \<le> instant (apr_expires_at r) \<Longrightarrow>
      approval_row_good (approval_values (decided_record (approval_to_model r) inp target t) r)"
    and "approval_row_good (approval_values ((approval_to_model r)\<lparr>ar_status := AP_EXPIRED\<rparr>) r)"
  using assms
  by (cases "ad_actor_role inp"; auto simp: approval_row_good_def decided_record_def)+

lemma approval_decide_good:
  assumes "approvals_good db" and "target \<in> {AP_APPROVED, AP_REJECTED}"
  shows "approvals_good (snd (approval_decide env k inp target now wall db))"
proof -
  have g: "keys_distinct apr_approval_id (tb_approvals db)" using assms by (simp add: approvals_good_def)
  show ?thesis
  proof (cases "row_get apr_approval_id k (tb_approvals db)")
    case None
    then show ?thesis using assms by (auto simp: approval_decide_app [OF g] split: sum.split)
  next
    case (Some r)
    then have "approval_row_good r"
      using assms by (auto simp: approvals_good_def list_all_iff dest: row_get_SomeD)
    with Some show ?thesis using assms
      by (auto simp: approval_decide_app [OF g] Let_def split: sum.split
          intro!: approvals_good_put decided_row_good)
  qed
qed

lemma approval_request_good:
  assumes "approvals_good db"
  shows "approvals_good (snd (approval_request L ttl d by now wall db))"
  using assms
  by (auto simp: approval_request_def Let_def session_def approval_create_def approval_get_def
      approvals_good_def keys_distinct_def approval_row_good_def row_get_None
      split: option.split)

text \<open>A decision leaves the database alone or replaces one pending row by a decided one.\<close>

lemma approval_decide_rows:
  assumes g: "keys_distinct apr_approval_id (tb_approvals db)"
  obtains "snd (approval_decide env k inp target now wall db) = db"
  | r u where "row_get apr_approval_id k (tb_approvals db) = Some r" "apr_status r = AP_PENDING"
      "snd (approval_decide env k inp target now wall db) =
         db\<lparr>tb_approvals := row_put apr_approval_id (approval_values u r) (tb_approvals db)\<rparr>"
proof -
  note app = approval_decide_app [OF g, of env k inp target now wall]
  show thesis
  proof (cases "ad_actor_role inp \<in> {AUDITOR, SERVICE_IDENTITY} \<or>
      (\<exists>e. bind_claimed_role env (ad_actor_id inp) (ad_actor_role inp) None = Inl e) \<or>
      row_get apr_approval_id k (tb_approvals db) = None")
    case True
    then have "snd (approval_decide env k inp target now wall db) = db"
      unfolding app by (auto split: sum.split)
    then show thesis by (rule that(1))
  next
    case False
    then obtain x r where "bind_claimed_role env (ad_actor_id inp) (ad_actor_role inp) None = Inr x"
      and r: "row_get apr_approval_id k (tb_approvals db) = Some r"
      by (cases "bind_claimed_role env (ad_actor_id inp) (ad_actor_role inp) None") auto
    then have app': "approval_decide env k inp target now wall db =
       (if apr_status r \<noteq> AP_PENDING then (Inl (err ApprovalError ''approval is no longer pending''), db)
        else if apr_requested_by r = ad_actor_id inp
        then (Inl (err IdentityError ''requester cannot approve or reject their own request''), db)
        else let t = to_utc (now_or now wall);
                 expired = (instant (apr_expires_at r) < instant t);
                 updated = (if expired then (approval_to_model r)\<lparr>ar_status := AP_EXPIRED\<rparr>
                            else decided_record (approval_to_model r) inp target t)
             in (if expired then Inl (err ApprovalError ''approval has expired'') else Inr updated,
                 db\<lparr>tb_approvals := row_put apr_approval_id (approval_values updated r) (tb_approvals db)\<rparr>))"
      using False by (simp add: app)
    show thesis
    proof (cases "apr_status r = AP_PENDING \<and> apr_requested_by r \<noteq> ad_actor_id inp")
      case True
      then show thesis using that(2) [OF r] unfolding app' Let_def by simp
    next
      case False
      then show thesis using that(1) unfolding app' Let_def by (auto split: if_splits)
    qed
  qed
qed

section \<open>Concurrent deciders\<close>

text \<open>
  A decider of the approval \<open>k\<close> has its input, its target and its clock. It reads, then
  writes, then is finished with its result; other deciders may act in between. The read and
  the write are those of \<open>approval_decide\<close>, each on the database as it then is; a write that
  raises is rolled back.
\<close>

record decider =
  dd_input :: approval_decision_input
  dd_target :: approval_status
  dd_decided_at :: datetime

datatype attempt = Waiting | Holding approval_record | Finished "approval_record res"

definition race_read :: "string \<Rightarrow> decider \<Rightarrow> database \<Rightarrow> attempt" where
  "race_read k d db =
     (case decide_read k (dd_input d) db of (Inl e, _) \<Rightarrow> Finished (Inl e) | (Inr rec, _) \<Rightarrow> Holding rec)"

definition race_write :: "decider \<Rightarrow> approval_record \<Rightarrow> database \<Rightarrow> attempt \<times> database" where
  "race_write d rec db =
     (case session (decide_write rec (dd_input d) (dd_target d) (dd_decided_at d)) db of
        (Inl e, db') \<Rightarrow> (Finished (Inl e), db')
      | (Inr p, db') \<Rightarrow> (Finished (decide_finish p), db'))"

inductive race_step ::
  "string \<Rightarrow> decider list \<Rightarrow> database \<times> attempt list \<Rightarrow> database \<times> attempt list \<Rightarrow> bool"
  for k :: string and ds :: "decider list"
where
  reading: "i < length ats \<Longrightarrow> i < length ds \<Longrightarrow> ats ! i = Waiting \<Longrightarrow>
    race_step k ds (db, ats) (db, ats[i := race_read k (ds ! i) db])"
| writing: "i < length ats \<Longrightarrow> i < length ds \<Longrightarrow> ats ! i = Holding rec \<Longrightarrow>
    race_write (ds ! i) rec db = (a, db') \<Longrightarrow>
    race_step k ds (db, ats) (db', ats[i := a])"

inductive_cases race_stepE: "race_step k ds s s'"

definition race_start :: "database \<Rightarrow> decider list \<Rightarrow> database \<times> attempt list" where
  "race_start db ds = (db, map (\<lambda>_. Waiting) ds)"

text \<open>What every interleaving keeps: a held record names the approval, and a finished success
  is the stored, decided record of the only winner.\<close>

definition winner_stored :: "string \<Rightarrow> database \<Rightarrow> approval_record \<Rightarrow> bool" where
  "winner_stored k db rec \<longleftrightarrow>
     (\<exists>r. row_get apr_approval_id k (tb_approvals db) = Some r \<and>
        apr_status r = ar_status rec \<and> apr_decided_by r = ar_decided_by rec \<and>
        apr_status r \<noteq> AP_PENDING)"

definition winners :: "attempt list \<Rightarrow> nat set" where
  "winners ats = {i. i < length ats \<and> (\<exists>x. ats ! i = Finished (Inr x))}"

fun race_good :: "string \<Rightarrow> database \<times> attempt list \<Rightarrow> bool" where
  "race_good k (db, ats) \<longleftrightarrow>
     keys_distinct apr_approval_id (tb_approvals db) \<and>
     (\<forall>i < length ats. \<forall>rec. ats ! i = Holding rec \<longrightarrow> ar_approval_id rec = k) \<and>
     (\<forall>i < length ats. \<forall>rec. ats ! i = Finished (Inr rec) \<longrightarrow> winner_stored k db rec) \<and>
     (\<forall>i\<in>winners ats. \<forall>j\<in>winners ats. i = j)"

declare race_good.simps [simp del]

lemma race_read_cases:
  "(\<exists>e. race_read k d db = Finished (Inl e)) \<or>
   (\<exists>rec. race_read k d db = Holding rec \<and> ar_approval_id rec = k)"
  by (auto simp: race_read_def decide_read_def split: option.split sum.split
      dest!: approval_get_SomeD)

definition race_update :: "decider \<Rightarrow> approval_record \<Rightarrow> approval_record" where
  "race_update d rec =
     (if instant (ar_expires_at rec) < instant (dd_decided_at d) then rec\<lparr>ar_status := AP_EXPIRED\<rparr>
      else decided_record rec (dd_input d) (dd_target d) (dd_decided_at d))"

lemma race_update_decided: "dd_target d \<noteq> AP_PENDING \<Longrightarrow> ar_status (race_update d rec) \<noteq> AP_PENDING"
  by (simp add: race_update_def decided_record_def)

lemma race_write_cases:
  assumes "keys_distinct apr_approval_id (tb_approvals db)" and "race_write d rec db = (a, db')"
  shows "(\<exists>e. a = Finished (Inl e)) \<and> db' = db \<or>
    (\<exists>r. row_get apr_approval_id (ar_approval_id rec) (tb_approvals db) = Some r \<and>
       apr_status r = AP_PENDING \<and>
       db' = db\<lparr>tb_approvals := row_put apr_approval_id (approval_values (race_update d rec) r) (tb_approvals db)\<rparr> \<and>
       ((\<exists>e. a = Finished (Inl e)) \<or> a = Finished (Inr (race_update d rec))))"
  using assms
  by (auto simp: race_write_def session_def decide_write_app Let_def decide_finish_def race_update_def
      split: option.splits if_splits)

lemma race_good_update:
  assumes inv: "race_good k (db, ats)" and i: "i < length ats"
    and a: "(\<exists>e. a = Finished (Inl e)) \<or> (\<exists>rec. a = Holding rec \<and> ar_approval_id rec = k)"
  shows "race_good k (db, ats[i := a])"
proof -
  note I = inv [unfolded race_good.simps]
  have same: "ats[i := a] ! j = Finished (Inr x) \<Longrightarrow> j < length ats \<Longrightarrow> ats ! j = Finished (Inr x)" for j x
    using a by (cases "j = i") auto
  have hold: "ats[i := a] ! j = Holding rec \<Longrightarrow> j < length ats \<Longrightarrow> ar_approval_id rec = k" for j rec
    using a I by (cases "j = i") auto
  have sub: "winners (ats[i := a]) \<subseteq> winners ats" using same by (auto simp: winners_def)
  show ?thesis unfolding race_good.simps length_list_update
    using I hold same sub by (meson subsetD)
qed

lemma race_good_win:
  assumes inv: "race_good k (db, ats)" and i: "i < length ats"
    and r: "row_get apr_approval_id k (tb_approvals db) = Some r" "apr_status r = AP_PENDING"
    and u: "ar_status u \<noteq> AP_PENDING"
    and a: "(\<exists>e. a = Finished (Inl e)) \<or> a = Finished (Inr u)"
    and db': "db' = db\<lparr>tb_approvals := row_put apr_approval_id (approval_values u r) (tb_approvals db)\<rparr>"
  shows "race_good k (db', ats[i := a])"
proof -
  note I = inv [unfolded race_good.simps]
  have none: "ats ! j \<noteq> Finished (Inr x)" if "j < length ats" for j x
  proof
    assume "ats ! j = Finished (Inr x)"
    then have "winner_stored k db x" using I that by blast
    then show False using r by (simp add: winner_stored_def)
  qed
  have rk: "apr_approval_id r = k" using r(1) by (auto dest: row_get_SomeD)
  have won: "j = i \<and> x = u" if "ats[i := a] ! j = Finished (Inr x)" "j < length ats" for j x
    using that none a by (cases "j = i") auto
  have stored: "winner_stored k db' u"
    using r u rk by (auto simp: winner_stored_def db' row_get_put approval_values_def)
  have hold: "ats[i := a] ! j = Holding rec \<Longrightarrow> j < length ats \<Longrightarrow> ar_approval_id rec = k" for j rec
    using a I by (cases "j = i") auto
  have keys: "keys_distinct apr_approval_id (tb_approvals db')" using I by (simp add: db')
  have sub: "winners (ats[i := a]) \<subseteq> {i}" using won by (auto simp: winners_def)
  show ?thesis unfolding race_good.simps length_list_update
    using keys hold stored won sub by (metis singletonD subsetD)
qed

lemma race_good_step:
  assumes st: "race_step k ds s s'" and inv: "race_good k s"
    and targets: "\<forall>d\<in>set ds. dd_target d \<noteq> AP_PENDING"
  shows "race_good k s'"
  using st
proof (cases rule: race_step.cases)
  case (reading i ats db)
  then show ?thesis using inv race_read_cases [of k "ds ! i" db] by (metis race_good_update)
next
  case (writing i ats rec db a db')
  have kd: "keys_distinct apr_approval_id (tb_approvals db)" and hold: "ar_approval_id rec = k"
    using inv writing by (auto simp: race_good.simps)
  have t: "ar_status (race_update (ds ! i) rec) \<noteq> AP_PENDING"
    using targets writing(4) by (simp add: race_update_decided)
  have inv': "race_good k (db, ats)" using inv writing(1) by simp
  show ?thesis
    using race_write_cases [OF kd writing(6)] unfolding hold writing(2)
  proof (elim disjE conjE exE)
    fix e assume "a = Finished (Inl e)" "db' = db"
    then show "race_good k (db', ats[i := a])" using race_good_update [OF inv' writing(3)] by simp
  qed (rule race_good_win [OF inv' writing(3) _ _ t]; blast)+
qed

lemma race_good_reachable:
  assumes "(race_step k ds)\<^sup>*\<^sup>* s s'" and "race_good k s" and "\<forall>d\<in>set ds. dd_target d \<noteq> AP_PENDING"
  shows "race_good k s'"
  using assms by (induction rule: rtranclp_induct) (auto intro: race_good_step)

lemma race_good_start: "keys_distinct apr_approval_id (tb_approvals db) \<Longrightarrow> race_good k (race_start db ds)"
  by (auto simp: race_start_def race_good.simps winners_def)

text \<open>A decision taken alone is the read and the write of the relation, back to back.\<close>

lemma approval_decide_is_race:
  assumes "ad_actor_role inp \<notin> {AUDITOR, SERVICE_IDENTITY}"
    and "bind_claimed_role env (ad_actor_id inp) (ad_actor_role inp) None = Inr role"
    and "d = \<lparr>dd_input = inp, dd_target = target, dd_decided_at = to_utc (now_or now wall)\<rparr>"
    and "approval_decide env k inp target now wall db = (r, db')"
  shows "(race_step k [d])\<^sup>*\<^sup>* (race_start db [d]) (db', [Finished r])"
proof (cases "decide_read k inp db")
  case (Pair x db1)
  then have db1: "db1 = db"
    by (auto simp: decide_read_def split: option.splits if_splits sum.splits)
  have start: "race_step k [d] (race_start db [d]) (db, [race_read k d db])"
    using race_step.reading [of 0 "[Waiting]" "[d]" k db] by (simp add: race_start_def)
  show ?thesis
  proof (cases x)
    case (Inl e)
    then have "r = Inl e" "db' = db" "race_read k d db = Finished (Inl e)"
      using assms Pair by (auto simp: approval_decide_def bind_def session_def race_read_def)
    then show ?thesis using start by auto
  next
    case (Inr rec)
    then have rd: "race_read k d db = Holding rec" using assms(3) Pair by (simp add: race_read_def)
    have "race_write d rec db = (Finished r, db')"
      using assms Pair Inr db1
      by (auto simp: approval_decide_def bind_def session_def race_write_def
          split: prod.splits sum.splits)
    then have "race_step k [d] (db, [Holding rec]) (db', [Finished r])"
      using race_step.writing [of 0 "[Holding rec]" "[d]" rec db "Finished r" db' k] by simp
    then show ?thesis using start rd by (auto intro: rtranclp.rtrancl_into_rtrancl)
  qed
qed

section \<open>Properties\<close>

definition sample_approval_db :: database where
  "sample_approval_db = empty_database\<lparr>tb_approvals :=
     [\<lparr>apr_approval_id = ''apr_1'', apr_decision_id = ''dec_1'', apr_requested_action = REROUTE,
       apr_status = AP_PENDING, apr_requested_by = ''eval-runner'', apr_requested_at = utc 0,
       apr_expires_at = utc default_ttl, apr_decided_by = None, apr_decided_by_role = None,
       apr_decision_reason = None, apr_decided_at = None\<rparr>]\<rparr>"

definition sample_manager :: approval_decision_input where
  "sample_manager = \<lparr>ad_actor_id = ''operations-manager-ui'', ad_actor_role = OPERATIONS_MANAGER,
     ad_reason = ''looks right''\<rparr>"

lemma sample_approval_good: "approvals_good sample_approval_db"
  by code_simp

text \<open>C7: An approval (or rejection) succeeds exactly when the actor is an analyst or a manager
  whose claimed role is bound, the record exists and is still pending, was requested by
  somebody else, and has not expired; the stored row then carries the decision, the actor and
  the role, and every other row is as it was.\<close>

theorem approval_decide_succeeds_iff:
  assumes "approvals_good db"
  shows "((\<exists>rec. fst (approval_decide env k inp target now wall db) = Inr rec) \<longleftrightarrow>
      ad_actor_role inp \<in> {OPERATIONS_ANALYST, OPERATIONS_MANAGER} \<and>
      bind_claimed_role env (ad_actor_id inp) (ad_actor_role inp) None = Inr (ad_actor_role inp) \<and>
      (\<exists>r. row_get apr_approval_id k (tb_approvals db) = Some r \<and> apr_status r = AP_PENDING \<and>
         apr_requested_by r \<noteq> ad_actor_id inp \<and>
         instant (now_or now wall) \<le> instant (apr_expires_at r))) \<and>
    (\<forall>rec. fst (approval_decide env k inp target now wall db) = Inr rec \<longrightarrow>
      approval_get k (snd (approval_decide env k inp target now wall db)) = Some rec \<and>
      ar_status rec = target \<and> ar_decided_by rec = Some (ad_actor_id inp) \<and>
      ar_decided_by_role rec = Some (ad_actor_role inp)) \<and>
    (\<forall>k'. k' \<noteq> k \<longrightarrow>
      approval_get k' (snd (approval_decide env k inp target now wall db)) = approval_get k' db)"
    (is "?iff \<and> ?stored \<and> ?others")
proof -
  have g: "keys_distinct apr_approval_id (tb_approvals db)" using assms by (simp add: approvals_good_def)
  note app = approval_decide_app [OF g, of env k inp target now wall]
  show ?thesis
  proof (cases "row_get apr_approval_id k (tb_approvals db)")
    case None
    then show ?thesis unfolding app by (auto split: sum.split)
  next
    case (Some r)
    then have k: "apr_approval_id r = k" by (auto dest: row_get_SomeD)
    have iff: ?iff
    proof (cases "bind_claimed_role env (ad_actor_id inp) (ad_actor_role inp) None")
      case (Inl e)
      then show ?thesis by (simp add: app)
    next
      case (Inr x)
      then have "x = ad_actor_role inp" by (simp add: bind_claimed_role_Inr)
      with Inr Some show ?thesis
        by (cases "ad_actor_role inp") (auto simp: app Let_def not_less)
    qed
    have stored: ?stored
      unfolding app using Some k
      by (auto simp: Let_def approval_get_def row_get_put decided_record_def approval_values_def
          approval_to_model_def split: sum.split)
    have ?others
      unfolding app using Some k
      by (auto simp: Let_def approval_get_def row_get_put split: sum.split)
    with iff stored show ?thesis by blast
  qed
qed

lemma approval_decide_succeeds_iff_witness:
  "\<exists>rec. fst (approve [] ''apr_1'' sample_manager None (utc 0) sample_approval_db) = Inr rec"
  unfolding approve_def
  using conjunct1 [OF approval_decide_succeeds_iff [OF sample_approval_good], of "[]" "''apr_1''"
      sample_manager AP_APPROVED None "utc 0"]
  by (simp add: sample_manager_def bind_claimed_role_Inr LOCAL_IDENTITY_DIRECTORY_def now_or_def
      sample_approval_db_def default_ttl_def instant_def)

text \<open>C8: Requests, approvals and rejections keep the approvals table well formed: one row per
  identifier, decision fields set on exactly the approved and rejected rows, by an analyst or
  manager other than the requester and before expiry. A row that left \<open>PENDING\<close> never
  changes again.\<close>

theorem approvals_table_invariant:
  assumes "approvals_good db" and "target \<in> {AP_APPROVED, AP_REJECTED}"
  shows "approvals_good (snd (approval_request L ttl d by now wall db)) \<and>
    approvals_good (snd (approval_decide env k inp target now wall db)) \<and>
    (\<forall>r\<in>set (tb_approvals db). apr_status r \<noteq> AP_PENDING \<longrightarrow>
       r \<in> set (tb_approvals (snd (approval_request L ttl d by now wall db))) \<and>
       r \<in> set (tb_approvals (snd (approval_decide env k inp target now wall db))))"
proof -
  have g: "keys_distinct apr_approval_id (tb_approvals db)" using assms by (simp add: approvals_good_def)
  have req: "set (tb_approvals db) \<subseteq> set (tb_approvals (snd (approval_request L ttl d by now wall db)))"
    by (auto simp: approval_request_def Let_def session_def approval_create_def split: option.split)
  have "r \<in> set (tb_approvals (snd (approval_decide env k inp target now wall db)))"
    if r: "r \<in> set (tb_approvals db)" "apr_status r \<noteq> AP_PENDING" for r
  proof (rule approval_decide_rows [OF g, of env k inp target now wall])
    fix x u
    assume x: "row_get apr_approval_id k (tb_approvals db) = Some x" "apr_status x = AP_PENDING"
      and u: "snd (approval_decide env k inp target now wall db) =
         db\<lparr>tb_approvals := row_put apr_approval_id (approval_values u x) (tb_approvals db)\<rparr>"
    have "apr_approval_id r \<noteq> apr_approval_id x"
    proof
      assume "apr_approval_id r = apr_approval_id x"
      then have "row_get apr_approval_id k (tb_approvals db) = Some r"
        using row_get_in [OF g r(1)] row_get_SomeD [OF x(1)] by metis
      then show False using x r(2) by simp
    qed
    then show ?thesis using r(1) unfolding u by (force simp: row_put_def)
  qed (simp add: r)
  then show ?thesis
    using approval_request_good approval_decide_good assms req by blast
qed

lemma approvals_table_invariant_witness:
  "approvals_good (snd (approve [] ''apr_1'' sample_manager None (utc 0) sample_approval_db))"
  unfolding approve_def using approvals_table_invariant [OF sample_approval_good] by blast

text \<open>C6: However the reads and writes of concurrent deciders of one approval interleave, at
  most one of them gets a success, and the stored row then carries that winner's decision.\<close>

theorem concurrent_decisions_single_winner:
  assumes "approvals_good db" and "\<forall>d\<in>set ds. dd_target d \<in> {AP_APPROVED, AP_REJECTED}"
    and "(race_step k ds)\<^sup>*\<^sup>* (race_start db ds) (db', ats)"
  shows "(\<forall>i j x y. i < length ats \<and> j < length ats \<and>
       ats ! i = Finished (Inr x) \<and> ats ! j = Finished (Inr y) \<longrightarrow> i = j) \<and>
    (\<forall>i x. i < length ats \<and> ats ! i = Finished (Inr x) \<longrightarrow>
       (\<exists>r. row_get apr_approval_id k (tb_approvals db') = Some r \<and>
          apr_status r = ar_status x \<and> apr_decided_by r = ar_decided_by x \<and> apr_status r \<noteq> AP_PENDING))"
proof -
  have "\<forall>d\<in>set ds. dd_target d \<noteq> AP_PENDING" using assms(2) by auto
  then have "race_good k (db', ats)"
    using race_good_reachable [OF assms(3)] race_good_start [of db k ds] assms(1)
    by (simp add: approvals_good_def)
  then have w: "\<forall>i\<in>winners ats. \<forall>j\<in>winners ats. i = j"
    and st: "\<forall>i < length ats. \<forall>rec. ats ! i = Finished (Inr rec) \<longrightarrow> winner_stored k db' rec"
    by (simp_all add: race_good.simps)
  show ?thesis
  proof (intro conjI allI impI)
    fix i j x y
    assume "i < length ats \<and> j < length ats \<and> ats ! i = Finished (Inr x) \<and> ats ! j = Finished (Inr y)"
    then have "i \<in> winners ats" "j \<in> winners ats" by (auto simp: winners_def)
    with w show "i = j" by blast
  qed (use st in \<open>auto simp: winner_stored_def\<close>)
qed

lemma concurrent_decisions_single_winner_witness:
  "\<exists>db' ats. (race_step ''apr_1'' [\<lparr>dd_input = sample_manager, dd_target = AP_APPROVED, dd_decided_at = utc 0\<rparr>])\<^sup>*\<^sup>*
      (race_start sample_approval_db [\<lparr>dd_input = sample_manager, dd_target = AP_APPROVED, dd_decided_at = utc 0\<rparr>])
      (db', ats) \<and> length ats = 1 \<and>
      (\<forall>i j x y. i < length ats \<and> j < length ats \<and>
         ats ! i = Finished (Inr x) \<and> ats ! j = Finished (Inr y) \<longrightarrow> i = j)"
proof -
  let ?d = "\<lparr>dd_input = sample_manager, dd_target = AP_APPROVED, dd_decided_at = utc 0\<rparr>"
  obtain r db' where dec: "approval_decide [] ''apr_1'' sample_manager AP_APPROVED None (utc 0)
      sample_approval_db = (r, db')" by fastforce
  have d: "?d = \<lparr>dd_input = sample_manager, dd_target = AP_APPROVED,
      dd_decided_at = to_utc (now_or None (utc 0))\<rparr>"
    by (simp add: now_or_def to_utc_def instant_def)
  have b: "bind_claimed_role [] (ad_actor_id sample_manager) (ad_actor_role sample_manager) None
      = Inr OPERATIONS_MANAGER" "ad_actor_role sample_manager \<notin> {AUDITOR, SERVICE_IDENTITY}"
    by (simp_all add: sample_manager_def bind_claimed_role_Inr LOCAL_IDENTITY_DIRECTORY_def)
  have steps: "(race_step ''apr_1'' [?d])\<^sup>*\<^sup>* (race_start sample_approval_db [?d]) (db', [Finished r])"
    by (rule approval_decide_is_race [OF b(2,1) d dec])
  show ?thesis
    using concurrent_decisions_single_winner [OF sample_approval_good _ steps] steps
    by (intro exI [of _ db'] exI [of _ "[Finished r]"]) simp
qed

end
