(* ===== verification/Risk_Scoring.thy ===== *)
theory Risk_Scoring
  imports Domain_Models
begin

text \<open>
  The two risk scorers: the rules of \<^verbatim>\<open>src/src/promiseguard/risk.py\<close> and the inference
  adapter of \<^verbatim>\<open>trained_risk.py\<close> with the features of \<^verbatim>\<open>features.py\<close>. The rules thread a
  probability and a list of factors through four steps, one per signal. The trained
  estimator is third-party code: a function from a feature row to the probability of the
  positive class. The protocol both implement is the locale \<open>risk_scorer\<close>.
\<close>

section \<open>Point-in-time features\<close>

definition FEATURE_NAMES :: "string list" where
  "FEATURE_NAMES =
     [''inventory_reserved'', ''inventory_available'', ''inventory_confidence'',
      ''carrier_on_time_probability'', ''hours_since_expected_scan'', ''hours_to_promise'',
      ''alternative_location_available'', ''data_freshness_minutes'', ''gross_margin'',
      ''cancellation_cost'', ''support_cost'', ''is_vip'', ''restricted_product'']"

definition float_of_bool :: "bool \<Rightarrow> rat" where
  "float_of_bool b = (if b then 1 else 0)"

text \<open>\<open>(a - b).total_seconds() / 3_600\<close>: two correctly rounded divisions.\<close>

definition hours_to_promise :: "order_context \<Rightarrow> rat" where
  "hours_to_promise c =
     fdiv (fdiv (of_int (instant (oc_promised_delivery_at c) - instant (oc_evaluation_time c))) 1000000)
       3600"

definition extract_features :: "order_context \<Rightarrow> rat list" where
  "extract_features c =
     [float_of_bool (oc_inventory_reserved c),
      float_of_bool (oc_inventory_available c),
      oc_inventory_confidence c,
      oc_carrier_on_time_probability c,
      oc_hours_since_expected_scan c,
      hours_to_promise c,
      float_of_bool (oc_alternative_location_available c),
      fl (of_int (oc_data_freshness_minutes c)),
      fl (oc_gross_margin c),
      fl (oc_cancellation_cost c),
      fl (oc_support_cost c),
      float_of_bool (oc_customer_segment c = ''VIP''),
      float_of_bool (oc_restricted_product c)]"

lemma extract_features_length: "length (extract_features c) = length FEATURE_NAMES"
  by (simp add: extract_features_def FEATURE_NAMES_def)

section \<open>The deterministic scorer\<close>

type_synonym risk_acc = "rat \<times> risk_factor list"

definition carrier_baseline :: "order_context \<Rightarrow> risk_acc" where
  "carrier_baseline c =
     (let probability = fsub 1 (oc_carrier_on_time_probability c)
      in (probability,
          [\<lparr>rf_code = ''CARRIER_BASELINE'', rf_contribution = py_round 4 probability,
            rf_explanation = ''Carrier baseline implies residual promise-failure risk.''\<rparr>]))"

fun reserved_stock_step :: "order_context \<Rightarrow> risk_acc \<Rightarrow> risk_acc" where
  "reserved_stock_step c (probability, factors) =
     (if oc_inventory_reserved c \<and> \<not> oc_inventory_available c
      then (fadd probability (fl (45/100)),
            factors @ [\<lparr>rf_code = ''RESERVED_STOCK_UNAVAILABLE'', rf_contribution = fl (45/100),
              rf_explanation = ''Reserved inventory is not available at the selected location.''\<rparr>])
      else (probability, factors))"

definition low_confidence_contribution :: "order_context \<Rightarrow> rat" where
  "low_confidence_contribution c =
     min (fl (18/100)) (fmul (fsub (fl (80/100)) (oc_inventory_confidence c)) (fl (60/100)))"

fun inventory_confidence_step :: "order_context \<Rightarrow> risk_acc \<Rightarrow> risk_acc" where
  "inventory_confidence_step c (probability, factors) =
     (if oc_inventory_confidence c < fl (80/100)
      then (fadd probability (low_confidence_contribution c),
            factors @ [\<lparr>rf_code = ''LOW_INVENTORY_CONFIDENCE'',
              rf_contribution = py_round 4 (low_confidence_contribution c),
              rf_explanation = ''Inventory confidence is below the operational threshold.''\<rparr>])
      else (probability, factors))"

definition missing_scan_contribution :: "order_context \<Rightarrow> rat" where
  "missing_scan_contribution c = min (fl (25/100)) (fdiv (oc_hours_since_expected_scan c) 48)"

fun missing_scan_step :: "order_context \<Rightarrow> risk_acc \<Rightarrow> risk_acc" where
  "missing_scan_step c (probability, factors) =
     (if 2 \<le> oc_hours_since_expected_scan c
      then (fadd probability (missing_scan_contribution c),
            factors @ [\<lparr>rf_code = ''MISSING_CARRIER_SCAN'',
              rf_contribution = py_round 4 (missing_scan_contribution c),
              rf_explanation = ''The expected carrier scan has not arrived on time.''\<rparr>])
      else (probability, factors))"

fun promise_window_step :: "order_context \<Rightarrow> risk_acc \<Rightarrow> risk_acc" where
  "promise_window_step c (probability, factors) =
     (if hours_to_promise c \<le> 24
      then (fadd probability (fl (8/100)),
            factors @ [\<lparr>rf_code = ''PROMISE_WINDOW_TIGHT'', rf_contribution = fl (8/100),
              rf_explanation = ''Less than 24 hours remain before the customer promise date.''\<rparr>])
      else (probability, factors))"

definition accumulated_risk :: "order_context \<Rightarrow> risk_acc" where
  "accumulated_risk c =
     promise_window_step c (missing_scan_step c (inventory_confidence_step c
       (reserved_stock_step c (carrier_baseline c))))"

definition clamp_probability :: "rat \<Rightarrow> rat" where
  "clamp_probability p = py_round 4 (min (max p (fl (1/100))) (fl (99/100)))"

definition deterministic_warnings :: "order_context \<Rightarrow> string list" where
  "deterministic_warnings c =
     (if 15 < oc_data_freshness_minutes c then [''STALE_OPERATIONAL_CONTEXT''] else []) @
     (if oc_source_references c = [] then [''MISSING_SOURCE_REFERENCES''] else [])"

definition deterministic_confidence :: "order_context \<Rightarrow> rat" where
  "deterministic_confidence c =
     (let confidence = min (oc_inventory_confidence c) (fl (98/100));
          confidence = (if 15 < oc_data_freshness_minutes c then min confidence (fl (45/100)) else confidence)
      in if oc_source_references c = [] then 0 else confidence)"

definition deterministic_model_version :: string where
  "deterministic_model_version = ''rules-baseline-v2''"

definition deterministic_score :: "order_context \<Rightarrow> risk_assessment" where
  "deterministic_score c =
     (let (probability, factors) = accumulated_risk c
      in \<lparr>ra_failure_probability = clamp_probability probability,
          ra_confidence = py_round 4 (min (max (deterministic_confidence c) 0) 1),
          ra_model_version = deterministic_model_version,
          ra_feature_timestamp = oc_evaluation_time c,
          ra_factors = factors,
          ra_data_quality_warnings = deterministic_warnings c,
          ra_evidence_references = oc_source_references c\<rparr>)"

definition deterministic_score_many :: "order_context list \<Rightarrow> risk_assessment list" where
  "deterministic_score_many cs = map deterministic_score cs"

section \<open>The trained scorer\<close>

record risk_artifact =
  art_feature_names :: "string list"
  art_estimator :: "rat list \<Rightarrow> rat"
  art_model_version :: string

text \<open>The constructor refuses an artifact with another feature schema.\<close>

definition trained_scorer_init :: "risk_artifact \<Rightarrow> risk_artifact res" where
  "trained_scorer_init a =
     (if art_feature_names a \<noteq> FEATURE_NAMES
      then Inl (err ValueError ''risk artifact feature schema does not match runtime schema'')
      else Inr a)"

definition operational_factors :: "order_context \<Rightarrow> risk_factor list" where
  "operational_factors c =
     [\<lparr>rf_code = ''CARRIER_BASELINE'',
       rf_contribution = py_round 4 (fsub 1 (oc_carrier_on_time_probability c)),
       rf_explanation = ''Carrier reliability is an input to the calibrated model.''\<rparr>] @
     (if oc_inventory_reserved c \<and> \<not> oc_inventory_available c
      then [\<lparr>rf_code = ''RESERVED_STOCK_UNAVAILABLE'', rf_contribution = 1,
             rf_explanation = ''Reserved stock is unavailable in the current context.''\<rparr>]
      else []) @
     (if 2 \<le> oc_hours_since_expected_scan c
      then [\<lparr>rf_code = ''MISSING_CARRIER_SCAN'',
             rf_contribution = py_round 4 (oc_hours_since_expected_scan c),
             rf_explanation = ''The expected carrier scan is delayed.''\<rparr>]
      else [])"

definition trained_confidence :: "order_context \<Rightarrow> rat" where
  "trained_confidence c =
     (let confidence = min (oc_inventory_confidence c) (fl (98/100))
      in if 15 < oc_data_freshness_minutes c then min confidence (fl (45/100)) else confidence)"

definition trained_assessment :: "risk_artifact \<Rightarrow> order_context \<Rightarrow> rat \<Rightarrow> risk_assessment" where
  "trained_assessment a c probability =
     \<lparr>ra_failure_probability = clamp_probability probability,
      ra_confidence = py_round 4 (trained_confidence c),
      ra_model_version = art_model_version a,
      ra_feature_timestamp = oc_evaluation_time c,
      ra_factors = operational_factors c,
      ra_data_quality_warnings =
        (if 15 < oc_data_freshness_minutes c then [''STALE_OPERATIONAL_CONTEXT''] else []),
      ra_evidence_references = oc_source_references c\<rparr>"

definition trained_score_many :: "risk_artifact \<Rightarrow> order_context list \<Rightarrow> risk_assessment list" where
  "trained_score_many a cs =
     map (\<lambda>(c, p). trained_assessment a c p)
       (zip cs (map (art_estimator a) (map extract_features cs)))"

definition trained_score :: "risk_artifact \<Rightarrow> order_context \<Rightarrow> risk_assessment" where
  "trained_score a c = trained_score_many a [c] ! 0"

lemma trained_score_eq: "trained_score a c = trained_assessment a c (art_estimator a (extract_features c))"
  by (simp add: trained_score_def trained_score_many_def)

lemma trained_score_many_eq: "trained_score_many a cs = map (trained_score a) cs"
  by (induction cs) (simp_all add: trained_score_many_def trained_score_eq)

section \<open>The interface of a scorer\<close>

locale risk_scorer =
  fixes score :: "order_context \<Rightarrow> risk_assessment"
  assumes score_failure_probability:
      "\<exists>p. ra_failure_probability (score c) = clamp_probability p"
    and score_confidence: "valid_order_context c \<Longrightarrow> unit_float (ra_confidence (score c))"
    and score_stale_confidence: "15 < oc_data_freshness_minutes c \<Longrightarrow> ra_confidence (score c) \<le> fl (45/100)"
    and score_warnings: "valid_order_context c \<Longrightarrow>
      ra_data_quality_warnings (score c) =
        (if 15 < oc_data_freshness_minutes c then [''STALE_OPERATIONAL_CONTEXT''] else [])"
    and score_evidence: "ra_evidence_references (score c) = oc_source_references c"

lemma clamp_probability_mono: "p \<le> q \<Longrightarrow> clamp_probability p \<le> clamp_probability q"
  unfolding clamp_probability_def by (intro py_round_mono min.mono max.mono) auto

lemma clamp_probability_bounds:
  "fl (1/100) \<le> clamp_probability p" "clamp_probability p \<le> fl (99/100)"
proof -
  have le: "fl (1/100) \<le> fl (99/100)" by (rule float.rnd_mono) simp
  have lo: "py_round 4 (fl (1/100)) = fl (1/100)" and hi: "py_round 4 (fl (99/100)) = fl (99/100)"
    by code_simp+
  have "py_round 4 (fl (1/100)) \<le> clamp_probability p"
    unfolding clamp_probability_def using le by (intro py_round_mono) (simp add: min_def max_def)
  then show "fl (1/100) \<le> clamp_probability p" by (simp only: lo)
  have "clamp_probability p \<le> py_round 4 (fl (99/100))"
    unfolding clamp_probability_def by (intro py_round_mono) simp
  then show "clamp_probability p \<le> fl (99/100)" by (simp only: hi)
qed

lemma clamp_probability_unit: "unit_float (clamp_probability p)"
proof (rule unit_floatI)
  show "is_float (clamp_probability p)" by (simp add: clamp_probability_def)
  show "0 \<le> clamp_probability p"
    using clamp_probability_bounds(1) [of p] float.rnd_nonneg [of "1/100"] by simp
  show "clamp_probability p \<le> 1"
    using clamp_probability_bounds(2) [of p] float.rnd_le_1 [of "99/100"] by simp
qed

context risk_scorer begin

lemma score_valid: "valid_order_context c \<Longrightarrow> valid_risk_assessment (score c)"
  using score_failure_probability [of c] score_confidence [of c] clamp_probability_unit
  by (auto simp: valid_risk_assessment_def)

lemma score_bounds:
  "fl (1/100) \<le> ra_failure_probability (score c)" "ra_failure_probability (score c) \<le> fl (99/100)"
  using score_failure_probability [of c] clamp_probability_bounds by auto

lemma score_fresh_iff:
  "valid_order_context c \<Longrightarrow> ra_data_quality_warnings (score c) = [] \<longleftrightarrow> oc_data_freshness_minutes c \<le> 15"
  by (simp add: score_warnings)

end

lemma round4_45: "py_round 4 (fl (45/100)) = fl (45/100)"
  by code_simp

lemma confidence_unit: "valid_order_context c \<Longrightarrow> unit_float (trained_confidence c)"
proof -
  assume "valid_order_context c"
  then have ic: "unit_float (oc_inventory_confidence c)" by (rule valid_order_floats)
  have lit: "unit_float (fl q)" if "0 \<le> q" "q \<le> 1" for q
    using that by (simp add: unit_floatI float.rnd_nonneg float.rnd_le_1)
  show ?thesis unfolding trained_confidence_def Let_def
    by (auto intro!: unit_float_min ic lit)
qed

lemma confidence_stale: "15 < oc_data_freshness_minutes c \<Longrightarrow> trained_confidence c \<le> fl (45/100)"
  by (simp add: trained_confidence_def Let_def)

lemma deterministic_confidence_eq:
  "oc_source_references c \<noteq> [] \<Longrightarrow> deterministic_confidence c = trained_confidence c"
  by (simp add: deterministic_confidence_def trained_confidence_def Let_def)

lemma deterministic_score_sel [simp]:
  "ra_failure_probability (deterministic_score c) = clamp_probability (fst (accumulated_risk c))"
  "ra_confidence (deterministic_score c) = py_round 4 (min (max (deterministic_confidence c) 0) 1)"
  "ra_factors (deterministic_score c) = snd (accumulated_risk c)"
  "ra_data_quality_warnings (deterministic_score c) = deterministic_warnings c"
  "ra_evidence_references (deterministic_score c) = oc_source_references c"
  by (simp_all add: deterministic_score_def split: prod.split)

interpretation rules: risk_scorer deterministic_score
proof unfold_locales
  fix c
  show "\<exists>p. ra_failure_probability (deterministic_score c) = clamp_probability p" by auto
  show "ra_evidence_references (deterministic_score c) = oc_source_references c" by simp
  show "valid_order_context c \<Longrightarrow> unit_float (ra_confidence (deterministic_score c))"
    by (auto intro: unit_float_round)
  show "valid_order_context c \<Longrightarrow> ra_data_quality_warnings (deterministic_score c) =
      (if 15 < oc_data_freshness_minutes c then [''STALE_OPERATIONAL_CONTEXT''] else [])"
    using valid_order_refs [of c] by (simp add: deterministic_warnings_def)
  assume "15 < oc_data_freshness_minutes c"
  then have "deterministic_confidence c \<le> fl (45/100)"
    using confidence_stale [of c] float.rnd_nonneg [of "45/100"]
    by (simp add: deterministic_confidence_def trained_confidence_def Let_def)
  then have "min (max (deterministic_confidence c) 0) 1 \<le> fl (45/100)"
    using float.rnd_nonneg [of "45/100"] by simp
  then have "ra_confidence (deterministic_score c) \<le> py_round 4 (fl (45/100))"
    unfolding deterministic_score_sel by (rule py_round_mono)
  then show "ra_confidence (deterministic_score c) \<le> fl (45/100)" by (simp only: round4_45)
qed

interpretation trained: risk_scorer "trained_score a" for a
proof unfold_locales
  fix c
  show "\<exists>p. ra_failure_probability (trained_score a c) = clamp_probability p"
    by (auto simp: trained_score_eq trained_assessment_def)
  show "ra_evidence_references (trained_score a c) = oc_source_references c"
    by (simp add: trained_score_eq trained_assessment_def)
  show "valid_order_context c \<Longrightarrow> unit_float (ra_confidence (trained_score a c))"
    using unit_floatD [OF confidence_unit, of c]
    by (auto simp: trained_score_eq trained_assessment_def intro: unit_float_round)
  show "valid_order_context c \<Longrightarrow> ra_data_quality_warnings (trained_score a c) =
      (if 15 < oc_data_freshness_minutes c then [''STALE_OPERATIONAL_CONTEXT''] else [])"
    by (simp add: trained_score_eq trained_assessment_def)
  assume "15 < oc_data_freshness_minutes c"
  then have "ra_confidence (trained_score a c) \<le> py_round 4 (fl (45/100))"
    using confidence_stale [of c]
    by (auto simp: trained_score_eq trained_assessment_def intro: py_round_mono)
  then show "ra_confidence (trained_score a c) \<le> fl (45/100)" by (simp only: round4_45)
qed

section \<open>Worse signals never lower the score\<close>

definition at_least_as_risky :: "order_context \<Rightarrow> order_context \<Rightarrow> bool" where
  "at_least_as_risky c d \<longleftrightarrow>
     oc_carrier_on_time_probability d \<le> oc_carrier_on_time_probability c \<and>
     oc_inventory_confidence d \<le> oc_inventory_confidence c \<and>
     oc_hours_since_expected_scan c \<le> oc_hours_since_expected_scan d \<and>
     (oc_inventory_reserved c \<and> \<not> oc_inventory_available c \<longrightarrow>
        oc_inventory_reserved d \<and> \<not> oc_inventory_available d) \<and>
     instant (oc_promised_delivery_at d) - instant (oc_evaluation_time d)
       \<le> instant (oc_promised_delivery_at c) - instant (oc_evaluation_time c)"

lemma fadd_mono: "x \<le> x' \<Longrightarrow> y \<le> y' \<Longrightarrow> fadd x y \<le> fadd x' y'"
  unfolding fadd_def by (rule float.rnd_mono) simp

text \<open>Adding a non-negative amount to a float never lowers it.\<close>

lemma fadd_grows: "is_float p \<Longrightarrow> p \<le> q \<Longrightarrow> 0 \<le> d \<Longrightarrow> p \<le> fadd q d"
  unfolding fadd_def by (rule float.rnd_ge_rep) auto

lemma low_confidence_nonneg:
  "oc_inventory_confidence c < fl (80/100) \<Longrightarrow> 0 \<le> low_confidence_contribution c"
  unfolding low_confidence_contribution_def fmul_def fsub_def
  by (intro min.boundedI float.rnd_nonneg mult_nonneg_nonneg) auto

lemma low_confidence_mono:
  "oc_inventory_confidence d \<le> oc_inventory_confidence c \<Longrightarrow>
     low_confidence_contribution c \<le> low_confidence_contribution d"
  unfolding low_confidence_contribution_def fmul_def fsub_def
  by (intro min.mono float.rnd_mono mult_right_mono) (auto intro: float.rnd_nonneg)

lemma missing_scan_nonneg: "0 \<le> oc_hours_since_expected_scan c \<Longrightarrow> 0 \<le> missing_scan_contribution c"
  unfolding missing_scan_contribution_def fdiv_def
  by (intro min.boundedI float.rnd_nonneg) auto

lemma missing_scan_mono:
  "oc_hours_since_expected_scan c \<le> oc_hours_since_expected_scan d \<Longrightarrow>
     missing_scan_contribution c \<le> missing_scan_contribution d"
  unfolding missing_scan_contribution_def fdiv_def
  by (intro min.mono float.rnd_mono divide_right_mono) auto

lemma hours_to_promise_mono:
  "at_least_as_risky c d \<Longrightarrow> hours_to_promise d \<le> hours_to_promise c"
  unfolding hours_to_promise_def fdiv_def at_least_as_risky_def
  by (intro float.rnd_mono divide_right_mono) auto

lemma steps_float:
  "is_float (fst (carrier_baseline c))"
  "is_float (fst r) \<Longrightarrow> is_float (fst (reserved_stock_step c r))"
  "is_float (fst r) \<Longrightarrow> is_float (fst (inventory_confidence_step c r))"
  "is_float (fst r) \<Longrightarrow> is_float (fst (missing_scan_step c r))"
  by (cases r; simp add: carrier_baseline_def Let_def fsub_def fadd_def)+

lemma carrier_baseline_mono:
  "at_least_as_risky c d \<Longrightarrow> fst (carrier_baseline c) \<le> fst (carrier_baseline d)"
  unfolding at_least_as_risky_def carrier_baseline_def Let_def fsub_def
  by (auto intro: float.rnd_mono)

lemma steps_mono:
  assumes r: "at_least_as_risky c d" and p: "is_float (fst p)" "fst p \<le> fst q"
  shows "fst (reserved_stock_step c p) \<le> fst (reserved_stock_step d q)"
    and "fst (inventory_confidence_step c p) \<le> fst (inventory_confidence_step d q)"
    and "fst (missing_scan_step c p) \<le> fst (missing_scan_step d q)"
    and "fst (promise_window_step c p) \<le> fst (promise_window_step d q)"
proof -
  obtain pv pf qv qf where pq: "p = (pv, pf)" "q = (qv, qf)" by (cases p; cases q) auto
  have p': "is_float pv" "pv \<le> qv" using p pq by auto
  have lit: "0 \<le> fl (45/100)" "0 \<le> fl (8/100)" by (simp_all add: float.rnd_nonneg)
  show "fst (reserved_stock_step c p) \<le> fst (reserved_stock_step d q)"
    using r p' lit by (auto simp: pq at_least_as_risky_def intro: fadd_mono fadd_grows)
  show "fst (inventory_confidence_step c p) \<le> fst (inventory_confidence_step d q)"
    using r p' low_confidence_nonneg [of d] low_confidence_mono [of d c]
    by (auto simp: pq at_least_as_risky_def intro: fadd_mono fadd_grows)
  show "fst (missing_scan_step c p) \<le> fst (missing_scan_step d q)"
    using r p' missing_scan_nonneg [of d] missing_scan_mono [of c d]
    by (auto simp: pq at_least_as_risky_def intro: fadd_mono fadd_grows)
  show "fst (promise_window_step c p) \<le> fst (promise_window_step d q)"
    using r p' lit hours_to_promise_mono [OF r] by (auto simp: pq intro: fadd_mono fadd_grows)
qed

lemma accumulated_risk_mono:
  "at_least_as_risky c d \<Longrightarrow> fst (accumulated_risk c) \<le> fst (accumulated_risk d)"
  unfolding accumulated_risk_def by (intro steps_mono steps_float carrier_baseline_mono)

section \<open>Properties\<close>

text \<open>C15: Both scorers, the rule-based one and the one of a trained artifact, return a valid
  assessment of every valid order whose failure probability lies in \<open>[0.01, 0.99]\<close>; they
  warn exactly when the context is older than fifteen minutes, and their confidence is then
  at most \<open>0.45\<close>.\<close>

theorem scorers_sound:
  assumes "valid_order_context c" and "s = deterministic_score c \<or> s = trained_score a c"
  shows "valid_risk_assessment s \<and>
    fl (1/100) \<le> ra_failure_probability s \<and> ra_failure_probability s \<le> fl (99/100) \<and>
    (ra_data_quality_warnings s = [] \<longleftrightarrow> oc_data_freshness_minutes c \<le> 15) \<and>
    (15 < oc_data_freshness_minutes c \<longrightarrow> ra_confidence s \<le> fl (45/100))"
  using assms rules.score_valid trained.score_valid rules.score_bounds trained.score_bounds
    rules.score_fresh_iff trained.score_fresh_iff rules.score_stale_confidence
    trained.score_stale_confidence
  by blast

lemma scorers_sound_witness:
  "valid_risk_assessment (deterministic_score sample_order) \<and>
   ra_data_quality_warnings (deterministic_score sample_order) = []"
  using scorers_sound [OF sample_order_valid disjI1 [OF refl]] by (simp add: sample_order_def)

text \<open>The rule-based failure probability is monotone: an order that is no better on any
  signal (carrier, inventory confidence, missing scan, reserved but absent stock, time to the
  promise) never scores a lower probability, float rounding included.\<close>

theorem deterministic_score_mono:
  assumes "at_least_as_risky c d"
  shows "ra_failure_probability (deterministic_score c) \<le> ra_failure_probability (deterministic_score d)"
  using assms by (simp add: accumulated_risk_mono clamp_probability_mono)

end
