(* ===== verification/Recovery_Simulator.thy ===== *)
theory Recovery_Simulator
  imports Domain_Models
begin

text \<open>
  \<^verbatim>\<open>src/src/promiseguard/simulator.py\<close>: the four counterfactual options of an order. The
  money of an option is computed in the decimal context and quantised to cents, which raises
  \<open>InvalidOperation\<close> on amounts that do not fit in 28 digits; the option's constructor
  validates its fields. The lemmas show that neither can happen on a valid order whose
  amounts stay below \<open>10^24\<close>, what the options then hold, and that a better chance at no
  higher cost never has a lower value.
\<close>

section \<open>Cents\<close>

definition money :: "rat \<Rightarrow> rat res" where
  "money x =
     (case quantize round_half_up 2 x of
        Some y \<Rightarrow> Inr y
      | None \<Rightarrow> Inl (err InvalidOperation ''[<class 'decimal.InvalidOperation'>]''))"

lemma money_InrD:
  "money x = Inr y \<Longrightarrow> y = of_int (round_half_up (x * 100)) / 100"
  by (auto simp: money_def power2_eq_square dest!: quantize_SomeD split: option.splits)

lemma money_mono: "money x = Inr x' \<Longrightarrow> money y = Inr y' \<Longrightarrow> x \<le> y \<Longrightarrow> x' \<le> y'"
  by (auto dest!: money_InrD intro!: divide_right_mono round_half_up_mono)

lemma money_nonneg: "money x = Inr y \<Longrightarrow> 0 \<le> x \<Longrightarrow> 0 \<le> y"
  by (auto dest!: money_InrD intro!: divide_nonneg_nonneg round_half_up_nonneg)

lemma money_error: "money x = Inr y \<Longrightarrow> \<bar>y - x\<bar> \<le> 1/200"
  using round_half_up_error [of "x * 100"] by (auto dest!: money_InrD simp: field_simps abs_le_iff)

lemma money_total:
  assumes "\<bar>x\<bar> \<le> 10 ^ 25"
  shows "\<exists>y. money x = Inr y \<and> \<bar>y\<bar> \<le> 10 ^ 25"
proof -
  have "x * 100 \<le> of_int (10 ^ 27)" "of_int (- (10 ^ 27)) \<le> x * 100" using assms by auto
  then have k: "round_half_up (x * 100) \<le> 10 ^ 27" "- (10 ^ 27) \<le> round_half_up (x * 100)"
    using round_half_up_mono [of "x * 100" "of_int (10 ^ 27)"]
      round_half_up_mono [of "of_int (- (10 ^ 27))" "x * 100"]
    by (simp_all only: round_half_up_of_int)
  then have "\<bar>round_half_up (x * 100)\<bar> < 10 ^ 28" by simp
  then have m: "money x = Inr (of_int (round_half_up (x * 100)) / 100)"
    by (simp add: money_def quantize_def power2_eq_square)
  have "rat_of_int (round_half_up (x * 100)) \<le> of_int (10 ^ 27)"
    "rat_of_int (- (10 ^ 27)) \<le> of_int (round_half_up (x * 100))"
    using k by (simp_all only: of_int_le_iff)
  then have "\<bar>rat_of_int (round_half_up (x * 100)) / 100\<bar> \<le> 10 ^ 25"
    by (simp add: abs_le_iff)
  with m show ?thesis by blast
qed

section \<open>One option\<close>

text \<open>The constructor of \<open>RecoveryOption\<close>.\<close>

definition new_recovery_option :: "recovery_option \<Rightarrow> recovery_option res" where
  "new_recovery_option r =
     (if valid_recovery_option r then Inr r else Inl (err ValidationError ''RecoveryOption''))"

definition build_option ::
  "recovery_action \<Rightarrow> order_context \<Rightarrow> rat \<Rightarrow> rat \<Rightarrow> bool \<Rightarrow> bool \<Rightarrow> rat \<Rightarrow> string list \<Rightarrow> recovery_option res"
where
  "build_option action c on_time_probability intervention_cost feasible reversible confidence constraints =
     (let success = decimal_of_float on_time_probability;
          failure = dsub 1 success
      in bind_res (money (dmul (oc_gross_margin c) success)) (\<lambda>expected_margin.
         bind_res (money (dmul (dadd (oc_cancellation_cost c) (oc_support_cost c)) failure))
           (\<lambda>expected_failure_cost.
         bind_res (money (dsub (dsub expected_margin expected_failure_cost) intervention_cost))
           (\<lambda>net_value.
         let expected_net_value = (if feasible then net_value else - 999999)
         in bind_res (money intervention_cost) (\<lambda>cost.
            new_recovery_option
              \<lparr>ro_action = action,
               ro_feasible = feasible,
               ro_on_time_probability = on_time_probability,
               ro_expected_retained_gross_margin = expected_margin,
               ro_intervention_cost = cost,
               ro_expected_failure_cost = expected_failure_cost,
               ro_expected_net_value = expected_net_value,
               ro_reversible = reversible,
               ro_confidence = py_round 4 confidence,
               ro_constraints = constraints,
               ro_evidence_references = oc_source_references c\<rparr>)))))"

section \<open>The four options\<close>

definition simulator_version :: string where
  "simulator_version = ''counterfactual-rules-v2''"

definition reroute_feasible :: "order_context \<Rightarrow> bool" where
  "reroute_feasible c \<longleftrightarrow>
     oc_alternative_location_available c \<and> oc_alternative_location_id c \<noteq> None"

definition no_action_option :: "order_context \<Rightarrow> risk_assessment \<Rightarrow> recovery_option res" where
  "no_action_option c risk =
     build_option TAKE_NO_ACTION c (py_round 4 (fsub 1 (ra_failure_probability risk))) 0 True True
       (ra_confidence risk) []"

definition reroute_option :: "order_context \<Rightarrow> risk_assessment \<Rightarrow> recovery_option res" where
  "reroute_option c risk =
     build_option REROUTE c (if reroute_feasible c then oc_reroute_on_time_probability c else 0)
       (oc_reroute_cost c) (reroute_feasible c) True
       (min (ra_confidence risk) (oc_inventory_confidence c))
       (if reroute_feasible c then [] else [''NO_VERIFIED_ALTERNATIVE_LOCATION''])"

definition carrier_upgrade_option :: "order_context \<Rightarrow> risk_assessment \<Rightarrow> recovery_option res" where
  "carrier_upgrade_option c risk =
     build_option CARRIER_UPGRADE c (oc_carrier_upgrade_on_time_probability c)
       (oc_carrier_upgrade_cost c) True True (ra_confidence risk) []"

definition split_shipment_option :: "order_context \<Rightarrow> risk_assessment \<Rightarrow> recovery_option res" where
  "split_shipment_option c risk =
     build_option SPLIT_SHIPMENT c
       (if oc_split_shipment_possible c then oc_split_shipment_on_time_probability c else 0)
       (oc_split_shipment_cost c) (oc_split_shipment_possible c) True
       (min (ra_confidence risk) (oc_inventory_confidence c))
       (if oc_split_shipment_possible c then [] else [''SPLIT_SHIPMENT_NOT_FEASIBLE''])"

definition simulate :: "order_context \<Rightarrow> risk_assessment \<Rightarrow> recovery_option list res" where
  "simulate c risk =
     bind_res (no_action_option c risk) (\<lambda>no_action.
     bind_res (reroute_option c risk) (\<lambda>reroute.
     bind_res (carrier_upgrade_option c risk) (\<lambda>upgrade.
     bind_res (split_shipment_option c risk) (\<lambda>split.
     Inr [no_action, reroute, upgrade, split]))))"

section \<open>What an option holds\<close>

lemma build_option_InrE:
  assumes "build_option a c p cost fe rv conf cs = Inr r"
  obtains margin fcost net where
    "money (dmul (oc_gross_margin c) (decimal_of_float p)) = Inr margin"
    "money (dmul (dadd (oc_cancellation_cost c) (oc_support_cost c)) (dsub 1 (decimal_of_float p))) = Inr fcost"
    "money (dsub (dsub margin fcost) cost) = Inr net"
    "money cost = Inr (ro_intervention_cost r)"
    "ro_action r = a" "ro_feasible r = fe" "ro_on_time_probability r = p"
    "ro_expected_retained_gross_margin r = margin" "ro_expected_failure_cost r = fcost"
    "ro_expected_net_value r = (if fe then net else - 999999)"
    "ro_reversible r = rv" "ro_confidence r = py_round 4 conf" "ro_constraints r = cs"
    "ro_evidence_references r = oc_source_references c"
    "valid_recovery_option r"
  using assms that
  by (auto simp: build_option_def Let_def bind_res_Inr new_recovery_option_def split: if_splits)

definition money_fits :: "rat \<Rightarrow> bool" where
  "money_fits x \<longleftrightarrow> 0 \<le> x \<and> x \<le> 10 ^ 24"

definition order_money_fits :: "order_context \<Rightarrow> bool" where
  "order_money_fits c \<longleftrightarrow>
     list_all money_fits
       [oc_gross_margin c, oc_cancellation_cost c, oc_support_cost c,
        oc_reroute_cost c, oc_carrier_upgrade_cost c, oc_split_shipment_cost c]"

lemma decimal28_small_int: "\<bar>k\<bar> \<le> 10 ^ 28 \<Longrightarrow> is_decimal28 (of_int k)"
  by (rule decimal28I [of _ k 0]) auto

lemma dec_le_int: "x \<le> of_int k \<Longrightarrow> \<bar>k\<bar> \<le> 10 ^ 28 \<Longrightarrow> dctx x \<le> of_int k"
  by (rule dec.rnd_le_rep [OF decimal28_small_int])

lemma dec_ge_int: "of_int k \<le> x \<Longrightarrow> \<bar>k\<bar> \<le> 10 ^ 28 \<Longrightarrow> of_int k \<le> dctx x"
  by (rule dec.rnd_ge_rep [OF decimal28_small_int])

lemma dec_abs_bound:
  assumes "\<bar>x\<bar> \<le> of_int k" "k \<le> 10 ^ 28" shows "\<bar>dctx x\<bar> \<le> of_int k"
proof -
  have "0 \<le> k" using assms(1) by (metis abs_ge_zero of_int_0_le_iff order_trans)
  then have "dctx x \<le> of_int k" "of_int (- k) \<le> dctx x"
    using assms by (intro dec_le_int dec_ge_int; simp)+
  then show ?thesis by simp
qed

lemma mult_unit_abs: "\<bar>x\<bar> \<le> b \<Longrightarrow> 0 \<le> u \<Longrightarrow> u \<le> 1 \<Longrightarrow> \<bar>x * u\<bar> \<le> (b::rat)"
  using mult_mono [of "\<bar>x\<bar>" b u 1] by (simp add: abs_mult)

lemma build_option_total:
  assumes p: "unit_float p" and conf: "unit_float conf"
    and m: "money_fits (oc_gross_margin c)" "money_fits (oc_cancellation_cost c)"
      "money_fits (oc_support_cost c)" "money_fits cost"
  shows "\<exists>r. build_option a c p cost fe rv conf cs = Inr r"
proof -
  let ?s = "decimal_of_float p"
  have s: "0 \<le> ?s" "?s \<le> 1" using unit_floatD [OF p] decimal_of_float_unit by auto
  have f: "0 \<le> dsub 1 ?s" "dsub 1 ?s \<le> 1" using dec.rnd_one_minus [OF s] by (simp_all add: dsub_def)
  have gm: "\<bar>oc_gross_margin c * ?s\<bar> \<le> of_int (10 ^ 24)"
    using m(1) s by (intro mult_unit_abs) (auto simp: money_fits_def)
  then have b1: "\<bar>dmul (oc_gross_margin c) ?s\<bar> \<le> of_int (10 ^ 24)"
    unfolding dmul_def by (rule dec_abs_bound) simp
  have costs: "\<bar>dadd (oc_cancellation_cost c) (oc_support_cost c)\<bar> \<le> of_int (2 * 10 ^ 24)"
    unfolding dadd_def using m by (intro dec_abs_bound) (auto simp: money_fits_def)
  then have b2: "\<bar>dmul (dadd (oc_cancellation_cost c) (oc_support_cost c)) (dsub 1 ?s)\<bar> \<le> of_int (2 * 10 ^ 24)"
    unfolding dmul_def using f by (intro dec_abs_bound mult_unit_abs) auto
  have nn: "0 \<le> dmul (dadd (oc_cancellation_cost c) (oc_support_cost c)) (dsub 1 ?s)"
    using m f unfolding dmul_def dadd_def money_fits_def
    by (intro dec.rnd_nonneg mult_nonneg_nonneg) auto
  obtain margin where mg: "money (dmul (oc_gross_margin c) ?s) = Inr margin"
    using money_total [of "dmul (oc_gross_margin c) ?s"] b1 by auto
  obtain fcost where fc: "money (dmul (dadd (oc_cancellation_cost c) (oc_support_cost c)) (dsub 1 ?s)) = Inr fcost"
    using money_total [of "dmul (dadd (oc_cancellation_cost c) (oc_support_cost c)) (dsub 1 ?s)"] b2 by auto
  have "\<bar>margin - fcost\<bar> \<le> of_int (4 * 10 ^ 24)"
    using money_error [OF mg] money_error [OF fc] b1 b2 unfolding abs_le_iff by simp
  then have "\<bar>dsub margin fcost\<bar> \<le> of_int (4 * 10 ^ 24)" unfolding dsub_def by (rule dec_abs_bound) simp
  then have "\<bar>dsub margin fcost - cost\<bar> \<le> of_int (5 * 10 ^ 24)"
    using m(4) unfolding abs_le_iff by (simp add: money_fits_def)
  then have "\<bar>dsub (dsub margin fcost) cost\<bar> \<le> of_int (5 * 10 ^ 24)"
    unfolding dsub_def by (rule dec_abs_bound) simp
  then obtain net where nt: "money (dsub (dsub margin fcost) cost) = Inr net"
    using money_total [of "dsub (dsub margin fcost) cost"] by auto
  obtain cost' where ct: "money cost = Inr cost'"
    using money_total [of cost] m(4) by (auto simp: money_fits_def)
  have "0 \<le> fcost" "0 \<le> cost'"
    using money_nonneg [OF fc nn] money_nonneg [OF ct] m(4) by (auto simp: money_fits_def)
  then show ?thesis
    using mg fc nt ct unit_floatD [OF p] py_round_unit unit_floatD [OF conf]
    by (simp add: build_option_def Let_def new_recovery_option_def valid_recovery_option_def
        is_probability_def non_negative_money_def)
qed

lemma simulate_InrE:
  assumes "simulate c risk = Inr opts"
  obtains n r u s where "opts = [n, r, u, s]"
    "no_action_option c risk = Inr n" "reroute_option c risk = Inr r"
    "carrier_upgrade_option c risk = Inr u" "split_shipment_option c risk = Inr s"
  using assms that by (auto simp: simulate_def bind_res_Inr)

lemma simulate_actions:
  assumes "simulate c risk = Inr opts"
  shows "map ro_action opts = [TAKE_NO_ACTION, REROUTE, CARRIER_UPGRADE, SPLIT_SHIPMENT]"
    and "map ro_feasible opts = [True, reroute_feasible c, True, oc_split_shipment_possible c]"
    and "\<forall>r\<in>set opts. valid_recovery_option r \<and> ro_reversible r \<and>
           ro_evidence_references r = oc_source_references c"
    and "\<forall>r\<in>set opts. ro_feasible r \<longleftrightarrow> ro_constraints r = []"
  using assms
  by (auto elim!: simulate_InrE build_option_InrE
      simp: no_action_option_def reroute_option_def carrier_upgrade_option_def split_shipment_option_def)

lemma simulate_no_action_only:
  assumes "simulate c risk = Inr opts" and "r \<in> set opts" and "ro_action r = TAKE_NO_ACTION"
  shows "r = opts ! 0"
  using assms
  by (auto elim!: simulate_InrE build_option_InrE
      simp: no_action_option_def reroute_option_def carrier_upgrade_option_def split_shipment_option_def)

lemma unit_float_feasible:
  "valid_order_context c \<Longrightarrow> unit_float (if b then oc_reroute_on_time_probability c else 0)"
  "valid_order_context c \<Longrightarrow> unit_float (if b then oc_split_shipment_on_time_probability c else 0)"
  by (simp_all add: valid_order_floats)

lemma simulate_succeeds:
  assumes c: "valid_order_context c" and m: "order_money_fits c" and r: "valid_risk_assessment risk"
  shows "\<exists>opts. simulate c risk = Inr opts"
proof -
  have fits: "money_fits (oc_gross_margin c)" "money_fits (oc_cancellation_cost c)"
    "money_fits (oc_support_cost c)" "money_fits (oc_reroute_cost c)"
    "money_fits (oc_carrier_upgrade_cost c)" "money_fits (oc_split_shipment_cost c)" "money_fits 0"
    using m by (simp_all add: order_money_fits_def money_fits_def)
  have conf: "unit_float (ra_confidence risk)" "unit_float (min (ra_confidence risk) (oc_inventory_confidence c))"
    using r valid_order_floats(1) [OF c] by (auto simp: valid_risk_assessment_def intro: unit_float_min)
  have na: "unit_float (py_round 4 (fsub 1 (ra_failure_probability risk)))"
    using r float.rnd_one_minus [of "ra_failure_probability risk"]
    by (auto simp: valid_risk_assessment_def fsub_def dest!: unit_floatD intro: unit_float_round)
  note tot = build_option_total [OF _ _ fits(1-3)]
  have "\<exists>x. no_action_option c risk = Inr x"
    unfolding no_action_option_def by (intro tot na conf fits)
  moreover have "\<exists>x. reroute_option c risk = Inr x"
    unfolding reroute_option_def by (intro tot conf fits unit_float_feasible c)
  moreover have "\<exists>x. carrier_upgrade_option c risk = Inr x"
    unfolding carrier_upgrade_option_def by (intro tot conf fits valid_order_floats(4) c)
  moreover have "\<exists>x. split_shipment_option c risk = Inr x"
    unfolding split_shipment_option_def by (intro tot conf fits unit_float_feasible c)
  ultimately show ?thesis by (auto simp: simulate_def)
qed

section \<open>Value is monotone in the chance and antitone in the cost\<close>

lemma decimal_of_float_le: "is_float p \<Longrightarrow> is_float q \<Longrightarrow> p \<le> q \<Longrightarrow> decimal_of_float p \<le> decimal_of_float q"
  using decimal_of_float_mono [of p q] by (cases "p = q") auto

lemma net_value_mono:
  assumes c: "valid_order_context c"
    and p: "unit_float p" and q: "unit_float q" and pq: "p \<le> q" and cost: "cost' \<le> cost"
    and r: "build_option a c p cost True rv conf cs = Inr r"
    and s: "build_option a' c q cost' True rv' conf' cs' = Inr s"
  shows "ro_expected_net_value r \<le> ro_expected_net_value s"
proof -
  let ?sp = "decimal_of_float p" and ?sq = "decimal_of_float q"
  have sq: "?sp \<le> ?sq" using p q pq by (auto dest!: unit_floatD intro: decimal_of_float_le)
  obtain m f n where r': "money (dmul (oc_gross_margin c) ?sp) = Inr m"
    "money (dmul (dadd (oc_cancellation_cost c) (oc_support_cost c)) (dsub 1 ?sp)) = Inr f"
    "money (dsub (dsub m f) cost) = Inr n" "ro_expected_net_value r = n"
    using r by (auto elim!: build_option_InrE)
  obtain m' f' n' where s': "money (dmul (oc_gross_margin c) ?sq) = Inr m'"
    "money (dmul (dadd (oc_cancellation_cost c) (oc_support_cost c)) (dsub 1 ?sq)) = Inr f'"
    "money (dsub (dsub m' f') cost') = Inr n'" "ro_expected_net_value s = n'"
    using s by (auto elim!: build_option_InrE)
  note money = valid_order_money [OF c]
  have "m \<le> m'" using r'(1) s'(1)
    by (rule money_mono) (use sq money in \<open>auto simp: dmul_def intro!: dec.rnd_mono mult_left_mono\<close>)
  moreover have "0 \<le> dadd (oc_cancellation_cost c) (oc_support_cost c)"
    using money by (simp add: dadd_def dec.rnd_nonneg)
  then have "f' \<le> f" using s'(2) r'(2)
    by (intro money_mono [OF s'(2) r'(2)])
      (use sq in \<open>auto simp: dmul_def dsub_def intro!: dec.rnd_mono mult_left_mono\<close>)
  ultimately have "dsub (dsub m f) cost \<le> dsub (dsub m' f') cost'"
    using cost dec.rnd_mono [of "m - f" "m' - f'"]
    unfolding dsub_def by (intro dec.rnd_mono) simp
  then show ?thesis using money_mono [OF r'(3) s'(3)] r'(4) s'(4) by simp
qed

section \<open>Properties\<close>

text \<open>C14: On every valid order whose amounts stay below \<open>10^24\<close> and every valid assessment the
  simulator returns, in a fixed order, one option per action: doing nothing and the carrier
  upgrade are always feasible, rerouting exactly with a verified alternative location,
  splitting exactly where the order allows it. Every option is valid, carries the order's
  evidence and lists a constraint exactly when it is infeasible.\<close>

theorem simulate_total:
  assumes "valid_order_context c" and "order_money_fits c" and "valid_risk_assessment risk"
  shows "\<exists>opts. simulate c risk = Inr opts \<and>
    map ro_action opts = [TAKE_NO_ACTION, REROUTE, CARRIER_UPGRADE, SPLIT_SHIPMENT] \<and>
    map ro_feasible opts = [True, reroute_feasible c, True, oc_split_shipment_possible c] \<and>
    (\<forall>r\<in>set opts. valid_recovery_option r \<and> (ro_feasible r \<longleftrightarrow> ro_constraints r = []) \<and>
       ro_evidence_references r = oc_source_references c)"
  using simulate_succeeds [OF assms] simulate_actions by blast

definition sample_risk :: risk_assessment where
  "sample_risk =
     \<lparr>ra_failure_probability = fl (5/8), ra_confidence = fl (7/8), ra_model_version = ''rules-v2'',
      ra_feature_timestamp = utc 0, ra_factors = [], ra_data_quality_warnings = [],
      ra_evidence_references = [sample_reference]\<rparr>"

lemma simulate_total_witness:
  "\<exists>opts. simulate sample_order sample_risk = Inr opts \<and>
     map ro_feasible opts = [True, True, True, False]"
proof -
  have "order_money_fits sample_order" and "valid_risk_assessment sample_risk" by code_simp+
  from simulate_total [OF sample_order_valid this] show ?thesis
    by (auto simp: reroute_feasible_def sample_order_def)
qed

text \<open>A feasible option with at least the chance of success of another and at most its
  cost never has a lower expected net value: the two roundings to cents and the decimal
  context keep the order.\<close>

theorem build_option_value_mono:
  assumes "valid_order_context c" and "unit_float p" and "unit_float q" and "p \<le> q" and "cost' \<le> cost"
    and "build_option a c p cost True rv conf cs = Inr r"
    and "build_option a' c q cost' True rv' conf' cs' = Inr s"
  shows "ro_expected_net_value r \<le> ro_expected_net_value s"
  using assms by (rule net_value_mono)

end
