(* ===== verification/Decision_Optimizer.thy ===== *)
theory Decision_Optimizer
  imports Recovery_Simulator
begin

text \<open>
  \<^verbatim>\<open>src/src/promiseguard/optimizer.py\<close>: the feasible options ranked by expected net value,
  ties broken by a fixed priority of the actions. The priority is the linear order of the
  type \<open>recovery_action\<close>, and the abstract specification of the choice is the least action
  among those of greatest value.
\<close>

section \<open>Tie-break priority\<close>

fun tie_break_priority :: "recovery_action \<Rightarrow> int" where
  "tie_break_priority TAKE_NO_ACTION = 0"
| "tie_break_priority REROUTE = 1"
| "tie_break_priority CARRIER_UPGRADE = 2"
| "tie_break_priority SPLIT_SHIPMENT = 3"
| "tie_break_priority HUMAN_ESCALATION = 4"

lemma tie_break_priority_inject [simp]: "tie_break_priority a = tie_break_priority b \<longleftrightarrow> a = b"
  by (cases a; cases b) auto

lemma tie_break_priority_least [simp]: "0 \<le> tie_break_priority a"
  by (cases a) auto

instantiation recovery_action :: linorder
begin
definition "less_eq_recovery_action a b \<longleftrightarrow> tie_break_priority a \<le> tie_break_priority b"
definition "less_recovery_action a b \<longleftrightarrow> tie_break_priority a < tie_break_priority b"
instance
  by standard (auto simp: less_eq_recovery_action_def less_recovery_action_def antisym
      simp flip: tie_break_priority_inject)
end

section \<open>Selection\<close>

definition optimiser_version :: string where
  "optimiser_version = ''constrained-score-v2''"

definition rank_key :: "recovery_option \<Rightarrow> rat \<times> int" where
  "rank_key r = (ro_expected_net_value r, - tie_break_priority (ro_action r))"

definition rejected_label :: "recovery_option \<Rightarrow> string" where
  "rejected_label r = recovery_action_value (ro_action r) @ '':'' @ join '','' (ro_constraints r)"

definition select :: "recovery_option list \<Rightarrow> decision_recommendation res" where
  "select options =
     (let feasible = filter ro_feasible options
      in if feasible = [] then Inl (err ValueError ''at least one feasible recovery option is required'')
         else let ranked = sorted_desc rank_key feasible; selected = hd ranked
              in bind_res (py_next (\<lambda>r. ro_action r = TAKE_NO_ACTION) options) (\<lambda>no_action.
                 Inr \<lparr>dr_selected_action = ro_action selected,
                      dr_ranked_options = ranked,
                      dr_expected_incremental_value_vs_no_action =
                        dsub (ro_expected_net_value selected) (ro_expected_net_value no_action),
                      dr_rejected_options = map rejected_label (filter (\<lambda>r. \<not> ro_feasible r) options),
                      dr_confidence = ro_confidence selected\<rparr>))"

section \<open>What is selected\<close>

lemma rank_key_le:
  "rank_key r \<le> rank_key s \<longleftrightarrow>
     ro_expected_net_value r < ro_expected_net_value s \<or>
     (ro_expected_net_value r = ro_expected_net_value s \<and> ro_action s \<le> ro_action r)"
  by (auto simp: rank_key_def less_eq_recovery_action_def)

lemma select_InrE:
  assumes "select options = Inr rec"
  obtains selected rest no_action where
    "sorted_desc rank_key (filter ro_feasible options) = selected # rest"
    "selected \<in> set options" "ro_feasible selected"
    "py_next (\<lambda>r. ro_action r = TAKE_NO_ACTION) options = Inr no_action"
    "dr_selected_action rec = ro_action selected"
    "dr_ranked_options rec = selected # rest"
    "dr_expected_incremental_value_vs_no_action rec =
       dsub (ro_expected_net_value selected) (ro_expected_net_value no_action)"
    "dr_rejected_options rec = map rejected_label (filter (\<lambda>r. \<not> ro_feasible r) options)"
    "dr_confidence rec = ro_confidence selected"
    "\<forall>r\<in>set options. ro_feasible r \<longrightarrow> rank_key r \<le> rank_key selected"
proof -
  let ?ranked = "sorted_desc rank_key (filter ro_feasible options)"
  have ne: "filter ro_feasible options \<noteq> []"
    using assms by (auto simp: select_def Let_def split: if_splits)
  then obtain s rest where sr: "?ranked = s # rest"
    by (metis length_0_conv length_sorted_desc neq_Nil_conv)
  have "s \<in> set (filter ro_feasible options)"
    using set_sorted_desc [of rank_key "filter ro_feasible options"] sr by (metis list.set_intros(1))
  then have s: "s \<in> set options" "ro_feasible s" by auto
  have mx: "\<forall>r\<in>set options. ro_feasible r \<longrightarrow> rank_key r \<le> rank_key s"
    using sorted_desc_hd [OF sr] by auto
  show thesis
    using assms ne sr s mx that [of s rest]
    by (auto simp: select_def Let_def bind_res_Inr)
qed

lemma select_feasible_action:
  "select options = Inr rec \<Longrightarrow>
     \<exists>r\<in>set options. ro_feasible r \<and> ro_action r = dr_selected_action rec \<and> r \<in> set (dr_ranked_options rec)"
  by (erule select_InrE) auto

lemma select_ranked_set:
  "select options = Inr rec \<Longrightarrow> set (dr_ranked_options rec) = set (filter ro_feasible options)"
  by (erule select_InrE) (metis set_sorted_desc)

lemma select_ranked_sorted:
  "select options = Inr rec \<Longrightarrow> sorted (rev (map rank_key (dr_ranked_options rec)))"
  by (erule select_InrE) (metis sorted_desc_sorted)

text \<open>The abstract choice: among the feasible options of greatest value, the least action.\<close>

definition best_actions :: "recovery_option list \<Rightarrow> recovery_action set" where
  "best_actions options =
     ro_action ` {r \<in> set options. ro_feasible r \<and>
       (\<forall>s\<in>set options. ro_feasible s \<longrightarrow> ro_expected_net_value s \<le> ro_expected_net_value r)}"

lemma select_is_least_best:
  assumes "select options = Inr rec"
  shows "dr_selected_action rec = Min (best_actions options)"
proof -
  obtain s where s: "s \<in> set options" "ro_feasible s" "dr_selected_action rec = ro_action s"
    and mx: "\<forall>r\<in>set options. ro_feasible r \<longrightarrow> rank_key r \<le> rank_key s"
    using assms by (auto elim!: select_InrE)
  have fin: "finite (best_actions options)" by (simp add: best_actions_def)
  have "Min (best_actions options) = ro_action s"
  proof (rule Min_eqI [OF fin])
    show "ro_action s \<in> best_actions options"
      using s mx by (force simp: best_actions_def rank_key_le)
    fix a assume "a \<in> best_actions options"
    then show "ro_action s \<le> a"
      using s mx by (force simp: best_actions_def rank_key_le)
  qed
  with s show ?thesis by simp
qed

lemma select_succeeds:
  assumes "\<exists>r\<in>set options. ro_action r = TAKE_NO_ACTION \<and> ro_feasible r"
  shows "\<exists>rec. select options = Inr rec"
proof -
  obtain n where "py_next (\<lambda>r. ro_action r = TAKE_NO_ACTION) options = Inr n"
    using py_next_exists [of options "\<lambda>r. ro_action r = TAKE_NO_ACTION"] assms by auto
  moreover have "filter ro_feasible options \<noteq> []" using assms by (auto simp: filter_empty_conv)
  ultimately show ?thesis by (simp add: select_def Let_def)
qed

lemma dctx_pos: "0 < x \<Longrightarrow> 0 < dctx x"
  unfolding dctx_def
  by (rule less_le_trans [OF _ round_sig_bounds(1)]) (simp_all add: zero_less_power_int)

lemma dsub_pos_iff: "0 < dsub x y \<longleftrightarrow> y < x"
  using dctx_pos [of "x - y"] dec.rnd_nonpos [of "x - y"] by (auto simp: dsub_def not_less [symmetric])

lemma dsub_nonneg_iff: "0 \<le> dsub x y \<longleftrightarrow> y \<le> x"
proof -
  have "dsub x y = - dsub y x"
    by (metis dsub_def dctx_def minus_diff_eq round_sig_minus)
  then show ?thesis using dsub_pos_iff [of y x] by auto
qed

text \<open>Doing something is recommended only where it is worth strictly more than nothing.\<close>

lemma select_incremental:
  assumes sel: "select options = Inr rec"
    and na: "\<forall>r\<in>set options. ro_action r = TAKE_NO_ACTION \<longrightarrow> r = na" "ro_feasible na"
      "na \<in> set options" "ro_action na = TAKE_NO_ACTION"
  shows "0 \<le> dr_expected_incremental_value_vs_no_action rec"
    and "0 < dr_expected_incremental_value_vs_no_action rec \<longleftrightarrow> dr_selected_action rec \<noteq> TAKE_NO_ACTION"
proof -
  obtain s n where s: "s \<in> set options" "ro_feasible s" "dr_selected_action rec = ro_action s"
    and n: "py_next (\<lambda>r. ro_action r = TAKE_NO_ACTION) options = Inr n"
    and inc: "dr_expected_incremental_value_vs_no_action rec =
      dsub (ro_expected_net_value s) (ro_expected_net_value n)"
    and mx: "\<forall>r\<in>set options. ro_feasible r \<longrightarrow> rank_key r \<le> rank_key s"
    using sel by (auto elim!: select_InrE)
  have "n \<in> set options" "ro_action n = TAKE_NO_ACTION" using py_next_InrD [OF n] by simp_all
  then have "n = na" using na(1) by blast
  have k: "rank_key na \<le> rank_key s" using mx na(2,3) by blast
  show "0 \<le> dr_expected_incremental_value_vs_no_action rec"
    using k \<open>n = na\<close> by (auto simp: inc dsub_nonneg_iff rank_key_le)
  show "0 < dr_expected_incremental_value_vs_no_action rec \<longleftrightarrow> dr_selected_action rec \<noteq> TAKE_NO_ACTION"
  proof
    assume "0 < dr_expected_incremental_value_vs_no_action rec"
    then have "s \<noteq> na" using \<open>n = na\<close> by (auto simp: inc dsub_pos_iff)
    then show "dr_selected_action rec \<noteq> TAKE_NO_ACTION"
      using na(1) s by metis
  next
    assume "dr_selected_action rec \<noteq> TAKE_NO_ACTION"
    then have "\<not> ro_action s \<le> ro_action na"
      using s(3) na(4) by (cases "ro_action s") (simp_all add: less_eq_recovery_action_def)
    then show "0 < dr_expected_incremental_value_vs_no_action rec"
      using k \<open>n = na\<close> by (auto simp: inc dsub_pos_iff rank_key_le)
  qed
qed

text \<open>On the options of the simulator.\<close>

lemma simulated_select_succeeds: "simulate c risk = Inr options \<Longrightarrow> \<exists>rec. select options = Inr rec"
proof (rule select_succeeds)
  assume s: "simulate c risk = Inr options"
  then obtain n r u v where o: "options = [n, r, u, v]" by (rule simulate_InrE)
  then show "\<exists>r\<in>set options. ro_action r = TAKE_NO_ACTION \<and> ro_feasible r"
    using simulate_actions(1,2) [OF s] by simp
qed

lemma simulated_select_incremental:
  assumes s: "simulate c risk = Inr options" and sel: "select options = Inr rec"
  shows "0 \<le> dr_expected_incremental_value_vs_no_action rec"
    and "0 < dr_expected_incremental_value_vs_no_action rec \<longleftrightarrow> dr_selected_action rec \<noteq> TAKE_NO_ACTION"
proof -
  obtain n r u v where o: "options = [n, r, u, v]" using s by (rule simulate_InrE)
  have "ro_feasible n" "ro_action n = TAKE_NO_ACTION" using simulate_actions(1,2) [OF s] o by simp_all
  moreover have "\<forall>r\<in>set options. ro_action r = TAKE_NO_ACTION \<longrightarrow> r = n"
    using simulate_no_action_only [OF s] o by (metis nth_Cons_0)
  ultimately show "0 \<le> dr_expected_incremental_value_vs_no_action rec"
    and "0 < dr_expected_incremental_value_vs_no_action rec \<longleftrightarrow> dr_selected_action rec \<noteq> TAKE_NO_ACTION"
    using select_incremental [OF sel, of n] o by (simp_all del: set_simps add: list.set_intros)
qed

lemma simulated_select_executable:
  assumes s: "simulate c risk = Inr options" and sel: "select options = Inr rec"
  shows "dr_selected_action rec \<noteq> HUMAN_ESCALATION"
    and "dr_selected_action rec = REROUTE \<Longrightarrow> reroute_feasible c"
    and "dr_selected_action rec = SPLIT_SHIPMENT \<Longrightarrow> oc_split_shipment_possible c"
proof -
  obtain n r u v where o: "options = [n, r, u, v]" using s by (rule simulate_InrE)
  note acts = simulate_actions(1,2) [OF s, unfolded o]
  obtain x where x: "x \<in> set options" "ro_feasible x" "ro_action x = dr_selected_action rec"
    using select_feasible_action [OF sel] by blast
  then have "x = n \<or> x = r \<or> x = u \<or> x = v" by (simp add: o)
  then show "dr_selected_action rec \<noteq> HUMAN_ESCALATION"
    and "dr_selected_action rec = REROUTE \<Longrightarrow> reroute_feasible c"
    and "dr_selected_action rec = SPLIT_SHIPMENT \<Longrightarrow> oc_split_shipment_possible c"
    using acts x by auto
qed

section \<open>Properties\<close>

text \<open>C13: On the simulated options of an order the optimiser always answers; the action it
  selects is the least, in the tie-break order, of the feasible actions of greatest value, it
  is executable for that order, and the ranked list holds exactly the feasible options in
  descending rank.\<close>

theorem select_optimal:
  assumes "simulate c risk = Inr options"
  shows "\<exists>rec. select options = Inr rec \<and>
    dr_selected_action rec = Min (best_actions options) \<and>
    set (dr_ranked_options rec) = set (filter ro_feasible options) \<and>
    sorted (rev (map rank_key (dr_ranked_options rec))) \<and>
    dr_selected_action rec \<noteq> HUMAN_ESCALATION \<and>
    (dr_selected_action rec = REROUTE \<longrightarrow> reroute_feasible c) \<and>
    (dr_selected_action rec = SPLIT_SHIPMENT \<longrightarrow> oc_split_shipment_possible c)"
  using simulated_select_succeeds [OF assms] select_is_least_best select_ranked_set
    select_ranked_sorted simulated_select_executable [OF assms]
  by blast

lemma sample_options: "\<exists>options. simulate sample_order sample_risk = Inr options"
  by (rule simulate_succeeds [OF sample_order_valid]) code_simp+

lemma select_optimal_witness:
  "\<exists>options rec. simulate sample_order sample_risk = Inr options \<and> select options = Inr rec \<and>
     dr_selected_action rec = Min (best_actions options)"
  using sample_options select_optimal by blast

text \<open>An intervention is recommended exactly when it is expected to be worth strictly more
  than doing nothing, and the recommended increment is never negative.\<close>

theorem select_beats_no_action:
  assumes "simulate c risk = Inr options" and "select options = Inr rec"
  shows "0 \<le> dr_expected_incremental_value_vs_no_action rec \<and>
    (0 < dr_expected_incremental_value_vs_no_action rec \<longleftrightarrow> dr_selected_action rec \<noteq> TAKE_NO_ACTION)"
  using simulated_select_incremental [OF assms] by blast

end
