(* ===== verification/Policy_Gateway.thy ===== *)
theory Policy_Gateway
  imports Decision_Optimizer
begin

text \<open>
  \<^verbatim>\<open>src/src/promiseguard/policy.py\<close>: the disposition of a recommendation. The three
  callbacks of the gateway are fields of a record; each may raise, as the autonomy
  controller's do. The guards are evaluated in the order of the code, the first that
  applies decides.
\<close>

record policy_gateway =
  pg_kill_switch_active :: "bool res"
  pg_autonomy_allowed :: "recovery_action \<Rightarrow> bool res"
  pg_control_version :: "recovery_action \<Rightarrow> string res"

text \<open>The defaults of the constructor.\<close>

definition default_policy_gateway :: policy_gateway where
  "default_policy_gateway =
     \<lparr>pg_kill_switch_active = Inr False, pg_autonomy_allowed = (\<lambda>_. Inr True),
      pg_control_version = (\<lambda>_. Inr ''static-controls-v1'')\<rparr>"

definition policy_version :: string where "policy_version = ''policy-v3''"
definition max_context_age_minutes :: int where "max_context_age_minutes = 15"
definition max_autonomous_cost :: rat where "max_autonomous_cost = 10"
definition min_autonomous_benefit :: rat where "min_autonomous_benefit = 5"
definition min_autonomous_confidence :: rat where "min_autonomous_confidence = fl (85/100)"

definition policy_result :: "policy_disposition \<Rightarrow> string \<Rightarrow> bool \<Rightarrow> string list \<Rightarrow> policy_evaluation" where
  "policy_result disposition control_version execution_allowed reasons =
     \<lparr>pe_disposition = disposition, pe_policy_version = policy_version,
      pe_control_version = control_version, pe_execution_allowed = execution_allowed,
      pe_reasons = reasons\<rparr>"

definition autonomy_conditions :: "recovery_option \<Rightarrow> decision_recommendation \<Rightarrow> bool" where
  "autonomy_conditions selected recommendation \<longleftrightarrow>
     ro_intervention_cost selected \<le> max_autonomous_cost \<and>
     min_autonomous_benefit \<le> dr_expected_incremental_value_vs_no_action recommendation \<and>
     min_autonomous_confidence \<le> ro_confidence selected \<and>
     ro_reversible selected"

definition policy_evaluate ::
  "policy_gateway \<Rightarrow> order_context \<Rightarrow> risk_assessment \<Rightarrow> decision_recommendation \<Rightarrow> operating_mode
     \<Rightarrow> policy_evaluation res"
where
  "policy_evaluate g c risk recommendation mode =
     (let action = dr_selected_action recommendation
      in bind_res (pg_control_version g action) (\<lambda>control_version.
         if max_context_age_minutes < oc_data_freshness_minutes c
         then Inr (policy_result BLOCK control_version False [''STALE_OPERATIONAL_CONTEXT''])
         else if ra_data_quality_warnings risk \<noteq> []
         then Inr (policy_result BLOCK control_version False (ra_data_quality_warnings risk))
         else if action = TAKE_NO_ACTION
         then Inr (policy_result PD_TAKE_NO_ACTION control_version False
                [''NO_INTERVENTION_HAS_POSITIVE_INCREMENTAL_VALUE''])
         else if oc_restricted_product c
         then Inr (policy_result REQUEST_APPROVAL control_version False
                [''RESTRICTED_PRODUCT_REQUIRES_HUMAN_APPROVAL''])
         else if mode \<in> {OBSERVE, SHADOW, RECOMMENDATION, APPROVAL}
         then Inr (policy_result REQUEST_APPROVAL control_version False
                [''MODE_'' @ operating_mode_value mode @ ''_PREVENTS_AUTONOMOUS_EXECUTION''])
         else bind_res (pg_kill_switch_active g) (\<lambda>kill.
           if kill
           then Inr (policy_result BLOCK control_version False [''GLOBAL_ACTION_KILL_SWITCH_ACTIVE''])
           else bind_res (pg_autonomy_allowed g action) (\<lambda>allowed.
             if \<not> allowed
             then Inr (policy_result REQUEST_APPROVAL control_version False [''ACTION_AUTONOMY_NOT_EARNED''])
             else bind_res (py_next (\<lambda>r. ro_action r = dr_selected_action recommendation)
                              (dr_ranked_options recommendation)) (\<lambda>selected.
               if autonomy_conditions selected recommendation
               then Inr (policy_result AUTO_EXECUTE control_version True
                      [''BOUNDED_AUTONOMY_CONDITIONS_SATISFIED''])
               else Inr (policy_result REQUEST_APPROVAL control_version False
                      [''BOUNDED_AUTONOMY_CONDITIONS_NOT_SATISFIED'']))))))"

section \<open>What each disposition means\<close>

lemma policy_result_sel [simp]:
  "pe_disposition (policy_result d v a rs) = d"
  "pe_policy_version (policy_result d v a rs) = policy_version"
  "pe_control_version (policy_result d v a rs) = v"
  "pe_execution_allowed (policy_result d v a rs) = a"
  "pe_reasons (policy_result d v a rs) = rs"
  by (simp_all add: policy_result_def)

lemma mode_is_autonomy:
  "mode \<noteq> OBSERVE \<Longrightarrow> mode \<noteq> SHADOW \<Longrightarrow> mode \<noteq> RECOMMENDATION \<Longrightarrow> mode \<noteq> APPROVAL \<Longrightarrow>
     mode = BOUNDED_AUTONOMY"
  by (cases mode) auto

lemma policy_evaluate_cases:
  assumes "policy_evaluate g c risk rec mode = Inr pe"
  shows "(pe_disposition pe = AUTO_EXECUTE \<and> pe_execution_allowed pe \<or>
          pe_disposition pe \<in> {REQUEST_APPROVAL, BLOCK, PD_TAKE_NO_ACTION} \<and> \<not> pe_execution_allowed pe)
    \<and> pe_policy_version pe = policy_version
    \<and> pg_control_version g (dr_selected_action rec) = Inr (pe_control_version pe)"
  using assms
  by (auto simp: policy_evaluate_def Let_def bind_res_Inr split: if_splits)

lemma policy_auto_execute_iff:
  assumes "policy_evaluate g c risk rec mode = Inr pe"
  shows "pe_disposition pe = AUTO_EXECUTE \<longleftrightarrow>
    oc_data_freshness_minutes c \<le> max_context_age_minutes \<and>
    ra_data_quality_warnings risk = [] \<and>
    dr_selected_action rec \<noteq> TAKE_NO_ACTION \<and>
    \<not> oc_restricted_product c \<and>
    mode = BOUNDED_AUTONOMY \<and>
    pg_kill_switch_active g = Inr False \<and>
    pg_autonomy_allowed g (dr_selected_action rec) = Inr True \<and>
    (\<exists>selected. py_next (\<lambda>r. ro_action r = dr_selected_action rec) (dr_ranked_options rec) = Inr selected
       \<and> autonomy_conditions selected rec)"
  using assms
  by (cases "pg_control_version g (dr_selected_action rec)"; cases "pg_kill_switch_active g";
      cases "pg_autonomy_allowed g (dr_selected_action rec)";
      cases "py_next (\<lambda>r. ro_action r = dr_selected_action rec) (dr_ranked_options rec)")
    (auto simp: policy_evaluate_def Let_def split: if_splits intro: mode_is_autonomy)

lemma policy_block_iff:
  assumes "policy_evaluate g c risk rec mode = Inr pe"
  shows "pe_disposition pe = BLOCK \<longleftrightarrow>
    max_context_age_minutes < oc_data_freshness_minutes c \<or>
    ra_data_quality_warnings risk \<noteq> [] \<or>
    (dr_selected_action rec \<noteq> TAKE_NO_ACTION \<and> \<not> oc_restricted_product c \<and>
     mode = BOUNDED_AUTONOMY \<and> pg_kill_switch_active g = Inr True)"
  using assms
  by (cases "pg_control_version g (dr_selected_action rec)"; cases "pg_kill_switch_active g";
      cases "pg_autonomy_allowed g (dr_selected_action rec)";
      cases "py_next (\<lambda>r. ro_action r = dr_selected_action rec) (dr_ranked_options rec)")
    (auto simp: policy_evaluate_def Let_def split: if_splits intro: mode_is_autonomy)

lemma policy_take_no_action_iff:
  assumes "policy_evaluate g c risk rec mode = Inr pe"
  shows "pe_disposition pe = PD_TAKE_NO_ACTION \<longleftrightarrow>
    oc_data_freshness_minutes c \<le> max_context_age_minutes \<and>
    ra_data_quality_warnings risk = [] \<and> dr_selected_action rec = TAKE_NO_ACTION"
  using assms
  by (cases "pg_control_version g (dr_selected_action rec)"; cases "pg_kill_switch_active g";
      cases "pg_autonomy_allowed g (dr_selected_action rec)";
      cases "py_next (\<lambda>r. ro_action r = dr_selected_action rec) (dr_ranked_options rec)")
    (auto simp: policy_evaluate_def Let_def split: if_splits intro: mode_is_autonomy)

text \<open>What the callbacks must not do for the gateway to answer.\<close>

lemma policy_evaluate_total:
  assumes "pg_control_version g (dr_selected_action rec) = Inr v"
    and "pg_kill_switch_active g = Inr k"
    and "dr_selected_action rec \<noteq> TAKE_NO_ACTION \<Longrightarrow>
      \<exists>a. pg_autonomy_allowed g (dr_selected_action rec) = Inr a"
    and "\<exists>r\<in>set (dr_ranked_options rec). ro_action r = dr_selected_action rec"
  shows "\<exists>pe. policy_evaluate g c risk rec mode = Inr pe"
proof -
  obtain s where "py_next (\<lambda>r. ro_action r = dr_selected_action rec) (dr_ranked_options rec) = Inr s"
    using py_next_exists [OF assms(4)] by blast
  then show ?thesis
    using assms(1-3) by (cases "dr_selected_action rec = TAKE_NO_ACTION")
      (auto simp: policy_evaluate_def Let_def)
qed

section \<open>Properties\<close>

text \<open>C5: The gateway answers \<open>AUTO_EXECUTE\<close> exactly when every guard of bounded autonomy
  holds: fresh context, no data-quality warning, an intervention, no restricted product,
  bounded-autonomy mode, an inactive kill switch, earned autonomy of the action, and cost,
  benefit, confidence and reversibility within their limits. A callback that raises never
  leads to autonomous execution.\<close>

theorem policy_auto_executes_iff:
  "(\<exists>pe. policy_evaluate g c risk rec mode = Inr pe \<and> pe_disposition pe = AUTO_EXECUTE) \<longleftrightarrow>
    (\<exists>v. pg_control_version g (dr_selected_action rec) = Inr v) \<and>
    oc_data_freshness_minutes c \<le> 15 \<and>
    ra_data_quality_warnings risk = [] \<and>
    dr_selected_action rec \<noteq> TAKE_NO_ACTION \<and>
    \<not> oc_restricted_product c \<and>
    mode = BOUNDED_AUTONOMY \<and>
    pg_kill_switch_active g = Inr False \<and>
    pg_autonomy_allowed g (dr_selected_action rec) = Inr True \<and>
    (\<exists>selected. py_next (\<lambda>r. ro_action r = dr_selected_action rec) (dr_ranked_options rec) = Inr selected
       \<and> ro_intervention_cost selected \<le> 10
       \<and> 5 \<le> dr_expected_incremental_value_vs_no_action rec
       \<and> fl (85/100) \<le> ro_confidence selected \<and> ro_reversible selected)"
  (is "?lhs \<longleftrightarrow> ?rhs")
proof
  assume ?lhs
  then obtain pe where pe: "policy_evaluate g c risk rec mode = Inr pe" "pe_disposition pe = AUTO_EXECUTE"
    by blast
  show ?rhs
    using policy_auto_execute_iff [OF pe(1)] policy_evaluate_cases [OF pe(1)] pe(2)
    by (auto simp: autonomy_conditions_def max_context_age_minutes_def max_autonomous_cost_def
        min_autonomous_benefit_def min_autonomous_confidence_def)
next
  assume r: ?rhs
  then have "\<exists>r\<in>set (dr_ranked_options rec). ro_action r = dr_selected_action rec"
    by (auto dest: py_next_InrD)
  then obtain pe where pe: "policy_evaluate g c risk rec mode = Inr pe"
    using policy_evaluate_total [of g rec _ False] r by blast
  show ?lhs
    using policy_auto_execute_iff [OF pe] r pe
    by (auto simp: autonomy_conditions_def max_context_age_minutes_def max_autonomous_cost_def
        min_autonomous_benefit_def min_autonomous_confidence_def)
qed

text \<open>Execution is allowed by an evaluation exactly when its disposition is
  \<open>AUTO_EXECUTE\<close>, so never in \<open>OBSERVE\<close>, \<open>SHADOW\<close>, \<open>RECOMMENDATION\<close> or \<open>APPROVAL\<close> mode,
  on stale context, or while the kill switch is active; it is blocked exactly on stale or
  warned-about context or, where autonomy was asked for, by the kill switch.\<close>

lemma policy_execution_allowed:
  assumes "policy_evaluate g c risk rec mode = Inr pe"
  shows "(pe_execution_allowed pe \<longleftrightarrow> pe_disposition pe = AUTO_EXECUTE) \<and>
    (mode \<noteq> BOUNDED_AUTONOMY \<or> max_context_age_minutes < oc_data_freshness_minutes c \<or>
       pg_kill_switch_active g = Inr True \<longrightarrow> \<not> pe_execution_allowed pe) \<and>
    (pe_disposition pe = BLOCK \<longleftrightarrow>
       max_context_age_minutes < oc_data_freshness_minutes c \<or>
       ra_data_quality_warnings risk \<noteq> [] \<or>
       (dr_selected_action rec \<noteq> TAKE_NO_ACTION \<and> \<not> oc_restricted_product c \<and>
        mode = BOUNDED_AUTONOMY \<and> pg_kill_switch_active g = Inr True)) \<and>
    (pe_disposition pe = PD_TAKE_NO_ACTION \<longleftrightarrow>
       oc_data_freshness_minutes c \<le> max_context_age_minutes \<and>
       ra_data_quality_warnings risk = [] \<and> dr_selected_action rec = TAKE_NO_ACTION)"
  using policy_evaluate_cases [OF assms] policy_auto_execute_iff [OF assms]
    policy_block_iff [OF assms] policy_take_no_action_iff [OF assms]
  by auto

end
