(* ===== verification/Orchestrator.thy ===== *)
theory Orchestrator
  imports Decision_Ledger Risk_Scoring Policy_Gateway
begin

text \<open>
  \<^verbatim>\<open>src/src/promiseguard/orchestrator.py\<close> and \<^verbatim>\<open>evaluation.py\<close>: one request through risk,
  simulation, optimisation, policy and ledger, and the durable service that persists the
  event first. The orchestrator is a record of its collaborators over the state of its
  ledger; the policy gateway reads its controls from that state. The client lemmas are proved
  once for any ledger and any scorer that keep their contracts, in \<open>decision_pipeline\<close>.
\<close>

section \<open>The orchestrator\<close>

record 's orchestrator =
  orc_score :: "order_context \<Rightarrow> risk_assessment"
  orc_scorer_version :: string
  orc_policy :: "'s \<Rightarrow> policy_gateway"
  orc_put :: "decision_trace \<Rightarrow> ('s, decision_trace) prog"

definition trace_version :: string where
  "trace_version = ''decision-trace-v2''"

fun status_for_mode :: "operating_mode \<Rightarrow> decision_status" where
  "status_for_mode OBSERVE = OBSERVED"
| "status_for_mode SHADOW = SHADOW_RECORDED"
| "status_for_mode RECOMMENDATION = RECOMMENDED"
| "status_for_mode APPROVAL = AWAITING_APPROVAL"
| "status_for_mode BOUNDED_AUTONOMY = READY_FOR_EXECUTION"

definition decision_identity :: "'s orchestrator \<Rightarrow> evaluation_request \<Rightarrow> policy_evaluation \<Rightarrow> string" where
  "decision_identity ob request policy =
     join ''|''
       [ev_deduplication_key (er_event request),
        str_int (ev_event_version (er_event request)),
        oc_order_id (er_order request),
        orc_scorer_version ob,
        simulator_version,
        optimiser_version,
        policy_version,
        pe_control_version policy,
        policy_disposition_value (pe_disposition policy),
        str_bool (pe_execution_allowed policy),
        join '','' (pe_reasons policy),
        operating_mode_value (er_mode request)]"

definition decision_id_of :: "lib \<Rightarrow> 's orchestrator \<Rightarrow> evaluation_request \<Rightarrow> policy_evaluation \<Rightarrow> string" where
  "decision_id_of L ob request policy = digest_id L ''dec_'' 24 (decision_identity ob request policy)"

definition build_trace ::
  "lib \<Rightarrow> 's orchestrator \<Rightarrow> evaluation_request \<Rightarrow> risk_assessment \<Rightarrow> decision_recommendation
     \<Rightarrow> policy_evaluation \<Rightarrow> decision_trace"
where
  "build_trace L ob request risk recommendation policy =
     \<lparr>dt_trace_version = trace_version,
      dt_decision_id = decision_id_of L ob request policy,
      dt_event_id = ev_event_id (er_event request),
      dt_order_id = oc_order_id (er_order request),
      dt_mode = er_mode request,
      dt_risk = risk,
      dt_recommendation = recommendation,
      dt_policy = policy,
      dt_status = status_for_mode (er_mode request),
      dt_created_at = oc_evaluation_time (er_order request),
      dt_tenant_id = oc_tenant_id (er_order request)\<rparr>"

definition orchestrate :: "lib \<Rightarrow> 's orchestrator \<Rightarrow> evaluation_request \<Rightarrow> ('s, decision_trace) prog" where
  "orchestrate L ob request =
     (let risk = orc_score ob (er_order request)
      in bind (of_res (simulate (er_order request) risk)) (\<lambda>options.
         bind (of_res (select options)) (\<lambda>recommendation.
         bind get_state (\<lambda>s.
         bind (of_res (policy_evaluate (orc_policy ob s) (er_order request) risk recommendation
                 (er_mode request))) (\<lambda>policy.
         orc_put ob (build_trace L ob request risk recommendation policy))))))"

section \<open>The evaluation service\<close>

text \<open>The event is committed in its own session before the pipeline runs.\<close>

definition evaluation_service ::
  "lib \<Rightarrow> database orchestrator \<Rightarrow> datetime \<Rightarrow> evaluation_request \<Rightarrow> (database, decision_trace) prog"
where
  "evaluation_service L ob now request =
     bind (session (event_ingest L (er_event request) request now)) (\<lambda>_.
     orchestrate L ob request)"

section \<open>The trace of an evaluation\<close>

definition decide ::
  "lib \<Rightarrow> 's orchestrator \<Rightarrow> 's \<Rightarrow> evaluation_request \<Rightarrow> decision_trace res" where
  "decide L ob s request =
     (let risk = orc_score ob (er_order request)
      in bind_res (simulate (er_order request) risk) (\<lambda>options.
         bind_res (select options) (\<lambda>recommendation.
         bind_res (policy_evaluate (orc_policy ob s) (er_order request) risk recommendation
                 (er_mode request)) (\<lambda>policy.
         Inr (build_trace L ob request risk recommendation policy)))))"

text \<open>The evaluation is the pure decision, recorded: nothing is written unless every stage
  succeeds.\<close>

lemma orchestrate_app:
  "orchestrate L ob request s =
     (case decide L ob s request of Inl e \<Rightarrow> (Inl e, s) | Inr t \<Rightarrow> orc_put ob t s)"
  by (simp add: orchestrate_def decide_def bind_def bind_res_def Let_def split: sum.split)

lemma decide_InrE:
  assumes "decide L ob s request = Inr t"
  obtains risk options rec policy where
    "risk = orc_score ob (er_order request)" "simulate (er_order request) risk = Inr options"
    "select options = Inr rec"
    "policy_evaluate (orc_policy ob s) (er_order request) risk rec (er_mode request) = Inr policy"
    "t = build_trace L ob request risk rec policy"
  using assms by (auto simp: decide_def Let_def bind_res_Inr)

lemma build_trace_sel [simp]:
  "dt_decision_id (build_trace L ob q risk rec policy) = decision_id_of L ob q policy"
  "dt_event_id (build_trace L ob q risk rec policy) = ev_event_id (er_event q)"
  "dt_order_id (build_trace L ob q risk rec policy) = oc_order_id (er_order q)"
  "dt_mode (build_trace L ob q risk rec policy) = er_mode q"
  "dt_risk (build_trace L ob q risk rec policy) = risk"
  "dt_recommendation (build_trace L ob q risk rec policy) = rec"
  "dt_policy (build_trace L ob q risk rec policy) = policy"
  "dt_status (build_trace L ob q risk rec policy) = status_for_mode (er_mode q)"
  by (simp_all add: build_trace_def)

text \<open>What every decision satisfies, whatever the ledger.\<close>

definition sound_decision :: "policy_gateway \<Rightarrow> evaluation_request \<Rightarrow> decision_trace \<Rightarrow> bool" where
  "sound_decision g q t \<longleftrightarrow>
     dt_event_id t = ev_event_id (er_event q) \<and> dt_order_id t = oc_order_id (er_order q) \<and>
     dt_mode t = er_mode q \<and> dt_status t = status_for_mode (er_mode q) \<and>
     (\<exists>r\<in>set (dr_ranked_options (dt_recommendation t)).
        ro_action r = dr_selected_action (dt_recommendation t) \<and> ro_feasible r \<and>
        valid_recovery_option r) \<and>
     0 \<le> dr_expected_incremental_value_vs_no_action (dt_recommendation t) \<and>
     (dr_selected_action (dt_recommendation t) = REROUTE \<longrightarrow> reroute_feasible (er_order q)) \<and>
     (dr_selected_action (dt_recommendation t) = SPLIT_SHIPMENT \<longrightarrow>
        oc_split_shipment_possible (er_order q)) \<and>
     dr_selected_action (dt_recommendation t) \<noteq> HUMAN_ESCALATION \<and>
     (pe_execution_allowed (dt_policy t) \<longleftrightarrow> pe_disposition (dt_policy t) = AUTO_EXECUTE) \<and>
     (pe_disposition (dt_policy t) = AUTO_EXECUTE \<longrightarrow>
        er_mode q = BOUNDED_AUTONOMY \<and> \<not> oc_restricted_product (er_order q) \<and>
        oc_data_freshness_minutes (er_order q) \<le> 15 \<and>
        0 < dr_expected_incremental_value_vs_no_action (dt_recommendation t) \<and>
        pg_kill_switch_active g = Inr False \<and>
        pg_autonomy_allowed g (dr_selected_action (dt_recommendation t)) = Inr True)"

lemma decide_sound:
  assumes "decide L ob s request = Inr t"
  shows "sound_decision (orc_policy ob s) request t"
proof -
  obtain risk options rec policy where
    s: "simulate (er_order request) risk = Inr options" and sel: "select options = Inr rec"
    and p: "policy_evaluate (orc_policy ob s) (er_order request) risk rec (er_mode request) = Inr policy"
    and t: "t = build_trace L ob request risk rec policy"
    using assms by (rule decide_InrE)
  obtain r where r: "r \<in> set options" "ro_feasible r" "ro_action r = dr_selected_action rec"
    "r \<in> set (dr_ranked_options rec)"
    using select_feasible_action [OF sel] by blast
  have "valid_recovery_option r" using simulate_actions(3) [OF s] r(1) by blast
  then show ?thesis
    using r policy_auto_execute_iff [OF p] policy_evaluate_cases [OF p]
      simulated_select_incremental [OF s sel] simulated_select_executable [OF s sel]
    by (auto simp: sound_decision_def t max_context_age_minutes_def)
qed

text \<open>No evaluation of a valid request with bounded amounts fails before the ledger, unless a
  control callback raises.\<close>

lemma decide_total:
  assumes q: "valid_evaluation_request request" and m: "order_money_fits (er_order request)"
    and scorer: "valid_risk_assessment (orc_score ob (er_order request))"
    and g: "\<And>a. \<exists>v. pg_control_version (orc_policy ob s) a = Inr v"
      "\<exists>k. pg_kill_switch_active (orc_policy ob s) = Inr k"
      "\<And>a. a \<notin> {TAKE_NO_ACTION, HUMAN_ESCALATION} \<Longrightarrow>
         \<exists>v. pg_autonomy_allowed (orc_policy ob s) a = Inr v"
  shows "\<exists>t. decide L ob s request = Inr t"
proof -
  let ?risk = "orc_score ob (er_order request)"
  have c: "valid_order_context (er_order request)" using q by (simp add: valid_evaluation_request_def)
  obtain options where o1: "simulate (er_order request) ?risk = Inr options"
    using simulate_succeeds [OF c m scorer] by blast
  obtain rec where r: "select options = Inr rec" using simulated_select_succeeds [OF o1] by blast
  obtain v k where "pg_control_version (orc_policy ob s) (dr_selected_action rec) = Inr v"
    "pg_kill_switch_active (orc_policy ob s) = Inr k" using g(1,2) by blast
  then obtain pe where "policy_evaluate (orc_policy ob s) (er_order request) ?risk rec (er_mode request) = Inr pe"
    using policy_evaluate_total [of "orc_policy ob s" rec v k "er_order request" ?risk "er_mode request"]
      g(3) [of "dr_selected_action rec"] select_feasible_action [OF r]
      simulated_select_executable(1) [OF o1 r]
    by blast
  with o1 r show ?thesis by (simp add: decide_def Let_def)
qed

section \<open>The pipeline over any ledger\<close>

locale decision_pipeline = decision_ledger put look size_of good same
  for put :: "decision_trace \<Rightarrow> ('s, decision_trace) prog" and look size_of good same +
  fixes L :: lib and ob :: "'s orchestrator"
  assumes ob_put: "orc_put ob = put"

context decision_pipeline begin

lemma orchestrate_cases:
  assumes "good s"
  obtains (stage) e where "decide L ob s q = Inl e" "orchestrate L ob q s = (Inl e, s)"
  | (recorded) t x s' where "decide L ob s q = Inr t" "orchestrate L ob q s = (Inr x, s')" "good s'"
      "look (decision_id_of L ob q (dt_policy t)) s' = Some x" "same x t"
  | (conflict) t e where "decide L ob s q = Inr t" "orchestrate L ob q s = (Inl e, s)"
      "exn_cls e = LedgerConflictError"
proof (cases "decide L ob s q")
  case (Inl e)
  then show thesis using stage by (simp add: orchestrate_app)
next
  case (Inr t)
  have id: "dt_decision_id t = decision_id_of L ob q (dt_policy t)"
    using Inr by (auto elim!: decide_InrE)
  obtain r s' where rs: "put t s = (r, s')" by fastforce
  have app: "orchestrate L ob q s = (r, s')" using Inr rs by (simp add: orchestrate_app ob_put)
  show thesis
  proof (cases r)
    case (Inl e)
    then show thesis using conflict [OF Inr] app put_InlD [OF assms, of t e s'] rs by simp
  next
    case r: (Inr x)
    then show thesis using recorded [OF Inr] app put_InrD [OF assms, of t x s'] rs id by auto
  qed
qed

lemma orchestrate_error_unchanged: "good s \<Longrightarrow> orchestrate L ob q s = (Inl e, s') \<Longrightarrow> s' = s"
  by (rule orchestrate_cases [of s q]) auto

lemma orchestrate_good: "good s \<Longrightarrow> good (snd (orchestrate L ob q s))"
  by (rule orchestrate_cases [of s q]) auto

text \<open>An evaluation replayed under the same controls returns the recorded decision.\<close>

lemma orchestrate_replay:
  assumes "good s" and "orchestrate L ob q s = (Inr x, s')" and "orc_policy ob s' = orc_policy ob s"
  shows "orchestrate L ob q s' = (Inr x, s')"
proof -
  obtain t where t: "decide L ob s q = Inr t" and p: "put t s = (Inr x, s')"
    using assms(2) by (cases "decide L ob s q") (auto simp: orchestrate_app ob_put)
  have "decide L ob s' q = Inr t" using t assms(3) by (simp add: decide_def)
  then show ?thesis using put_idempotent [OF assms(1) p] by (simp add: orchestrate_app ob_put)
qed

end

definition memory_orchestrator ::
  "lib \<Rightarrow> (order_context \<Rightarrow> risk_assessment) \<Rightarrow> string \<Rightarrow> policy_gateway \<Rightarrow> in_memory_ledger orchestrator"
where
  "memory_orchestrator L score version g =
     \<lparr>orc_score = score, orc_scorer_version = version, orc_policy = (\<lambda>_. g),
      orc_put = memory_record L\<rparr>"

definition sql_orchestrator ::
  "lib \<Rightarrow> (order_context \<Rightarrow> risk_assessment) \<Rightarrow> string \<Rightarrow> (database \<Rightarrow> policy_gateway) \<Rightarrow> database orchestrator"
where
  "sql_orchestrator L score version g =
     \<lparr>orc_score = score, orc_scorer_version = version, orc_policy = g, orc_put = sql_record L\<rparr>"

interpretation memory_pipeline: decision_pipeline "memory_record L" memory_get memory_count
    "memory_good L" "same_trace L" L "memory_orchestrator L score version g"
  for L score version g
  by unfold_locales (simp add: memory_orchestrator_def)

interpretation sql_pipeline: decision_pipeline "sql_record L" sql_get sql_count
    "decisions_good L" "same_trace L" L "sql_orchestrator L score version g"
  for L score version g
  by unfold_locales (simp add: sql_orchestrator_def)

end
