(* ===== verification/Autonomy.thy ===== *)
theory Autonomy
  imports Approval Orchestrator
begin

text \<open>
  \<^verbatim>\<open>src/src/promiseguard/autonomy.py\<close>: the persistent kill switch and the autonomy profile
  of each executable action. The abstract specification of a profile is its evidence log: the
  counters are recomputed from the log by \<open>evidence_counters\<close>, and the invariant of the tables
  says that every operation keeps them in step.
\<close>

section \<open>Rows and models\<close>

definition kill_switch_key :: string where
  "kill_switch_key = ''global_action_kill_switch''"

definition promotion_threshold :: int where
  "promotion_threshold = 20"

definition kill_switch_model :: "runtime_control_row \<Rightarrow> kill_switch_state res" where
  "kill_switch_model r =
     (if 1 \<le> rcr_version r
      then Inr \<lparr>ks_active = rcr_enabled r, ks_reason = rcr_reason r, ks_updated_by = rcr_updated_by r,
                ks_updated_at = to_utc (rcr_updated_at r), ks_version = rcr_version r\<rparr>
      else Inl (err ValidationError ''KillSwitchState''))"

definition profile_model :: "autonomy_profile_row \<Rightarrow> autonomy_profile res" where
  "profile_model r =
     (if 0 \<le> pfr_verified_successes r \<and> 0 \<le> pfr_consecutive_verified_successes r \<and>
         0 \<le> pfr_compensation_count r \<and> 0 \<le> pfr_failure_count r \<and> 1 \<le> pfr_version r
      then Inr \<lparr>pf_action = pfr_action r, pf_level = pfr_level r,
        pf_verified_successes = pfr_verified_successes r,
        pf_consecutive_verified_successes = pfr_consecutive_verified_successes r,
        pf_compensation_count = pfr_compensation_count r, pf_failure_count = pfr_failure_count r,
        pf_recommended_for_promotion =
          (promotion_threshold \<le> pfr_consecutive_verified_successes r \<and> pfr_level r \<noteq> AL_BOUNDED_AUTONOMY),
        pf_reason = pfr_reason r, pf_last_evidence_at = map_option to_utc (pfr_last_evidence_at r),
        pf_updated_by = pfr_updated_by r, pf_updated_at = to_utc (pfr_updated_at r),
        pf_version = pfr_version r\<rparr>
      else Inl (err ValidationError ''AutonomyProfile''))"

definition require_manager :: "user_role \<Rightarrow> unit res" where
  "require_manager role =
     (if role \<noteq> OPERATIONS_MANAGER
      then Inl (err AutonomyControlError ''only an operations manager may change autonomy controls'')
      else Inr ())"

section \<open>Operations\<close>

definition read_kill_switch :: "(database, kill_switch_state) prog" where
  "read_kill_switch = (\<lambda>db.
     case row_get rcr_control_key kill_switch_key (tb_controls db) of
       None \<Rightarrow> (Inl (err AssertionError []), db)
     | Some r \<Rightarrow> (kill_switch_model r, db))"

definition set_kill_switch ::
  "environ \<Rightarrow> datetime \<Rightarrow> kill_switch_update_input \<Rightarrow> (database, kill_switch_state) prog" where
  "set_kill_switch env now u =
     bind (of_res (require_manager (ku_actor_role u))) (\<lambda>_.
     bind (of_res (bind_claimed_role env (ku_actor_id u) (ku_actor_role u) None)) (\<lambda>_.
     session (\<lambda>db.
       case row_get rcr_control_key kill_switch_key (tb_controls db) of
         None \<Rightarrow> (Inl (err AssertionError []), db)
       | Some r \<Rightarrow>
           let row = r\<lparr>rcr_enabled := ku_active u, rcr_reason := ku_reason u,
                       rcr_updated_by := ku_actor_id u, rcr_updated_at := now,
                       rcr_version := rcr_version r + 1\<rparr>
           in (kill_switch_model row,
               db\<lparr>tb_controls := row_put rcr_control_key row (tb_controls db)\<rparr>))))"

definition no_profile :: "recovery_action \<Rightarrow> exn" where
  "no_profile action =
     err AutonomyControlError (''action '' @ recovery_action_value action @ '' has no autonomy profile'')"

definition read_profile :: "recovery_action \<Rightarrow> (database, autonomy_profile) prog" where
  "read_profile action = (\<lambda>db.
     case row_get pfr_action action (tb_profiles db) of
       None \<Rightarrow> (Inl (no_profile action), db)
     | Some r \<Rightarrow> (profile_model r, db))"

fun sequence_res :: "'a res list \<Rightarrow> 'a list res" where
  "sequence_res [] = Inr []"
| "sequence_res (r # rs) = bind_res r (\<lambda>x. bind_res (sequence_res rs) (\<lambda>xs. Inr (x # xs)))"

definition read_profiles :: "(database, autonomy_profile list) prog" where
  "read_profiles = (\<lambda>db.
     (sequence_res (map profile_model
        (sort_key (\<lambda>r. recovery_action_value (pfr_action r)) (tb_profiles db))), db))"

definition set_profile ::
  "environ \<Rightarrow> datetime \<Rightarrow> recovery_action \<Rightarrow> autonomy_update_input \<Rightarrow> (database, autonomy_profile) prog"
where
  "set_profile env now action u =
     bind (of_res (require_manager (au_actor_role u))) (\<lambda>_.
     bind (of_res (bind_claimed_role env (au_actor_id u) (au_actor_role u) None)) (\<lambda>_.
     if action \<in> {TAKE_NO_ACTION, HUMAN_ESCALATION}
     then raise (err AutonomyControlError ''non-executable action has no autonomy profile'')
     else session (\<lambda>db.
       case row_get pfr_action action (tb_profiles db) of
         None \<Rightarrow> (Inl (no_profile action), db)
       | Some r \<Rightarrow>
           if au_level u = AL_BOUNDED_AUTONOMY \<and> pfr_consecutive_verified_successes r < promotion_threshold
           then (Inl (err AutonomyControlError
                   ''bounded autonomy requires sufficient consecutive verified evidence''), db)
           else let row = r\<lparr>pfr_level := au_level u, pfr_reason := au_reason u,
                            pfr_updated_by := au_actor_id u, pfr_updated_at := now,
                            pfr_version := pfr_version r + 1\<rparr>
                in (profile_model row, db\<lparr>tb_profiles := row_put pfr_action row (tb_profiles db)\<rparr>))))"

definition context_version :: "recovery_action \<Rightarrow> (database, string) prog" where
  "context_version action =
     bind read_kill_switch (\<lambda>k.
       if action \<in> {TAKE_NO_ACTION, HUMAN_ESCALATION}
       then ret (''kill-switch:'' @ str_int (ks_version k))
       else bind (read_profile action) (\<lambda>p.
         ret (''kill-switch:'' @ str_int (ks_version k) @ ''|'' @ recovery_action_value action @
              '':'' @ str_int (pf_version p))))"

definition execution_permitted :: "recovery_action \<Rightarrow> (database, bool) prog" where
  "execution_permitted action =
     bind read_kill_switch (\<lambda>k.
       if ks_active k then ret False
       else bind (read_profile action) (\<lambda>p. ret (pf_level p = AL_BOUNDED_AUTONOMY)))"

text \<open>One piece of evidence on a profile row.\<close>

definition apply_evidence ::
  "datetime \<Rightarrow> string \<Rightarrow> bool \<Rightarrow> bool \<Rightarrow> autonomy_profile_row \<Rightarrow> autonomy_profile_row" where
  "apply_evidence now kind successful compensated r =
     (let r1 = (if successful
                then r\<lparr>pfr_verified_successes := pfr_verified_successes r + 1,
                       pfr_consecutive_verified_successes := pfr_consecutive_verified_successes r + 1\<rparr>
                else r\<lparr>pfr_failure_count := pfr_failure_count r + 1,
                       pfr_consecutive_verified_successes := 0\<rparr>);
          r2 = (if compensated then r1\<lparr>pfr_compensation_count := pfr_compensation_count r1 + 1\<rparr> else r1);
          r3 = (if \<not> successful \<and> pfr_level r2 = AL_BOUNDED_AUTONOMY
                then r2\<lparr>pfr_level := AL_SUSPENDED,
                        pfr_reason := ''Automatic safety downgrade after '' @ kind,
                        pfr_updated_by := ''automatic-safety-downgrade''\<rparr>
                else r2)
      in r3\<lparr>pfr_last_evidence_at := Some now, pfr_updated_at := now, pfr_version := pfr_version r3 + 1\<rparr>)"

definition record_evidence ::
  "datetime \<Rightarrow> string \<Rightarrow> recovery_action \<Rightarrow> string \<Rightarrow> bool \<Rightarrow> bool \<Rightarrow> (database, autonomy_profile) prog"
where
  "record_evidence now evidence_id action kind successful compensated = session (\<lambda>db.
     let existing = row_get aer_evidence_id evidence_id (tb_evidence db)
     in case row_get pfr_action action (tb_profiles db) of
          None \<Rightarrow> (Inl (no_profile action), db)
        | Some r \<Rightarrow>
            if existing \<noteq> None then (profile_model r, db)
            else let evidence = \<lparr>aer_evidence_id = evidence_id, aer_action = action,
                       aer_evidence_kind = kind, aer_successful = successful,
                       aer_compensated = compensated, aer_created_at = now\<rparr>;
                     row = apply_evidence now kind successful compensated r
                 in (profile_model row,
                     db\<lparr>tb_evidence := tb_evidence db @ [evidence],
                        tb_profiles := row_put pfr_action row (tb_profiles db)\<rparr>))"

definition record_execution :: "datetime \<Rightarrow> action_execution \<Rightarrow> (database, autonomy_profile) prog" where
  "record_execution now x =
     (if ae_status x \<notin> {AC_COMPENSATED, AC_FAILED, AC_MANUAL_RECOVERY_REQUIRED}
      then read_profile (cmd_action (ae_command x))
      else record_evidence now (''execution:'' @ ae_action_id x) (cmd_action (ae_command x))
             ''EXECUTION_FAILURE'' False (ae_status x = AC_COMPENSATED))"

definition record_outcome ::
  "datetime \<Rightarrow> outcome_verification \<Rightarrow> recovery_action \<Rightarrow> (database, autonomy_profile) prog" where
  "record_outcome now outcome action =
     (if ov_status outcome = VS_MANUAL_REVIEW_REQUIRED then read_profile action
      else record_evidence now (''outcome:'' @ ov_outcome_id outcome) action
             ''VERIFIED_OUTCOME'' (ov_status outcome = VS_VERIFIED) False)"

definition initial_control :: "datetime \<Rightarrow> runtime_control_row" where
  "initial_control now =
     \<lparr>rcr_control_key = kill_switch_key, rcr_enabled = False, rcr_reason = ''Initial safe state'',
      rcr_updated_by = ''system-bootstrap'', rcr_updated_at = now, rcr_version = 1\<rparr>"

definition initial_profile :: "datetime \<Rightarrow> recovery_action \<Rightarrow> autonomy_profile_row" where
  "initial_profile now action =
     \<lparr>pfr_action = action, pfr_level = AL_APPROVAL_REQUIRED, pfr_verified_successes = 0,
      pfr_consecutive_verified_successes = 0, pfr_compensation_count = 0, pfr_failure_count = 0,
      pfr_reason = ''Initial approval-required state'', pfr_last_evidence_at = None,
      pfr_updated_by = ''system-bootstrap'', pfr_updated_at = now, pfr_version = 1\<rparr>"

definition add_missing :: "('r \<Rightarrow> 'k) \<Rightarrow> 'r \<Rightarrow> 'r list \<Rightarrow> 'r list" where
  "add_missing key r rows = (if row_get key (key r) rows = None then rows @ [r] else rows)"

definition bootstrap :: "datetime \<Rightarrow> (database, unit) prog" where
  "bootstrap now = session (\<lambda>db.
     (Inr (), db\<lparr>
        tb_controls := add_missing rcr_control_key (initial_control now) (tb_controls db),
        tb_profiles := fold (\<lambda>a. add_missing pfr_action (initial_profile now a))
          [REROUTE, CARRIER_UPGRADE, SPLIT_SHIPMENT] (tb_profiles db)\<rparr>))"

section \<open>The evidence log as specification\<close>

definition evidence_of :: "recovery_action \<Rightarrow> autonomy_evidence_row list \<Rightarrow> autonomy_evidence_row list" where
  "evidence_of action es = filter (\<lambda>e. aer_action e = action) es"

text \<open>Successes, successes since the last failure, compensations and failures of a log.\<close>

definition evidence_counters :: "autonomy_evidence_row list \<Rightarrow> int \<times> int \<times> int \<times> int" where
  "evidence_counters es =
     (int (length (filter aer_successful es)),
      int (length (takeWhile aer_successful (rev es))),
      int (length (filter aer_compensated es)),
      int (length (filter (\<lambda>e. \<not> aer_successful e) es)))"

definition row_counters :: "autonomy_profile_row \<Rightarrow> int \<times> int \<times> int \<times> int" where
  "row_counters r =
     (pfr_verified_successes r, pfr_consecutive_verified_successes r,
      pfr_compensation_count r, pfr_failure_count r)"

definition executable :: "recovery_action \<Rightarrow> bool" where
  "executable a \<longleftrightarrow> a \<in> {REROUTE, CARRIER_UPGRADE, SPLIT_SHIPMENT}"

definition profile_row_good :: "autonomy_evidence_row list \<Rightarrow> autonomy_profile_row \<Rightarrow> bool" where
  "profile_row_good es r \<longleftrightarrow>
     executable (pfr_action r) \<and> 1 \<le> pfr_version r \<and>
     row_counters r = evidence_counters (evidence_of (pfr_action r) es) \<and>
     (pfr_level r = AL_BOUNDED_AUTONOMY \<longrightarrow> promotion_threshold \<le> pfr_consecutive_verified_successes r)"

definition controls_good :: "database \<Rightarrow> bool" where
  "controls_good db \<longleftrightarrow>
     keys_distinct rcr_control_key (tb_controls db) \<and> keys_distinct pfr_action (tb_profiles db) \<and>
     keys_distinct aer_evidence_id (tb_evidence db) \<and>
     list_all (\<lambda>r. 1 \<le> rcr_version r) (tb_controls db) \<and>
     row_get rcr_control_key kill_switch_key (tb_controls db) \<noteq> None \<and>
     list_all (profile_row_good (tb_evidence db)) (tb_profiles db) \<and>
     list_all (\<lambda>a. row_get pfr_action a (tb_profiles db) \<noteq> None) [REROUTE, CARRIER_UPGRADE, SPLIT_SHIPMENT]"

lemma evidence_counters_append:
  "evidence_counters (es @ [e]) =
     (case evidence_counters es of (v, c, k, f) \<Rightarrow>
        (if aer_successful e then (v + 1, c + 1, if aer_compensated e then k + 1 else k, f)
         else (v, 0, if aer_compensated e then k + 1 else k, f + 1)))"
  by (simp add: evidence_counters_def)

lemma evidence_of_append:
  "evidence_of a (es @ [e]) = (if aer_action e = a then evidence_of a es @ [e] else evidence_of a es)"
  by (simp add: evidence_of_def)

lemma apply_evidence_sel:
  "pfr_action (apply_evidence now kind s c r) = pfr_action r"
  "pfr_version (apply_evidence now kind s c r) = pfr_version r + 1"
  "pfr_level (apply_evidence now kind s c r) =
     (if \<not> s \<and> pfr_level r = AL_BOUNDED_AUTONOMY then AL_SUSPENDED else pfr_level r)"
  "pfr_consecutive_verified_successes (apply_evidence now kind s c r) =
     (if s then pfr_consecutive_verified_successes r + 1 else 0)"
  "pfr_verified_successes (apply_evidence now kind s c r) =
     (if s then pfr_verified_successes r + 1 else pfr_verified_successes r)"
  "pfr_compensation_count (apply_evidence now kind s c r) =
     (if c then pfr_compensation_count r + 1 else pfr_compensation_count r)"
  "pfr_failure_count (apply_evidence now kind s c r) =
     (if s then pfr_failure_count r else pfr_failure_count r + 1)"
  by (simp_all add: apply_evidence_def Let_def)

lemma profile_row_good_evidence:
  assumes "profile_row_good es r" and "aer_action e = pfr_action r"
  shows "profile_row_good (es @ [e])
    (apply_evidence now kind (aer_successful e) (aer_compensated e) r)"
  using assms
  by (auto simp: profile_row_good_def apply_evidence_sel evidence_of_append evidence_counters_append
      row_counters_def split: prod.split)

lemma profile_row_good_other:
  "profile_row_good es r \<Longrightarrow> aer_action e \<noteq> pfr_action r \<Longrightarrow> profile_row_good (es @ [e]) r"
  by (simp add: profile_row_good_def evidence_of_append)

text \<open>A well-formed row always has a model.\<close>

lemma profile_model_total:
  "profile_row_good es r \<Longrightarrow> \<exists>p. profile_model r = Inr p \<and> pf_action p = pfr_action r \<and>
     pf_level p = pfr_level r \<and> pf_version p = pfr_version r \<and>
     pf_consecutive_verified_successes p = pfr_consecutive_verified_successes r"
  by (auto simp: profile_row_good_def profile_model_def row_counters_def evidence_counters_def)

lemma controls_good_kill_switch:
  assumes "controls_good db"
  obtains r where "row_get rcr_control_key kill_switch_key (tb_controls db) = Some r" "1 \<le> rcr_version r"
proof -
  obtain r where r: "row_get rcr_control_key kill_switch_key (tb_controls db) = Some r"
    using assms by (auto simp: controls_good_def)
  then have "1 \<le> rcr_version r"
    using assms row_get_SomeD [OF r] by (auto simp: controls_good_def list_all_iff)
  with r show thesis by (rule that)
qed

lemma controls_good_profile:
  assumes "controls_good db" and "row_get pfr_action a (tb_profiles db) = Some r"
  shows "profile_row_good (tb_evidence db) r" and "pfr_action r = a"
  using assms row_get_SomeD [OF assms(2)] by (auto simp: controls_good_def list_all_iff)

lemma controls_good_executable:
  "controls_good db \<Longrightarrow> executable a \<longleftrightarrow> row_get pfr_action a (tb_profiles db) \<noteq> None"
  using controls_good_profile [of db a]
  by (auto simp: controls_good_def executable_def profile_row_good_def)

lemma controls_good_kill_put:
  assumes "controls_good db" and "1 \<le> rcr_version row" and "rcr_control_key row = kill_switch_key"
  shows "controls_good (db\<lparr>tb_controls := row_put rcr_control_key row (tb_controls db)\<rparr>)"
  using assms by (auto simp: controls_good_def list_all_iff row_get_put dest!: row_put_set)

lemma controls_good_profile_put:
  assumes "controls_good db" and "profile_row_good (tb_evidence db) row"
  shows "controls_good (db\<lparr>tb_profiles := row_put pfr_action row (tb_profiles db)\<rparr>)"
  using assms by (auto simp: controls_good_def list_all_iff row_get_put dest!: row_put_set)

lemma controls_good_evidence:
  assumes g: "controls_good db" and r: "row_get pfr_action a (tb_profiles db) = Some r"
    and e: "aer_action e = a" "row_get aer_evidence_id (aer_evidence_id e) (tb_evidence db) = None"
  shows "controls_good (db\<lparr>tb_evidence := tb_evidence db @ [e],
    tb_profiles := row_put pfr_action
      (apply_evidence now kind (aer_successful e) (aer_compensated e) r) (tb_profiles db)\<rparr>)"
proof -
  let ?row = "apply_evidence now kind (aer_successful e) (aer_compensated e) r"
  note rg = controls_good_profile [OF g r]
  have ra: "pfr_action ?row = a" using rg by (simp add: apply_evidence_sel)
  have "profile_row_good (tb_evidence db @ [e]) x"
    if "x \<in> set (row_put pfr_action ?row (tb_profiles db))" for x
  proof -
    have "x = ?row \<or> (x \<in> set (tb_profiles db) \<and> pfr_action x \<noteq> a)"
      using row_put_set [OF that] ra by simp
    then show ?thesis
      using rg e(1) g profile_row_good_evidence [of "tb_evidence db" r e now kind]
      by (auto simp: controls_good_def list_all_iff intro: profile_row_good_other)
  qed
  moreover have "keys_distinct aer_evidence_id (tb_evidence db @ [e])"
    using g e(2) unfolding row_get_None by (auto simp: controls_good_def keys_distinct_def)
  ultimately show ?thesis
    using g by (auto simp: controls_good_def list_all_iff row_get_put)
qed

section \<open>The operations keep the invariant\<close>

lemma kill_switch_model_sel:
  "kill_switch_model r = Inr k \<Longrightarrow> ks_active k = rcr_enabled r \<and> ks_version k = rcr_version r"
  by (auto simp: kill_switch_model_def split: if_splits)

lemma read_kill_switch_app:
  assumes "controls_good db"
  obtains r k where "row_get rcr_control_key kill_switch_key (tb_controls db) = Some r"
    "read_kill_switch db = (Inr k, db)" "ks_active k = rcr_enabled r" "ks_version k = rcr_version r"
proof -
  obtain r where r: "row_get rcr_control_key kill_switch_key (tb_controls db) = Some r" "1 \<le> rcr_version r"
    using assms by (rule controls_good_kill_switch)
  then obtain k where "kill_switch_model r = Inr k" by (simp add: kill_switch_model_def)
  then show thesis using r kill_switch_model_sel by (intro that [OF r(1)]) (auto simp: read_kill_switch_def)
qed

lemma read_profile_app:
  assumes "controls_good db" and "executable a"
  obtains r p where "row_get pfr_action a (tb_profiles db) = Some r"
    "read_profile a db = (Inr p, db)" "pf_level p = pfr_level r" "pf_version p = pfr_version r"
proof -
  obtain r where r: "row_get pfr_action a (tb_profiles db) = Some r"
    using controls_good_executable [OF assms(1)] assms(2) by auto
  with profile_model_total [OF controls_good_profile(1) [OF assms(1) r]] that show thesis
    by (auto simp: read_profile_def)
qed

lemma not_executable: "\<not> executable a \<longleftrightarrow> a \<in> {TAKE_NO_ACTION, HUMAN_ESCALATION}"
  by (cases a) (auto simp: executable_def)

lemma read_profile_not_executable:
  "controls_good db \<Longrightarrow> \<not> executable a \<Longrightarrow> read_profile a db = (Inl (no_profile a), db)"
  using controls_good_executable [of db a] by (simp add: read_profile_def)

lemma read_unchanged:
  "read_kill_switch db = (r, db') \<Longrightarrow> db' = db"
  "read_profile a db = (p, db') \<Longrightarrow> db' = db"
  by (auto simp: read_kill_switch_def read_profile_def split: option.splits)

lemma set_kill_switch_app:
  assumes g: "controls_good db"
    and r: "row_get rcr_control_key kill_switch_key (tb_controls db) = Some r"
  shows "set_kill_switch env now u db =
    (if ku_actor_role u \<noteq> OPERATIONS_MANAGER
     then (Inl (err AutonomyControlError ''only an operations manager may change autonomy controls''), db)
     else case bind_claimed_role env (ku_actor_id u) (ku_actor_role u) None of
       Inl e \<Rightarrow> (Inl e, db)
     | Inr _ \<Rightarrow>
       (Inr \<lparr>ks_active = ku_active u, ks_reason = ku_reason u, ks_updated_by = ku_actor_id u,
             ks_updated_at = to_utc now, ks_version = rcr_version r + 1\<rparr>,
        db\<lparr>tb_controls := row_put rcr_control_key
          (r\<lparr>rcr_enabled := ku_active u, rcr_reason := ku_reason u, rcr_updated_by := ku_actor_id u,
             rcr_updated_at := now, rcr_version := rcr_version r + 1\<rparr>) (tb_controls db)\<rparr>))"
proof -
  have "1 \<le> rcr_version r"
    using g row_get_SomeD [OF r] by (auto simp: controls_good_def list_all_iff)
  then show ?thesis using r
    by (simp add: set_kill_switch_def require_manager_def bind_def session_def kill_switch_model_def
        Let_def split: sum.split)
qed

lemma set_kill_switch_good:
  assumes "controls_good db" shows "controls_good (snd (set_kill_switch env now u db))"
proof -
  obtain r where r: "row_get rcr_control_key kill_switch_key (tb_controls db) = Some r" "1 \<le> rcr_version r"
    using controls_good_kill_switch [OF assms] by blast
  have "rcr_control_key r = kill_switch_key" using row_get_SomeD [OF r(1)] by simp
  then show ?thesis using assms r
    by (auto simp: set_kill_switch_app [OF assms r(1)] split: sum.split intro: controls_good_kill_put)
qed

text \<open>A profile changes only by an authorised update of its row.\<close>

lemma set_profile_cases:
  assumes g: "controls_good db" and st: "set_profile env now a u db = (res, db')"
  obtains (error) e where "res = Inl e" "db' = db"
  | (updated) r p where "res = Inr p" "row_get pfr_action a (tb_profiles db) = Some r"
      "au_actor_role u = OPERATIONS_MANAGER"
      "bind_claimed_role env (au_actor_id u) (au_actor_role u) None = Inr (au_actor_role u)"
      "au_level u = AL_BOUNDED_AUTONOMY \<Longrightarrow> promotion_threshold \<le> pfr_consecutive_verified_successes r"
      "pf_level p = au_level u" "pf_version p = pfr_version r + 1"
      "db' = db\<lparr>tb_profiles := row_put pfr_action
         (r\<lparr>pfr_level := au_level u, pfr_reason := au_reason u, pfr_updated_by := au_actor_id u,
            pfr_updated_at := now, pfr_version := pfr_version r + 1\<rparr>) (tb_profiles db)\<rparr>"
proof -
  consider (e) e where "res = Inl e" "db' = db"
    | (ok) r where "row_get pfr_action a (tb_profiles db) = Some r" "au_actor_role u = OPERATIONS_MANAGER"
      "bind_claimed_role env (au_actor_id u) (au_actor_role u) None = Inr (au_actor_role u)"
      "\<not> (au_level u = AL_BOUNDED_AUTONOMY \<and> pfr_consecutive_verified_successes r < promotion_threshold)"
      "(res, db') = session (\<lambda>db. (profile_model
         (r\<lparr>pfr_level := au_level u, pfr_reason := au_reason u, pfr_updated_by := au_actor_id u,
            pfr_updated_at := now, pfr_version := pfr_version r + 1\<rparr>),
         db\<lparr>tb_profiles := row_put pfr_action
         (r\<lparr>pfr_level := au_level u, pfr_reason := au_reason u, pfr_updated_by := au_actor_id u,
            pfr_updated_at := now, pfr_version := pfr_version r + 1\<rparr>) (tb_profiles db)\<rparr>)) db"
    using st unfolding set_profile_def bind_def require_manager_def session_def Let_def
    by (auto simp: bind_claimed_role_Inr split: if_splits sum.splits option.splits prod.splits)
  then show thesis
  proof cases
    case e
    then show thesis by (rule error)
  next
    case (ok r)
    have "profile_row_good (tb_evidence db) (r\<lparr>pfr_level := au_level u, pfr_reason := au_reason u,
        pfr_updated_by := au_actor_id u, pfr_updated_at := now, pfr_version := pfr_version r + 1\<rparr>)"
      using controls_good_profile [OF g ok(1)] ok(4)
      by (auto simp: profile_row_good_def row_counters_def)
    from profile_model_total [OF this] show thesis
      using ok updated [of _ r] by (auto simp: session_def not_less)
  qed
qed

lemma set_profile_good:
  assumes "controls_good db" shows "controls_good (snd (set_profile env now a u db))"
proof -
  obtain res db' where st: "set_profile env now a u db = (res, db')" by fastforce
  from assms st show ?thesis
  proof (cases rule: set_profile_cases)
    case (updated r p)
    then show ?thesis using assms st controls_good_profile [OF assms updated(2)]
      by (auto intro!: controls_good_profile_put simp: profile_row_good_def row_counters_def)
  qed (simp_all add: st assms)
qed

lemma record_evidence_cases:
  assumes g: "controls_good db" and st: "record_evidence now k a kind s c db = (res, db')"
  obtains (no_row) "res = Inl (no_profile a)" "db' = db" "\<not> executable a"
  | (seen) r p where "res = Inr p" "db' = db" "row_get aer_evidence_id k (tb_evidence db) \<noteq> None"
      "row_get pfr_action a (tb_profiles db) = Some r" "profile_model r = Inr p"
  | (fresh) r p where "res = Inr p" "row_get aer_evidence_id k (tb_evidence db) = None"
      "row_get pfr_action a (tb_profiles db) = Some r"
      "profile_model (apply_evidence now kind s c r) = Inr p"
      "db' = db\<lparr>tb_evidence := tb_evidence db @ [\<lparr>aer_evidence_id = k, aer_action = a,
           aer_evidence_kind = kind, aer_successful = s, aer_compensated = c, aer_created_at = now\<rparr>],
         tb_profiles := row_put pfr_action (apply_evidence now kind s c r) (tb_profiles db)\<rparr>"
proof (cases "row_get pfr_action a (tb_profiles db)")
  case None
  then show thesis using st no_row controls_good_executable [OF g, of a]
    by (auto simp: record_evidence_def session_def Let_def)
next
  case (Some r)
  note rg = controls_good_profile [OF g Some]
  let ?e = "\<lparr>aer_evidence_id = k, aer_action = a, aer_evidence_kind = kind, aer_successful = s,
    aer_compensated = c, aer_created_at = now\<rparr>"
  obtain p where p: "profile_model r = Inr p" using profile_model_total [OF rg(1)] by blast
  obtain q where q: "profile_model (apply_evidence now kind s c r) = Inr q"
    using profile_model_total [OF profile_row_good_evidence [of "tb_evidence db" r ?e now kind]] rg by auto
  show thesis
  proof (cases "row_get aer_evidence_id k (tb_evidence db)")
    case None
    then show thesis using st Some q fresh [of q r]
      by (simp add: record_evidence_def session_def Let_def)
  next
    case (Some x)
    then show thesis using st \<open>row_get pfr_action a (tb_profiles db) = Some r\<close> p seen [of p r]
      by (simp add: record_evidence_def session_def Let_def)
  qed
qed

lemma record_evidence_good:
  assumes "controls_good db" shows "controls_good (snd (record_evidence now k a kind s c db))"
proof -
  obtain res db' where st: "record_evidence now k a kind s c db = (res, db')" by fastforce
  from assms st show ?thesis
  proof (cases rule: record_evidence_cases)
    case (fresh r p)
    then show ?thesis
      using st controls_good_evidence [OF assms fresh(3), where e = "\<lparr>aer_evidence_id = k, aer_action = a,
        aer_evidence_kind = kind, aer_successful = s, aer_compensated = c, aer_created_at = now\<rparr>"]
      by simp
  qed (simp_all add: st assms)
qed

lemma record_execution_good: "controls_good db \<Longrightarrow> controls_good (snd (record_execution now x db))"
  by (simp add: record_execution_def record_evidence_good read_profile_def split: option.split)

lemma record_outcome_good: "controls_good db \<Longrightarrow> controls_good (snd (record_outcome now x a db))"
  by (simp add: record_outcome_def record_evidence_good read_profile_def split: option.split)

lemma add_missing_present: "row_get key (key r) rows \<noteq> None \<Longrightarrow> add_missing key r rows = rows"
  by (simp add: add_missing_def)

lemma initial_keys [simp]:
  "rcr_control_key (initial_control now) = kill_switch_key" "pfr_action (initial_profile now a) = a"
  by (simp_all add: initial_control_def initial_profile_def)

lemma bootstrap_good:
  assumes "controls_good db" shows "bootstrap now db = (Inr (), db)"
proof -
  have "add_missing rcr_control_key (initial_control now) (tb_controls db) = tb_controls db"
    using assms by (intro add_missing_present) (auto simp: controls_good_def)
  moreover have "add_missing pfr_action (initial_profile now a) (tb_profiles db) = tb_profiles db"
    if "a \<in> {REROUTE, CARRIER_UPGRADE, SPLIT_SHIPMENT}" for a
    using assms that by (intro add_missing_present) (auto simp: controls_good_def)
  ultimately show ?thesis by (simp add: bootstrap_def session_def)
qed

lemma bootstrap_empty: "controls_good (snd (bootstrap now empty_database))"
  by (simp add: bootstrap_def session_def add_missing_def controls_good_def initial_control_def
      initial_profile_def empty_database_def keys_distinct_def row_get_def profile_row_good_def
      executable_def row_counters_def evidence_counters_def evidence_of_def)

section \<open>The gate of the policy gateway\<close>

text \<open>The wiring of \<^verbatim>\<open>services.py\<close>: the callbacks of the gateway read the controller.\<close>

definition autonomy_gateway :: "database \<Rightarrow> policy_gateway" where
  "autonomy_gateway db =
     \<lparr>pg_kill_switch_active = bind_res (fst (read_kill_switch db)) (\<lambda>k. Inr (ks_active k)),
      pg_autonomy_allowed = (\<lambda>a. fst (execution_permitted a db)),
      pg_control_version = (\<lambda>a. fst (context_version a db))\<rparr>"

text \<open>What the decision pipeline relies on: the callbacks answer, and autonomy is not allowed
  while the kill switch is active.\<close>

locale execution_control =
  fixes gateway :: "'s \<Rightarrow> policy_gateway" and good :: "'s \<Rightarrow> bool"
  assumes version_total: "good s \<Longrightarrow> \<exists>v. pg_control_version (gateway s) a = Inr v"
    and kill_total: "good s \<Longrightarrow> \<exists>k. pg_kill_switch_active (gateway s) = Inr k"
    and allowed_total: "good s \<Longrightarrow> a \<notin> {TAKE_NO_ACTION, HUMAN_ESCALATION} \<Longrightarrow>
      \<exists>b. pg_autonomy_allowed (gateway s) a = Inr b"
    and allowed_not_killed: "good s \<Longrightarrow> pg_autonomy_allowed (gateway s) a = Inr True \<Longrightarrow>
      pg_kill_switch_active (gateway s) = Inr False"

context execution_control begin

lemma controlled_decide_total:
  assumes "good s" and "orc_policy ob = gateway"
    and "valid_evaluation_request q" and "order_money_fits (er_order q)"
    and "valid_risk_assessment (orc_score ob (er_order q))"
  shows "\<exists>t. decide L ob s q = Inr t"
  using assms version_total kill_total allowed_total
  by (intro decide_total) auto

lemma killed_never_auto:
  assumes "good s" and "orc_policy ob = gateway" and "decide L ob s q = Inr t"
    and "pg_kill_switch_active (gateway s) = Inr True"
  shows "pe_disposition (dt_policy t) \<noteq> AUTO_EXECUTE \<and> \<not> pe_execution_allowed (dt_policy t)"
  using decide_sound [OF assms(3)] assms(2,4) by (auto simp: sound_decision_def)

end

lemma execution_permitted_app:
  assumes g: "controls_good db" and a: "executable a"
  obtains k p where "row_get rcr_control_key kill_switch_key (tb_controls db) = Some k"
    "row_get pfr_action a (tb_profiles db) = Some p"
    "execution_permitted a db = (Inr (\<not> rcr_enabled k \<and> pfr_level p = AL_BOUNDED_AUTONOMY), db)"
proof -
  obtain k ks where k: "row_get rcr_control_key kill_switch_key (tb_controls db) = Some k"
    "read_kill_switch db = (Inr ks, db)" "ks_active ks = rcr_enabled k"
    using g by (rule read_kill_switch_app)
  obtain p m where p: "row_get pfr_action a (tb_profiles db) = Some p"
    "read_profile a db = (Inr m, db)" "pf_level m = pfr_level p"
    using g a by (rule read_profile_app)
  show thesis using k p by (intro that [OF k(1) p(1)]) (simp add: execution_permitted_def bind_def)
qed

lemma context_version_app:
  assumes g: "controls_good db"
  obtains k where "row_get rcr_control_key kill_switch_key (tb_controls db) = Some k"
    "\<not> executable a \<Longrightarrow> context_version a db = (Inr (''kill-switch:'' @ str_int (rcr_version k)), db)"
    "\<And>p. row_get pfr_action a (tb_profiles db) = Some p \<Longrightarrow>
       context_version a db = (Inr (''kill-switch:'' @ str_int (rcr_version k) @ ''|'' @
         recovery_action_value a @ '':'' @ str_int (pfr_version p)), db)"
proof -
  obtain k ks where k: "row_get rcr_control_key kill_switch_key (tb_controls db) = Some k"
    "read_kill_switch db = (Inr ks, db)" "ks_version ks = rcr_version k"
    using g by (rule read_kill_switch_app)
  show thesis
  proof (rule that [OF k(1)])
    show "\<not> executable a \<Longrightarrow> context_version a db = (Inr (''kill-switch:'' @ str_int (rcr_version k)), db)"
      using k by (simp add: context_version_def bind_def not_executable)
    fix p assume p: "row_get pfr_action a (tb_profiles db) = Some p"
    note pg = controls_good_profile [OF g p]
    have e: "executable a" using pg by (simp add: profile_row_good_def)
    obtain m where "profile_model p = Inr m" "pf_version m = pfr_version p"
      using profile_model_total [OF pg(1)] by blast
    then show "context_version a db = (Inr (''kill-switch:'' @ str_int (rcr_version k) @ ''|'' @
         recovery_action_value a @ '':'' @ str_int (pfr_version p)), db)"
      using k p e not_executable [of a] by (simp add: context_version_def bind_def read_profile_def)
  qed
qed

lemma context_version_total:
  assumes g: "controls_good db" shows "\<exists>v. context_version a db = (Inr v, db)"
proof (cases "row_get pfr_action a (tb_profiles db)")
  case None
  then have "\<not> executable a" using controls_good_executable [OF g, of a] by simp
  then show ?thesis by (rule_tac context_version_app [OF g, of a]) blast
next
  case (Some p)
  then show ?thesis by (rule_tac context_version_app [OF g, of a]) blast
qed

interpretation autonomy: execution_control autonomy_gateway controls_good
proof unfold_locales
  fix s a assume g: "controls_good s"
  show "\<exists>v. pg_control_version (autonomy_gateway s) a = Inr v"
    using context_version_total [OF g, of a] by (auto simp: autonomy_gateway_def)
  show "\<exists>k. pg_kill_switch_active (autonomy_gateway s) = Inr k"
    by (rule read_kill_switch_app [OF g]) (simp add: autonomy_gateway_def)
  show "\<exists>b. pg_autonomy_allowed (autonomy_gateway s) a = Inr b"
    if "a \<notin> {TAKE_NO_ACTION, HUMAN_ESCALATION}"
  proof -
    have "executable a" using that not_executable [of a] by blast
    then show ?thesis by (rule execution_permitted_app [OF g]) (simp add: autonomy_gateway_def)
  qed
  assume a: "pg_autonomy_allowed (autonomy_gateway s) a = Inr True"
  obtain k where k: "read_kill_switch s = (Inr k, s)" by (rule read_kill_switch_app [OF g])
  have "\<not> ks_active k" using a k by (auto simp: autonomy_gateway_def execution_permitted_def bind_def)
  then show "pg_kill_switch_active (autonomy_gateway s) = Inr False"
    using k by (simp add: autonomy_gateway_def)
qed

interpretation static_controls: execution_control "\<lambda>_. default_policy_gateway" "\<lambda>_. True"
  by unfold_locales (simp_all only: default_policy_gateway_def policy_gateway.simps sum.inject, blast+)

section \<open>Properties\<close>

text \<open>C23: The kill switch, the profiles and the evidence log stay consistent under every
  operation of the controller: one row per key, a row for every executable action and no
  other, counters equal to those recomputed from the evidence log, and a profile at
  \<open>BOUNDED_AUTONOMY\<close> only with twenty consecutive verified successes. The bootstrap
  establishes it on an empty database and changes nothing on a database that has it.\<close>

theorem autonomy_controls_invariant:
  assumes "controls_good db"
  shows "controls_good (snd (bootstrap now empty_database)) \<and> snd (bootstrap now db) = db \<and>
    controls_good (snd (set_kill_switch env now ku db)) \<and>
    controls_good (snd (set_profile env now a au db)) \<and>
    controls_good (snd (record_execution now x db)) \<and>
    controls_good (snd (record_outcome now outcome a db))"
  using assms
  by (simp add: bootstrap_empty bootstrap_good set_kill_switch_good set_profile_good
      record_execution_good record_outcome_good)

definition sample_controls :: database where
  "sample_controls = snd (bootstrap (utc 0) empty_database)"

lemma sample_controls_good: "controls_good sample_controls"
  by (simp add: sample_controls_def bootstrap_empty)

lemma autonomy_controls_invariant_witness:
  "controls_good (snd (set_kill_switch [] (utc 5) \<lparr>ku_active = True, ku_actor_id = ''m'',
     ku_actor_role = OPERATIONS_MANAGER, ku_reason = ''drill''\<rparr> sample_controls))"
  using autonomy_controls_invariant [OF sample_controls_good] by blast

text \<open>C24: Autonomous execution of an action is permitted exactly when the kill switch is off
  and its profile is at \<open>BOUNDED_AUTONOMY\<close>; the last twenty pieces of evidence on the action
  are then all verified successes.\<close>

theorem autonomy_is_earned:
  assumes "controls_good db" and "executable a"
  shows "(\<exists>k p. row_get rcr_control_key kill_switch_key (tb_controls db) = Some k \<and>
      row_get pfr_action a (tb_profiles db) = Some p \<and>
      execution_permitted a db = (Inr (\<not> rcr_enabled k \<and> pfr_level p = AL_BOUNDED_AUTONOMY), db)) \<and>
    (fst (execution_permitted a db) = Inr True \<longrightarrow>
      20 \<le> length (takeWhile aer_successful (rev (evidence_of a (tb_evidence db)))))"
proof -
  obtain k p where k: "row_get rcr_control_key kill_switch_key (tb_controls db) = Some k"
    and p: "row_get pfr_action a (tb_profiles db) = Some p"
    and ep: "execution_permitted a db = (Inr (\<not> rcr_enabled k \<and> pfr_level p = AL_BOUNDED_AUTONOMY), db)"
    using assms by (rule execution_permitted_app)
  show ?thesis
    using k p ep controls_good_profile [OF assms(1) p]
    by (auto simp: profile_row_good_def row_counters_def evidence_counters_def promotion_threshold_def)
qed

lemma autonomy_is_earned_witness: "fst (execution_permitted REROUTE sample_controls) = Inr False"
proof -
  have "executable REROUTE" by (simp add: executable_def)
  from autonomy_is_earned [OF sample_controls_good this] show ?thesis
    by (auto simp: sample_controls_def bootstrap_def session_def add_missing_def initial_profile_def
        initial_control_def empty_database_def row_get_def)
qed

text \<open>A new failed or compensated execution of an action resets its run of successes and, at
  \<open>BOUNDED_AUTONOMY\<close>, suspends it: autonomous execution is no longer permitted, and no
  manager can restore it without new evidence. Evidence already recorded changes nothing.\<close>

theorem failure_suspends_autonomy:
  assumes "controls_good db" and "executable (cmd_action (ae_command x))"
    and "ae_status x \<in> {AC_COMPENSATED, AC_FAILED, AC_MANUAL_RECOVERY_REQUIRED}"
    and "record_execution now x db = (res, db')"
  shows "record_execution now' x db' = (res, db') \<and>
    (row_get aer_evidence_id (''execution:'' @ ae_action_id x) (tb_evidence db) \<noteq> None \<longrightarrow> db' = db) \<and>
    (row_get aer_evidence_id (''execution:'' @ ae_action_id x) (tb_evidence db) = None \<longrightarrow>
       fst (execution_permitted (cmd_action (ae_command x)) db') = Inr False \<and>
       (\<forall>env t u. au_level u = AL_BOUNDED_AUTONOMY \<longrightarrow>
          (\<exists>e. set_profile env t (cmd_action (ae_command x)) u db' = (Inl e, db'))))"
proof -
  let ?a = "cmd_action (ae_command x)" and ?k = "''execution:'' @ ae_action_id x"
  let ?c = "ae_status x = AC_COMPENSATED"
  have rec: "record_execution t x = record_evidence t ?k ?a ''EXECUTION_FAILURE'' False ?c" for t
    using assms(3) by (auto simp: record_execution_def)
  have st: "record_evidence now ?k ?a ''EXECUTION_FAILURE'' False ?c db = (res, db')"
    using assms(4) rec by simp
  have g': "controls_good db'"
    using record_evidence_good [OF assms(1), of now ?k ?a "''EXECUTION_FAILURE''" False ?c] st by simp
  show ?thesis using assms(1) st
  proof (cases rule: record_evidence_cases)
    case no_row
    then show ?thesis using assms(2) by simp
  next
    case (seen r p)
    then show ?thesis by (auto simp: rec record_evidence_def session_def Let_def)
  next
    case (fresh r p)
    let ?row = "apply_evidence now ''EXECUTION_FAILURE'' False ?c r"
    have ra: "pfr_action ?row = ?a"
      using controls_good_profile [OF assms(1) fresh(3)] by (simp add: apply_evidence_sel)
    have row: "row_get pfr_action ?a (tb_profiles db') = Some ?row"
      using fresh(3) ra by (simp add: fresh(5) row_get_put)
    have again: "record_evidence now' ?k ?a ''EXECUTION_FAILURE'' False ?c db' = (res, db')"
      using fresh row by (simp add: record_evidence_def session_def Let_def row_get_append)
    have lvl: "pfr_level ?row \<noteq> AL_BOUNDED_AUTONOMY" "pfr_consecutive_verified_successes ?row = 0"
      by (simp_all add: apply_evidence_sel)
    have "fst (execution_permitted ?a db') = Inr False"
      by (rule execution_permitted_app [OF g' assms(2)]) (use row lvl in auto)
    moreover have "\<exists>e. set_profile env t ?a u db' = (Inl e, db')" if "au_level u = AL_BOUNDED_AUTONOMY" for env t u
    proof -
      obtain res' db'' where s: "set_profile env t ?a u db' = (res', db'')" by fastforce
      from g' s show ?thesis
        by (cases rule: set_profile_cases) (use row lvl that s in \<open>auto simp: promotion_threshold_def\<close>)
    qed
    ultimately show ?thesis using again fresh(2) by (simp add: rec)
  qed
qed

definition sample_failed_execution :: action_execution where
  "sample_failed_execution =
     \<lparr>ae_action_id = ''act_1'', ae_command = \<lparr>cmd_decision_id = ''dec_1'', cmd_order_id = ''ORD-1'',
        cmd_action = REROUTE, cmd_idempotency_key = ''pg:00000001'', cmd_requested_by = ''eval-runner'',
        cmd_approved_by = None, cmd_expected_intervention_cost = 8, cmd_parameters = []\<rparr>,
      ae_status = AC_FAILED, ae_steps = [], ae_started_at = utc 0, ae_completed_at = None,
      ae_error_code = None, ae_manual_recovery_reason = None\<rparr>"

lemma control_text_inject:
  assumes "1 \<le> v" "1 \<le> v'" "1 \<le> p" "1 \<le> p'"
  shows "''kill-switch:'' @ str_int v @ ''|'' @ a @ '':'' @ str_int p =
    ''kill-switch:'' @ str_int v' @ ''|'' @ a @ '':'' @ str_int p' \<longleftrightarrow> v = v' \<and> p = p'"
  using assms
  by (auto simp: str_int_def str_nat_append_sep nat_eq_iff2)

lemma context_version_rows:
  assumes g: "controls_good db" and k: "row_get rcr_control_key kill_switch_key (tb_controls db) = Some k"
    and p: "row_get pfr_action a (tb_profiles db) = Some p"
  shows "fst (context_version a db) = Inr (''kill-switch:'' @ str_int (rcr_version k) @ ''|'' @
      recovery_action_value a @ '':'' @ str_int (pfr_version p))"
    and "1 \<le> rcr_version k" and "1 \<le> pfr_version p"
proof -
  obtain k' where "row_get rcr_control_key kill_switch_key (tb_controls db) = Some k'"
    "\<And>p. row_get pfr_action a (tb_profiles db) = Some p \<Longrightarrow>
       context_version a db = (Inr (''kill-switch:'' @ str_int (rcr_version k') @ ''|'' @
         recovery_action_value a @ '':'' @ str_int (pfr_version p)), db)"
    by (rule context_version_app [OF g, of a]) (rule that)
  then show "fst (context_version a db) = Inr (''kill-switch:'' @ str_int (rcr_version k) @ ''|'' @
      recovery_action_value a @ '':'' @ str_int (pfr_version p))"
    using k p by simp
  show "1 \<le> rcr_version k" using g row_get_SomeD [OF k] by (auto simp: controls_good_def list_all_iff)
  show "1 \<le> pfr_version p" using controls_good_profile [OF g p] by (simp add: profile_row_good_def)
qed

lemma context_version_eq_iff:
  assumes "controls_good db" and "controls_good db'" and "executable a"
  shows "fst (context_version a db) = fst (context_version a db') \<longleftrightarrow>
      map_option rcr_version (row_get rcr_control_key kill_switch_key (tb_controls db)) =
        map_option rcr_version (row_get rcr_control_key kill_switch_key (tb_controls db')) \<and>
      map_option pfr_version (row_get pfr_action a (tb_profiles db)) =
        map_option pfr_version (row_get pfr_action a (tb_profiles db'))"
proof -
  obtain k k' where k: "row_get rcr_control_key kill_switch_key (tb_controls db) = Some k"
    "row_get rcr_control_key kill_switch_key (tb_controls db') = Some k'"
    using controls_good_kill_switch assms(1,2) by metis
  obtain p p' where p: "row_get pfr_action a (tb_profiles db) = Some p"
    "row_get pfr_action a (tb_profiles db') = Some p'"
    using controls_good_executable assms by (metis option.exhaust)
  show ?thesis
    unfolding context_version_rows(1) [OF assms(1) k(1) p(1)] context_version_rows(1) [OF assms(2) k(2) p(2)]
    using control_text_inject [OF context_version_rows(2) [OF assms(1) k(1) p(1)]
        context_version_rows(2) [OF assms(2) k(2) p(2)] context_version_rows(3) [OF assms(1) k(1) p(1)]
        context_version_rows(3) [OF assms(2) k(2) p(2)], of "recovery_action_value a"] k p
    by (simp only: sum.inject option.map option.inject)
qed

lemma set_kill_switch_version:
  assumes g: "controls_good db" and ok: "fst (set_kill_switch env now u db) = Inr s"
    and k: "row_get rcr_control_key kill_switch_key (tb_controls db) = Some k"
  shows "\<exists>k'. row_get rcr_control_key kill_switch_key
      (tb_controls (snd (set_kill_switch env now u db))) = Some k' \<and> rcr_version k' = rcr_version k + 1 \<and>
      rcr_enabled k' = ku_active u"
    and "ku_actor_role u = OPERATIONS_MANAGER"
  using ok k row_get_SomeD [OF k]
  by (auto simp: set_kill_switch_app [OF g k] row_get_put split: if_splits sum.splits)

text \<open>The control version recorded with a decision identifies the controls it was taken
  under: two consistent control states give an executable action the same version text exactly
  when the kill switch and the profile are at the same versions, and every change a manager
  makes raises the version of its row.\<close>

theorem control_version_identifies_controls:
  assumes "controls_good db" and "controls_good db'" and "executable a"
  shows "(fst (context_version a db) = fst (context_version a db') \<longleftrightarrow>
      map_option rcr_version (row_get rcr_control_key kill_switch_key (tb_controls db)) =
        map_option rcr_version (row_get rcr_control_key kill_switch_key (tb_controls db')) \<and>
      map_option pfr_version (row_get pfr_action a (tb_profiles db)) =
        map_option pfr_version (row_get pfr_action a (tb_profiles db'))) \<and>
    (\<forall>k. fst (set_kill_switch env now ku db) = Inr k \<longrightarrow>
       fst (context_version a (snd (set_kill_switch env now ku db))) \<noteq> fst (context_version a db)) \<and>
    (\<forall>p. fst (set_profile env now a au db) = Inr p \<longrightarrow>
       fst (context_version a (snd (set_profile env now a au db))) \<noteq> fst (context_version a db))"
proof (intro conjI allI impI)
  show "fst (context_version a db) = fst (context_version a db') \<longleftrightarrow>
      map_option rcr_version (row_get rcr_control_key kill_switch_key (tb_controls db)) =
        map_option rcr_version (row_get rcr_control_key kill_switch_key (tb_controls db')) \<and>
      map_option pfr_version (row_get pfr_action a (tb_profiles db)) =
        map_option pfr_version (row_get pfr_action a (tb_profiles db'))"
    using assms by (rule context_version_eq_iff)
  obtain k where k: "row_get rcr_control_key kill_switch_key (tb_controls db) = Some k"
    using assms(1) by (rule controls_good_kill_switch)
  fix s assume "fst (set_kill_switch env now ku db) = Inr s"
  from set_kill_switch_version(1) [OF assms(1) this k]
  show "fst (context_version a (snd (set_kill_switch env now ku db))) \<noteq> fst (context_version a db)"
    using context_version_eq_iff [OF set_kill_switch_good [OF assms(1)] assms(1,3), of env now ku] k by auto
next
  fix p assume ok: "fst (set_profile env now a au db) = Inr p"
  obtain res db2 where st: "set_profile env now a au db = (res, db2)" by fastforce
  have g2: "controls_good db2" using set_profile_good [OF assms(1), of env now a au] st by simp
  from assms(1) st have "map_option pfr_version (row_get pfr_action a (tb_profiles db2)) \<noteq>
      map_option pfr_version (row_get pfr_action a (tb_profiles db))"
  proof (cases rule: set_profile_cases)
    case (updated r q)
    then show ?thesis using row_get_SomeD [OF updated(2)] by (simp add: row_get_put)
  qed (use ok st in simp)
  then show "fst (context_version a (snd (set_profile env now a au db))) \<noteq> fst (context_version a db)"
    using context_version_eq_iff [OF g2 assms(1,3)] st by simp
qed

end
