(* ===== verification/Execution.thy ===== *)
theory Execution
  imports Adapters Autonomy
begin

text \<open>
  \<^verbatim>\<open>src/src/promiseguard/execution.py\<close>: the action gateway. A command is claimed durably
  before any external call, the steps of its action run on the operations port with
  verification of ambiguous answers and compensation, and the result is written back. The
  world is the database and the external systems behind the port; \<open>wall n\<close> is the n-th reading
  of the clock.
\<close>

type_synonym wall = "nat \<Rightarrow> datetime"

record 'w world =
  w_db :: database
  w_ops :: 'w

definition on_db :: "(database, 'a) prog \<Rightarrow> ('w world, 'a) prog" where
  "on_db m = on_part w_db (\<lambda>d w. w\<lparr>w_db := d\<rparr>) m"

definition on_ops :: "('w, 'a) prog \<Rightarrow> ('w world, 'a) prog" where
  "on_ops m = on_part w_ops (\<lambda>s w. w\<lparr>w_ops := s\<rparr>) m"

section \<open>The steps of an action\<close>

definition success_step :: "int \<Rightarrow> string \<Rightarrow> datetime \<Rightarrow> datetime \<Rightarrow> string \<Rightarrow> action_step_result" where
  "success_step sequence name attempted_at completed_at reference =
     \<lparr>sp_sequence = sequence, sp_step_name = name, sp_status = ST_SUCCEEDED,
      sp_attempted_at = attempted_at, sp_completed_at = Some completed_at,
      sp_provider_reference = Some reference, sp_details = [], sp_error_code = None\<rparr>"

definition compensation_step ::
  "int \<Rightarrow> string \<Rightarrow> datetime \<Rightarrow> datetime \<Rightarrow> string \<Rightarrow> (string \<times> py_value) list \<Rightarrow> exn \<Rightarrow> action_step_result"
where
  "compensation_step sequence name attempted_at completed_at reference details e =
     \<lparr>sp_sequence = sequence, sp_step_name = name, sp_status = ST_COMPENSATED,
      sp_attempted_at = attempted_at, sp_completed_at = Some completed_at,
      sp_provider_reference = Some reference, sp_details = details,
      sp_error_code = Some (class_name (exn_cls e))\<rparr>"

definition succeeded :: "action_execution \<Rightarrow> action_step_result list \<Rightarrow> datetime \<Rightarrow> action_execution" where
  "succeeded x steps t = x\<lparr>ae_status := AC_SUCCEEDED, ae_steps := steps, ae_completed_at := Some t\<rparr>"

definition compensated :: "action_execution \<Rightarrow> action_step_result list \<Rightarrow> datetime \<Rightarrow> exn \<Rightarrow> action_execution" where
  "compensated x steps t e =
     x\<lparr>ae_status := AC_COMPENSATED, ae_steps := steps, ae_completed_at := Some t,
       ae_error_code := Some (class_name (exn_cls e))\<rparr>"

definition is_ambiguous :: "exn \<Rightarrow> bool" where
  "is_ambiguous e \<longleftrightarrow> isa (exn_cls e) AmbiguousProviderTimeout \<or> isa (exn_cls e) MalformedAdapterResponse"

text \<open>An ambiguous answer counts as success exactly where the postcondition is then read.\<close>

definition verified_call ::
  "'w operations_port \<Rightarrow> order_context \<Rightarrow> recovery_action \<Rightarrow> ('w, string) prog \<Rightarrow> ('w, string) prog" where
  "verified_call port c action call =
     catch call (\<lambda>e.
       if is_ambiguous e
       then bind (p_holds port c action) (\<lambda>h.
         if h then ret (''verified-after-timeout:'' @ oc_order_id c) else raise e)
       else raise e)"

definition reroute ::
  "'w operations_port \<Rightarrow> wall \<Rightarrow> action_execution \<Rightarrow> order_context \<Rightarrow> datetime \<Rightarrow> ('w, action_execution) prog"
where
  "reroute port wall x c now = (\<lambda>w.
     let key = cmd_idempotency_key (ae_command x)
     in case p_reserve port c (key @ '':reserve'') w of
       (Inl e, w1) \<Rightarrow> (Inl e, w1)
     | (Inr ref1, w1) \<Rightarrow>
       let s1 = success_step 1 ''reserve_alternative'' now (wall 1) ref1
       in case verified_call port c REROUTE (p_change port c (key @ '':change-location'')) w1 of
         (Inr ref2, w2) \<Rightarrow>
           (Inr (succeeded x [s1, success_step 2 ''change_location'' now (wall 2) ref2] (wall 3)), w2)
       | (Inl e, w2) \<Rightarrow>
           if isa (exn_cls e) AdapterRateLimited then (Inl e, w2)
           else bind (p_restore_location port c) (\<lambda>restore_ref.
                bind (p_release port c) (\<lambda>release_ref.
                ret (compensated x
                  [s1, compensation_step 2 ''compensate_reroute'' now (wall 2) restore_ref
                     [(''release_reference'', PyStr release_ref)] e] (wall 3) e))) w2)"

text \<open>The carrier upgrade and the split have the same shape: one call, its verification where
  the answer is ambiguous, and an undo where an error left the postcondition in place.\<close>

definition single_step ::
  "'w operations_port \<Rightarrow> wall \<Rightarrow> action_execution \<Rightarrow> order_context \<Rightarrow> datetime \<Rightarrow> recovery_action
     \<Rightarrow> ('w, string) prog \<Rightarrow> ('w, string) prog \<Rightarrow> string \<Rightarrow> string \<Rightarrow> ('w, action_execution) prog"
where
  "single_step port wall x c now action call undo name undo_name = (\<lambda>w.
     case call w of
       (Inr ref, w1) \<Rightarrow> (Inr (succeeded x [success_step 1 name now (wall 1) ref] (wall 2)), w1)
     | (Inl e, w1) \<Rightarrow>
         if is_ambiguous e
         then bind (p_holds port c action) (\<lambda>h.
           if h then ret (succeeded x [success_step 1 name now (wall 1)
                            (''verified-after-timeout:'' @ oc_order_id c)] (wall 2))
           else raise e) w1
         else if isa (exn_cls e) AdapterError
         then bind (p_holds port c action) (\<lambda>h.
           if h then bind undo (\<lambda>ref.
             ret (compensated x [compensation_step 1 undo_name now (wall 1) ref [] e] (wall 2) e))
           else raise e) w1
         else (Inl e, w1))"

definition carrier_upgrade ::
  "'w operations_port \<Rightarrow> wall \<Rightarrow> action_execution \<Rightarrow> order_context \<Rightarrow> datetime \<Rightarrow> ('w, action_execution) prog"
where
  "carrier_upgrade port wall x c now =
     single_step port wall x c now CARRIER_UPGRADE
       (p_upgrade port c (cmd_idempotency_key (ae_command x) @ '':carrier'')) (p_restore_carrier port c)
       ''upgrade_carrier'' ''compensate_carrier_upgrade''"

definition split_shipment ::
  "'w operations_port \<Rightarrow> wall \<Rightarrow> action_execution \<Rightarrow> order_context \<Rightarrow> datetime \<Rightarrow> ('w, action_execution) prog"
where
  "split_shipment port wall x c now =
     single_step port wall x c now SPLIT_SHIPMENT
       (p_split port c (cmd_idempotency_key (ae_command x) @ '':split'')) (p_cancel_split port c)
       ''create_split'' ''compensate_split''"

definition execute_steps ::
  "'w operations_port \<Rightarrow> wall \<Rightarrow> action_execution \<Rightarrow> order_context \<Rightarrow> datetime \<Rightarrow> ('w, action_execution) prog"
where
  "execute_steps port wall x c now =
     (case cmd_action (ae_command x) of
        REROUTE \<Rightarrow> reroute port wall x c now
      | CARRIER_UPGRADE \<Rightarrow> carrier_upgrade port wall x c now
      | SPLIT_SHIPMENT \<Rightarrow> split_shipment port wall x c now
      | a \<Rightarrow> raise (err ActionExecutionError (''action '' @ recovery_action_value a @ '' is not executable'')))"

section \<open>The gateway\<close>

definition action_id_of :: "lib \<Rightarrow> action_command \<Rightarrow> string" where
  "action_id_of L command = digest_id L ''act_'' 24 (cmd_idempotency_key command)"

text \<open>The durable claim: the recorded execution of the decision (\<open>Inl\<close>), or the new row
  (\<open>Inr\<close>).\<close>

definition claim_execution ::
  "lib \<Rightarrow> action_command \<Rightarrow> datetime \<Rightarrow> (database, action_execution + action_execution) prog" where
  "claim_execution L command started_at = session (\<lambda>db.
     case action_get_by_decision (cmd_decision_id command) db of
       Some existing \<Rightarrow>
         if cmd_idempotency_key (ae_command existing) \<noteq> cmd_idempotency_key command
         then (Inl (err PersistenceConflictError
                 ''decision already has an action with a different idempotency key''), db)
         else (Inr (Inl existing), db)
     | None \<Rightarrow>
         let executing = \<lparr>ae_action_id = action_id_of L command, ae_command = command,
               ae_status = AC_EXECUTING, ae_steps = [], ae_started_at = started_at,
               ae_completed_at = None, ae_error_code = None, ae_manual_recovery_reason = None\<rparr>
         in bind (action_record L executing) (\<lambda>_. ret (Inr executing)) db)"

definition failed_execution :: "action_execution \<Rightarrow> datetime \<Rightarrow> exn \<Rightarrow> action_execution" where
  "failed_execution x t e =
     \<lparr>ae_action_id = ae_action_id x, ae_command = ae_command x, ae_status = AC_FAILED, ae_steps = [],
      ae_started_at = ae_started_at x, ae_completed_at = Some t,
      ae_error_code = Some (class_name (exn_cls e)), ae_manual_recovery_reason = Some (exn_str e)\<rparr>"

text \<open>\<open>governed\<close> says whether an autonomy controller was given.\<close>

definition note_execution :: "bool \<Rightarrow> datetime \<Rightarrow> action_execution \<Rightarrow> ('w world, unit) prog" where
  "note_execution governed t x =
     (if governed then bind (on_db (record_execution t x)) (\<lambda>_. ret ()) else ret ())"

definition run_claimed ::
  "bool \<Rightarrow> 'w operations_port \<Rightarrow> wall \<Rightarrow> action_execution \<Rightarrow> order_context \<Rightarrow> datetime
     \<Rightarrow> ('w world, action_execution) prog"
where
  "run_claimed governed port wall executing c started_at =
     bind (on_ops (p_seed port c)) (\<lambda>_.
     bind (catch (on_ops (execute_steps port wall executing c started_at)) (\<lambda>e.
        bind (on_db (session (action_update (failed_execution executing (wall 4) e)))) (\<lambda>persisted_failure.
        bind (note_execution governed (wall 5) persisted_failure) (\<lambda>_. raise e)))) (\<lambda>completed.
     bind (on_db (session (action_update completed))) (\<lambda>persisted.
     bind (note_execution governed (wall 6) persisted) (\<lambda>_. ret persisted))))"

definition execute_action ::
  "lib \<Rightarrow> bool \<Rightarrow> 'w operations_port \<Rightarrow> wall \<Rightarrow> action_command \<Rightarrow> order_context \<Rightarrow> datetime option
     \<Rightarrow> ('w world, action_execution) prog"
where
  "execute_action L governed port wall command c now =
     (let started_at = now_or now (wall 0)
      in bind (if governed then bind (on_db read_kill_switch) (\<lambda>k. ret (ks_active k)) else ret False) (\<lambda>active.
         if active then raise (err ActionExecutionError ''global action kill switch is active'')
         else bind (on_db (claim_execution L command started_at)) (\<lambda>claim.
           case claim of
             Inl existing \<Rightarrow> ret existing
           | Inr executing \<Rightarrow> run_claimed governed port wall executing c started_at)))"

definition gateway_get :: "string \<Rightarrow> ('w world, action_execution option) prog" where
  "gateway_get action_id = on_db (\<lambda>db. (Inr (action_get action_id db), db))"

definition gateway_get_by_decision :: "string \<Rightarrow> ('w world, action_execution option) prog" where
  "gateway_get_by_decision decision_id = on_db (\<lambda>db. (Inr (action_get_by_decision decision_id db), db))"

section \<open>What a finished action guarantees\<close>

lemma on_db_app: "on_db m w = (case m (w_db w) of (r, d) \<Rightarrow> (r, w\<lparr>w_db := d\<rparr>))"
  by (simp add: on_db_def on_part_def Let_def)

lemma on_ops_app: "on_ops m w = (case m (w_ops w) of (r, d) \<Rightarrow> (r, w\<lparr>w_ops := d\<rparr>))"
  by (simp add: on_ops_def on_part_def Let_def)

lemma outcome_sel [simp]:
  "ae_status (succeeded x ss t) = AC_SUCCEEDED" "ae_status (compensated x ss t e) = AC_COMPENSATED"
  "ae_steps (succeeded x ss t) = ss" "ae_steps (compensated x ss t e) = ss"
  "ae_command (succeeded x ss t) = ae_command x" "ae_command (compensated x ss t e) = ae_command x"
  "ae_action_id (succeeded x ss t) = ae_action_id x" "ae_action_id (compensated x ss t e) = ae_action_id x"
  "ae_command (failed_execution x t e) = ae_command x" "ae_action_id (failed_execution x t e) = ae_action_id x"
  "ae_status (failed_execution x t e) = AC_FAILED"
  by (simp_all add: succeeded_def compensated_def failed_execution_def)

context operations_contract begin

lemma verified_call_cases:
  assumes "verified_call port c a call w = (r, w')" and "\<And>x w1. call w = (Inr x, w1) \<Longrightarrow> held c a w1"
  obtains x where "r = Inr x" "held c a w'" "\<exists>q. call w = (q, w')"
  | e where "r = Inl e" "call w = (Inl e, w')" "is_ambiguous e \<longrightarrow> \<not> held c a w'"
  using assms
  by (auto simp: verified_call_def catch_def bind_def holds_read split: prod.splits sum.splits if_splits)

lemma reroute_outcome:
  assumes c: "valid_order_context c" and st: "reroute port wall x c now w = (Inr y, w')"
  shows "(ae_status y = AC_SUCCEEDED \<and> held c REROUTE w' \<and> reserved c w') \<or>
    (ae_status y = AC_COMPENSATED \<and> \<not> held c REROUTE w' \<and> \<not> reserved c w')"
proof -
  let ?k = "cmd_idempotency_key (ae_command x)"
  obtain r1 w1 where res: "p_reserve port c (?k @ '':reserve'') w = (Inr r1, w1)"
    using st by (auto simp: reroute_def Let_def split: prod.splits sum.splits)
  note rsv = reserve_ok [OF res]
  obtain q w2 where v: "verified_call port c REROUTE (p_change port c (?k @ '':change-location'')) w1 = (q, w2)"
    by fastforce
  show ?thesis
  proof (rule verified_call_cases [OF v change_ok])
    fix r2 assume q: "q = Inr r2" "held c REROUTE w2" "\<exists>q. p_change port c (?k @ '':change-location'') w1 = (q, w2)"
    then have "reserved c w2" using rsv change_keeps by blast
    then show ?thesis using st res v q by (auto simp: reroute_def Let_def)
  next
    fix e assume q: "q = Inl e"
    have run: "bind (p_restore_location port c) (\<lambda>a. bind (p_release port c) (\<lambda>b.
        ret (compensated x [success_step 1 ''reserve_alternative'' now (wall 1) r1,
          compensation_step 2 ''compensate_reroute'' now (wall 2) a
            [(''release_reference'', PyStr b)] e] (wall 3) e))) w2 = (Inr y, w')"
      using st res v q by (auto simp: reroute_def Let_def split: if_splits)
    obtain a w3 where "p_restore_location port c w2 = (Inr a, w3)" "\<not> held c REROUTE w3"
      using restore_location_ok [OF c] by blast
    moreover obtain b w4 where "p_release port c w3 = (Inr b, w4)" "\<not> reserved c w4"
      "held c REROUTE w4 = held c REROUTE w3"
      using release_ok [OF c] by blast
    ultimately show ?thesis using run by auto
  qed
qed

lemma single_step_outcome:
  assumes st: "single_step port wall x c now a call undo n un w = (Inr y, w')"
    and call: "\<And>r w1. call w = (Inr r, w1) \<Longrightarrow> held c a w1"
    and undo: "\<And>w1. \<exists>r w2. undo w1 = (Inr r, w2) \<and> U w2"
  shows "(ae_status y = AC_SUCCEEDED \<and> held c a w') \<or> (ae_status y = AC_COMPENSATED \<and> U w')"
proof (cases "call w")
  case (Pair r w1)
  obtain u w2 where u: "undo w1 = (Inr u, w2)" "U w2" using undo by blast
  show ?thesis
    using st Pair call u by (cases r) (auto simp: single_step_def bind_def holds_read split: if_splits)
qed

text \<open>Success is reported only where the postcondition holds, a compensation only where it no
  longer does, or where the carrier upgrade was one to the service the order already had.\<close>

lemma steps_outcome:
  assumes c: "valid_order_context c"
    and st: "execute_steps port wall x c now w = (Inr y, w')"
  shows "(ae_status y = AC_SUCCEEDED \<and> held c (cmd_action (ae_command x)) w') \<or>
    (ae_status y = AC_COMPENSATED \<and>
      (\<not> held c (cmd_action (ae_command x)) w' \<or>
       cmd_action (ae_command x) = CARRIER_UPGRADE \<and> oc_upgraded_carrier_service c = oc_current_carrier_service c))"
proof (cases "cmd_action (ae_command x)")
  case REROUTE
  then have "reroute port wall x c now w = (Inr y, w')" using st by (simp add: execute_steps_def)
  from reroute_outcome [OF c this] REROUTE show ?thesis by auto
next
  case CARRIER_UPGRADE
  have st': "single_step port wall x c now CARRIER_UPGRADE
      (p_upgrade port c (cmd_idempotency_key (ae_command x) @ '':carrier'')) (p_restore_carrier port c)
      ''upgrade_carrier'' ''compensate_carrier_upgrade'' w = (Inr y, w')"
    using st CARRIER_UPGRADE by (simp add: execute_steps_def carrier_upgrade_def)
  show ?thesis using single_step_outcome [OF st' upgrade_ok restore_carrier_ok [OF c]] CARRIER_UPGRADE by auto
next
  case SPLIT_SHIPMENT
  have st': "single_step port wall x c now SPLIT_SHIPMENT
      (p_split port c (cmd_idempotency_key (ae_command x) @ '':split'')) (p_cancel_split port c)
      ''create_split'' ''compensate_split'' w = (Inr y, w')"
    using st SPLIT_SHIPMENT by (simp add: execute_steps_def split_shipment_def)
  show ?thesis using single_step_outcome [OF st' split_ok cancel_split_ok [OF c]] SPLIT_SHIPMENT by auto
qed (use st in \<open>simp_all add: execute_steps_def\<close>)

text \<open>A rate limit between the two steps of a reroute is re-raised without compensation: the
  reservation stays.\<close>

lemma reroute_rate_limited:
  assumes "p_reserve port c (cmd_idempotency_key (ae_command x) @ '':reserve'') w = (Inr r, w1)"
    and "p_change port c (cmd_idempotency_key (ae_command x) @ '':change-location'') w1 = (Inl e, w2)"
    and "exn_cls e = AdapterRateLimited"
  shows "reroute port wall x c now w = (Inl e, w1) \<and> reserved c w1"
proof -
  have "\<not> is_ambiguous e" "isa (exn_cls e) AdapterRateLimited"
    using assms(3) by (simp_all add: is_ambiguous_def isa_def)
  then show ?thesis
    using assms reserve_ok [OF assms(1)] change_rate_limited [OF assms(2,3)]
    by (simp add: reroute_def verified_call_def catch_def Let_def)
qed

end

lemma execute_steps_identity:
  "execute_steps port wall x c now w = (Inr y, w') \<Longrightarrow>
     ae_action_id y = ae_action_id x \<and> ae_command y = ae_command x \<and>
     ae_status y \<in> {AC_SUCCEEDED, AC_COMPENSATED}"
  by (auto simp: execute_steps_def reroute_def carrier_upgrade_def split_shipment_def single_step_def
      Let_def bind_def split: recovery_action.splits prod.splits sum.splits if_splits)

section \<open>The actions table\<close>

definition command_fingerprint :: "lib \<Rightarrow> action_command \<Rightarrow> string" where
  "command_fingerprint L c = canonical_fingerprint L (json_command L c)"

text \<open>What is relied on of SHA-256 over canonical JSON: commands of different decisions have
  different fingerprints.\<close>

definition distinguishes_decisions :: "lib \<Rightarrow> bool" where
  "distinguishes_decisions L \<longleftrightarrow>
     (\<forall>c d. command_fingerprint L c = command_fingerprint L d \<longrightarrow> cmd_decision_id c = cmd_decision_id d)"

definition action_row_good :: "lib \<Rightarrow> action_row \<Rightarrow> bool" where
  "action_row_good L r \<longleftrightarrow>
     acr_decision_id r = cmd_decision_id (acr_command r) \<and>
     acr_idempotency_key r = cmd_idempotency_key (acr_command r) \<and>
     acr_action r = cmd_action (acr_command r) \<and>
     acr_fingerprint r = command_fingerprint L (acr_command r)"

definition actions_good :: "lib \<Rightarrow> database \<Rightarrow> bool" where
  "actions_good L db \<longleftrightarrow>
     keys_distinct acr_action_id (tb_actions db) \<and> keys_distinct acr_idempotency_key (tb_actions db) \<and>
     keys_distinct acr_decision_id (tb_actions db) \<and> list_all (action_row_good L) (tb_actions db)"

definition claimed :: "string \<Rightarrow> database \<Rightarrow> bool" where
  "claimed d db \<longleftrightarrow> d \<in> acr_decision_id ` set (tb_actions db)"

lemma get_by_decision_None: "action_get_by_decision d db = None \<longleftrightarrow> \<not> claimed d db"
proof
  assume "action_get_by_decision d db = None"
  then show "\<not> claimed d db"
    by (auto simp: action_get_by_decision_def claimed_def first_desc_None filter_empty_conv)
next
  assume "\<not> claimed d db"
  then show "action_get_by_decision d db = None"
    by (auto simp: action_get_by_decision_def claimed_def first_desc_None filter_empty_conv)
qed

lemma get_by_decision_SomeD:
  "action_get_by_decision d db = Some x \<Longrightarrow>
     \<exists>r\<in>set (tb_actions db). acr_decision_id r = d \<and> x = action_to_model r"
  by (auto simp: action_get_by_decision_def dest!: first_desc_SomeD)

lemma get_by_decision_unique:
  assumes "keys_distinct acr_decision_id (tb_actions db)" and "r \<in> set (tb_actions db)"
  shows "action_get_by_decision (acr_decision_id r) db = Some (action_to_model r)"
proof -
  have "claimed (acr_decision_id r) db" using assms(2) by (auto simp: claimed_def)
  then obtain x where x: "action_get_by_decision (acr_decision_id r) db = Some x"
    using get_by_decision_None by fastforce
  then obtain r' where r': "r' \<in> set (tb_actions db)" "acr_decision_id r' = acr_decision_id r"
    "x = action_to_model r'" using get_by_decision_SomeD by blast
  have "r' = r" using assms(1) r'(1) assms(2) r'(2) by (rule keys_distinct_inj)
  with x r' show ?thesis by simp
qed

definition executing_row :: "lib \<Rightarrow> action_command \<Rightarrow> datetime \<Rightarrow> action_row" where
  "executing_row L c t =
     \<lparr>acr_action_id = action_id_of L c, acr_decision_id = cmd_decision_id c, acr_order_id = cmd_order_id c,
      acr_action = cmd_action c, acr_idempotency_key = cmd_idempotency_key c, acr_status = AC_EXECUTING,
      acr_command = c, acr_steps = [], acr_fingerprint = command_fingerprint L c, acr_started_at = t,
      acr_completed_at = None, acr_error_code = None, acr_manual_recovery_reason = None\<rparr>"

definition executing_of :: "lib \<Rightarrow> action_command \<Rightarrow> datetime \<Rightarrow> action_execution" where
  "executing_of L c t =
     \<lparr>ae_action_id = action_id_of L c, ae_command = c, ae_status = AC_EXECUTING, ae_steps = [],
      ae_started_at = t, ae_completed_at = None, ae_error_code = None, ae_manual_recovery_reason = None\<rparr>"

text \<open>The claim answers with what is recorded, or inserts the one row of the decision.\<close>

lemma claim_cases:
  assumes g: "actions_good L db" and fp: "distinguishes_decisions L"
    and st: "claim_execution L c t db = (res, db')"
  obtains (error) e where "res = Inl e" "db' = db"
  | (existing) r where "res = Inr (Inl (action_to_model r))" "db' = db" "r \<in> set (tb_actions db)"
      "acr_decision_id r = cmd_decision_id c" "acr_idempotency_key r = cmd_idempotency_key c"
  | (new) "res = Inr (Inr (executing_of L c t))" "\<not> claimed (cmd_decision_id c) db"
      "row_get acr_action_id (action_id_of L c) (tb_actions db) = None"
      "cmd_idempotency_key c \<notin> acr_idempotency_key ` set (tb_actions db)"
      "db' = db\<lparr>tb_actions := tb_actions db @ [executing_row L c t]\<rparr>"
proof (cases "action_get_by_decision (cmd_decision_id c) db")
  case (Some x)
  then obtain r where r: "r \<in> set (tb_actions db)" "acr_decision_id r = cmd_decision_id c"
    "x = action_to_model r" using get_by_decision_SomeD by blast
  have "acr_idempotency_key r = cmd_idempotency_key (ae_command x)"
    using g r by (auto simp: actions_good_def action_row_good_def list_all_iff action_to_model_def)
  then show thesis using st Some error existing [of r] r
    by (auto simp: claim_execution_def session_def split: if_splits)
next
  case None
  then have nc: "\<not> claimed (cmd_decision_id c) db" by (simp add: get_by_decision_None)
  show thesis
  proof (cases "List.find (\<lambda>r. acr_idempotency_key r = cmd_idempotency_key c) (tb_actions db)")
    case (Some r)
    then have r: "r \<in> set (tb_actions db)" by (auto simp: find_Some_iff)
    have "acr_fingerprint r \<noteq> command_fingerprint L c"
    proof
      assume "acr_fingerprint r = command_fingerprint L c"
      moreover have rg: "action_row_good L r" using g r by (simp add: actions_good_def list_all_iff)
      ultimately have "command_fingerprint L (acr_command r) = command_fingerprint L c"
        by (simp add: action_row_good_def)
      then have "cmd_decision_id (acr_command r) = cmd_decision_id c"
        using fp unfolding distinguishes_decisions_def by blast
      then have "claimed (cmd_decision_id c) db"
        using rg r by (force simp: claimed_def action_row_good_def)
      then show False using nc by simp
    qed
    then show thesis using st None Some error
      by (auto simp: claim_execution_def session_def Let_def bind_def action_record_def command_fingerprint_def)
  next
    case k: None
    then have fresh: "cmd_idempotency_key c \<notin> acr_idempotency_key ` set (tb_actions db)"
      by (auto simp: find_None_iff)
    show thesis
    proof (cases "row_get acr_action_id (action_id_of L c) (tb_actions db)")
      case None
      then show thesis
        using st \<open>action_get_by_decision (cmd_decision_id c) db = None\<close> k nc fresh new
        by (simp add: claim_execution_def session_def Let_def bind_def action_record_def
            row_insert_def executing_row_def executing_of_def command_fingerprint_def)
    next
      case (Some r)
      then show thesis
        using st \<open>action_get_by_decision (cmd_decision_id c) db = None\<close> k error
        by (auto simp: claim_execution_def session_def Let_def bind_def action_record_def row_insert_def)
    qed
  qed
qed

lemma claim_good:
  assumes "actions_good L db" and "\<not> claimed (cmd_decision_id c) db"
    and "row_get acr_action_id (action_id_of L c) (tb_actions db) = None"
    and "cmd_idempotency_key c \<notin> acr_idempotency_key ` set (tb_actions db)"
  shows "actions_good L (db\<lparr>tb_actions := tb_actions db @ [executing_row L c t]\<rparr>)"
  using assms unfolding row_get_None
  by (auto simp: actions_good_def keys_distinct_def executing_row_def action_row_good_def claimed_def)

text \<open>Writing a result back changes the mutable columns of that row only.\<close>

lemma update_good:
  assumes "actions_good L db" and "row_get acr_action_id k (tb_actions db) = Some r"
  shows "actions_good L (db\<lparr>tb_actions := row_put acr_action_id (action_values x r) (tb_actions db)\<rparr>)"
proof -
  let ?rows = "row_put acr_action_id (action_values x r) (tb_actions db)"
  have kd: "keys_distinct acr_action_id (tb_actions db)" using assms(1) by (simp add: actions_good_def)
  have r: "r \<in> set (tb_actions db)" "acr_action_id r = k" using row_get_SomeD [OF assms(2)] by simp_all
  have maps: "map f ?rows = map f (tb_actions db)" if "f (action_values x r) = f r" for f :: "action_row \<Rightarrow> string"
    using kd _ that by (rule map_row_put) (use assms(2) r in \<open>simp add: action_values_def\<close>)
  have "list_all (action_row_good L) ?rows"
    using assms(1) r
    by (auto simp: actions_good_def list_all_iff action_row_good_def action_values_def dest!: row_put_set)
  then show ?thesis using assms(1) maps [of acr_idempotency_key] maps [of acr_decision_id]
    by (simp add: actions_good_def keys_distinct_def action_values_def)
qed

lemma action_update_claimed:
  assumes "actions_good L db" and "action_update x db = (r, db')"
  shows "claimed d db' = claimed d db"
proof (cases "row_get acr_action_id (ae_action_id x) (tb_actions db)")
  case None
  then show ?thesis using assms by (auto simp: action_update_def)
next
  case (Some row)
  have "map acr_decision_id (row_put acr_action_id (action_values x row) (tb_actions db)) =
      map acr_decision_id (tb_actions db)"
    using assms(1) Some row_get_SomeD [OF Some]
    by (intro map_row_put) (auto simp: actions_good_def action_values_def)
  then have "acr_decision_id ` set (row_put acr_action_id (action_values x row) (tb_actions db)) =
      acr_decision_id ` set (tb_actions db)"
    by (metis list.set_map)
  then show ?thesis using assms(2) Some by (auto simp: action_update_def claimed_def)
qed

section \<open>The gateway on the world\<close>

text \<open>What running a claimed execution does to the table: the claimed row ends with the status
  of the steps, or \<open>FAILED\<close> where they raised.\<close>

lemma action_update_app:
  "row_get acr_action_id (ae_action_id x) (tb_actions db) = Some r \<Longrightarrow>
     action_update x db = (Inr x, db\<lparr>tb_actions := row_put acr_action_id (action_values x r) (tb_actions db)\<rparr>)"
  by (simp add: action_update_def)

lemma record_execution_tables:
  assumes "controls_good db" and "record_execution t x db = (r, db')"
  shows "tb_actions db' = tb_actions db"
proof (cases "ae_status x \<in> {AC_COMPENSATED, AC_FAILED, AC_MANUAL_RECOVERY_REQUIRED}")
  case True
  then have "record_evidence t (''execution:'' @ ae_action_id x) (cmd_action (ae_command x))
      ''EXECUTION_FAILURE'' False (ae_status x = AC_COMPENSATED) db = (r, db')"
    using assms(2) by (simp add: record_execution_def)
  with assms(1) show ?thesis by (cases rule: record_evidence_cases) simp_all
next
  case False
  then have "read_profile (cmd_action (ae_command x)) db = (r, db')"
    using assms(2) by (auto simp: record_execution_def)
  then show ?thesis using read_unchanged(2) by blast
qed

lemma note_execution_app:
  assumes "controls_good (w_db w)" and "executable (cmd_action (ae_command x))"
  shows "\<exists>db'. note_execution governed t x w = (Inr (), w\<lparr>w_db := db'\<rparr>) \<and>
    tb_actions db' = tb_actions (w_db w) \<and> controls_good db'"
proof (cases governed)
  case True
  obtain r db' where re: "record_execution t x (w_db w) = (r, db')" by fastforce
  have "\<exists>p. r = Inr p"
  proof (cases "ae_status x \<in> {AC_COMPENSATED, AC_FAILED, AC_MANUAL_RECOVERY_REQUIRED}")
    case True
    then have "record_evidence t (''execution:'' @ ae_action_id x) (cmd_action (ae_command x))
        ''EXECUTION_FAILURE'' False (ae_status x = AC_COMPENSATED) (w_db w) = (r, db')"
      using re by (simp add: record_execution_def)
    with assms(1) show ?thesis by (cases rule: record_evidence_cases) (use assms(2) in simp_all)
  next
    case False
    then have "read_profile (cmd_action (ae_command x)) (w_db w) = (r, db')"
      using re by (auto simp: record_execution_def)
    then show ?thesis by (rule_tac read_profile_app [OF assms]) auto
  qed
  then show ?thesis
    using True re record_execution_tables [OF assms(1) re] record_execution_good [OF assms(1), of t x]
    by (auto simp: note_execution_def bind_def on_db_app)
next
  case False
  then show ?thesis using assms by (auto simp: note_execution_def intro: exI [of _ "w_db w"])
qed

lemma controls_good_actions [simp]: "controls_good (db\<lparr>tb_actions := rows\<rparr>) = controls_good db"
  by (simp add: controls_good_def)

lemma actions_good_cong: "tb_actions db' = tb_actions db \<Longrightarrow> actions_good L db' = actions_good L db"
  by (simp add: actions_good_def)

lemma claimed_cong: "tb_actions db' = tb_actions db \<Longrightarrow> claimed d db' = claimed d db"
  by (simp add: claimed_def)

text \<open>Writing a result back and noting it.\<close>

definition written_back :: "lib \<Rightarrow> action_execution \<Rightarrow> database \<Rightarrow> database \<Rightarrow> bool" where
  "written_back L y db db' \<longleftrightarrow>
     actions_good L db' \<and> controls_good db' \<and> (\<forall>d. claimed d db' = claimed d db) \<and>
     (\<exists>r. row_get acr_action_id (ae_action_id y) (tb_actions db') = Some r \<and>
        acr_status r = ae_status y \<and> acr_steps r = ae_steps y)"

lemma write_back:
  assumes g: "actions_good L (w_db w)" and cg: "controls_good (w_db w)"
    and r: "row_get acr_action_id (ae_action_id y) (tb_actions (w_db w)) = Some r"
    and a: "executable (cmd_action (ae_command y))"
  shows "\<exists>db'. bind (on_db (session (action_update y))) (\<lambda>p. bind (note_execution governed t p) (\<lambda>_. k p)) w =
      k y (w\<lparr>w_db := db'\<rparr>) \<and> written_back L y (w_db w) db'"
proof -
  let ?row = "action_values y r"
  let ?db1 = "(w_db w)\<lparr>tb_actions := row_put acr_action_id ?row (tb_actions (w_db w))\<rparr>"
  have upd: "session (action_update y) (w_db w) = (Inr y, ?db1)"
    by (simp add: session_def action_update_app [OF r])
  have g1: "actions_good L ?db1" by (rule update_good [OF g r])
  have rk: "acr_action_id r = ae_action_id y" using row_get_SomeD [OF r] by simp
  have row: "row_get acr_action_id (ae_action_id y) (tb_actions ?db1) = Some ?row"
    using r rk by (simp add: row_get_put action_values_def)
  obtain db' where n: "note_execution governed t y (w\<lparr>w_db := ?db1\<rparr>) = (Inr (), w\<lparr>w_db := db'\<rparr>)"
    "tb_actions db' = tb_actions ?db1" "controls_good db'"
    using note_execution_app [of "w\<lparr>w_db := ?db1\<rparr>" y governed t] cg a by auto
  have "claimed d db' = claimed d (w_db w)" for d
    using action_update_claimed [OF g action_update_app [OF r], of d] claimed_cong [OF n(2), of d] by simp
  then have "written_back L y (w_db w) db'"
    using n(2,3) g1 actions_good_cong [OF n(2)] row
    by (simp add: written_back_def action_values_def)
  moreover have "bind (on_db (session (action_update y))) (\<lambda>p. bind (note_execution governed t p) (\<lambda>_. k p)) w =
      k y (w\<lparr>w_db := db'\<rparr>)"
    using n(1) by (simp add: bind_def on_db_app upd)
  ultimately show ?thesis by blast
qed

lemma run_claimed_outcome:
  assumes g: "actions_good L (w_db w)" and cg: "controls_good (w_db w)"
    and r: "row_get acr_action_id (ae_action_id x) (tb_actions (w_db w)) = Some r"
    and a: "executable (cmd_action (ae_command x))"
    and seed: "p_seed port c (w_ops w) = (Inr (), os)"
    and run: "run_claimed governed port wall x c t w = (res, w')"
  shows "(\<exists>y. execute_steps port wall x c t os = (Inr y, w_ops w') \<and> res = Inr y \<and>
      ae_action_id y = ae_action_id x \<and> written_back L y (w_db w) (w_db w')) \<or>
    (\<exists>e. execute_steps port wall x c t os = (Inl e, w_ops w') \<and> res = Inl e \<and>
      written_back L (failed_execution x (wall 4) e) (w_db w) (w_db w'))"
proof (cases "execute_steps port wall x c t os")
  case (Pair q os')
  let ?w1 = "w\<lparr>w_ops := os'\<rparr>"
  show ?thesis
  proof (cases q)
    case (Inr y)
    note id = execute_steps_identity [OF Pair [unfolded Inr]]
    obtain db' where k: "bind (on_db (session (action_update y)))
        (\<lambda>p. bind (note_execution governed (wall 6) p) (\<lambda>_. ret p)) ?w1 = ret y (?w1\<lparr>w_db := db'\<rparr>)"
      "written_back L y (w_db ?w1) db'"
      using write_back [of L ?w1 y r governed "wall 6" ret] g cg r a id by auto
    have "run_claimed governed port wall x c t w = (Inr y, ?w1\<lparr>w_db := db'\<rparr>)"
      using k(1) Pair Inr seed
      by (simp add: run_claimed_def bind_def [of "on_ops _"] on_ops_app bind_def [of "catch _ _"] catch_def)
    then show ?thesis using run k(2) Pair Inr id by auto
  next
    case (Inl e)
    let ?f = "failed_execution x (wall 4) e"
    obtain db' where k: "bind (on_db (session (action_update ?f)))
        (\<lambda>p. bind (note_execution governed (wall 5) p) (\<lambda>_. raise e)) ?w1
        = (raise e :: ('a world, action_execution) prog) (?w1\<lparr>w_db := db'\<rparr>)"
      "written_back L ?f (w_db ?w1) db'"
      using write_back [of L ?w1 ?f r governed "wall 5" "\<lambda>_. raise e"] g cg r a by auto
    have "run_claimed governed port wall x c t w = (Inl e, ?w1\<lparr>w_db := db'\<rparr>)"
      using k(1) Pair Inl seed
      by (simp add: run_claimed_def bind_def [of "on_ops _"] on_ops_app bind_def [of "catch _ _"] catch_def)
    then show ?thesis using run k(2) Pair Inl by auto
  qed
qed

lemma execute_action_app:
  assumes k: "read_kill_switch (w_db w) = (Inr k, w_db w)"
    and q: "claim_execution L command (now_or now (wall 0)) (w_db w) = (q, db')"
  shows "execute_action L governed port wall command c now w =
    (if governed \<and> ks_active k
     then (Inl (err ActionExecutionError ''global action kill switch is active''), w)
     else case q of Inl e \<Rightarrow> (Inl e, w\<lparr>w_db := db'\<rparr>) | Inr (Inl y) \<Rightarrow> (Inr y, w\<lparr>w_db := db'\<rparr>)
       | Inr (Inr x) \<Rightarrow> run_claimed governed port wall x c (now_or now (wall 0)) (w\<lparr>w_db := db'\<rparr>))"
  using k q
  by (cases governed) (auto simp: execute_action_def Let_def bind_def on_db_app split: sum.split)

lemma sandbox_seed: "\<exists>os. p_seed sandbox_port c w = (Inr (), os)"
  by (rule sandbox.seed_total)

text \<open>Every execution refuses or answers from the record without a change, or runs the steps of
  a decision that was not claimed before.\<close>

lemma execute_cases:
  assumes g: "actions_good L (w_db w)" and cg: "controls_good (w_db w)" and fp: "distinguishes_decisions L"
    and a: "executable (cmd_action command)" and seed: "p_seed port c (w_ops w) = (Inr (), os)"
    and run: "execute_action L governed port wall command c now w = (res, w')"
  obtains (refused) e where "res = Inl e" "w' = w"
  | (recorded) r where "res = Inr (action_to_model r)" "w' = w" "r \<in> set (tb_actions (w_db w))"
      "acr_decision_id r = cmd_decision_id command"
  | (ran) y where "\<not> claimed (cmd_decision_id command) (w_db w)"
      "actions_good L (w_db w')" "controls_good (w_db w')" "claimed (cmd_decision_id command) (w_db w')"
      "execute_steps port wall (executing_of L command (now_or now (wall 0))) c (now_or now (wall 0)) os
         = (Inr y, w_ops w')" "res = Inr y"
      "\<exists>r. row_get acr_action_id (action_id_of L command) (tb_actions (w_db w')) = Some r \<and>
         acr_status r = ae_status y \<and> acr_steps r = ae_steps y"
  | (failed) e where "\<not> claimed (cmd_decision_id command) (w_db w)"
      "actions_good L (w_db w')" "controls_good (w_db w')" "claimed (cmd_decision_id command) (w_db w')"
      "execute_steps port wall (executing_of L command (now_or now (wall 0))) c (now_or now (wall 0)) os
         = (Inl e, w_ops w')" "res = Inl e"
      "\<exists>r. row_get acr_action_id (action_id_of L command) (tb_actions (w_db w')) = Some r \<and>
         acr_status r = AC_FAILED \<and> acr_steps r = []"
proof -
  let ?t = "now_or now (wall 0)"
  let ?x = "executing_of L command ?t"
  obtain k where k: "read_kill_switch (w_db w) = (Inr k, w_db w)" using cg by (rule read_kill_switch_app)
  show thesis
  proof (cases "governed \<and> ks_active k")
    case True
    obtain cl db' where claim: "claim_execution L command ?t (w_db w) = (cl, db')" by fastforce
    show thesis using True run refused
      by (auto simp: execute_action_app [of w k L command now wall, OF k claim])
  next
    case False
    obtain cl db' where claim: "claim_execution L command ?t (w_db w) = (cl, db')" by fastforce
    have app: "execute_action L governed port wall command c now w =
      (case cl of Inl e \<Rightarrow> (Inl e, w\<lparr>w_db := db'\<rparr>) | Inr (Inl y) \<Rightarrow> (Inr y, w\<lparr>w_db := db'\<rparr>)
       | Inr (Inr x) \<Rightarrow> run_claimed governed port wall x c ?t (w\<lparr>w_db := db'\<rparr>))"
      using False by (auto simp: execute_action_app [of w k L command now wall, OF k claim])
    from g fp claim show thesis
    proof (cases rule: claim_cases)
      case (error e)
      then show thesis using run app refused by auto
    next
      case (existing r)
      then show thesis using run app recorded [of r] by simp
    next
      case new
      let ?w1 = "w\<lparr>w_db := db'\<rparr>"
      have g1: "actions_good L (w_db ?w1)" using claim_good [OF g new(2-4)] by (simp add: new(5))
      have cg1: "controls_good (w_db ?w1)" using cg by (simp add: new(5))
      have row: "row_get acr_action_id (ae_action_id ?x) (tb_actions (w_db ?w1)) = Some (executing_row L command ?t)"
        using new(3) by (simp add: new(5) row_get_append executing_of_def executing_row_def)
      have ax: "executable (cmd_action (ae_command ?x))" using a by (simp add: executing_of_def)
      have r: "run_claimed governed port wall ?x c ?t ?w1 = (res, w')" using run app new(1) by simp
      have cl: "claimed (cmd_decision_id command) (w_db ?w1)"
        by (simp add: new(5) claimed_def executing_row_def)
      have os: "p_seed port c (w_ops ?w1) = (Inr (), os)" using seed by simp
      show thesis
        using run_claimed_outcome [OF g1 cg1 row ax os r]
      proof (elim disjE exE conjE)
        fix y assume "execute_steps port wall ?x c ?t os = (Inr y, w_ops w')" "res = Inr y"
          "ae_action_id y = ae_action_id ?x" "written_back L y (w_db ?w1) (w_db w')"
        then show thesis using ran [of y] new(2) cl by (auto simp: written_back_def executing_of_def)
      next
        fix e assume "execute_steps port wall ?x c ?t os = (Inl e, w_ops w')" "res = Inl e"
          "written_back L (failed_execution ?x (wall 4) e) (w_db ?w1) (w_db w')"
        then show thesis using failed [of e] new(2) cl
          by (auto simp: written_back_def executing_of_def failed_execution_def)
      qed
    qed
  qed
qed

lemma claimed_no_rerun:
  assumes g: "actions_good L (w_db w)" and cg: "controls_good (w_db w)" and fp: "distinguishes_decisions L"
    and cl: "claimed (cmd_decision_id command) (w_db w)"
  shows "snd (execute_action L governed port wall command c now w) = w"
proof -
  let ?t = "now_or now (wall 0)"
  obtain k where k: "read_kill_switch (w_db w) = (Inr k, w_db w)" using cg by (rule read_kill_switch_app)
  obtain q db' where claim: "claim_execution L command ?t (w_db w) = (q, db')" by fastforce
  from g fp claim have "db' = w_db w \<and> (\<forall>x. q \<noteq> Inr (Inr x))"
    by (cases rule: claim_cases) (use cl in auto)
  then show ?thesis by (auto simp: execute_action_app [of w k L command now wall, OF k claim] split: sum.split)
qed

section \<open>Properties\<close>

text \<open>C16: While the kill switch is active a governed execution raises at once: no row is
  claimed, no external system is called, nothing changes.\<close>

theorem kill_switch_stops_execution:
  assumes "controls_good (w_db w)"
    and "row_get rcr_control_key kill_switch_key (tb_controls (w_db w)) = Some k" and "rcr_enabled k"
  shows "execute_action L True port wall command c now w =
    (Inl (err ActionExecutionError ''global action kill switch is active''), w)"
proof -
  obtain k' m where "row_get rcr_control_key kill_switch_key (tb_controls (w_db w)) = Some k'"
    "read_kill_switch (w_db w) = (Inr m, w_db w)" "ks_active m = rcr_enabled k'"
    using assms(1) by (rule read_kill_switch_app)
  moreover obtain q db' where "claim_execution L command (now_or now (wall 0)) (w_db w) = (q, db')"
    by fastforce
  ultimately show ?thesis using assms(2,3) execute_action_app [of w m L command now wall q db'] by simp
qed

definition sample_execution_lib :: lib where
  "sample_execution_lib = sample_lib\<lparr>json_command := cmd_decision_id\<rparr>"

lemma sample_distinguishes: "distinguishes_decisions sample_execution_lib"
  by (simp add: distinguishes_decisions_def command_fingerprint_def canonical_fingerprint_def
      sample_execution_lib_def sample_lib_def)

definition sample_world :: "(string \<Rightarrow> failure_mode option) \<Rightarrow> sandbox world" where
  "sample_world modes =
     \<lparr>w_db = sample_controls, w_ops = empty_sandbox\<lparr>sb_failure_modes := modes\<rparr>\<rparr>"

definition sample_command :: "recovery_action \<Rightarrow> action_command" where
  "sample_command a =
     \<lparr>cmd_decision_id = ''dec_1'', cmd_order_id = ''ORD-1'', cmd_action = a,
      cmd_idempotency_key = ''pg:00000001'', cmd_requested_by = ''eval-runner'',
      cmd_approved_by = None, cmd_expected_intervention_cost = 8, cmd_parameters = []\<rparr>"

lemma sample_actions_good: "actions_good L (w_db (sample_world modes))"
  by (simp add: sample_world_def sample_controls_def bootstrap_def session_def empty_database_def
      actions_good_def keys_distinct_def)

lemma sample_world_controls: "controls_good (w_db (sample_world modes))"
  by (simp add: sample_world_def sample_controls_good)

lemma kill_switch_stops_execution_witness:
  "\<exists>k. snd (execute_action sample_lib True sandbox_port (\<lambda>_. utc 9) (sample_command REROUTE) sample_order None
     ((sample_world Map.empty)\<lparr>w_db := k\<rparr>)) = (sample_world Map.empty)\<lparr>w_db := k\<rparr>"
proof -
  let ?u = "\<lparr>ku_active = True, ku_actor_id = ''m'', ku_actor_role = OPERATIONS_MANAGER, ku_reason = ''drill''\<rparr>"
  let ?db = "snd (set_kill_switch [] (utc 1) ?u sample_controls)"
  obtain r where r: "row_get rcr_control_key kill_switch_key (tb_controls sample_controls) = Some r"
    using sample_controls_good by (rule controls_good_kill_switch)
  have ok: "fst (set_kill_switch [] (utc 1) ?u sample_controls) \<in> range Inr"
  proof -
    have "bind_claimed_role [] ''m'' OPERATIONS_MANAGER None = Inr OPERATIONS_MANAGER"
      by code_simp
    then show ?thesis by (simp add: set_kill_switch_app [OF sample_controls_good r])
  qed
  then obtain s where "fst (set_kill_switch [] (utc 1) ?u sample_controls) = Inr s" by blast
  from set_kill_switch_version(1) [OF sample_controls_good this r] obtain k' where
    "row_get rcr_control_key kill_switch_key (tb_controls ?db) = Some k'" "rcr_enabled k'" by auto
  from kill_switch_stops_execution [of "(sample_world Map.empty)\<lparr>w_db := ?db\<rparr>", OF _ _ this(2)] this(1)
  show ?thesis using set_kill_switch_good [OF sample_controls_good] by (intro exI [of _ ?db]) simp
qed

text \<open>C17: The external systems are touched at most once per decision: an execution that changed
  them had not been claimed before and is claimed afterwards, and from then on every attempt
  for that decision, with any command and under any clock, leaves the database and the
  external systems as they are.\<close>

theorem execution_at_most_once:
  assumes "actions_good L (w_db w)" and "controls_good (w_db w)" and "distinguishes_decisions L"
    and "executable (cmd_action command)"
    and "execute_action L governed sandbox_port wall command c now w = (res, w')" and "w_ops w' \<noteq> w_ops w"
  shows "\<not> claimed (cmd_decision_id command) (w_db w) \<and> claimed (cmd_decision_id command) (w_db w') \<and>
    (\<forall>governed' wall' command' c' now'. cmd_decision_id command' = cmd_decision_id command \<longrightarrow>
       snd (execute_action L governed' sandbox_port wall' command' c' now' w') = w')"
proof -
  obtain os where "p_seed sandbox_port c (w_ops w) = (Inr (), os)" using sandbox_seed by blast
  from assms(1-4) this assms(5) show ?thesis
  proof (cases rule: execute_cases)
    case (ran y)
    then show ?thesis using claimed_no_rerun [OF ran(2,3) assms(3)] by metis
  next
    case (failed e)
    then show ?thesis using claimed_no_rerun [OF failed(2,3) assms(3)] by metis
  qed (use assms(6) in simp_all)
qed

text \<open>C18: An execution that reports a result it obtained now tells the truth about the external
  systems: \<open>SUCCEEDED\<close> only if the action's postcondition holds, \<open>COMPENSATED\<close> only if it does
  not hold any more. The one exception is a carrier upgrade to the service the order has already:
  its compensation restores that service, so the postcondition may hold. The stored row ends with
  that status, or with \<open>FAILED\<close> if the steps raised: no claimed action is left \<open>EXECUTING\<close>.\<close>

theorem execution_result_is_truthful:
  assumes "actions_good L (w_db w)" and "controls_good (w_db w)" and "distinguishes_decisions L"
    and "executable (cmd_action command)" and "valid_order_context c"
    and "\<not> claimed (cmd_decision_id command) (w_db w)"
    and "execute_action L governed sandbox_port wall command c now w = (res, w')"
  shows "(\<forall>y. res = Inr y \<longrightarrow>
      (ae_status y = AC_SUCCEEDED \<and> postcondition c (cmd_action command) (w_ops w')) \<or>
      (ae_status y = AC_COMPENSATED \<and>
        (\<not> postcondition c (cmd_action command) (w_ops w') \<or>
         cmd_action command = CARRIER_UPGRADE \<and> oc_upgraded_carrier_service c = oc_current_carrier_service c))) \<and>
    (w' = w \<or>
     (\<exists>r. row_get acr_action_id (action_id_of L command) (tb_actions (w_db w')) = Some r \<and>
        (case res of Inr y \<Rightarrow> acr_status r = ae_status y | Inl e \<Rightarrow> acr_status r = AC_FAILED)))"
proof -
  obtain os where os: "p_seed sandbox_port c (w_ops w) = (Inr (), os)" using sandbox_seed by blast
  from assms(1-4) os assms(7) show ?thesis
  proof (cases rule: execute_cases)
    case (recorded r)
    then show ?thesis using assms(6) by (force simp: claimed_def)
  next
    case (ran y)
    show ?thesis using sandbox.steps_outcome [OF assms(5) ran(5)] ran(6,7) by (auto simp: executing_of_def)
  qed auto
qed

text \<open>The reroute of the sample order, step by step on the sandbox.\<close>

definition sample_run :: "(string \<Rightarrow> failure_mode option) \<Rightarrow> action_execution res \<times> sandbox world" where
  "sample_run modes =
     execute_action sample_execution_lib True sandbox_port (\<lambda>_. utc 9) (sample_command REROUTE)
       sample_order None (sample_world modes)"

definition status_of :: "action_execution res \<Rightarrow> action_status option" where
  "status_of r = (case r of Inl _ \<Rightarrow> None | Inr y \<Rightarrow> Some (ae_status y))"

lemma sample_run_status: "status_of (fst (sample_run Map.empty)) = Some AC_SUCCEEDED"
  by code_simp

lemma sample_run_post:
  "postcondition sample_order REROUTE (w_ops (snd (sample_run Map.empty)))"
  by code_simp

lemma sample_run_unfold:
  "execute_action sample_execution_lib True sandbox_port (\<lambda>_. utc 9) (sample_command REROUTE)
     sample_order None (sample_world modes) = (fst (sample_run modes), snd (sample_run modes))"
  by (simp add: sample_run_def)

lemma sample_reroute_executable: "executable (cmd_action (sample_command REROUTE))"
  by (simp add: sample_command_def executable_def)

lemma sample_world_untouched: "\<not> postcondition sample_order REROUTE (w_ops (sample_world modes))"
  by (simp add: sample_world_def empty_sandbox_def postcondition_def sample_order_def)

lemma sample_not_claimed: "\<not> claimed d (w_db (sample_world modes))"
  by (simp add: sample_world_def sample_controls_def bootstrap_def session_def empty_database_def
      claimed_def)

lemma execution_at_most_once_witness:
  "snd (execute_action sample_execution_lib True sandbox_port (\<lambda>_. utc 50) (sample_command REROUTE)
     sample_order None (snd (sample_run Map.empty))) = snd (sample_run Map.empty)"
proof -
  have "w_ops (snd (sample_run Map.empty)) \<noteq> w_ops (sample_world Map.empty)"
    using sample_run_post sample_world_untouched by metis
  from execution_at_most_once [OF sample_actions_good sample_world_controls sample_distinguishes
      sample_reroute_executable sample_run_unfold this]
  show ?thesis by blast
qed

lemma execution_result_is_truthful_witness:
  "status_of (fst (sample_run Map.empty)) = Some AC_SUCCEEDED \<and>
   postcondition sample_order (cmd_action (sample_command REROUTE)) (w_ops (snd (sample_run Map.empty)))"
proof -
  from execution_result_is_truthful [OF sample_actions_good sample_world_controls sample_distinguishes
      sample_reroute_executable sample_order_valid sample_not_claimed sample_run_unfold [of Map.empty]]
  have post: "\<forall>y. fst (sample_run Map.empty) = Inr y \<longrightarrow> ae_status y = AC_SUCCEEDED \<longrightarrow>
      postcondition sample_order (cmd_action (sample_command REROUTE)) (w_ops (snd (sample_run Map.empty)))"
    by (metis action_status.distinct)
  obtain y where "fst (sample_run Map.empty) = Inr y" "ae_status y = AC_SUCCEEDED"
    using sample_run_status by (auto simp: status_of_def split: sum.splits)
  then show ?thesis using post sample_run_status by blast
qed

text \<open>C19: A reroute that raises is not compensated. If the reservation call itself raises, the
  systems are left as that call left them, a reservation made before a lost acknowledgement
  included; if the change of location is then refused by a rate limit, the reservation of the
  first step stays in place while the action is recorded as failed without steps.\<close>

theorem reroute_failure_keeps_reservation:
  assumes "reserve_alternative c (cmd_idempotency_key (ae_command x) @ '':reserve'') w = (q, w1)"
  shows "(\<forall>e. q = Inl e \<longrightarrow> reroute sandbox_port wall x c now w = (Inl e, w1)) \<and>
    (\<forall>r e w2. q = Inr r \<and> change_location c (cmd_idempotency_key (ae_command x) @ '':change-location'') w1
        = (Inl e, w2) \<and> exn_cls e = AdapterRateLimited \<longrightarrow>
      reroute sandbox_port wall x c now w = (Inl e, w1) \<and> sandbox_reserved c w1)"
proof (intro conjI allI impI)
  fix e assume "q = Inl e"
  then show "reroute sandbox_port wall x c now w = (Inl e, w1)"
    using assms by (simp add: reroute_def sandbox_port_def Let_def)
next
  fix r e w2
  assume "q = Inr r \<and> change_location c (cmd_idempotency_key (ae_command x) @ '':change-location'') w1
      = (Inl e, w2) \<and> exn_cls e = AdapterRateLimited"
  then have res: "p_reserve sandbox_port c (cmd_idempotency_key (ae_command x) @ '':reserve'') w = (Inr r, w1)"
    and ch: "p_change sandbox_port c (cmd_idempotency_key (ae_command x) @ '':change-location'') w1 = (Inl e, w2)"
    and rl: "exn_cls e = AdapterRateLimited"
    using assms by (simp_all add: sandbox_port_def)
  from sandbox.reroute_rate_limited [OF res ch rl]
  show "reroute sandbox_port wall x c now w = (Inl e, w1)" and "sandbox_reserved c w1" by blast+
qed

definition sample_seeded :: "(string \<Rightarrow> failure_mode option) \<Rightarrow> sandbox" where
  "sample_seeded modes = snd (seed_order sample_order (empty_sandbox\<lparr>sb_failure_modes := modes\<rparr>))"

lemma reroute_failure_keeps_reservation_witness:
  "\<exists>e w1. reroute sandbox_port (\<lambda>_. utc 9) (executing_of sample_lib (sample_command REROUTE) (utc 9)) sample_order
       (utc 9) (sample_seeded [''change_location'' \<mapsto> FM_RATE_LIMITED]) = (Inl e, w1) \<and>
     sandbox_reserved sample_order w1"
proof -
  let ?x = "executing_of sample_lib (sample_command REROUTE) (utc 9)"
  let ?k = "cmd_idempotency_key (ae_command ?x)"
  let ?w = "sample_seeded [''change_location'' \<mapsto> FM_RATE_LIMITED]"
  have c: "case reserve_alternative sample_order (?k @ '':reserve'') ?w of
      (Inr r, w1) \<Rightarrow> (case change_location sample_order (?k @ '':change-location'') w1 of
          (Inl e, _) \<Rightarrow> exn_cls e = AdapterRateLimited | _ \<Rightarrow> False)
    | _ \<Rightarrow> False"
    by code_simp
  obtain q w1 where r: "reserve_alternative sample_order (?k @ '':reserve'') ?w = (q, w1)" by fastforce
  obtain a w2 where ch: "change_location sample_order (?k @ '':change-location'') w1 = (a, w2)" by fastforce
  from c r ch obtain x e where "q = Inr x" "a = Inl e" "exn_cls e = AdapterRateLimited"
    by (auto split: sum.splits)
  then show ?thesis
    using reroute_failure_keeps_reservation [OF r, of "\<lambda>_. utc 9" "utc 9"] ch by blast
qed

end
