(* ===== verification/Verification.thy ===== *)
theory Verification
  imports Execution Recovery_Simulator
begin

text \<open>
  \<^verbatim>\<open>src/src/promiseguard/verification.py\<close>: the verification of an executed action against the
  simulated systems of record, the realised margin and the durable outcome, which feeds the
  autonomy controls. \<open>wall 0\<close> is the clock where the caller passes no \<open>now\<close>, \<open>wall 1\<close> the
  clock the controls read.
\<close>

section \<open>One verification\<close>

definition record_delivery_observation :: "delivery_observation \<Rightarrow> (sandbox world, unit) prog" where
  "record_delivery_observation obs =
     on_ops (record_delivery_outcome (do_order_id obs) (do_delivered_on_time obs))"

definition outcome_id_of :: "lib \<Rightarrow> decision_trace \<Rightarrow> string" where
  "outcome_id_of L decision = digest_id L ''out_'' 24 (dt_decision_id decision)"

definition outcome_status :: "action_execution \<Rightarrow> bool \<Rightarrow> bool option \<Rightarrow> verification_status" where
  "outcome_status x holds delivered =
     (if ae_status x = AC_COMPENSATED \<or> \<not> holds then VS_FAILED
      else if delivered = None then VS_MANUAL_REVIEW_REQUIRED
      else VS_VERIFIED)"

definition realised_margin :: "order_context \<Rightarrow> rat \<Rightarrow> bool option \<Rightarrow> rat res" where
  "realised_margin c actual_cost delivered =
     (case delivered of
        Some True \<Rightarrow> money (dsub (oc_gross_margin c) actual_cost)
      | Some False \<Rightarrow> money (dsub (dsub (dctx (- oc_cancellation_cost c)) (oc_support_cost c)) actual_cost)
      | None \<Rightarrow> Inr 0)"

definition new_outcome ::
  "lib \<Rightarrow> decision_trace \<Rightarrow> action_execution \<Rightarrow> order_context \<Rightarrow> delivery_observation option \<Rightarrow> datetime
     \<Rightarrow> bool \<Rightarrow> bool option \<Rightarrow> recovery_option \<Rightarrow> rat \<Rightarrow> outcome_verification"
where
  "new_outcome L decision x c obs verified_at holds delivered selected margin =
     \<lparr>ov_outcome_id = outcome_id_of L decision,
      ov_decision_id = dt_decision_id decision,
      ov_action_id = ae_action_id x,
      ov_status = outcome_status x holds delivered,
      ov_verified_at = verified_at,
      ov_on_time_delivery_observed = delivered,
      ov_actual_intervention_cost = cmd_expected_intervention_cost (ae_command x),
      ov_realised_gross_margin = margin,
      ov_estimated_incremental_value =
        dr_expected_incremental_value_vs_no_action (dt_recommendation decision),
      ov_evidence_references =
        oc_source_references c @ (case obs of None \<Rightarrow> [] | Some d \<Rightarrow> [do_source_reference d]),
      ov_details =
        [(''action_postcondition_holds'', PyBool holds),
         (''expected_on_time_probability'', PyFloat (ro_on_time_probability selected)),
         (''execution_status'', PyStr (action_status_value (ae_status x))),
         (''verification_source'', PyStr ''simulated_systems_of_record'')]\<rparr>"

text \<open>The observation is recorded first, the systems are then rebuilt from the stored action,
  and only then read.\<close>

definition observe ::
  "order_context \<Rightarrow> delivery_observation option \<Rightarrow> (sandbox world, unit) prog" where
  "observe c obs =
     (case obs of None \<Rightarrow> ret ()
      | Some d \<Rightarrow> if do_order_id d \<noteq> oc_order_id c
          then raise (err ValueError ''delivery observation does not belong to the decision order'')
          else record_delivery_observation d)"

definition assess_outcome ::
  "lib \<Rightarrow> decision_trace \<Rightarrow> action_execution \<Rightarrow> order_context \<Rightarrow> delivery_observation option \<Rightarrow> datetime
     \<Rightarrow> sandbox \<Rightarrow> outcome_verification res"
where
  "assess_outcome L decision x c obs verified_at s =
     (let action = cmd_action (ae_command x);
          holds = postcondition c action s;
          delivered = sb_delivery_outcomes s (oc_order_id c);
          actual_cost = cmd_expected_intervention_cost (ae_command x)
      in bind_res (py_next (\<lambda>r. ro_action r = action) (dr_ranked_options (dt_recommendation decision)))
           (\<lambda>selected.
         bind_res (realised_margin c actual_cost delivered) (\<lambda>margin.
         if \<not> non_negative_money actual_cost then Inl (err ValidationError ''OutcomeVerification'')
         else Inr (new_outcome L decision x c obs verified_at holds delivered selected margin))))"

definition verify_outcome ::
  "lib \<Rightarrow> bool \<Rightarrow> wall \<Rightarrow> decision_trace \<Rightarrow> action_execution \<Rightarrow> order_context
     \<Rightarrow> delivery_observation option \<Rightarrow> datetime option \<Rightarrow> (sandbox world, outcome_verification) prog"
where
  "verify_outcome L governed wall decision x c obs now =
     bind (observe c obs) (\<lambda>_.
     bind (on_ops (hydrate_from_durable_action c x)) (\<lambda>_.
     bind get_state (\<lambda>w.
     bind (of_res (assess_outcome L decision x c obs (now_or now (wall 0)) (w_ops w))) (\<lambda>outcome.
     bind (on_db (session (outcome_record L outcome))) (\<lambda>persisted.
     bind (if governed
           then bind (on_db (record_outcome (wall 1) persisted (cmd_action (ae_command x)))) (\<lambda>_. ret ())
           else ret ()) (\<lambda>_.
     ret persisted))))))"

definition outcome_of_decision :: "string \<Rightarrow> ('w world, outcome_verification option) prog" where
  "outcome_of_decision decision_id = on_db (\<lambda>db. (Inr (outcome_get_by_decision decision_id db), db))"

section \<open>The outcomes table\<close>

definition outcome_fingerprint :: "lib \<Rightarrow> outcome_verification \<Rightarrow> string" where
  "outcome_fingerprint L y = canonical_fingerprint L (json_outcome L y)"

definition outcome_row_good :: "lib \<Rightarrow> outcome_row \<Rightarrow> bool" where
  "outcome_row_good L r \<longleftrightarrow> ocr_fingerprint r = outcome_fingerprint L (ocr_outcome r)"

definition outcomes_good :: "lib \<Rightarrow> database \<Rightarrow> bool" where
  "outcomes_good L db \<longleftrightarrow>
     keys_distinct (\<lambda>r. ov_decision_id (ocr_outcome r)) (tb_outcomes db) \<and>
     list_all (outcome_row_good L) (tb_outcomes db)"

text \<open>What is relied on of the fingerprint: outcomes verified at different times differ.\<close>

definition distinguishes_times :: "lib \<Rightarrow> bool" where
  "distinguishes_times L \<longleftrightarrow>
     (\<forall>y z. outcome_fingerprint L y = outcome_fingerprint L z \<longrightarrow> ov_verified_at y = ov_verified_at z)"

definition outcome_row_of :: "string \<Rightarrow> database \<Rightarrow> outcome_row option" where
  "outcome_row_of d db = List.find (\<lambda>r. ov_decision_id (ocr_outcome r) = d) (tb_outcomes db)"

lemma outcome_get_by_decision_row:
  "outcome_get_by_decision d db = map_option outcome_to_model (outcome_row_of d db)"
  by (simp add: outcome_get_by_decision_def outcome_row_of_def)

lemma outcome_record_cases:
  assumes "session (outcome_record L y) db = (res, db')"
  obtains (refused) e where "res = Inl e" "db' = db"
  | (recorded) r where "res = Inr (outcome_to_model r)" "db' = db"
      "outcome_row_of (ov_decision_id y) db = Some r" "ocr_fingerprint r = outcome_fingerprint L y"
  | (new) "res = Inr y" "outcome_row_of (ov_decision_id y) db = None"
      "db' = db\<lparr>tb_outcomes := tb_outcomes db @
         [\<lparr>ocr_outcome = y, ocr_fingerprint = outcome_fingerprint L y\<rparr>]\<rparr>"
proof (cases "outcome_row_of (ov_decision_id y) db")
  case None
  then show thesis using assms refused new
    by (auto simp: session_def outcome_record_def Let_def row_insert_def outcome_row_of_def
        outcome_fingerprint_def split: option.splits)
next
  case (Some r)
  then show thesis using assms refused recorded [of r]
    by (auto simp: session_def outcome_record_def Let_def outcome_row_of_def outcome_fingerprint_def
        split: if_splits)
qed

lemma outcome_record_good:
  assumes "outcomes_good L db" and "session (outcome_record L y) db = (res, db')"
  shows "outcomes_good L db'"
  using assms(2)
  by (cases rule: outcome_record_cases)
    (use assms(1) in \<open>auto simp: outcomes_good_def keys_distinct_def outcome_row_good_def
       outcome_row_of_def find_None_iff\<close>)

section \<open>A verification, stage by stage\<close>

lemma observe_cases:
  assumes "observe c obs w = (r, w')"
  obtains (error) e where "r = Inl e" "w_db w' = w_db w"
  | (none) "r = Inr ()" "obs = None" "w' = w"
  | (seen) d os where "r = Inr ()" "obs = Some d" "do_order_id d = oc_order_id c" "w' = w\<lparr>w_ops := os\<rparr>"
      "sb_delivery_outcomes os (oc_order_id c) = Some (do_delivered_on_time d)"
proof (cases obs)
  case None
  then show thesis using assms none by (simp add: observe_def)
next
  case (Some d)
  then show thesis using assms error seen [of d]
    by (auto simp: observe_def record_delivery_observation_def on_ops_app record_delivery_outcome_def
        bind_def checked_app request_meta_def record_delivery_def respond_def split: if_splits prod.splits)
qed

lemma hydrate_app: "\<exists>os. hydrate_from_durable_action c x s = (Inr (), os) \<and>
    sb_delivery_outcomes os = sb_delivery_outcomes s"
  by (auto simp: hydrate_from_durable_action_def bind_def seed_order_def split: recovery_action.split option.split)

text \<open>Rebuilding the systems from a successful action makes its postcondition true.\<close>

lemma hydrate_postcondition:
  assumes "hydrate_from_durable_action c x s = (r, os)" and "ae_status x \<in> {AC_SUCCEEDED, AC_VERIFIED}"
    and "executable (cmd_action (ae_command x))"
    and "cmd_action (ae_command x) = REROUTE \<longrightarrow> oc_alternative_location_id c \<noteq> None"
  shows "postcondition c (cmd_action (ae_command x)) os"
  using assms
  by (auto simp: hydrate_from_durable_action_def bind_def seed_order_def postcondition_def executable_def)

lemma assess_outcome_InrE:
  assumes "assess_outcome L decision x c obs t s = Inr y"
  obtains selected margin where
    "realised_margin c (cmd_expected_intervention_cost (ae_command x)) (sb_delivery_outcomes s (oc_order_id c))
       = Inr margin"
    "y = new_outcome L decision x c obs t (postcondition c (cmd_action (ae_command x)) s)
       (sb_delivery_outcomes s (oc_order_id c)) selected margin"
  using assms by (auto simp: assess_outcome_def Let_def bind_res_Inr split: if_splits)

lemma new_outcome_sel [simp]:
  "ov_decision_id (new_outcome L d x c obs t h dl r m) = dt_decision_id d"
  "ov_status (new_outcome L d x c obs t h dl r m) = outcome_status x h dl"
  "ov_verified_at (new_outcome L d x c obs t h dl r m) = t"
  "ov_on_time_delivery_observed (new_outcome L d x c obs t h dl r m) = dl"
  "ov_realised_gross_margin (new_outcome L d x c obs t h dl r m) = m"
  by (simp_all add: new_outcome_def)

lemma record_outcome_tables:
  assumes "controls_good db" and "record_outcome t y a db = (r, db')"
  shows "tb_outcomes db' = tb_outcomes db \<and> tb_actions db' = tb_actions db \<and>
    tb_decisions db' = tb_decisions db \<and> tb_approvals db' = tb_approvals db \<and> tb_events db' = tb_events db"
proof (cases "ov_status y = VS_MANUAL_REVIEW_REQUIRED")
  case True
  then have "db' = db" using assms(2) read_unchanged(2) [of a db r db'] by (simp add: record_outcome_def)
  then show ?thesis by simp
next
  case False
  then have "record_evidence t (''outcome:'' @ ov_outcome_id y) a ''VERIFIED_OUTCOME''
      (ov_status y = VS_VERIFIED) False db = (r, db')"
    using assms(2) by (simp add: record_outcome_def)
  with assms(1) show ?thesis by (cases rule: record_evidence_cases) simp_all
qed

text \<open>The note of an outcome never fails for an executable action.\<close>

lemma note_outcome_app:
  assumes "controls_good db" and "executable a"
  shows "\<exists>p db'. record_outcome t y a db = (Inr p, db')"
proof (cases "ov_status y = VS_MANUAL_REVIEW_REQUIRED")
  case True
  obtain p where "read_profile a db = (Inr p, db)" by (rule read_profile_app [OF assms])
  then show ?thesis using True by (simp add: record_outcome_def)
next
  case False
  obtain r db' where st: "record_evidence t (''outcome:'' @ ov_outcome_id y) a ''VERIFIED_OUTCOME''
      (ov_status y = VS_VERIFIED) False db = (r, db')" by fastforce
  from assms(1) st have "\<exists>p. r = Inr p"
    by (cases rule: record_evidence_cases) (use assms(2) in simp_all)
  then show ?thesis using False st by (auto simp: record_outcome_def)
qed

text \<open>Every verification stops without a change of the database, answers with the outcome that
  is recorded, or records what it assessed on the systems it leaves.\<close>

lemma verify_cases:
  assumes cg: "controls_good (w_db w)" and a: "executable (cmd_action (ae_command x))"
    and run: "verify_outcome L governed wall decision x c obs now w = (res, w')"
  obtains (error) e where "res = Inl e" "w_db w' = w_db w"
  | (recorded) r y where "res = Inr (outcome_to_model r)" "tb_outcomes (w_db w') = tb_outcomes (w_db w)"
      "outcome_row_of (dt_decision_id decision) (w_db w) = Some r"
      "assess_outcome L decision x c obs (now_or now (wall 0)) (w_ops w') = Inr y"
      "ocr_fingerprint r = outcome_fingerprint L y"
  | (new) y os where "res = Inr y" "outcome_row_of (dt_decision_id decision) (w_db w) = None"
      "tb_outcomes (w_db w') =
         tb_outcomes (w_db w) @ [\<lparr>ocr_outcome = y, ocr_fingerprint = outcome_fingerprint L y\<rparr>]"
      "assess_outcome L decision x c obs (now_or now (wall 0)) (w_ops w') = Inr y"
      "hydrate_from_durable_action c x os = (Inr (), w_ops w')"
      "\<forall>d. obs = Some d \<longrightarrow> sb_delivery_outcomes (w_ops w') (oc_order_id c) = Some (do_delivered_on_time d)"
proof -
  let ?t = "now_or now (wall 0)" and ?a = "cmd_action (ae_command x)"
  obtain ob w1 where ob: "observe c obs w = (ob, w1)" by fastforce
  show thesis
  proof (cases ob)
    case (Inl e)
    moreover have "w_db w1 = w_db w" using ob Inl by (cases rule: observe_cases) simp_all
    ultimately show thesis using run ob error by (auto simp: verify_outcome_def)
  next
    case (Inr u)
    have db1: "w_db w1 = w_db w" using ob by (cases rule: observe_cases) simp_all
    have seen: "\<forall>d. obs = Some d \<longrightarrow> sb_delivery_outcomes (w_ops w1) (oc_order_id c) = Some (do_delivered_on_time d)"
      using ob Inr by (cases rule: observe_cases) auto
    obtain os where os: "hydrate_from_durable_action c x (w_ops w1) = (Inr (), os)"
      "sb_delivery_outcomes os = sb_delivery_outcomes (w_ops w1)" using hydrate_app by blast
    let ?w2 = "w1\<lparr>w_ops := os\<rparr>"
    have run2: "bind (of_res (assess_outcome L decision x c obs ?t os)) (\<lambda>outcome.
        bind (on_db (session (outcome_record L outcome))) (\<lambda>persisted.
        bind (if governed then bind (on_db (record_outcome (wall 1) persisted ?a)) (\<lambda>_. ret ())
              else ret ()) (\<lambda>_. ret persisted))) ?w2 = (res, w')"
      using run ob Inr os(1) by (simp add: verify_outcome_def bind_def [of "on_ops _"] on_ops_app bind_def [of get_state])
    show thesis
    proof (cases "assess_outcome L decision x c obs ?t os")
      case (Inl e)
      then have "res = Inl e" "w' = ?w2" using run2 by (simp_all add: bind_def)
      then show thesis using db1 error by simp
    next
      case (Inr y)
      have id: "ov_decision_id y = dt_decision_id decision" "ov_verified_at y = ?t"
        using Inr by (auto elim!: assess_outcome_InrE)
      obtain q db' where q: "session (outcome_record L y) (w_db w) = (q, db')" by fastforce
      have noted: "\<exists>db2. bind (if governed then bind (on_db (record_outcome (wall 1) p ?a)) (\<lambda>_. ret ())
              else ret ()) (\<lambda>_. ret p) (?w2\<lparr>w_db := db'\<rparr>) = (Inr p, ?w2\<lparr>w_db := db2\<rparr>) \<and>
           tb_outcomes db2 = tb_outcomes db'" if g: "controls_good db'" for p
      proof (cases governed)
        case True
        obtain z db2 where "record_outcome (wall 1) p ?a db' = (Inr z, db2)"
          using note_outcome_app [OF g a] by blast
        then show ?thesis using True record_outcome_tables [OF g] by (auto simp: bind_def on_db_app)
      qed (auto intro: exI [of _ db'])
      have cont: "(case q of Inl e \<Rightarrow> (Inl e, ?w2\<lparr>w_db := db'\<rparr>)
          | Inr p \<Rightarrow> bind (if governed then bind (on_db (record_outcome (wall 1) p ?a)) (\<lambda>_. ret ())
              else ret ()) (\<lambda>_. ret p) (?w2\<lparr>w_db := db'\<rparr>)) = (res, w')"
        using run2 Inr db1 q
        by (simp add: bind_def [of "of_res _"] bind_def [of "on_db (session _)"] on_db_app split: sum.splits)
      from q show thesis
      proof (cases rule: outcome_record_cases)
        case (refused e)
        then show thesis using cont db1 error by auto
      next
        case (recorded r)
        obtain db2 where "bind (if governed then bind (on_db (record_outcome (wall 1) (outcome_to_model r) ?a)) (\<lambda>_. ret ())
              else ret ()) (\<lambda>_. ret (outcome_to_model r)) (?w2\<lparr>w_db := db'\<rparr>)
             = (Inr (outcome_to_model r), ?w2\<lparr>w_db := db2\<rparr>)" "tb_outcomes db2 = tb_outcomes db'"
          using noted [of "outcome_to_model r"] cg recorded by auto
        then show thesis using cont recorded that(2) [of r y] Inr id by auto
      next
        case new
        obtain db2 where "bind (if governed then bind (on_db (record_outcome (wall 1) y ?a)) (\<lambda>_. ret ())
              else ret ()) (\<lambda>_. ret y) (?w2\<lparr>w_db := db'\<rparr>) = (Inr y, ?w2\<lparr>w_db := db2\<rparr>)"
            "tb_outcomes db2 = tb_outcomes db'"
          using noted [of y] cg new by (auto simp: controls_good_def)
        then show thesis using cont new that(3) [of y "w_ops w1"] Inr os seen id by auto
      qed
    qed
  qed
qed

lemma new_outcome_row:
  assumes "outcome_row_of d db = None" and "tb_outcomes db' = tb_outcomes db @ [row]"
    and "ov_decision_id (ocr_outcome row) = d"
  shows "outcome_row_of d db' = Some row"
proof -
  have "List.find P (xs @ [y]) = Some y" if "List.find P xs = None" "P y" for P y and xs :: "outcome_row list"
    using that by (induction xs) (auto split: if_splits)
  then show ?thesis using assms by (simp add: outcome_row_of_def)
qed

text \<open>The database after a verification: untouched, or with an outcome recorded and noted.\<close>

lemma verify_db:
  assumes run: "verify_outcome L governed wall decision x c obs now w = (res, w')"
  obtains (untouched) "w_db w' = w_db w"
  | (recorded) y q d where "session (outcome_record L y) (w_db w) = (q, d)" "w_db w' = d"
  | (noted) y q d p where "session (outcome_record L y) (w_db w) = (q, d)"
      "w_db w' = snd (record_outcome (wall 1) p (cmd_action (ae_command x)) d)"
proof -
  obtain ob w1 where ob: "observe c obs w = (ob, w1)" by fastforce
  have db1: "w_db w1 = w_db w" using ob by (cases rule: observe_cases) simp_all
  obtain os where os: "hydrate_from_durable_action c x (w_ops w1) = (Inr (), os)" using hydrate_app by blast
  show thesis
  proof (cases "ob \<noteq> Inr () \<or> (\<exists>e. assess_outcome L decision x c obs (now_or now (wall 0)) os = Inl e)")
    case True
    then show thesis using run ob db1 os untouched
      by (cases ob) (auto simp: verify_outcome_def bind_def on_ops_app)
  next
    case False
    then obtain y where y: "ob = Inr ()" "assess_outcome L decision x c obs (now_or now (wall 0)) os = Inr y"
      by (cases "assess_outcome L decision x c obs (now_or now (wall 0)) os") auto
    obtain q d where q: "session (outcome_record L y) (w_db w) = (q, d)" by fastforce
    have rest: "(case q of Inl e \<Rightarrow> (Inl e, w1\<lparr>w_ops := os, w_db := d\<rparr>)
        | Inr p \<Rightarrow> bind (if governed then bind (on_db (record_outcome (wall 1) p (cmd_action (ae_command x)))) (\<lambda>_. ret ())
              else ret ()) (\<lambda>_. ret p) (w1\<lparr>w_ops := os, w_db := d\<rparr>)) = (res, w')"
      using run ob db1 os y q
      by (simp add: verify_outcome_def bind_def [of "observe _ _"] bind_def [of "on_ops _"] bind_def [of get_state]
          bind_def [of "of_res _"] bind_def [of "on_db (session _)"] on_ops_app on_db_app split: sum.splits)
    show thesis
    proof (cases "governed \<and> (\<exists>p. q = Inr p)")
      case True
      then obtain p where p: "q = Inr p" by blast
      have "w_db w' = snd (record_outcome (wall 1) p (cmd_action (ae_command x)) d)"
        using rest p True by (auto simp: bind_def on_db_app split: prod.splits sum.splits)
      then show thesis using noted [OF q] by blast
    next
      case False
      then have "w_db w' = d" using rest by (cases q) auto
      then show thesis using recorded [OF q] by blast
    qed
  qed
qed

lemma session_record_frame:
  assumes "session (outcome_record L y) db = (q, db')"
  shows "tb_actions db' = tb_actions db \<and> tb_decisions db' = tb_decisions db \<and>
    tb_approvals db' = tb_approvals db \<and> tb_events db' = tb_events db \<and> controls_good db' = controls_good db"
  using assms by (cases rule: outcome_record_cases) (simp_all add: controls_good_def)

lemma verify_frame:
  assumes cg: "controls_good (w_db w)"
    and "verify_outcome L governed wall decision x c obs now w = (res, w')"
  shows "tb_actions (w_db w') = tb_actions (w_db w) \<and> tb_decisions (w_db w') = tb_decisions (w_db w) \<and>
    tb_approvals (w_db w') = tb_approvals (w_db w) \<and> tb_events (w_db w') = tb_events (w_db w) \<and>
    controls_good (w_db w') \<and> (outcomes_good L (w_db w) \<longrightarrow> outcomes_good L (w_db w'))"
  using assms(2)
proof (cases rule: verify_db)
  case untouched
  then show ?thesis using cg by simp
next
  case (recorded y q d)
  then show ?thesis using session_record_frame [OF recorded(1)] outcome_record_good [OF _ recorded(1)] cg by simp
next
  case (noted y q d p)
  note f = session_record_frame [OF noted(1)]
  obtain r db2 where r: "record_outcome (wall 1) p (cmd_action (ae_command x)) d = (r, db2)" by fastforce
  have c1: "controls_good d" using f cg by simp
  have "controls_good db2" using record_outcome_good [OF c1, of "wall 1" p "cmd_action (ae_command x)"] r by simp
  then show ?thesis
    using noted(2) r f outcome_record_good [OF _ noted(1)] record_outcome_tables [OF c1 r]
    by (simp add: outcomes_good_def)
qed

section \<open>Properties\<close>

text \<open>A decision on the sample order, and its successful reroute, verified on an empty sandbox.\<close>

definition sample_option :: "recovery_action \<Rightarrow> recovery_option" where
  "sample_option a =
     \<lparr>ro_action = a, ro_feasible = True, ro_on_time_probability = 1,
      ro_expected_retained_gross_margin = 120, ro_intervention_cost = 8, ro_expected_failure_cost = 0,
      ro_expected_net_value = 112, ro_reversible = True, ro_confidence = 1, ro_constraints = [],
      ro_evidence_references = [sample_reference]\<rparr>"

definition sample_trace :: "policy_disposition \<Rightarrow> decision_trace" where
  "sample_trace d =
     \<lparr>dt_trace_version = ''decision-trace-v2'', dt_decision_id = ''dec_1'', dt_event_id = ''EVT-1'',
      dt_order_id = ''ORD-1'', dt_mode = APPROVAL,
      dt_risk = \<lparr>ra_failure_probability = 1/2, ra_confidence = 1, ra_model_version = ''risk-v2'',
        ra_feature_timestamp = utc 0, ra_factors = [], ra_data_quality_warnings = [],
        ra_evidence_references = [sample_reference]\<rparr>,
      dt_recommendation = \<lparr>dr_selected_action = REROUTE, dr_ranked_options = [sample_option REROUTE],
        dr_expected_incremental_value_vs_no_action = 50, dr_rejected_options = [], dr_confidence = 1\<rparr>,
      dt_policy = \<lparr>pe_disposition = d, pe_policy_version = ''policy-v2'', pe_control_version = ''controls'',
        pe_execution_allowed = (d = AUTO_EXECUTE), pe_reasons = []\<rparr>,
      dt_status = AWAITING_APPROVAL, dt_created_at = utc 0, dt_tenant_id = ''tenant-1''\<rparr>"

definition sample_succeeded :: action_execution where
  "sample_succeeded = succeeded (executing_of sample_lib (sample_command REROUTE) (utc 1)) [] (utc 2)"

definition sample_observation :: delivery_observation where
  "sample_observation = \<lparr>do_order_id = ''ORD-1'', do_delivered_on_time = False, do_observed_at = utc 5,
     do_source_reference = sample_reference\<rparr>"

definition sample_verification :: "lib \<Rightarrow> datetime \<Rightarrow> outcome_verification res \<times> sandbox world" where
  "sample_verification L t =
     verify_outcome L True (\<lambda>_. utc 9) (sample_trace REQUEST_APPROVAL) sample_succeeded sample_order
       (Some sample_observation) (Some t) (sample_world Map.empty)"

definition verified_status :: "outcome_verification res \<Rightarrow> verification_status option" where
  "verified_status r = (case r of Inl _ \<Rightarrow> None | Inr y \<Rightarrow> Some (ov_status y))"

lemma sample_verification_status:
  "verified_status (fst (sample_verification sample_lib (utc 7))) = Some VS_VERIFIED"
  by code_simp

lemma sample_succeeded_sel:
  "executable (cmd_action (ae_command sample_succeeded))" "ae_status sample_succeeded = AC_SUCCEEDED"
  "cmd_action (ae_command sample_succeeded) = REROUTE"
  by (simp_all add: sample_succeeded_def executing_of_def sample_command_def executable_def)

lemma sample_outcome_none: "outcome_row_of d (w_db (sample_world modes)) = None"
  by (simp add: outcome_row_of_def sample_world_def sample_controls_def bootstrap_def session_def
      empty_database_def)

lemma sample_verified:
  obtains y w' where "verify_outcome sample_lib True (\<lambda>_. utc 9) (sample_trace REQUEST_APPROVAL)
      sample_succeeded sample_order (Some sample_observation) (Some (utc 7)) (sample_world Map.empty) = (Inr y, w')"
    "ov_status y = VS_VERIFIED"
  using sample_verification_status
  by (cases "sample_verification sample_lib (utc 7)")
    (auto simp: verified_status_def sample_verification_def split: sum.splits)

text \<open>C21: A first verification reports the external systems as it leaves them, and what it reads of them is
  not independent: the action of a successful execution is written back before its postcondition is read.
  \<open>FAILED\<close> is reported exactly if the action was compensated or its postcondition does not hold then, so
  never for a successful action that can be written back, whatever the systems held before; \<open>VERIFIED\<close>
  exactly if the postcondition holds and a delivery was observed, on time or late; the observation passed
  in is the one reported, the realised margin is that of the delivery, and the outcome is stored.\<close>

theorem outcome_reports_systems:
  assumes "controls_good (w_db w)" and "executable (cmd_action (ae_command x))"
    and "outcome_row_of (dt_decision_id decision) (w_db w) = None"
    and "verify_outcome L governed wall decision x c obs now w = (Inr y, w')"
  shows "let holds = postcondition c (cmd_action (ae_command x)) (w_ops w');
      delivered = sb_delivery_outcomes (w_ops w') (oc_order_id c)
    in (ov_status y = VS_FAILED \<longleftrightarrow> ae_status x = AC_COMPENSATED \<or> \<not> holds) \<and>
      (ov_status y = VS_VERIFIED \<longleftrightarrow> ae_status x \<noteq> AC_COMPENSATED \<and> holds \<and> delivered \<noteq> None) \<and>
      (ae_status x \<in> {AC_SUCCEEDED, AC_VERIFIED} \<and>
        (cmd_action (ae_command x) = REROUTE \<longrightarrow> oc_alternative_location_id c \<noteq> None) \<longrightarrow> holds) \<and>
      ov_on_time_delivery_observed y = delivered \<and>
      (\<forall>d. obs = Some d \<longrightarrow> delivered = Some (do_delivered_on_time d)) \<and>
      realised_margin c (cmd_expected_intervention_cost (ae_command x)) delivered
        = Inr (ov_realised_gross_margin y) \<and>
      outcome_get_by_decision (dt_decision_id decision) (w_db w')
        = Some (y\<lparr>ov_verified_at := to_utc (ov_verified_at y)\<rparr>)"
  using assms(1,2,4)
proof (cases rule: verify_cases)
  case (new z os)
  from new(4) have id: "ov_decision_id y = dt_decision_id decision"
    using new(1) by (auto elim!: assess_outcome_InrE)
  have "outcome_row_of (dt_decision_id decision) (w_db w') =
      Some \<lparr>ocr_outcome = y, ocr_fingerprint = outcome_fingerprint L y\<rparr>"
    by (rule new_outcome_row [OF new(2)]) (use new(1,3) id in simp_all)
  moreover have "postcondition c (cmd_action (ae_command x)) (w_ops w')"
    if "ae_status x \<in> {AC_SUCCEEDED, AC_VERIFIED}" "cmd_action (ae_command x) = REROUTE \<longrightarrow> oc_alternative_location_id c \<noteq> None"
    by (rule hydrate_postcondition [OF new(5) that(1) assms(2) that(2)])
  ultimately show ?thesis using new(1,4,6)
    by (auto simp: outcome_get_by_decision_row outcome_to_model_def outcome_status_def Let_def
        split: if_splits elim!: assess_outcome_InrE)
qed (use assms(3) in simp_all)

text \<open>A late delivery after the reroute of the sample order: the systems held nothing of the reroute, and
  the verification reports it verified, late, and stores the outcome.\<close>

lemma outcome_reports_systems_witness:
  "\<not> postcondition sample_order REROUTE (w_ops (sample_world Map.empty)) \<and>
   (\<exists>y w'. verify_outcome sample_lib True (\<lambda>_. utc 9) (sample_trace REQUEST_APPROVAL) sample_succeeded sample_order
        (Some sample_observation) (Some (utc 7)) (sample_world Map.empty) = (Inr y, w') \<and>
      ov_status y = VS_VERIFIED \<and> ov_on_time_delivery_observed y = Some False \<and>
      postcondition sample_order REROUTE (w_ops w') \<and>
      outcome_get_by_decision (dt_decision_id (sample_trace REQUEST_APPROVAL)) (w_db w')
        = Some (y\<lparr>ov_verified_at := to_utc (ov_verified_at y)\<rparr>))"
proof -
  obtain y w' where run: "verify_outcome sample_lib True (\<lambda>_. utc 9) (sample_trace REQUEST_APPROVAL)
      sample_succeeded sample_order (Some sample_observation) (Some (utc 7)) (sample_world Map.empty) = (Inr y, w')"
    "ov_status y = VS_VERIFIED" by (rule sample_verified)
  from outcome_reports_systems [OF sample_world_controls sample_succeeded_sel(1) sample_outcome_none run(1)] run
    sample_world_untouched [of Map.empty] show ?thesis
    by (intro conjI exI [of _ y] exI [of _ w']) (simp_all add: Let_def sample_observation_def sample_succeeded_sel(3))
qed

text \<open>A successful action never fails its verification, whatever the external systems hold:
  they are first rebuilt from the stored action, so the postcondition that is then read holds by
  construction.\<close>

theorem verification_trusts_stored_action:
  assumes "controls_good (w_db w)" and "executable (cmd_action (ae_command x))"
    and "outcome_row_of (dt_decision_id decision) (w_db w) = None"
    and "ae_status x \<in> {AC_SUCCEEDED, AC_VERIFIED}"
    and "cmd_action (ae_command x) = REROUTE \<longrightarrow> oc_alternative_location_id c \<noteq> None"
    and "verify_outcome L governed wall decision x c obs now w = (Inr y, w')"
  shows "ov_status y \<noteq> VS_FAILED \<and> postcondition c (cmd_action (ae_command x)) (w_ops w')"
  using assms(1,2,6)
proof (cases rule: verify_cases)
  case (new z os)
  have "postcondition c (cmd_action (ae_command x)) (w_ops w')"
    by (rule hydrate_postcondition [OF new(5) assms(4,2,5)])
  then show ?thesis using new(1,4) assms(4)
    by (auto simp: outcome_status_def split: if_splits elim!: assess_outcome_InrE)
qed (use assms(3) in simp_all)

text \<open>C22: The outcome of a decision is recorded once: a later verification never changes it, and
  succeeds only with the very time of the recorded one. At any other time it raises.\<close>

theorem outcome_recorded_once:
  assumes "controls_good (w_db w)" and "executable (cmd_action (ae_command x))"
    and "outcomes_good L (w_db w)" and "distinguishes_times L"
    and "outcome_row_of (dt_decision_id decision) (w_db w) = Some r"
    and "verify_outcome L governed wall decision x c obs now w = (res, w')"
  shows "tb_outcomes (w_db w') = tb_outcomes (w_db w) \<and>
    (\<forall>y. res = Inr y \<longrightarrow> y = outcome_to_model r \<and> ov_verified_at (ocr_outcome r) = now_or now (wall 0))"
  using assms(1,2,6)
proof (cases rule: verify_cases)
  case (recorded q y)
  have q: "q = r" using recorded(3) assms(5) by simp
  have "r \<in> set (tb_outcomes (w_db w))" using assms(5) by (auto simp: outcome_row_of_def find_Some_iff)
  then have "outcome_fingerprint L (ocr_outcome r) = outcome_fingerprint L y"
    using assms(3) recorded(5) q by (simp add: outcomes_good_def list_all_iff outcome_row_good_def)
  then have "ov_verified_at (ocr_outcome r) = ov_verified_at y"
    using assms(4) unfolding distinguishes_times_def by blast
  then show ?thesis using recorded(1,2,4) q by (auto elim!: assess_outcome_InrE)
qed (use assms(5) in simp_all)

definition sample_time_text :: "datetime \<Rightarrow> string" where
  "sample_time_text t = str_int (dt_local t) @ CHR ''|'' #
     (case dt_offset t of None \<Rightarrow> [] | Some z \<Rightarrow> str_int z)"

definition sample_outcome_lib :: lib where
  "sample_outcome_lib = sample_execution_lib\<lparr>json_outcome := (\<lambda>y. sample_time_text (ov_verified_at y))\<rparr>"

lemma sample_distinguishes_times: "distinguishes_times sample_outcome_lib"
proof -
  have "s = t" if "sample_time_text s = sample_time_text t" for s t
    using that
    by (cases s; cases t; auto simp: sample_time_text_def str_int_append_sep str_int_nonempty [THEN not_sym] split: option.splits)
  then show ?thesis
    by (simp add: distinguishes_times_def outcome_fingerprint_def canonical_fingerprint_def
        sample_outcome_lib_def sample_execution_lib_def sample_lib_def)
qed

lemma outcome_recorded_once_witness:
  "\<nexists>y. fst (verify_outcome sample_outcome_lib True (\<lambda>_. utc 9) (sample_trace REQUEST_APPROVAL) sample_succeeded
     sample_order None (Some (utc 8)) (snd (sample_verification sample_outcome_lib (utc 7)))) = Inr y"
proof -
  let ?L = sample_outcome_lib and ?d = "sample_trace REQUEST_APPROVAL"
  let ?w1 = "snd (sample_verification ?L (utc 7))"
  have run: "verify_outcome ?L True (\<lambda>_. utc 9) ?d sample_succeeded sample_order
      (Some sample_observation) (Some (utc 7)) (sample_world Map.empty) = (fst (sample_verification ?L (utc 7)), ?w1)"
    by (simp add: sample_verification_def)
  have st: "case outcome_row_of (dt_decision_id ?d) (w_db ?w1) of
      Some r \<Rightarrow> ov_verified_at (ocr_outcome r) = utc 7 | None \<Rightarrow> False" by code_simp
  then obtain r where r: "outcome_row_of (dt_decision_id ?d) (w_db ?w1) = Some r"
    "ov_verified_at (ocr_outcome r) = utc 7" by (auto split: option.splits)
  have "outcomes_good ?L (w_db (sample_world Map.empty))"
    by (simp add: outcomes_good_def sample_world_def sample_controls_def bootstrap_def session_def
        empty_database_def keys_distinct_def)
  with verify_frame [OF sample_world_controls run]
  have g: "controls_good (w_db ?w1)" "outcomes_good ?L (w_db ?w1)" by simp_all
  obtain res w2 where "verify_outcome ?L True (\<lambda>_. utc 9) ?d sample_succeeded sample_order None
      (Some (utc 8)) ?w1 = (res, w2)" by fastforce
  with outcome_recorded_once [OF g(1) sample_succeeded_sel(1) g(2) sample_distinguishes_times r(1) this] r(2)
  show ?thesis by (auto simp: now_or_def)
qed

end
