(* ===== verification/Workflow.thy ===== *)
theory Workflow
  imports Verification Orchestrator
begin

text \<open>
  \<^verbatim>\<open>src/src/promiseguard/workflow.py\<close>: the recovery workflow, which ties an immutable decision
  to its approval, its governed execution and its verification. \<open>workflow_step\<close> is one call of
  any operation that reaches the tables, and the invariant of all reachable states says on
  whose authority every action was taken.
\<close>

section \<open>Reading decisions and requests\<close>

definition workflow_decision :: "string \<Rightarrow> ('w world, decision_trace) prog" where
  "workflow_decision decision_id = (\<lambda>w.
     case sql_get decision_id (w_db w) of
       None \<Rightarrow> (Inl (err RecordNotFoundError (''decision '' @ repr_str decision_id @ '' not found'')), w)
     | Some d \<Rightarrow> (Inr d, w))"

definition workflow_request :: "string \<Rightarrow> ('w world, evaluation_request) prog" where
  "workflow_request event_id = (\<lambda>w.
     case get_request_payload event_id (w_db w) of
       None \<Rightarrow> (Inl (err RecordNotFoundError (''event '' @ repr_str event_id @ '' not found'')), w)
     | Some q \<Rightarrow> checked valid_evaluation_request q w)"

text \<open>The option a decision selected: the first ranked one with its action.\<close>

definition selected_option :: "decision_trace \<Rightarrow> recovery_option res" where
  "selected_option decision =
     py_next (\<lambda>r. ro_action r = dr_selected_action (dt_recommendation decision))
       (dr_ranked_options (dt_recommendation decision))"

definition assert_approval_authority ::
  "approval_decision_input \<Rightarrow> decision_trace \<Rightarrow> evaluation_request \<Rightarrow> unit res" where
  "assert_approval_authority inp decision request =
     (if ad_actor_role inp \<noteq> OPERATIONS_ANALYST then Inr ()
      else bind_res (selected_option decision) (\<lambda>selected.
        if oc_restricted_product (er_order request)
        then Inl (err ApprovalError ''restricted products require operations-manager approval'')
        else if ro_intervention_cost selected > 20
        then Inl (err ApprovalError ''intervention exceeds the operations-analyst delegated cost limit'')
        else Inr ()))"

section \<open>The command of a decision\<close>

fun command_parameters :: "recovery_action \<Rightarrow> order_context \<Rightarrow> (string \<times> py_value) list option" where
  "command_parameters REROUTE c = Some
     [(''from_location'', PyStr (oc_current_fulfilment_location c)),
      (''to_location'', case oc_alternative_location_id c of None \<Rightarrow> PyNone | Some l \<Rightarrow> PyStr l),
      (''sku'', PyStr (oc_sku c)),
      (''quantity'', PyInt (oc_quantity c))]"
| "command_parameters CARRIER_UPGRADE c = Some
     [(''from_service'', PyStr (oc_current_carrier_service c)),
      (''to_service'', PyStr (oc_upgraded_carrier_service c))]"
| "command_parameters SPLIT_SHIPMENT c = Some
     [(''split'', PyBool True), (''quantity'', PyInt (oc_quantity c))]"
| "command_parameters _ c = None"

definition idempotency_material :: "decision_trace \<Rightarrow> string" where
  "idempotency_material decision =
     join ''|''
       [dt_decision_id decision,
        recovery_action_value (dr_selected_action (dt_recommendation decision)),
        pe_policy_version (dt_policy decision)]"

definition command_for_decision ::
  "lib \<Rightarrow> string \<Rightarrow> evaluation_request \<Rightarrow> string \<Rightarrow> string option \<Rightarrow> ('w world, action_command) prog"
where
  "command_for_decision L decision_id request actor_id approved_by =
     bind (workflow_decision decision_id) (\<lambda>decision.
     bind (of_res (selected_option decision)) (\<lambda>selected.
     let action = dr_selected_action (dt_recommendation decision)
     in case command_parameters action (er_order request) of
          None \<Rightarrow> raise (err WorkflowError (''action '' @ recovery_action_value action @ '' is not executable''))
        | Some parameters \<Rightarrow>
            checked valid_action_command
              \<lparr>cmd_decision_id = dt_decision_id decision,
               cmd_order_id = oc_order_id (er_order request),
               cmd_action = action,
               cmd_idempotency_key = digest_id L ''pg:'' 32 (idempotency_material decision),
               cmd_requested_by = actor_id,
               cmd_approved_by = approved_by,
               cmd_expected_intervention_cost = ro_intervention_cost selected,
               cmd_parameters = parameters\<rparr>))"

section \<open>The operations\<close>

definition workflow_state_of ::
  "decision_trace \<Rightarrow> approval_record option \<Rightarrow> action_execution option \<Rightarrow> outcome_verification option
     \<Rightarrow> workflow_state"
where
  "workflow_state_of decision approval execution outcome =
     \<lparr>ws_decision = decision, ws_approval = approval, ws_execution = execution, ws_outcome = outcome\<rparr>"

text \<open>Building the command of a decision and executing it, as \<open>submit\<close> and
  \<open>approve_and_execute\<close> both end.\<close>

definition execute_for ::
  "lib \<Rightarrow> bool \<Rightarrow> 'w operations_port \<Rightarrow> wall \<Rightarrow> string \<Rightarrow> decision_trace \<Rightarrow> evaluation_request \<Rightarrow> string
     \<Rightarrow> string option \<Rightarrow> approval_record option \<Rightarrow> datetime option \<Rightarrow> ('w world, workflow_state) prog"
where
  "execute_for L governed port wall decision_id decision request actor_id approved_by approval now =
     bind (command_for_decision L decision_id request actor_id approved_by) (\<lambda>command.
     bind (execute_action L governed port wall command (er_order request) now) (\<lambda>x.
     ret (workflow_state_of decision approval (Some x) None)))"

definition submit ::
  "lib \<Rightarrow> int \<Rightarrow> bool \<Rightarrow> 'w operations_port \<Rightarrow> wall \<Rightarrow> string \<Rightarrow> string \<Rightarrow> datetime option
     \<Rightarrow> ('w world, workflow_state) prog"
where
  "submit L ttl governed port wall decision_id actor_id now =
     bind (workflow_decision decision_id) (\<lambda>decision.
     case pe_disposition (dt_policy decision) of
       AUTO_EXECUTE \<Rightarrow>
         bind (workflow_request (dt_event_id decision)) (\<lambda>request.
         execute_for L governed port wall decision_id decision request actor_id None None now)
     | REQUEST_APPROVAL \<Rightarrow>
         bind (on_db (approval_request L ttl decision actor_id now (wall 0))) (\<lambda>a.
         ret (workflow_state_of decision (Some a) None None))
     | _ \<Rightarrow> ret (workflow_state_of decision None None None))"

text \<open>The approval call in its three parts: the pending record, its decision and the request, and
  the approval with the execution it releases.\<close>

definition decide_and_execute ::
  "lib \<Rightarrow> environ \<Rightarrow> bool \<Rightarrow> 'w operations_port \<Rightarrow> wall \<Rightarrow> string \<Rightarrow> approval_decision_input
     \<Rightarrow> datetime option \<Rightarrow> decision_trace \<Rightarrow> evaluation_request \<Rightarrow> ('w world, workflow_state) prog"
where
  "decide_and_execute L env governed port wall approval_id inp now decision request =
     bind (on_db (approve env approval_id inp now (wall 0))) (\<lambda>approval.
     if ar_status approval \<noteq> AP_APPROVED
     then raise (err WorkflowError ''approval did not reach APPROVED state'')
     else
       execute_for L governed port (\<lambda>n. wall (Suc n)) (dt_decision_id decision) decision request
         (ar_requested_by approval) (ar_decided_by approval) (Some approval) now)"

definition approve_pending ::
  "lib \<Rightarrow> environ \<Rightarrow> bool \<Rightarrow> 'w operations_port \<Rightarrow> wall \<Rightarrow> string \<Rightarrow> approval_decision_input
     \<Rightarrow> datetime option \<Rightarrow> approval_record \<Rightarrow> ('w world, workflow_state) prog"
where
  "approve_pending L env governed port wall approval_id inp now pending =
     bind (workflow_decision (ar_decision_id pending)) (\<lambda>decision.
     if ar_requested_action pending \<noteq> dr_selected_action (dt_recommendation decision)
     then raise (err WorkflowError ''approval action no longer matches the immutable decision'')
     else
       bind (workflow_request (dt_event_id decision)) (\<lambda>request.
       bind (of_res (assert_approval_authority inp decision request)) (\<lambda>_.
       decide_and_execute L env governed port wall approval_id inp now decision request)))"

definition approve_and_execute ::
  "lib \<Rightarrow> environ \<Rightarrow> bool \<Rightarrow> 'w operations_port \<Rightarrow> wall \<Rightarrow> string \<Rightarrow> approval_decision_input
     \<Rightarrow> datetime option \<Rightarrow> ('w world, workflow_state) prog"
where
  "approve_and_execute L env governed port wall approval_id inp now =
     bind (on_db (approval_service_get approval_id)) (\<lambda>found.
     case found of
       None \<Rightarrow> raise (err RecordNotFoundError (''approval '' @ repr_str approval_id @ '' not found''))
     | Some pending \<Rightarrow> approve_pending L env governed port wall approval_id inp now pending)"

definition reject_approval ::
  "environ \<Rightarrow> wall \<Rightarrow> string \<Rightarrow> approval_decision_input \<Rightarrow> datetime option
     \<Rightarrow> ('w world, workflow_state) prog"
where
  "reject_approval env wall approval_id inp now =
     bind (on_db (reject env approval_id inp now (wall 0))) (\<lambda>approval.
     bind (workflow_decision (ar_decision_id approval)) (\<lambda>decision.
     ret (workflow_state_of decision (Some approval) None None)))"

definition verify_decision ::
  "lib \<Rightarrow> bool \<Rightarrow> wall \<Rightarrow> string \<Rightarrow> delivery_observation option \<Rightarrow> datetime option
     \<Rightarrow> (sandbox world, workflow_state) prog"
where
  "verify_decision L governed wall decision_id obs now =
     bind (workflow_decision decision_id) (\<lambda>decision.
     bind (gateway_get_by_decision decision_id) (\<lambda>found.
     case found of
       None \<Rightarrow> raise (err RecordNotFoundError ''decision has no executed action'')
     | Some x \<Rightarrow>
         bind (workflow_request (dt_event_id decision)) (\<lambda>request.
         bind (verify_outcome L governed wall decision x (er_order request) obs now) (\<lambda>outcome.
         ret (workflow_state_of decision None (Some x) (Some outcome))))))"

definition workflow_get_state :: "string \<Rightarrow> ('w world, workflow_state) prog" where
  "workflow_get_state decision_id =
     bind (workflow_decision decision_id) (\<lambda>decision.
     bind (gateway_get_by_decision decision_id) (\<lambda>execution.
     bind (outcome_of_decision decision_id) (\<lambda>outcome.
     bind (on_db (\<lambda>db. (Inr (approval_get_by_decision decision_id db), db))) (\<lambda>approval.
     ret (workflow_state_of decision approval execution outcome)))))"

section \<open>What an execution leaves alone\<close>

text \<open>An execution of a command changes no decision, approval, event or agent run, and adds no
  action of another command.\<close>

definition action_frame :: "action_command \<Rightarrow> database \<Rightarrow> database \<Rightarrow> bool" where
  "action_frame c db db' \<longleftrightarrow>
     tb_decisions db' = tb_decisions db \<and> tb_approvals db' = tb_approvals db \<and>
     tb_events db' = tb_events db \<and> tb_outcomes db' = tb_outcomes db \<and>
     tb_budgets db' = tb_budgets db \<and> tb_runs db' = tb_runs db \<and>
     acr_command ` set (tb_actions db') \<subseteq> insert c (acr_command ` set (tb_actions db))"

interpretation action_frame: frame_relation "action_frame c" for c
  by (unfold_locales; unfold action_frame_def; simp; blast)

definition world_frame :: "action_command \<Rightarrow> 'w world \<Rightarrow> 'w world \<Rightarrow> bool" where
  "world_frame c w w' \<longleftrightarrow> action_frame c (w_db w) (w_db w')"

interpretation world_frame: frame_relation "world_frame c" for c
  by unfold_locales (auto simp: world_frame_def intro: action_frame.refl action_frame.trans)

lemma keeps_on_db: "keeps (action_frame c) m \<Longrightarrow> keeps (world_frame c) (on_db m)"
  by (rule keepsI) (auto simp: on_db_app world_frame_def split: prod.splits dest: keepsD)

lemma keeps_on_ops: "keeps (world_frame c) (on_ops m)"
  by (rule keepsI) (auto simp: on_ops_app world_frame_def action_frame.refl split: prod.splits)

lemma keeps_action_update: "keeps (action_frame c) (action_update x)"
proof (rule keepsI)
  fix db r db' assume "action_update x db = (r, db')"
  then show "action_frame c db db'"
    by (auto simp: action_update_def action_frame_def action_values_def split: option.splits
        dest!: row_put_set row_get_SomeD)
qed

lemma keeps_record_execution: "keeps (action_frame c) (record_execution t x)"
proof -
  have "keeps (action_frame c) (read_profile a)" for a
    by (rule keepsI) (auto dest!: read_unchanged simp: action_frame.refl)
  moreover have "keeps (action_frame c) (record_evidence t k a kind s cm)" for k a kind s cm
    unfolding record_evidence_def
    by (intro action_frame.keeps_session keepsI)
      (auto simp: Let_def action_frame_def split: option.splits if_splits)
  ultimately show ?thesis by (simp add: record_execution_def keeps_def)
qed

lemma keeps_read_kill_switch: "keeps (action_frame c) read_kill_switch"
  by (rule keepsI) (auto dest!: read_unchanged simp: action_frame.refl)

lemma keeps_claim: "keeps (action_frame c) (claim_execution L c t)"
  unfolding claim_execution_def
  by (intro action_frame.keeps_session keepsI)
    (auto simp: Let_def bind_def action_record_def action_frame_def row_insert_def
      split: option.splits if_splits sum.splits)

lemma keeps_run_claimed: "keeps (world_frame c) (run_claimed governed port wall x order t)"
  unfolding run_claimed_def note_execution_def
  by (intro world_frame.keeps_bind world_frame.keeps_catch keeps_on_ops keeps_on_db
      action_frame.keeps_session keeps_action_update world_frame.keeps_pure)
    (auto intro!: world_frame.keeps_bind keeps_on_db keeps_record_execution)

lemma keeps_execute_action: "keeps (world_frame c) (execute_action L governed port wall c order now)"
proof -
  have "keeps (world_frame c) (case r of Inl y \<Rightarrow> ret y | Inr x \<Rightarrow> run_claimed governed port wall x order t)" for r t
    by (cases r) (auto intro: keeps_run_claimed)
  then show ?thesis
    unfolding execute_action_def Let_def
    by (intro world_frame.keeps_bind)
      (auto intro!: world_frame.keeps_bind keeps_on_db keeps_claim keeps_read_kill_switch)
qed

section \<open>Authority\<close>

text \<open>Who stands behind a command: a decision of the ledger that selected its action, and either
  an autonomous disposition of that decision or an approval by someone other than the
  requester, an analyst only up to the delegated cost.\<close>

definition approved_by_other :: "database \<Rightarrow> action_command \<Rightarrow> string \<Rightarrow> bool" where
  "approved_by_other db c who \<longleftrightarrow>
     (\<exists>a\<in>set (tb_approvals db).
        apr_decision_id a = cmd_decision_id c \<and> apr_requested_action a = cmd_action c \<and>
        apr_status a = AP_APPROVED \<and> apr_decided_by a = Some who \<and> who \<noteq> apr_requested_by a \<and>
        (apr_decided_by_role a = Some OPERATIONS_MANAGER \<or>
         apr_decided_by_role a = Some OPERATIONS_ANALYST \<and> cmd_expected_intervention_cost c \<le> 20))"

definition granted :: "database \<Rightarrow> action_command \<Rightarrow> bool" where
  "granted db c \<longleftrightarrow>
     (\<exists>t. sql_get (cmd_decision_id c) db = Some t \<and>
        cmd_action c = dr_selected_action (dt_recommendation t) \<and> executable (cmd_action c) \<and>
        (case cmd_approved_by c of
           None \<Rightarrow> pe_disposition (dt_policy t) = AUTO_EXECUTE
         | Some who \<Rightarrow> approved_by_other db c who))"

definition autonomous_decision_good :: "decision_trace \<Rightarrow> bool" where
  "autonomous_decision_good t \<longleftrightarrow>
     (pe_disposition (dt_policy t) = AUTO_EXECUTE \<longrightarrow>
        dt_mode t = BOUNDED_AUTONOMY \<and>
        0 < dr_expected_incremental_value_vs_no_action (dt_recommendation t))"

definition workflow_good :: "lib \<Rightarrow> database \<Rightarrow> bool" where
  "workflow_good L db \<longleftrightarrow>
     decisions_good L db \<and> approvals_good db \<and> actions_good L db \<and> controls_good db \<and>
     (\<forall>r\<in>set (tb_decisions db). autonomous_decision_good (dcr_trace r)) \<and>
     (\<forall>r\<in>set (tb_actions db). granted db (acr_command r))"

text \<open>Grants only grow: decisions are immutable and approved rows stay.\<close>

definition grants_kept :: "database \<Rightarrow> database \<Rightarrow> bool" where
  "grants_kept db db' \<longleftrightarrow>
     (\<forall>k t. sql_get k db = Some t \<longrightarrow> sql_get k db' = Some t) \<and>
     (\<forall>a\<in>set (tb_approvals db). apr_status a = AP_APPROVED \<longrightarrow> a \<in> set (tb_approvals db'))"

lemma granted_kept: "granted db c \<Longrightarrow> grants_kept db db' \<Longrightarrow> granted db' c"
  unfolding granted_def grants_kept_def approved_by_other_def
  by (fastforce split: option.splits)

lemma sql_get_cong: "tb_decisions db' = tb_decisions db \<Longrightarrow> sql_get k db' = sql_get k db"
  by (simp add: sql_get_def decision_get_def)

lemma same_grants:
  assumes "tb_decisions db' = tb_decisions db" and "tb_approvals db' = tb_approvals db"
  shows "grants_kept db db' \<and> granted db' c = granted db c"
proof -
  have "approved_by_other db' c = approved_by_other db c"
    by (rule ext) (simp add: approved_by_other_def assms(2))
  then show ?thesis using assms(2) sql_get_cong [OF assms(1)] by (simp add: grants_kept_def granted_def split: option.split)
qed

lemma good_cong:
  "tb_decisions db' = tb_decisions db \<Longrightarrow> decisions_good L db' = decisions_good L db"
  "tb_approvals db' = tb_approvals db \<Longrightarrow> approvals_good db' = approvals_good db"
  by (simp_all add: decisions_good_def approvals_good_def)

text \<open>The operations on one table.\<close>

lemma workflow_good_controls:
  assumes "workflow_good L db" and "controls_good db'"
    and "tb_decisions db' = tb_decisions db" "tb_approvals db' = tb_approvals db" "tb_actions db' = tb_actions db"
  shows "workflow_good L db'"
  using assms(1,2) conjunct2 [OF same_grants [OF assms(3,4)]]
  by (simp add: workflow_good_def good_cong(1) [OF assms(3)] good_cong(2) [OF assms(4)]
      actions_good_cong [OF assms(5)] assms(3,5))

lemma workflow_good_approvals:
  assumes "workflow_good L db" and "approvals_good (db\<lparr>tb_approvals := rows\<rparr>)"
    and "\<forall>a\<in>set (tb_approvals db). apr_status a = AP_APPROVED \<longrightarrow> a \<in> set rows"
  shows "workflow_good L (db\<lparr>tb_approvals := rows\<rparr>)"
proof -
  have "grants_kept db (db\<lparr>tb_approvals := rows\<rparr>)"
    using assms(3) by (simp add: grants_kept_def sql_get_def decision_get_def)
  then show ?thesis
    using assms(1,2) granted_kept unfolding workflow_good_def
    by (auto simp: decisions_good_def actions_good_def controls_good_def)
qed

lemma workflow_good_decision:
  assumes g: "workflow_good L db" and t: "autonomous_decision_good t"
  shows "workflow_good L (snd (sql_record L t db))"
proof -
  have dg: "decisions_good L db" using g by (simp add: workflow_good_def)
  let ?db = "snd (sql_record L t db)"
  have tabs: "tb_approvals ?db = tb_approvals db" "tb_actions ?db = tb_actions db" "controls_good ?db = controls_good db"
    "approvals_good ?db = approvals_good db" "actions_good L ?db = actions_good L db"
    by (auto simp: sql_record_app controls_good_def approvals_good_def actions_good_def split: option.split)
  have "grants_kept db ?db"
    using sql.put_immutable [OF dg] by (simp add: grants_kept_def tabs)
  moreover have "\<forall>r\<in>set (tb_decisions ?db). autonomous_decision_good (dcr_trace r)"
    using g t by (auto simp: sql_record_app workflow_good_def split: option.split)
  ultimately show ?thesis
    using g sql.put_good [OF dg] granted_kept by (auto simp: workflow_good_def tabs)
qed

text \<open>A granted command may be executed.\<close>

lemma workflow_good_execute:
  assumes g: "workflow_good L (w_db w)" and fp: "distinguishes_decisions L" and c: "granted (w_db w) c"
    and run: "execute_action L governed sandbox_port wall c order now w = (res, w')"
  shows "workflow_good L (w_db w') \<and> grants_kept (w_db w) (w_db w')"
proof -
  have G: "actions_good L (w_db w)" "controls_good (w_db w)" using g by (simp_all add: workflow_good_def)
  have ex: "executable (cmd_action c)" using c by (auto simp: granted_def)
  obtain os where os: "p_seed sandbox_port order (w_ops w) = (Inr (), os)" using sandbox_seed by blast
  have G': "actions_good L (w_db w') \<and> controls_good (w_db w')"
    using G fp ex os run by (cases rule: execute_cases) (use G in simp_all)
  have fr: "action_frame c (w_db w) (w_db w')"
    using keepsD [OF keeps_execute_action run] by (simp add: world_frame_def)
  then have tabs: "tb_decisions (w_db w') = tb_decisions (w_db w)" "tb_approvals (w_db w') = tb_approvals (w_db w)"
    by (simp_all add: action_frame_def)
  have "granted (w_db w') (acr_command r)" if "r \<in> set (tb_actions (w_db w'))" for r
  proof -
    have "acr_command r \<in> insert c (acr_command ` set (tb_actions (w_db w)))"
      using fr that unfolding action_frame_def by blast
    then have "granted (w_db w) (acr_command r)" using g c by (auto simp: workflow_good_def)
    then show ?thesis using same_grants [OF tabs] by blast
  qed
  then show ?thesis
    using g G' same_grants [OF tabs] good_cong(1) [OF tabs(1)] good_cong(2) [OF tabs(2)]
    by (simp add: workflow_good_def tabs)
qed

lemma selected_option_actionD:
  "selected_option t = Inr r \<Longrightarrow> ro_action r = dr_selected_action (dt_recommendation t)"
  unfolding selected_option_def by (auto dest: py_next_InrD)

lemma command_parameters_executable: "command_parameters a c = Some ps \<Longrightarrow> executable a"
  by (cases a) (simp_all add: executable_def)

text \<open>The command of a decision names that decision, its action and its cost.\<close>

lemma command_for_decision_InrD:
  assumes "command_for_decision L d q actor by w = (Inr c, w')" and "decisions_good L' (w_db w)"
  shows "w' = w \<and> cmd_decision_id c = d \<and> cmd_approved_by c = by \<and> executable (cmd_action c) \<and>
    (\<exists>t r. sql_get d (w_db w) = Some t \<and> cmd_action c = dr_selected_action (dt_recommendation t) \<and>
       selected_option t = Inr r \<and> cmd_expected_intervention_cost c = ro_intervention_cost r)"
proof -
  obtain t where t: "sql_get d (w_db w) = Some t"
    using assms(1) by (auto simp: command_for_decision_def workflow_decision_def bind_def split: option.splits)
  have "dt_decision_id t = d" using sql.look_id [OF assms(2) t] .
  then show ?thesis
    using assms(1) t
    by (auto simp: command_for_decision_def workflow_decision_def bind_def Let_def checked_app
        split: sum.splits option.splits if_splits dest: command_parameters_executable)
qed

lemma command_for_decision_state: "command_for_decision L d q actor by w = (r, w') \<Longrightarrow> w' = w"
  by (auto simp: command_for_decision_def workflow_decision_def bind_def Let_def checked_app
      split: sum.splits option.splits if_splits)

lemma workflow_request_state: "workflow_request k w = (r, w') \<Longrightarrow> w' = w"
  by (auto simp: workflow_request_def checked_app split: option.splits if_splits)

lemma workflow_decision_state: "workflow_decision k w = (r, w') \<Longrightarrow> w' = w"
  by (auto simp: workflow_decision_def split: option.splits)

lemma approval_kept_rows:
  assumes "approvals_good db" and "row_get apr_approval_id k (tb_approvals db) = Some r" and "apr_status r = AP_PENDING"
    and "a \<in> set (tb_approvals db)" and "apr_status a = AP_APPROVED" and "apr_approval_id q = apr_approval_id r"
  shows "a \<in> set (row_put apr_approval_id q (tb_approvals db))"
proof -
  have kd: "keys_distinct apr_approval_id (tb_approvals db)" using assms(1) by (simp add: approvals_good_def)
  have "apr_approval_id a \<noteq> apr_approval_id r"
  proof
    assume "apr_approval_id a = apr_approval_id r"
    from kd assms(4) _ this have "a = r" by (rule keys_distinct_inj) (use row_get_SomeD [OF assms(2)] in simp)
    then show False using assms(3,5) by simp
  qed
  then show ?thesis using assms(4,6) by (force simp: row_put_def)
qed

text \<open>Deciding and requesting approvals keep the invariant.\<close>

lemma workflow_good_decide:
  assumes g: "workflow_good L db" and t: "target \<in> {AP_APPROVED, AP_REJECTED}"
  shows "workflow_good L (snd (approval_decide env k inp target now wl db)) \<and>
    tb_decisions (snd (approval_decide env k inp target now wl db)) = tb_decisions db \<and>
    tb_events (snd (approval_decide env k inp target now wl db)) = tb_events db"
proof -
  have ag: "approvals_good db" using g by (simp add: workflow_good_def)
  then have kd: "keys_distinct apr_approval_id (tb_approvals db)" by (simp add: approvals_good_def)
  note good' = approval_decide_good [OF ag t, of env k inp now wl]
  from kd show ?thesis
  proof (rule approval_decide_rows [of db env k inp target now wl])
    assume "snd (approval_decide env k inp target now wl db) = db"
    then show ?thesis using g by simp
  next
    fix r u
    let ?rows = "row_put apr_approval_id (approval_values u r) (tb_approvals db)"
    assume r: "row_get apr_approval_id k (tb_approvals db) = Some r" "apr_status r = AP_PENDING"
      and db': "snd (approval_decide env k inp target now wl db) = db\<lparr>tb_approvals := ?rows\<rparr>"
    have "workflow_good L (db\<lparr>tb_approvals := ?rows\<rparr>)"
    proof (rule workflow_good_approvals [OF g])
      show "approvals_good (db\<lparr>tb_approvals := ?rows\<rparr>)" using good' by (simp only: db')
      show "\<forall>a\<in>set (tb_approvals db). apr_status a = AP_APPROVED \<longrightarrow> a \<in> set ?rows"
        using approval_kept_rows [OF ag r] by simp
    qed
    then show ?thesis unfolding db' by simp
  qed
qed

lemma workflow_good_request:
  assumes g: "workflow_good L db"
  shows "workflow_good L (snd (approval_request L ttl d who now wl db))"
proof -
  have ag: "approvals_good db" using g by (simp add: workflow_good_def)
  let ?db = "snd (approval_request L ttl d who now wl db)"
  have "?db = db \<or> (\<exists>r. ?db = db\<lparr>tb_approvals := tb_approvals db @ [r]\<rparr>)"
    by (auto simp: approval_request_def Let_def session_def approval_create_def split: option.split)
  then show ?thesis
  proof
    assume "\<exists>r. ?db = db\<lparr>tb_approvals := tb_approvals db @ [r]\<rparr>"
    then obtain r where r: "?db = db\<lparr>tb_approvals := tb_approvals db @ [r]\<rparr>" by blast
    have "approvals_good (db\<lparr>tb_approvals := tb_approvals db @ [r]\<rparr>)"
      using approval_request_good [OF ag, of L ttl d who now wl] by (simp only: r)
    then show ?thesis unfolding r by (rule workflow_good_approvals [OF g]) simp
  qed (simp add: g)
qed

text \<open>What an approval that succeeds leaves in the table.\<close>

lemma approve_InrD:
  assumes ag: "approvals_good db" and run: "approve env k inp now wl db = (Inr rec, db')"
  shows "\<exists>r. row_get apr_approval_id k (tb_approvals db) = Some r \<and>
    ar_decision_id rec = apr_decision_id r \<and> ar_requested_action rec = apr_requested_action r \<and>
    ar_decided_by rec = Some (ad_actor_id inp) \<and> ar_status rec = AP_APPROVED \<and>
    ad_actor_role inp \<in> {OPERATIONS_ANALYST, OPERATIONS_MANAGER} \<and>
    (\<exists>a\<in>set (tb_approvals db'). apr_decision_id a = apr_decision_id r \<and>
       apr_requested_action a = apr_requested_action r \<and> apr_status a = AP_APPROVED \<and>
       apr_decided_by a = Some (ad_actor_id inp) \<and> ad_actor_id inp \<noteq> apr_requested_by a \<and>
       apr_decided_by_role a = Some (ad_actor_role inp))"
proof -
  have kd: "keys_distinct apr_approval_id (tb_approvals db)" using ag by (simp add: approvals_good_def)
  note app = run [unfolded approve_def approval_decide_app [OF kd]]
  then obtain r where r: "row_get apr_approval_id k (tb_approvals db) = Some r"
    by (auto split: if_splits sum.splits option.splits)
  let ?t = "to_utc (now_or now wl)"
  let ?u = "decided_record (approval_to_model r) inp AP_APPROVED ?t"
  have ok: "ad_actor_role inp \<notin> {AUDITOR, SERVICE_IDENTITY}" "apr_requested_by r \<noteq> ad_actor_id inp"
    and rec: "rec = ?u"
    and db': "db' = db\<lparr>tb_approvals := row_put apr_approval_id (approval_values ?u r) (tb_approvals db)\<rparr>"
    using app r by (auto simp: Let_def split: if_splits sum.splits)
  have "row_get apr_approval_id (apr_approval_id r) (tb_approvals db) = Some r"
    using r row_get_SomeD [OF r] by simp
  then have mem: "approval_values ?u r \<in> set (tb_approvals db')"
    using row_get_SomeD [OF r] by (force simp: db' row_put_def)
  have role: "ad_actor_role inp \<in> {OPERATIONS_ANALYST, OPERATIONS_MANAGER}"
    using ok(1) by (cases "ad_actor_role inp") simp_all
  show ?thesis using r ok(2) role
    by (intro exI [of _ r] conjI bexI [OF _ mem]) (auto simp: rec decided_record_def approval_values_def)
qed

section \<open>The workflow keeps the authority of every action\<close>

lemma workflow_decision_InrD: "workflow_decision k w = (Inr t, w') \<Longrightarrow> w' = w \<and> sql_get k (w_db w) = Some t"
  by (auto simp: workflow_decision_def split: option.splits)

lemma workflow_good_execute_for:
  assumes g: "workflow_good L (w_db w)" and fp: "distinguishes_decisions L"
    and gr: "\<And>c. fst (command_for_decision L d q actor who w) = Inr c \<Longrightarrow> granted (w_db w) c"
    and run: "execute_for L governed sandbox_port wall d t q actor who ap now w = (res, w')"
  shows "workflow_good L (w_db w')"
  using run [unfolded execute_for_def]
proof (cases rule: bind_cases)
  case (stopped e)
  then show ?thesis using g command_for_decision_state by blast
next
  case (went_on c u)
  have u: "u = w" using command_for_decision_state [OF went_on(1)] .
  obtain r v where ex: "execute_action L governed sandbox_port wall c (er_order q) now w = (r, v)" by fastforce
  have "w' = v" using went_on(2) ex u by (cases r) auto
  then show ?thesis using workflow_good_execute [OF g fp gr ex] went_on(1) by simp
qed

lemma workflow_good_submit:
  assumes g: "workflow_good L (w_db w)" and fp: "distinguishes_decisions L"
    and run: "submit L ttl governed sandbox_port wall d actor now w = (res, w')"
  shows "workflow_good L (w_db w')"
  using run [unfolded submit_def]
proof (cases rule: bind_cases)
  case (stopped e)
  then show ?thesis using g workflow_decision_state by blast
next
  case (went_on t u)
  then have t: "sql_get d (w_db w) = Some t" and u: "u = w" using workflow_decision_InrD by blast+
  show ?thesis
  proof (cases "pe_disposition (dt_policy t)")
    case AUTO_EXECUTE
    obtain r v where q: "workflow_request (dt_event_id t) w = (r, v)" by fastforce
    have v: "v = w" using workflow_request_state [OF q] .
    show ?thesis
    proof (cases r)
      case (Inl e)
      then show ?thesis using went_on(2) AUTO_EXECUTE u q v g by simp
    next
      case (Inr request)
      have dg: "decisions_good L (w_db w)" using g by (simp add: workflow_good_def)
      have gr: "granted (w_db w) c" if "fst (command_for_decision L d request actor None w) = Inr c" for c
        using command_for_decision_InrD [OF _ dg] that t AUTO_EXECUTE
        by (cases "command_for_decision L d request actor None w") (force simp: granted_def)
      have "execute_for L governed sandbox_port wall d t request actor None None now w = (res, w')"
        using went_on(2) AUTO_EXECUTE u q v Inr by simp
      then show ?thesis using workflow_good_execute_for [OF g fp gr] by blast
    qed
  next
    case REQUEST_APPROVAL
    obtain r db' where r: "approval_request L ttl t actor now (wall 0) (w_db w) = (r, db')" by fastforce
    then have "w_db w' = db'" using went_on(2) REQUEST_APPROVAL u by (cases r) (auto simp: bind_def on_db_app)
    then show ?thesis using workflow_good_request [OF g, of ttl t actor now "wall 0"] r by simp
  qed (use went_on(2) u g in simp_all)
qed

text \<open>The authority an analyst needs is checked before the approval is written.\<close>

lemma assert_approval_authority_InrD:
  "assert_approval_authority inp t q = Inr x \<Longrightarrow> ad_actor_role inp = OPERATIONS_ANALYST \<Longrightarrow>
     selected_option t = Inr r \<Longrightarrow> ro_intervention_cost r \<le> 20 \<and> \<not> oc_restricted_product (er_order q)"
  by (auto simp: assert_approval_authority_def split: if_splits)

lemma approved_command_granted:
  assumes g: "workflow_good L db" and run: "approve env k inp now wl db = (Inr rec, db')"
    and row: "approval_get k db = Some pending" and t: "sql_get (ar_decision_id pending) db = Some t"
    and act: "ar_requested_action pending = dr_selected_action (dt_recommendation t)"
    and auth: "assert_approval_authority inp t q = Inr x"
    and c: "cmd_decision_id c = dt_decision_id t" "cmd_approved_by c = ar_decided_by rec" "executable (cmd_action c)"
      "cmd_action c = dr_selected_action (dt_recommendation t)" "selected_option t = Inr r"
      "cmd_expected_intervention_cost c = ro_intervention_cost r"
    and db': "tb_decisions db' = tb_decisions db"
  shows "granted db' c"
proof -
  have ag: "approvals_good db" and dg: "decisions_good L db" using g by (simp_all add: workflow_good_def)
  from approve_InrD [OF ag run] obtain p a where p: "row_get apr_approval_id k (tb_approvals db) = Some p"
    "ar_decided_by rec = Some (ad_actor_id inp)" "ad_actor_role inp \<in> {OPERATIONS_ANALYST, OPERATIONS_MANAGER}"
    and a: "a \<in> set (tb_approvals db')" "apr_decision_id a = apr_decision_id p"
      "apr_requested_action a = apr_requested_action p" "apr_status a = AP_APPROVED"
      "apr_decided_by a = Some (ad_actor_id inp)" "ad_actor_id inp \<noteq> apr_requested_by a"
      "apr_decided_by_role a = Some (ad_actor_role inp)" by blast
  have pd: "ar_decision_id pending = apr_decision_id p" "ar_requested_action pending = apr_requested_action p"
    using row p(1) by (auto simp: approval_get_def)
  have id: "dt_decision_id t = apr_decision_id p" using sql.look_id [OF dg t] pd by simp
  have "ad_actor_role inp = OPERATIONS_ANALYST \<Longrightarrow> cmd_expected_intervention_cost c \<le> 20"
    using assert_approval_authority_InrD [OF auth _ c(5)] c(6) by simp
  then have "approved_by_other db' c (ad_actor_id inp)"
    unfolding approved_by_other_def using a p(3) c(1,4) id pd act by (intro bexI [OF _ a(1)]) auto
  moreover have "sql_get (cmd_decision_id c) db' = Some t"
    using t c(1) id pd sql_get_cong [OF db'] by simp
  ultimately show ?thesis using c(2-4) p(2) by (auto simp: granted_def)
qed

text \<open>An approval call stops before it writes, stops after the approval was decided, or
  executes.\<close>

lemma approve_and_execute_cases:
  assumes ag: "approvals_good (w_db w)"
    and run: "approve_and_execute L env governed port wall k inp now w = (res, w')"
  obtains (untouched) e where "res = Inl e" "w' = w"
  | (decided) e db1 where "approve env k inp now (wall 0) (w_db w) = (Inl e, db1)" "w' = w\<lparr>w_db := db1\<rparr>"
      "res = Inl e"
  | (executed) pending t q x rec db1 where "approval_get k (w_db w) = Some pending"
      "sql_get (ar_decision_id pending) (w_db w) = Some t"
      "ar_requested_action pending = dr_selected_action (dt_recommendation t)"
      "assert_approval_authority inp t q = Inr x" "approve env k inp now (wall 0) (w_db w) = (Inr rec, db1)"
      "execute_for L governed port (\<lambda>n. wall (Suc n)) (dt_decision_id t) t q (ar_requested_by rec)
         (ar_decided_by rec) (Some rec) now (w\<lparr>w_db := db1\<rparr>) = (res, w')"
proof (cases "approval_get k (w_db w)")
  case None
  then show thesis using run untouched
    by (auto simp: approve_and_execute_def bind_def on_db_app approval_service_get_def)
next
  case (Some pending)
  then have "approve_pending L env governed port wall k inp now pending w = (res, w')"
    using run by (simp add: approve_and_execute_def bind_def on_db_app approval_service_get_def)
  then have "w' = w \<and> (\<exists>e. res = Inl e) \<or> (\<exists>t q x. sql_get (ar_decision_id pending) (w_db w) = Some t \<and>
      ar_requested_action pending = dr_selected_action (dt_recommendation t) \<and>
      assert_approval_authority inp t q = Inr x \<and>
      decide_and_execute L env governed port wall k inp now t q w = (res, w'))"
    by (auto simp: approve_pending_def bind_def workflow_decision_def
        split: prod.splits sum.splits if_splits option.splits dest!: workflow_request_state)
  then show thesis
  proof (elim disjE exE conjE)
    fix t q x
    assume t: "sql_get (ar_decision_id pending) (w_db w) = Some t"
      and act: "ar_requested_action pending = dr_selected_action (dt_recommendation t)"
      and auth: "assert_approval_authority inp t q = Inr x"
      and run: "decide_and_execute L env governed port wall k inp now t q w = (res, w')"
    obtain r db1 where ap: "approve env k inp now (wall 0) (w_db w) = (r, db1)" by fastforce
    show thesis
    proof (cases r)
      case (Inl e)
      then show thesis using run decided [of e db1] ap by (simp add: decide_and_execute_def bind_def on_db_app)
    next
      case (Inr rec)
      then have st: "ar_status rec = AP_APPROVED" using approve_InrD [OF ag] ap by blast
      show thesis
        by (rule executed [OF Some t act auth])
          (use ap run Inr st in \<open>simp_all add: decide_and_execute_def bind_def on_db_app\<close>)
    qed
  qed (rule untouched)
qed

lemma workflow_good_executed:
  assumes g: "workflow_good L (w_db w)" and fp: "distinguishes_decisions L"
    and x: "approval_get k (w_db w) = Some pending" "sql_get (ar_decision_id pending) (w_db w) = Some t"
      "ar_requested_action pending = dr_selected_action (dt_recommendation t)"
      "assert_approval_authority inp t q = Inr x" "approve env k inp now wl (w_db w) = (Inr rec, db1)"
    and run: "execute_for L governed sandbox_port wall (dt_decision_id t) t q (ar_requested_by rec)
      (ar_decided_by rec) ap now (w\<lparr>w_db := db1\<rparr>) = (res, w')"
  shows "workflow_good L (w_db w')"
proof -
  let ?w1 = "w\<lparr>w_db := db1\<rparr>"
  have g1: "workflow_good L (w_db ?w1)" and d1: "tb_decisions db1 = tb_decisions (w_db w)"
    using workflow_good_decide [OF g, of AP_APPROVED env k inp now wl] x(5) by (simp_all add: approve_def)
  have dg: "decisions_good L (w_db w)" "decisions_good L (w_db ?w1)" using g g1 by (simp_all add: workflow_good_def)
  have id: "sql_get (dt_decision_id t) (w_db ?w1) = Some t"
    using x(2) sql.look_id [OF dg(1) x(2)] sql_get_cong [OF d1] by simp
  show ?thesis
  proof (rule workflow_good_execute_for [OF g1 fp _ run])
    fix c assume c: "fst (command_for_decision L (dt_decision_id t) q (ar_requested_by rec) (ar_decided_by rec) ?w1) = Inr c"
    obtain v where "command_for_decision L (dt_decision_id t) q (ar_requested_by rec) (ar_decided_by rec) ?w1 = (Inr c, v)"
      using c by (metis prod.collapse)
    from command_for_decision_InrD [OF this dg(2)] id
    show "granted (w_db ?w1) c"
      using approved_command_granted [OF g x(5,1-4) _ _ _ _ _ _ d1] by auto
  qed
qed

lemma workflow_good_approve:
  assumes g: "workflow_good L (w_db w)" and fp: "distinguishes_decisions L"
    and run: "approve_and_execute L env governed sandbox_port wall k inp now w = (res, w')"
  shows "workflow_good L (w_db w')"
  using workflow_good_def [THEN iffD1, OF g, THEN conjunct2, THEN conjunct1] run
proof (cases rule: approve_and_execute_cases)
  case (untouched e)
  then show ?thesis using g by simp
next
  case (decided e db1)
  then show ?thesis
    using workflow_good_decide [OF g, of AP_APPROVED env k inp now "wall 0"] by (simp add: approve_def)
next
  case (executed pending t q x rec db1)
  then show ?thesis by (rule workflow_good_executed [OF g fp])
qed

lemma workflow_good_reject:
  assumes g: "workflow_good L (w_db w)" and run: "reject_approval env wall k inp now w = (res, w')"
  shows "workflow_good L (w_db w')"
proof -
  obtain r db1 where r: "reject env k inp now (wall 0) (w_db w) = (r, db1)" by fastforce
  have g1: "workflow_good L db1"
    using workflow_good_decide [OF g, of AP_REJECTED env k inp now "wall 0"] r by (simp add: reject_def)
  have "w_db w' = db1"
    using run r by (cases r) (auto simp: reject_approval_def bind_def on_db_app split: prod.splits sum.splits
        dest!: workflow_decision_state)
  then show ?thesis using g1 by simp
qed

lemma workflow_good_verify:
  assumes g: "workflow_good L (w_db w)" and run: "verify_decision L governed wall d obs now w = (res, w')"
  shows "workflow_good L (w_db w')"
proof -
  have cg: "controls_good (w_db w)" using g by (simp add: workflow_good_def)
  have "w' = w \<or> (\<exists>t x c r. verify_outcome L governed wall t x c obs now w = (r, w'))"
    using run
    by (auto simp: verify_decision_def bind_def gateway_get_by_decision_def on_db_app
        split: prod.splits sum.splits option.splits dest!: workflow_decision_state workflow_request_state)
  then show ?thesis
  proof
    assume "\<exists>t x c r. verify_outcome L governed wall t x c obs now w = (r, w')"
    then obtain t x c r where v: "verify_outcome L governed wall t x c obs now w = (r, w')" by blast
    note f = verify_frame [OF cg v]
    then show ?thesis by (intro workflow_good_controls [OF g]) simp_all
  qed (simp add: g)
qed

section \<open>Evaluations and the reachable states\<close>

lemma workflow_good_evaluate:
  assumes g: "workflow_good L db"
  shows "workflow_good L (snd (evaluation_service L (sql_orchestrator L score version gw) now q db))"
proof -
  let ?ob = "sql_orchestrator L score version gw"
  obtain r db1 where r: "session (event_ingest L (er_event q) q now) db = (r, db1)" by fastforce
  have tabs: "tb_decisions db1 = tb_decisions db" "tb_approvals db1 = tb_approvals db"
    "tb_actions db1 = tb_actions db" "controls_good db1 = controls_good db"
    using r by (auto simp: session_def event_ingest_def Let_def controls_good_def split: option.splits if_splits)
  have g1: "workflow_good L db1"
    by (rule workflow_good_controls [OF g _ tabs(1-3)]) (use g tabs(4) in \<open>simp add: workflow_good_def\<close>)
  have "workflow_good L (snd (orchestrate L ?ob q db1))"
  proof (cases "decide L ?ob db1 q")
    case (Inl e)
    then show ?thesis using g1 by (simp add: orchestrate_app)
  next
    case (Inr t)
    have "autonomous_decision_good t"
      using decide_sound [OF Inr] by (auto simp: sound_decision_def autonomous_decision_good_def)
    then have "workflow_good L (snd (sql_record L t db1))" by (rule workflow_good_decision [OF g1])
    then show ?thesis using Inr by (simp add: orchestrate_app sql_orchestrator_def)
  qed
  then show ?thesis using r g1 by (cases r) (simp_all add: evaluation_service_def)
qed

lemma workflow_good_set_controls:
  assumes g: "workflow_good L db"
  shows "workflow_good L (snd (set_kill_switch env now ku db))" and "workflow_good L (snd (set_profile env now a au db))"
proof -
  have cg: "controls_good db" using g by (simp add: workflow_good_def)
  show "workflow_good L (snd (set_kill_switch env now ku db))"
    using set_kill_switch_good [OF cg, of env now ku]
    by (intro workflow_good_controls [OF g])
      (auto simp: set_kill_switch_def bind_def session_def Let_def split: sum.splits option.splits prod.splits)
  show "workflow_good L (snd (set_profile env now a au db))"
    using set_profile_good [OF cg, of env now a au]
    by (intro workflow_good_controls [OF g])
      (auto simp: set_profile_def bind_def session_def Let_def split: sum.splits option.splits prod.splits)
qed

text \<open>One call of any operation on the tables, by anyone, with any arguments and under any clock:
  evaluations under any scorer and any policy gateway, submissions, approvals, rejections,
  verifications and changes of the controls.\<close>

inductive workflow_step :: "lib \<Rightarrow> sandbox world \<Rightarrow> sandbox world \<Rightarrow> bool" for L :: lib where
  evaluating: "on_db (evaluation_service L (sql_orchestrator L score version gw) now q) w = (r, w') \<Longrightarrow>
    workflow_step L w w'"
| submitting: "submit L ttl governed sandbox_port wall d actor now w = (r, w') \<Longrightarrow> workflow_step L w w'"
| approving: "approve_and_execute L env governed sandbox_port wall k inp now w = (r, w') \<Longrightarrow>
    workflow_step L w w'"
| rejecting: "reject_approval env wall k inp now w = (r, w') \<Longrightarrow> workflow_step L w w'"
| verifying: "verify_decision L governed wall d obs now w = (r, w') \<Longrightarrow> workflow_step L w w'"
| switching: "on_db (set_kill_switch env t ku) w = (r, w') \<Longrightarrow> workflow_step L w w'"
| profiling: "on_db (set_profile env t a au) w = (r, w') \<Longrightarrow> workflow_step L w w'"
| breaking: "w' = w\<lparr>w_ops := os\<rparr> \<Longrightarrow> workflow_step L w w'"

inductive_cases workflow_stepE: "workflow_step L w w'"

lemma on_db_run: "on_db m w = (r, w') \<Longrightarrow> w_db w' = snd (m (w_db w))"
  by (cases "m (w_db w)") (auto simp: on_db_app)

lemma workflow_step_good:
  assumes "workflow_step L w w'" and "workflow_good L (w_db w)" and "distinguishes_decisions L"
  shows "workflow_good L (w_db w')"
  using assms(1)
proof (cases rule: workflow_step.cases)
  case (evaluating score version gw now q r)
  show ?thesis unfolding on_db_run [OF evaluating] by (rule workflow_good_evaluate [OF assms(2)])
next
  case (switching env t ku r)
  show ?thesis unfolding on_db_run [OF switching] by (rule workflow_good_set_controls(1) [OF assms(2)])
next
  case (profiling env t a au r)
  show ?thesis unfolding on_db_run [OF profiling] by (rule workflow_good_set_controls(2) [OF assms(2)])
qed (use assms(2,3) in \<open>auto dest: workflow_good_submit workflow_good_approve workflow_good_reject
       workflow_good_verify\<close>)

lemma workflow_steps_good:
  assumes "(workflow_step L)\<^sup>*\<^sup>* w w'" and "workflow_good L (w_db w)" and "distinguishes_decisions L"
  shows "workflow_good L (w_db w')"
  using assms by (induction rule: rtranclp_induct) (auto intro: workflow_step_good)

lemma workflow_good_start: "workflow_good L (snd (bootstrap now empty_database))"
  using bootstrap_empty [of now]
  by (simp add: workflow_good_def bootstrap_def session_def empty_database_def decisions_good_def
      approvals_good_def actions_good_def keys_distinct_def)

section \<open>Properties\<close>

text \<open>C1: No action is ever taken without authority. In every state the operations can reach from a
  state of the invariant, the bootstrapped empty database included, each action of the table
  carries out the action its immutable decision selected, and either that decision was made
  for autonomous execution in \<open>BOUNDED_AUTONOMY\<close> mode with a positive expected gain, or an
  approved row of the table, decided by someone other than the requester, names exactly this
  decision and action; an analyst's approval covers a cost of 20 at most.\<close>

theorem no_action_without_authority:
  assumes "distinguishes_decisions L" and "workflow_good L (w_db w0)" and "(workflow_step L)\<^sup>*\<^sup>* w0 w"
    and "r \<in> set (tb_actions (w_db w))"
  shows "workflow_good L (snd (bootstrap t0 empty_database)) \<and>
    (\<exists>t. sql_get (acr_decision_id r) (w_db w) = Some t \<and>
      acr_action r = dr_selected_action (dt_recommendation t) \<and>
      (cmd_approved_by (acr_command r) = None \<and> pe_disposition (dt_policy t) = AUTO_EXECUTE \<and>
         dt_mode t = BOUNDED_AUTONOMY \<and>
         0 < dr_expected_incremental_value_vs_no_action (dt_recommendation t) \<or>
       (\<exists>a\<in>set (tb_approvals (w_db w)). apr_decision_id a = acr_decision_id r \<and>
          apr_requested_action a = acr_action r \<and> apr_status a = AP_APPROVED \<and>
          apr_decided_by a = cmd_approved_by (acr_command r) \<and> apr_decided_by a \<noteq> Some (apr_requested_by a) \<and>
          (apr_decided_by_role a = Some OPERATIONS_MANAGER \<or>
           apr_decided_by_role a = Some OPERATIONS_ANALYST \<and>
           cmd_expected_intervention_cost (acr_command r) \<le> 20))))"
proof -
  let ?db = "w_db w"
  have g: "workflow_good L ?db" by (rule workflow_steps_good [OF assms(3,2,1)])
  then have rg: "action_row_good L r" and gr: "granted ?db (acr_command r)"
    using assms(4) by (auto simp: workflow_good_def actions_good_def list_all_iff)
  then obtain t where t: "sql_get (acr_decision_id r) ?db = Some t"
    "acr_action r = dr_selected_action (dt_recommendation t)"
    and auth: "case cmd_approved_by (acr_command r) of None \<Rightarrow> pe_disposition (dt_policy t) = AUTO_EXECUTE
       | Some who \<Rightarrow> approved_by_other ?db (acr_command r) who"
    by (auto simp: granted_def action_row_good_def)
  have "\<exists>d\<in>set (tb_decisions ?db). dcr_trace d = t"
    using t(1) by (auto simp: sql_get_def decision_get_def dest!: row_get_SomeD)
  then have "autonomous_decision_good t" using g by (auto simp: workflow_good_def)
  then show ?thesis
    using t auth rg workflow_good_start [of L t0]
    by (cases "cmd_approved_by (acr_command r)")
      (auto simp: autonomous_decision_good_def approved_by_other_def action_row_good_def)
qed

text \<open>The sample decision with its event, submitted by one actor and approved by another.\<close>

definition sample_workflow :: "policy_disposition \<Rightarrow> sandbox world" where
  "sample_workflow d =
     (sample_world Map.empty)\<lparr>w_db := snd (event_ingest sample_execution_lib sample_event (sample_request APPROVAL)
        (utc 0) (snd (sql_record sample_execution_lib (sample_trace d) sample_controls)))\<rparr>"

lemma sample_workflow_good: "workflow_good sample_execution_lib (w_db (sample_workflow REQUEST_APPROVAL))"
proof -
  let ?db = "snd (sql_record sample_execution_lib (sample_trace REQUEST_APPROVAL) sample_controls)"
  let ?db2 = "snd (event_ingest sample_execution_lib sample_event (sample_request APPROVAL) (utc 0) ?db)"
  have g: "workflow_good sample_execution_lib ?db"
    using workflow_good_start [of sample_execution_lib "utc 0"]
    by (intro workflow_good_decision) (simp_all add: sample_controls_def autonomous_decision_good_def sample_trace_def)
  have "tb_decisions ?db2 = tb_decisions ?db" "tb_approvals ?db2 = tb_approvals ?db"
    "tb_actions ?db2 = tb_actions ?db" "controls_good ?db2 = controls_good ?db"
    by (auto simp: event_ingest_def Let_def controls_good_def split: option.splits if_splits)
  then have "workflow_good sample_execution_lib ?db2"
    using g by (intro workflow_good_controls [OF g]) (simp_all add: workflow_good_def)
  then show ?thesis by (simp add: sample_workflow_def)
qed

definition sample_submitted :: "sandbox world" where
  "sample_submitted = snd (submit sample_execution_lib default_ttl True sandbox_port (\<lambda>_. utc 9) ''dec_1''
     ''eval-runner'' None (sample_workflow REQUEST_APPROVAL))"

definition sample_approved :: "workflow_state res \<times> sandbox world" where
  "sample_approved = approve_and_execute sample_execution_lib [] True sandbox_port (\<lambda>_. utc 10)
     ''apr_dec_1|REROUTE|policy-v2'' sample_manager None sample_submitted"

lemma sample_approved_actions:
  "map (\<lambda>r. (acr_decision_id r, acr_status r, cmd_approved_by (acr_command r)))
     (tb_actions (w_db (snd sample_approved))) = [(''dec_1'', AC_SUCCEEDED, Some ''operations-manager-ui'')]"
  by code_simp

lemma sample_submit_step:
  "workflow_step sample_execution_lib (sample_workflow REQUEST_APPROVAL) sample_submitted"
  unfolding sample_submitted_def by (rule workflow_step.submitting [OF prod.collapse [symmetric]])

lemma sample_steps: "(workflow_step sample_execution_lib)\<^sup>*\<^sup>* (sample_workflow REQUEST_APPROVAL) (snd sample_approved)"
proof -
  have "workflow_step sample_execution_lib sample_submitted (snd sample_approved)"
    unfolding sample_approved_def by (rule workflow_step.approving [OF prod.collapse [symmetric]])
  with sample_submit_step show ?thesis by (meson converse_rtranclp_into_rtranclp r_into_rtranclp)
qed

lemma no_action_without_authority_witness:
  "\<exists>a\<in>set (tb_approvals (w_db (snd sample_approved))). apr_decision_id a = ''dec_1'' \<and>
     apr_decided_by a = Some ''operations-manager-ui''"
proof -
  obtain r where r: "r \<in> set (tb_actions (w_db (snd sample_approved)))" "acr_decision_id r = ''dec_1''"
    "cmd_approved_by (acr_command r) = Some ''operations-manager-ui''"
    using sample_approved_actions by (auto simp: map_eq_Cons_conv)
  from no_action_without_authority [OF sample_distinguishes sample_workflow_good sample_steps r(1), of "utc 0"] r(2,3)
  show ?thesis by auto
qed

text \<open>Submitting a decision reaches the external systems or the actions only where the decision
  was disposed \<open>AUTO_EXECUTE\<close>, and the approvals only where it was disposed
  \<open>REQUEST_APPROVAL\<close>; a blocked, escalated or no-action decision is returned without a change.\<close>

theorem submit_routes_by_disposition:
  assumes "submit L ttl governed port wall d actor now w = (res, w')"
  shows "(w_ops w' \<noteq> w_ops w \<or> tb_actions (w_db w') \<noteq> tb_actions (w_db w) \<longrightarrow>
      (\<exists>t. sql_get d (w_db w) = Some t \<and> pe_disposition (dt_policy t) = AUTO_EXECUTE)) \<and>
    (tb_approvals (w_db w') \<noteq> tb_approvals (w_db w) \<longrightarrow>
      (\<exists>t. sql_get d (w_db w) = Some t \<and> pe_disposition (dt_policy t) = REQUEST_APPROVAL)) \<and>
    (\<forall>t. sql_get d (w_db w) = Some t \<and> pe_disposition (dt_policy t) \<in> {BLOCK, ESCALATE, PD_TAKE_NO_ACTION} \<longrightarrow>
      res = Inr (workflow_state_of t None None None) \<and> w' = w) \<and>
    (sql_get d (w_db w) = None \<longrightarrow> (\<exists>e. res = Inl e \<and> exn_cls e = RecordNotFoundError) \<and> w' = w)"
proof (cases "sql_get d (w_db w)")
  case None
  then show ?thesis using assms by (auto simp: submit_def bind_def workflow_decision_def)
next
  case (Some t)
  show ?thesis
  proof (cases "pe_disposition (dt_policy t)")
    case AUTO_EXECUTE
    have "tb_approvals (w_db w') = tb_approvals (w_db w)"
      using assms Some AUTO_EXECUTE
      by (auto simp: submit_def execute_for_def bind_def workflow_decision_def world_frame_def action_frame_def
          split: prod.splits sum.splits dest!: workflow_request_state command_for_decision_state
            keepsD [OF keeps_execute_action])
    then show ?thesis using Some AUTO_EXECUTE by simp
  next
    case REQUEST_APPROVAL
    have "w_ops w' = w_ops w \<and> tb_actions (w_db w') = tb_actions (w_db w)"
      using assms Some REQUEST_APPROVAL
      by (auto simp: submit_def bind_def workflow_decision_def on_db_app approval_request_def Let_def session_def
          approval_create_def split: prod.splits sum.splits option.splits if_splits)
    then show ?thesis using Some REQUEST_APPROVAL by simp
  qed (use assms Some in \<open>auto simp: submit_def bind_def workflow_decision_def\<close>)
qed

text \<open>An approval that changed the table left its row decided, and a decided row is spent.\<close>

lemma approve_changed:
  assumes ag: "approvals_good db" and run: "approve env k inp now wl db = (r, db')"
  shows "db' = db \<or> (\<exists>row rows. row_get apr_approval_id k (tb_approvals db') = Some row \<and>
    apr_status row \<noteq> AP_PENDING \<and> db' = db\<lparr>tb_approvals := rows\<rparr>)"
proof -
  have kd: "keys_distinct apr_approval_id (tb_approvals db)" using ag by (simp add: approvals_good_def)
  show ?thesis
  proof (cases "row_get apr_approval_id k (tb_approvals db)")
    case None
    then show ?thesis using run by (auto simp: approve_def approval_decide_app [OF kd] split: if_splits sum.splits)
  next
    case (Some row)
    have rk: "apr_approval_id row = k" using row_get_SomeD [OF Some] by simp
    show ?thesis
      using run Some rk
      by (auto simp: approve_def approval_decide_app [OF kd] Let_def row_get_put approval_values_def decided_record_def
          split: if_splits sum.splits)
  qed
qed

lemma approve_spent:
  assumes "approvals_good db" and "row_get apr_approval_id k (tb_approvals db) = Some row"
    and "apr_status row \<noteq> AP_PENDING"
  shows "\<exists>e. approve env k inp now wl db = (Inl e, db)"
  using assms by (auto simp: approve_def approval_decide_app approvals_good_def split: sum.split)

lemma approve_and_execute_spent:
  assumes "approvals_good (w_db w)" and "row_get apr_approval_id k (tb_approvals (w_db w)) = Some row"
    and "apr_status row \<noteq> AP_PENDING"
  shows "\<exists>e. approve_and_execute L env governed port wall k inp now w = (Inl e, w)"
proof -
  obtain e where e: "approve env k inp now (wall 0) (w_db w) = (Inl e, w_db w)" using approve_spent [OF assms] by blast
  obtain res w' where run: "approve_and_execute L env governed port wall k inp now w = (res, w')" by fastforce
  from assms(1) run show ?thesis by (cases rule: approve_and_execute_cases) (use run e in auto)
qed

lemma execute_for_killed:
  assumes cg: "controls_good (w_db w)" and k: "row_get rcr_control_key kill_switch_key (tb_controls (w_db w)) = Some r"
    and on: "rcr_enabled r" and run: "execute_for L True port wall d t q actor who ap now w = (res, w')"
  shows "w' = w \<and> (\<exists>e. res = Inl e)"
  using run [unfolded execute_for_def]
proof (cases rule: bind_cases)
  case (stopped e)
  then show ?thesis using command_for_decision_state by blast
next
  case (went_on c u)
  have u: "u = w" using command_for_decision_state [OF went_on(1)] .
  obtain ks where ks: "read_kill_switch (w_db w) = (Inr ks, w_db w)" using cg by (rule read_kill_switch_app)
  then have "ks_active ks" using k on by (auto simp: read_kill_switch_def kill_switch_model_def split: if_splits)
  then have "execute_action L True port wall c (er_order q) now w =
      (Inl (err ActionExecutionError ''global action kill switch is active''), w)"
    using execute_action_app [OF ks prod.collapse [symmetric], where governed = True and port = port] by simp
  then show ?thesis using went_on(2) u by auto
qed

text \<open>C20: An approval given while the kill switch is active executes nothing and is used up: the
  call raises, leaves the external systems and the actions alone, and from then on every attempt
  to approve or execute under that approval, by anyone and after the switch is off again, raises
  without a change.\<close>

theorem killed_approval_is_spent:
  assumes g: "workflow_good L (w_db w)"
    and k: "row_get rcr_control_key kill_switch_key (tb_controls (w_db w)) = Some r" "rcr_enabled r"
    and run: "approve_and_execute L env True port wall approval_id inp now w = (res, w')" and "w' \<noteq> w"
  shows "(\<exists>e. res = Inl e) \<and> w_ops w' = w_ops w \<and> tb_actions (w_db w') = tb_actions (w_db w) \<and>
    (\<forall>env' governed' wall' inp' now' w''. tb_approvals (w_db w'') = tb_approvals (w_db w') \<longrightarrow>
       (\<exists>e. approve_and_execute L env' governed' port wall' approval_id inp' now' w'' = (Inl e, w'')))"
proof -
  have ag: "approvals_good (w_db w)" and cg: "controls_good (w_db w)" using g by (simp_all add: workflow_good_def)
  obtain x db1 where ap: "approve env approval_id inp now (wall 0) (w_db w) = (x, db1)" by fastforce
  have w': "w' = w\<lparr>w_db := db1\<rparr> \<and> (\<exists>e. res = Inl e)"
    using ag run
  proof (cases rule: approve_and_execute_cases)
    case (executed pending t q y rec d)
    have d: "d = db1" using executed(5) ap by simp
    have "controls_good db1 \<and> tb_controls db1 = tb_controls (w_db w)"
      using approve_changed [OF ag ap] cg by (auto simp: controls_good_def)
    then show ?thesis using execute_for_killed [OF _ _ k(2) executed(6)] k(1) d by simp
  qed (use assms(5) ap in auto)
  with approve_changed [OF ag ap] assms(5) obtain row rows where row:
    "row_get apr_approval_id approval_id (tb_approvals db1) = Some row" "apr_status row \<noteq> AP_PENDING"
    "db1 = (w_db w)\<lparr>tb_approvals := rows\<rparr>" by auto
  have "approvals_good db1"
    using approval_decide_good [OF ag, of AP_APPROVED env approval_id inp now "wall 0"] ap by (simp add: approve_def)
  then have spent: "\<exists>e. approve_and_execute L env' governed' port wall' approval_id inp' now' v = (Inl e, v)"
    if "tb_approvals (w_db v) = tb_approvals db1" for env' governed' wall' inp' now' and v :: "'a world"
    using approve_and_execute_spent [of v] row(1,2) that good_cong(2) [OF that] by simp
  then show ?thesis using w' row(3) by simp
qed

definition sample_killed :: "sandbox world" where
  "sample_killed = snd (on_db (set_kill_switch [] (utc 1) \<lparr>ku_active = True, ku_actor_id = ''m'',
     ku_actor_role = OPERATIONS_MANAGER, ku_reason = ''drill''\<rparr>) sample_submitted)"

lemma killed_approval_is_spent_witness:
  "\<exists>e (v::sandbox world). approve_and_execute sample_execution_lib [] True sandbox_port (\<lambda>_. utc 11)
     ''apr_dec_1|REROUTE|policy-v2'' sample_manager None v = (Inl e, v) \<and> tb_actions (w_db v) = []"
proof -
  let ?k = "''apr_dec_1|REROUTE|policy-v2''"
  let ?run = "approve_and_execute sample_execution_lib [] True sandbox_port (\<lambda>_. utc 10) ?k sample_manager None sample_killed"
  have step: "workflow_step sample_execution_lib sample_submitted sample_killed"
    unfolding sample_killed_def by (rule workflow_step.switching [OF prod.collapse [symmetric]])
  have g: "workflow_good sample_execution_lib (w_db sample_killed)"
    by (rule workflow_step_good [OF step workflow_step_good [OF sample_submit_step sample_workflow_good
        sample_distinguishes] sample_distinguishes])
  have "case row_get rcr_control_key kill_switch_key (tb_controls (w_db sample_killed)) of
      Some r \<Rightarrow> rcr_enabled r | None \<Rightarrow> False" by code_simp
  then obtain r where r: "row_get rcr_control_key kill_switch_key (tb_controls (w_db sample_killed)) = Some r"
    "rcr_enabled r" by (auto split: option.splits)
  have "map apr_status (tb_approvals (w_db (snd ?run))) = [AP_APPROVED] \<and>
      map apr_status (tb_approvals (w_db sample_killed)) = [AP_PENDING]" by code_simp
  then have ch: "snd ?run \<noteq> sample_killed" by auto
  have "map acr_decision_id (tb_actions (w_db sample_killed)) = []" by code_simp
  then have none: "tb_actions (w_db sample_killed) = []" by simp
  note spent = killed_approval_is_spent [OF g r prod.collapse [symmetric] ch]
  from spent none have "tb_actions (w_db (snd ?run)) = []" by simp
  moreover from spent have "\<exists>e. approve_and_execute sample_execution_lib [] True sandbox_port (\<lambda>_. utc 11) ?k
      sample_manager None (snd ?run) = (Inl e, snd ?run)" by blast
  ultimately show ?thesis by blast
qed

end
