(* ===== verification/Configuration.thy ===== *)
theory Configuration
  imports OpenAI_Budget Identity_Feedback
begin

text \<open>
  \<^verbatim>\<open>src/src/promiseguard/config.py\<close>: the settings read from the process environment, with the
  parsing of integers, floats and decimals that Python's constructors do on them. A float
  that is infinite or no number is \<open>None\<close>: it fails the range check of every setting.
\<close>

section \<open>Numbers as text\<close>

text \<open>An optional sign, and the text after it.\<close>

definition split_sign :: "string \<Rightarrow> int \<times> string" where
  "split_sign s =
     (case s of
        c # t \<Rightarrow> if c = CHR ''-'' then (- 1, t) else if c = CHR ''+'' then (1, t) else (1, s)
      | [] \<Rightarrow> (1, s))"

text \<open>Digits with single underscores between them, as \<open>int\<close> and \<open>float\<close> read them.\<close>

fun underscored :: "string \<Rightarrow> bool" where
  "underscored [] = False"
| "underscored [c] = is_digit c"
| "underscored (c # d # s) = (is_digit c \<and> (if d = CHR ''_'' then underscored s else underscored (d # s)))"

definition digits_of :: "string \<Rightarrow> nat option" where
  "digits_of s = (if underscored s then Some (nat_of_digits (filter (\<lambda>c. c \<noteq> CHR ''_'') s)) else None)"

definition parse_int :: "string \<Rightarrow> int res" where
  "parse_int value =
     (let (sign, body) = split_sign (strip value)
      in case digits_of body of
           Some n \<Rightarrow> Inr (sign * int n)
         | None \<Rightarrow> Inl (err ValueError (''invalid literal for int() with base 10: '' @ repr_str value)))"

text \<open>A number with a point and an exponent, without its sign.\<close>

definition split_at :: "(char \<Rightarrow> bool) \<Rightarrow> string \<Rightarrow> string \<times> string option" where
  "split_at p s =
     (case dropWhile (\<lambda>c. \<not> p c) s of [] \<Rightarrow> (s, None) | _ # t \<Rightarrow> (takeWhile (\<lambda>c. \<not> p c) s, Some t))"

definition mantissa_part :: "string \<Rightarrow> bool" where
  "mantissa_part s \<longleftrightarrow> s = [] \<or> underscored s"

definition no_underscore :: "string \<Rightarrow> string" where
  "no_underscore s = filter (\<lambda>c. c \<noteq> CHR ''_'') s"

definition parse_exponent :: "string option \<Rightarrow> int option" where
  "parse_exponent e =
     (case e of
        None \<Rightarrow> Some 0
      | Some s \<Rightarrow> (let (sign, body) = split_sign s in map_option (\<lambda>n. sign * int n) (digits_of body)))"

definition parse_unsigned :: "string \<Rightarrow> rat option" where
  "parse_unsigned s =
     (let (mantissa, e) = split_at (\<lambda>c. c = CHR ''e'' \<or> c = CHR ''E'') s;
          (whole, f) = split_at (\<lambda>c. c = CHR ''.'') mantissa;
          fraction = (case f of None \<Rightarrow> [] | Some t \<Rightarrow> t)
      in if mantissa_part whole \<and> mantissa_part fraction \<and> \<not> (whole = [] \<and> fraction = [])
         then map_option (\<lambda>k. of_nat (nat_of_digits (no_underscore whole @ no_underscore fraction))
                * 10 powi (k - int (length (no_underscore fraction)))) (parse_exponent e)
         else None)"

definition parse_float :: "string \<Rightarrow> rat option res" where
  "parse_float value =
     (let (sign, body) = split_sign (strip value)
      in if lower body \<in> {''inf'', ''infinity'', ''nan''} then Inr None
         else case parse_unsigned body of
           Some x \<Rightarrow> Inr (Some (fl (of_int sign * x)))
         | None \<Rightarrow> Inl (err ValueError (''could not convert string to float: '' @ repr_str value)))"

text \<open>\<open>Decimal(value)\<close> drops underscores wherever they stand and keeps the exact value.\<close>

definition nonfinite_decimal :: "string \<Rightarrow> bool" where
  "nonfinite_decimal body \<longleftrightarrow>
     (let t = lower body; u = (if startswith ''s'' t then tl t else t)
      in t \<in> {''inf'', ''infinity''} \<or> startswith ''nan'' u \<and> list_all is_digit (drop 3 u))"

definition parse_decimal :: "string \<Rightarrow> string \<Rightarrow> rat res" where
  "parse_decimal value name =
     (let (sign, body) = split_sign (no_underscore (strip value))
      in if nonfinite_decimal body then Inl (err ValueError (name @ '' must be finite''))
         else case parse_unsigned body of
           Some x \<Rightarrow> Inr (of_int sign * x)
         | None \<Rightarrow> Inl (err ValueError (name @ '' must be a decimal value'')))"

section \<open>The settings\<close>

record settings =
  cf_database_url :: string
  cf_environment :: string
  cf_auto_create_schema :: bool
  cf_metrics_enabled :: bool
  cf_openai_enabled :: bool
  cf_openai_model :: string
  cf_openai_budget_usd :: rat
  cf_openai_per_run_limit_usd :: rat
  cf_openai_max_output_tokens :: int
  cf_openai_timeout_seconds :: "rat option"
  cf_openai_reservation_ttl_seconds :: int
  cf_strict_local_identity :: bool

definition DEFAULT_DATABASE_URL :: string where
  "DEFAULT_DATABASE_URL = ''sqlite+pysqlite:///./promiseguard.db''"

definition DEFAULT_ENVIRONMENT :: string where "DEFAULT_ENVIRONMENT = ''local''"

definition DEFAULT_OPENAI_MODEL :: string where "DEFAULT_OPENAI_MODEL = ''gpt-5-nano''"

definition timeout_in_range :: "rat option \<Rightarrow> bool" where
  "timeout_in_range t \<longleftrightarrow> (case t of None \<Rightarrow> False | Some x \<Rightarrow> 1 \<le> x \<and> x \<le> 120)"

definition ttl_too_short :: "int \<Rightarrow> rat option \<Rightarrow> bool" where
  "ttl_too_short ttl t \<longleftrightarrow> (case t of None \<Rightarrow> False | Some x \<Rightarrow> of_int ttl < fmul x 2)"

text \<open>\<open>__post_init__\<close>\<close>

definition new_settings :: "settings \<Rightarrow> settings res" where
  "new_settings s =
     (if cf_database_url s = [] then Inl (err ValueError ''database_url cannot be empty'')
      else if cf_openai_model s = [] then Inl (err ValueError ''openai_model cannot be empty'')
      else if cf_openai_budget_usd s \<le> 0 then Inl (err ValueError ''openai_budget_usd must be positive'')
      else if cf_openai_per_run_limit_usd s \<le> 0
      then Inl (err ValueError ''openai_per_run_limit_usd must be positive'')
      else if cf_openai_budget_usd s < cf_openai_per_run_limit_usd s
      then Inl (err ValueError ''openai_per_run_limit_usd cannot exceed openai_budget_usd'')
      else if \<not> (64 \<le> cf_openai_max_output_tokens s \<and> cf_openai_max_output_tokens s \<le> 2000)
      then Inl (err ValueError ''openai_max_output_tokens must be between 64 and 2000'')
      else if \<not> timeout_in_range (cf_openai_timeout_seconds s)
      then Inl (err ValueError ''openai_timeout_seconds must be between 1 and 120'')
      else if ttl_too_short (cf_openai_reservation_ttl_seconds s) (cf_openai_timeout_seconds s)
      then Inl (err ValueError ''OpenAI reservation TTL must be at least twice the request timeout'')
      else Inr s)"

definition openai_enabled_from :: "environ \<Rightarrow> bool res" where
  "openai_enabled_from env =
     (let mode = lower (strip (getenv env ''OPENAI_ENABLED'' ''auto''))
      in if mode = ''auto'' then Inr (getenv env ''OPENAI_API_KEY'' [] \<noteq> [])
         else parse_bool mode ''OPENAI_ENABLED'')"

definition settings_from_env :: "environ \<Rightarrow> settings res" where
  "settings_from_env env =
     bind_res (openai_enabled_from env) (\<lambda>enabled.
     bind_res (parse_bool (getenv env ''AUTO_CREATE_SCHEMA'' ''true'') ''AUTO_CREATE_SCHEMA'') (\<lambda>schema.
     bind_res (parse_bool (getenv env ''METRICS_ENABLED'' ''true'') ''METRICS_ENABLED'') (\<lambda>metrics.
     bind_res (parse_decimal (getenv env ''OPENAI_BUDGET_USD'' ''3.00'') ''OPENAI_BUDGET_USD'') (\<lambda>budget.
     bind_res (parse_decimal (getenv env ''OPENAI_PER_RUN_LIMIT_USD'' ''0.001'') ''OPENAI_PER_RUN_LIMIT_USD'') (\<lambda>per_run.
     bind_res (parse_int (getenv env ''OPENAI_MAX_OUTPUT_TOKENS'' ''320'')) (\<lambda>tokens.
     bind_res (parse_float (getenv env ''OPENAI_TIMEOUT_SECONDS'' ''30'')) (\<lambda>timeout.
     bind_res (parse_int (getenv env ''OPENAI_RESERVATION_TTL_SECONDS'' ''600'')) (\<lambda>ttl.
     bind_res (parse_bool (getenv env ''PROMISEGUARD_STRICT_LOCAL_IDENTITY'' ''false'')
                 ''PROMISEGUARD_STRICT_LOCAL_IDENTITY'') (\<lambda>strict.
       new_settings
         \<lparr>cf_database_url = getenv env ''DATABASE_URL'' DEFAULT_DATABASE_URL,
          cf_environment = getenv env ''PROMISEGUARD_ENV'' DEFAULT_ENVIRONMENT,
          cf_auto_create_schema = schema, cf_metrics_enabled = metrics, cf_openai_enabled = enabled,
          cf_openai_model = strip (getenv env ''OPENAI_MODEL'' DEFAULT_OPENAI_MODEL),
          cf_openai_budget_usd = budget, cf_openai_per_run_limit_usd = per_run,
          cf_openai_max_output_tokens = tokens, cf_openai_timeout_seconds = timeout,
          cf_openai_reservation_ttl_seconds = ttl, cf_strict_local_identity = strict\<rparr>)))))))))"

section \<open>What a setting is good for\<close>

lemma settings_from_env_new: "settings_from_env env = Inr s \<Longrightarrow> new_settings s = Inr s"
  unfolding settings_from_env_def by (auto simp: bind_res_Inr new_settings_def split: if_splits)

lemma new_settings_budget:
  "new_settings s = Inr t \<Longrightarrow>
   \<exists>M. new_budget_manager (cf_openai_budget_usd t) (cf_openai_per_run_limit_usd t) ttl = Inr M"
  by (auto simp: new_settings_def new_budget_manager_def split: if_splits)

text \<open>The text of an integer reads back.\<close>

lemma is_digit_str_nat: "list_all is_digit (str_nat n)"
  by (auto simp: list_all_iff is_digit_def less_eq_char_def dest!: str_nat_digits)

lemma underscored_digits: "s \<noteq> [] \<Longrightarrow> list_all is_digit s \<Longrightarrow> underscored s"
  by (induction s rule: underscored.induct) (auto simp: is_digit_def)

lemma digit_not_space: "is_digit c \<Longrightarrow> \<not> is_space c \<and> c \<noteq> CHR ''_'' \<and> c \<noteq> CHR ''-'' \<and> c \<noteq> CHR ''+''"
  by (auto simp: is_digit_def is_space_def less_eq_char_def Let_def)

lemma strip_ends:
  assumes "s \<noteq> []" and "\<not> is_space (hd s)" and "\<not> is_space (last s)"
  shows "strip s = s"
proof -
  have a: "dropWhile is_space s = s" using assms(1,2) by (cases s) auto
  have "dropWhile is_space (rev s) = rev s" using assms(1,3) by (cases "rev s") (auto simp: last_rev)
  then show ?thesis by (simp add: strip_def a)
qed

lemma digits_of_str_nat: "digits_of (str_nat n) = Some n"
proof -
  have "filter (\<lambda>c. c \<noteq> CHR ''_'') (str_nat n) = str_nat n"
    using is_digit_str_nat [of n] digit_not_space by (auto simp: list_all_iff intro!: filter_True)
  then show ?thesis using underscored_digits [OF _ is_digit_str_nat] by (simp add: digits_of_def)
qed

lemma parse_int_str_int [simp]: "parse_int (str_int i) = Inr i"
proof -
  have ends: "is_digit (hd (str_nat n)) \<and> is_digit (last (str_nat n))" for n
    using is_digit_str_nat [of n] by (simp add: list_all_iff)
  have plain: "split_sign (strip (str_nat n)) = (1, str_nat n)" for n
    using ends [of n] digit_not_space strip_ends [of "str_nat n"]
    by (cases "str_nat n") (auto simp: split_sign_def)
  have neg: "split_sign (strip (CHR ''-'' # str_nat n)) = (- 1, str_nat n)" for n
    using ends [of n] digit_not_space strip_ends [of "CHR ''-'' # str_nat n"]
    by (auto simp: split_sign_def is_space_def Let_def)
  show ?thesis by (simp add: parse_int_def str_int_def plain neg digits_of_str_nat)
qed

section \<open>Usable settings\<close>

text \<open>Settings that are read from an environment are usable: the caps are positive with the
  per-run cap within the budget, the output limit and the timeout are in their ranges, a
  reservation lives at least twice the timeout, and a budget manager is built from them without
  an error.\<close>

theorem settings_are_usable:
  assumes "settings_from_env env = Inr s"
  shows "0 < cf_openai_per_run_limit_usd s \<and> cf_openai_per_run_limit_usd s \<le> cf_openai_budget_usd s \<and>
    64 \<le> cf_openai_max_output_tokens s \<and> cf_openai_max_output_tokens s \<le> 2000 \<and>
    cf_openai_model s \<noteq> [] \<and>
    (\<exists>t. cf_openai_timeout_seconds s = Some t \<and> 1 \<le> t \<and> t \<le> 120 \<and>
       fmul t 2 \<le> of_int (cf_openai_reservation_ttl_seconds s)) \<and>
    (\<exists>M. new_budget_manager (cf_openai_budget_usd s) (cf_openai_per_run_limit_usd s)
       (cf_openai_reservation_ttl_seconds s * 1000000) = Inr M)"
  using settings_from_env_new [OF assms] new_settings_budget
  by (auto simp: new_settings_def timeout_in_range_def ttl_too_short_def split: if_splits option.splits)

end
