(* ===== verification/Value_Design.thy ===== *)
theory Value_Design
  imports Py_Runtime
begin

text \<open>
  \<^verbatim>\<open>src/src/promiseguard/value_design.py\<close>: the designs by which incremental value may be
  measured, and the claim each supports.
\<close>

datatype value_measurement_design =
    SYNTHETIC_COUNTERFACTUAL_BACKTEST | NO_ACTION_BASELINE | SHADOW_MODE_COUNTERFACTUAL
  | CONTROL_GROUP | MATCHED_COMPARISON_GROUP | QUASI_EXPERIMENTAL

datatype value_claim_boundary =
    SYNTHETIC_ONLY | OPERATIONAL_OBSERVED_NOT_CAUSAL | CAUSAL_REQUIRES_DESIGNED_EXPERIMENT

record value_design_spec =
  vd_design :: value_measurement_design
  vd_implemented_locally :: bool
  vd_requires_operational_users :: bool
  vd_requires_live_outcomes :: bool
  vd_claim_boundary :: value_claim_boundary
  vd_comparison_mechanism :: string
  vd_notes :: string

definition LOCAL_VALUE_DESIGNS :: "value_design_spec list" where
  "LOCAL_VALUE_DESIGNS =
     [\<lparr>vd_design = SYNTHETIC_COUNTERFACTUAL_BACKTEST, vd_implemented_locally = True,
        vd_requires_operational_users = False, vd_requires_live_outcomes = False,
        vd_claim_boundary = SYNTHETIC_ONLY,
        vd_comparison_mechanism = ''known synthetic outcomes vs explicit TAKE_NO_ACTION baseline'',
        vd_notes = ''Machine-readable 100k-order backtest. Not real company revenue.''\<rparr>,
      \<lparr>vd_design = NO_ACTION_BASELINE, vd_implemented_locally = True,
        vd_requires_operational_users = False, vd_requires_live_outcomes = False,
        vd_claim_boundary = SYNTHETIC_ONLY,
        vd_comparison_mechanism = ''every candidate action ranked against TAKE_NO_ACTION'',
        vd_notes = ''Deterministic optimiser never omits the no-action option.''\<rparr>,
      \<lparr>vd_design = SHADOW_MODE_COUNTERFACTUAL, vd_implemented_locally = True,
        vd_requires_operational_users = True, vd_requires_live_outcomes = True,
        vd_claim_boundary = OPERATIONAL_OBSERVED_NOT_CAUSAL,
        vd_comparison_mechanism = ''shadow decision vs later observed outcome without execution'',
        vd_notes = ''Local APIs support SHADOW mode. Causal claims still require a designed pilot.''\<rparr>,
      \<lparr>vd_design = CONTROL_GROUP, vd_implemented_locally = False,
        vd_requires_operational_users = True, vd_requires_live_outcomes = True,
        vd_claim_boundary = CAUSAL_REQUIRES_DESIGNED_EXPERIMENT,
        vd_comparison_mechanism = ''randomised or holdout control that does not receive interventions'',
        vd_notes = ''Requires operational assignment policy during UAT/pilot. Not claimed locally.''\<rparr>,
      \<lparr>vd_design = MATCHED_COMPARISON_GROUP, vd_implemented_locally = False,
        vd_requires_operational_users = True, vd_requires_live_outcomes = True,
        vd_claim_boundary = CAUSAL_REQUIRES_DESIGNED_EXPERIMENT,
        vd_comparison_mechanism = ''matched unexecuted orders with similar risk and economics'',
        vd_notes = ''Feasible after live OMS outcomes exist. Matching spec is documented, not run.''\<rparr>,
      \<lparr>vd_design = QUASI_EXPERIMENTAL, vd_implemented_locally = False,
        vd_requires_operational_users = True, vd_requires_live_outcomes = True,
        vd_claim_boundary = CAUSAL_REQUIRES_DESIGNED_EXPERIMENT,
        vd_comparison_mechanism = ''difference-in-differences or interrupted time series if assigned'',
        vd_notes = ''Only after a real operating window exists. Not inferred from synthetic data.''\<rparr>]"

definition implemented_local_designs :: "value_design_spec list" where
  "implemented_local_designs = filter vd_implemented_locally LOCAL_VALUE_DESIGNS"

end
