(* ===== verification/Observability.thy ===== *)
theory Observability
  imports Py_Runtime
begin

text \<open>
  \<^verbatim>\<open>src/src/promiseguard/observability.py\<close>: correlation identifiers, the redaction of
  logged fields, the fields of a log line and the configuration of the root logger. A logged value
  is a tree of dictionaries and lists over leaves; the text of a line is the JSON of its fields.
\<close>

section \<open>Correlation identifiers\<close>

definition correlation_char :: "char \<Rightarrow> bool" where
  "correlation_char c \<longleftrightarrow>
     (CHR ''A'' \<le> c \<and> c \<le> CHR ''Z'') \<or> (CHR ''a'' \<le> c \<and> c \<le> CHR ''z'') \<or>
     (CHR ''0'' \<le> c \<and> c \<le> CHR ''9'') \<or> c \<in> set ''._:-''"

definition correlation_pattern :: "string \<Rightarrow> bool" where
  "correlation_pattern s \<longleftrightarrow> len_within 8 128 s \<and> list_all correlation_char s"

text \<open>\<open>fresh\<close> is the hex text of a new UUID.\<close>

definition normalise_correlation_id :: "string \<Rightarrow> string option \<Rightarrow> string" where
  "normalise_correlation_id fresh candidate =
     (case candidate of
        Some c \<Rightarrow> if c \<noteq> [] \<and> correlation_pattern c then c else ''corr_'' @ fresh
      | None \<Rightarrow> ''corr_'' @ fresh)"

text \<open>The context variable holds the bound identifier, \<open>''-''\<close> by default; a token is the value
  before.\<close>

definition unbound_correlation_id :: string where
  "unbound_correlation_id = ''-''"

definition bind_correlation_id :: "string \<Rightarrow> (string, string) prog" where
  "bind_correlation_id correlation_id = (\<lambda>bound. (Inr bound, correlation_id))"

definition reset_correlation_id :: "string \<Rightarrow> (string, unit) prog" where
  "reset_correlation_id token = (\<lambda>_. (Inr (), token))"

definition current_correlation_id :: "(string, string) prog" where
  "current_correlation_id = (\<lambda>bound. (Inr bound, bound))"

section \<open>Redaction\<close>

datatype 'a log_value =
    Leaf 'a
  | Text string
  | Dict "(string \<times> 'a log_value) list"
  | Seq "'a log_value list"

definition SENSITIVE_KEYS :: "string list" where
  "SENSITIVE_KEYS =
     [''address'', ''email'', ''external_notes'', ''name'', ''password'', ''phone'', ''secret'', ''token'']"

text \<open>\<open>re.search\<close> of a word, ignoring case.\<close>

fun contains_word :: "string \<Rightarrow> string \<Rightarrow> bool" where
  "contains_word w [] = (w = [])"
| "contains_word w (c # s) = (startswith w (c # s) \<or> contains_word w s)"

definition sensitive_key :: "string \<Rightarrow> bool" where
  "sensitive_key k \<longleftrightarrow> list_ex (\<lambda>w. contains_word w (lower k)) SENSITIVE_KEYS"

fun redact :: "'a log_value \<Rightarrow> 'a log_value" where
  "redact (Leaf x) = Leaf x"
| "redact (Text s) = Text s"
| "redact (Dict kvs) =
     Dict (map (\<lambda>(k, v). (k, if sensitive_key k then Text ''[REDACTED]'' else redact v)) kvs)"
| "redact (Seq vs) = Seq (map redact vs)"

text \<open>The values a log line shows under a sensitive key, at any depth.\<close>

fun exposed :: "'a log_value \<Rightarrow> 'a log_value set" where
  "exposed (Leaf x) = {}"
| "exposed (Text s) = {}"
| "exposed (Dict kvs) = (\<Union>(k, v) \<in> set kvs. if sensitive_key k then {v} else exposed v)"
| "exposed (Seq vs) = (\<Union>v \<in> set vs. exposed v)"

text \<open>The part of a value that no sensitive key guards, as paths to leaves.\<close>

fun unguarded :: "'a log_value \<Rightarrow> 'a log_value \<Rightarrow> bool" where
  "unguarded (Dict xs) (Dict ys) =
     list_all2 (\<lambda>(k, v) (l, w). k = l \<and> (sensitive_key k \<or> unguarded v w)) xs ys"
| "unguarded (Seq xs) (Seq ys) = list_all2 unguarded xs ys"
| "unguarded (Leaf x) (Leaf y) = (x = y)"
| "unguarded (Text s) (Text t) = (s = t)"
| "unguarded _ _ = False"

section \<open>Properties\<close>

text \<open>A redacted value shows nothing but the marker under any sensitive key at any depth, is
  the same as the original everywhere else, and is a fixed point of the redaction.\<close>

theorem redaction_is_exact:
  "exposed (redact v) \<subseteq> {Text ''[REDACTED]''} \<and> unguarded v (redact v) \<and> redact (redact v) = redact v"
proof (induction v)
  case (Dict kvs)
  then show ?case
    by (fastforce simp: list_all2_conv_all_nth split: prod.splits if_splits dest: nth_mem)
next
  case (Seq vs)
  then show ?case by (auto simp: list_all2_conv_all_nth)
qed auto

section \<open>Log lines\<close>

text \<open>What the formatter reads of a record: its attributes, the formatted message and the text of
  the exception. The reserved attributes are those every \<open>LogRecord\<close> has.\<close>

record 'a log_record =
  lr_levelname :: string
  lr_name :: string
  lr_message :: string
  lr_attributes :: "(string \<times> 'a log_value) list"
  lr_exception :: "string option"

definition reserved_attributes :: "string list" where
  "reserved_attributes =
     [''name'', ''msg'', ''args'', ''levelname'', ''levelno'', ''pathname'', ''filename'', ''module'',
      ''exc_info'', ''exc_text'', ''stack_info'', ''lineno'', ''funcName'', ''created'', ''msecs'',
      ''relativeCreated'', ''thread'', ''threadName'', ''processName'', ''process'', ''taskName'']"

definition log_extras :: "'a log_record \<Rightarrow> (string \<times> 'a log_value) list" where
  "log_extras r =
     filter (\<lambda>(k, v). k \<notin> set reserved_attributes \<and> k \<notin> {''message'', ''asctime''}) (lr_attributes r)"

definition log_payload :: "string \<Rightarrow> string \<Rightarrow> 'a log_record \<Rightarrow> (string \<times> 'a log_value) list" where
  "log_payload timestamp correlation_id r =
     [(''timestamp'', Text timestamp), (''level'', Text (lr_levelname r)), (''logger'', Text (lr_name r)),
      (''message'', Text (lr_message r)), (''correlation_id'', Text correlation_id)] @
     (if log_extras r \<noteq> [] then [(''context'', redact (Dict (log_extras r)))] else []) @
     (case lr_exception r of None \<Rightarrow> [] | Some e \<Rightarrow> [(''exception'', Text e)])"

text \<open>The root logger: for every handler whether it is the JSON handler, and the level.\<close>

record root_logger =
  rl_handlers :: "bool list"
  rl_level :: int

definition configure_json_logging :: "int \<Rightarrow> root_logger \<Rightarrow> root_logger" where
  "configure_json_logging level logger =
     (if True \<in> set (rl_handlers logger) then logger
      else logger\<lparr>rl_handlers := rl_handlers logger @ [True], rl_level := level\<rparr>)"

text \<open>A log line shows nothing under a sensitive key, and every attribute the caller added that no
  sensitive key guards is in its context.\<close>

theorem log_line_exposes_nothing:
  "exposed (Dict (log_payload timestamp correlation_id r)) \<subseteq> {Text ''[REDACTED]''} \<and>
   (\<forall>(k, v)\<in>set (log_extras r). \<not> sensitive_key k \<longrightarrow>
      (\<exists>kvs. (''context'', Dict kvs) \<in> set (log_payload timestamp correlation_id r) \<and> (k, redact v) \<in> set kvs))"
proof
  have "list_all (\<lambda>k. \<not> sensitive_key k) [''timestamp'', ''level'', ''logger'', ''message'', ''correlation_id'',
      ''context'', ''exception'']" by code_simp
  then have plain: "\<not> sensitive_key k" if "(k, v) \<in> set (log_payload timestamp correlation_id r)" for k v
    using that by (auto simp: log_payload_def split: if_splits option.splits)
  have "exposed (redact (Dict (log_extras r))) \<subseteq> {Text ''[REDACTED]''}" by (rule redaction_is_exact [THEN conjunct1])
  moreover have "exposed v = {} \<or> v = redact (Dict (log_extras r)) \<and> k = ''context''"
    if "(k, v) \<in> set (log_payload timestamp correlation_id r)" for k v
    using that by (auto simp: log_payload_def split: if_splits option.splits)
  ultimately show "exposed (Dict (log_payload timestamp correlation_id r)) \<subseteq> {Text ''[REDACTED]''}"
    using plain by fastforce
  show "\<forall>(k, v)\<in>set (log_extras r). \<not> sensitive_key k \<longrightarrow>
      (\<exists>kvs. (''context'', Dict kvs) \<in> set (log_payload timestamp correlation_id r) \<and> (k, redact v) \<in> set kvs)"
    by (force simp: log_payload_def)
qed

lemma configured_once:
  "configure_json_logging l (configure_json_logging l' logger) = configure_json_logging l' logger"
  by (simp add: configure_json_logging_def)

lemma correlation_restored:
  "bind (bind_correlation_id i) (\<lambda>token. bind m (\<lambda>x. bind (reset_correlation_id token) (\<lambda>_. ret x))) bound = (Inr x, bound') \<Longrightarrow>
     bound' = bound"
  by (auto simp: bind_app bind_correlation_id_def reset_correlation_id_def split: sum.splits prod.splits)

end
