(* ===== verification/Api.thy ===== *)
theory Api
  imports OpenAI_Agent Configuration Value_Design Observability
begin

text \<open>
  \<^verbatim>\<open>src/src/promiseguard/services.py\<close> and \<^verbatim>\<open>src/apps/api/main.py\<close>: the container that wires the
  services over one database, and the HTTP interface over the container: the validation of a
  request, its route, the counters it increments, and the response to each exception. Request
  parsing, response text and the latency histograms are left out.
\<close>

section \<open>The container\<close>

text \<open>What the process finds around it: library functions, the environment, the constructor of
  the default client, and the loader of a risk artifact (\<open>None\<close> where no file exists).\<close>

record deployment =
  dp_lib :: lib
  dp_isoformat :: isoformat
  dp_json :: "agent_context \<Rightarrow> string"
  dp_env :: environ
  dp_default_client :: "review_client res"
  dp_load :: "string \<Rightarrow> risk_artifact option"

record services =
  sv_settings :: settings
  sv_score :: "order_context \<Rightarrow> risk_assessment"
  sv_scorer_version :: string
  sv_agent :: agent_service

definition scorer_from_environment :: "deployment \<Rightarrow> ((order_context \<Rightarrow> risk_assessment) \<times> string) res" where
  "scorer_from_environment D =
     (let artifact = getenv (dp_env D) ''RISK_MODEL_PATH'' [] in
      case (if artifact = [] then None else dp_load D artifact) of
        Some a \<Rightarrow> bind_res (trained_scorer_init a) (\<lambda>a. Inr (trained_score a, art_model_version a))
      | None \<Rightarrow> Inr (deterministic_score, deterministic_model_version))"

definition build_services ::
  "deployment \<Rightarrow> wall \<Rightarrow> settings option \<Rightarrow> review_client option \<Rightarrow> (database, services) prog"
where
  "build_services D clock given openai_client =
     bind (of_res (case given of Some s \<Rightarrow> Inr s | None \<Rightarrow> settings_from_env (dp_env D))) (\<lambda>resolved.
     bind (bootstrap (clock 0)) (\<lambda>_.
     bind (of_res (scorer_from_environment D)) (\<lambda>(score, version).
     bind (of_res (new_budget_manager (cf_openai_budget_usd resolved) (cf_openai_per_run_limit_usd resolved)
             (cf_openai_reservation_ttl_seconds resolved * 1000000))) (\<lambda>budget.
     bind (budget_state budget (clock 1) None) (\<lambda>_.
     ret \<lparr>sv_settings = resolved, sv_score = score, sv_scorer_version = version,
          sv_agent = \<lparr>as_budget = budget, as_model = cf_openai_model resolved,
            as_max_output_tokens = cf_openai_max_output_tokens resolved,
            as_enabled = cf_openai_enabled resolved, as_client = openai_client\<rparr>\<rparr>)))))"

definition service_orchestrator :: "deployment \<Rightarrow> services \<Rightarrow> database orchestrator" where
  "service_orchestrator D V = sql_orchestrator (dp_lib D) (sv_score V) (sv_scorer_version V) autonomy_gateway"

section \<open>Requests and what they return\<close>

datatype api_request =
    Get_Health
  | Get_Ready
  | Get_Kill_Switch
  | Post_Kill_Switch kill_switch_update_input
  | Get_Autonomy
  | Get_Profile recovery_action
  | Post_Profile recovery_action autonomy_update_input
  | Post_Evaluate evaluation_request
  | Post_Shadow evaluation_request
  | Get_Decisions int "string option" "string option"
  | Get_Decision string
  | Post_Submit string string
  | Get_Approvals
  | Post_Approve string approval_decision_input
  | Post_Reject string approval_decision_input
  | Post_Feedback string operator_feedback_input
  | Get_Feedback string
  | Get_Designs
  | Get_Action string
  | Post_Verify string delivery_observation
  | Get_Budget
  | Get_Run string
  | Post_Agent_Run agent_run_request

datatype api_body =
    BStatus "(string \<times> string) list"
  | BKill kill_switch_state
  | BProfiles "autonomy_profile list"
  | BProfile autonomy_profile
  | BTrace decision_trace
  | BTraces "decision_trace list"
  | BState workflow_state
  | BApprovals "approval_record list"
  | BFeedback operator_feedback
  | BFeedbacks "operator_feedback list"
  | BDesigns "value_design_spec list"
  | BAction action_execution
  | BBudget agent_budget_state
  | BRun agent_run_record
  | BAgent agent_run_result

text \<open>The models of the bodies refuse a request before its route runs.\<close>

definition actor_text :: "string \<Rightarrow> bool" where "actor_text a \<longleftrightarrow> len_within 1 120 a"

fun request_valid :: "api_request \<Rightarrow> bool" where
  "request_valid (Post_Kill_Switch u) = (actor_text (ku_actor_id u) \<and> len_within 3 500 (ku_reason u))"
| "request_valid (Post_Profile _ u) = (actor_text (au_actor_id u) \<and> len_within 3 500 (au_reason u))"
| "request_valid (Post_Evaluate q) = valid_evaluation_request q"
| "request_valid (Post_Shadow q) = valid_evaluation_request q"
| "request_valid (Post_Submit _ actor) = actor_text actor"
| "request_valid (Post_Approve _ i) = (actor_text (ad_actor_id i) \<and> len_within 3 500 (ad_reason i))"
| "request_valid (Post_Reject _ i) = (actor_text (ad_actor_id i) \<and> len_within 3 500 (ad_reason i))"
| "request_valid (Post_Feedback _ i) = (actor_text (fi_actor_id i) \<and> len_within 3 1000 (fi_comment i))"
| "request_valid (Post_Verify _ ob) = valid_delivery_observation ob"
| "request_valid (Post_Agent_Run q) = (len_within 1 64 (rq_decision_id q) \<and> actor_text (rq_actor_id q))"
| "request_valid _ = True"

section \<open>Counters\<close>

datatype metric =
    Decision_Count policy_disposition operating_mode
  | Approval_Count approval_status
  | Action_Count recovery_action action_status
  | Verification_Count verification_status
  | Run_Count agent_run_status string
  | Cost_Count string rat
  | Budget_Block string

record app =
  app_world :: "sandbox world"
  app_metrics :: "metric list"

definition on_world :: "(sandbox world, 'a) prog \<Rightarrow> (app, 'a) prog" where
  "on_world m = on_part app_world (\<lambda>w s. s\<lparr>app_world := w\<rparr>) m"

definition on_tables :: "(database, 'a) prog \<Rightarrow> (app, 'a) prog" where
  "on_tables m = on_world (on_db m)"

definition count_all :: "metric list \<Rightarrow> (app, unit) prog" where
  "count_all xs = modify (\<lambda>s. s\<lparr>app_metrics := app_metrics s @ xs\<rparr>)"

definition approval_metrics :: "workflow_state \<Rightarrow> metric list" where
  "approval_metrics state = (case ws_approval state of None \<Rightarrow> [] | Some a \<Rightarrow> [Approval_Count (ar_status a)])"

definition action_metrics :: "workflow_state \<Rightarrow> metric list" where
  "action_metrics state =
     (case ws_execution state of None \<Rightarrow> []
      | Some x \<Rightarrow> [Action_Count (cmd_action (ae_command x)) (ae_status x)])"

definition outcome_metrics :: "workflow_state \<Rightarrow> metric list" where
  "outcome_metrics state = (case ws_outcome state of None \<Rightarrow> [] | Some y \<Rightarrow> [Verification_Count (ov_status y)])"

definition run_metrics :: "agent_run_record \<Rightarrow> metric list" where
  "run_metrics run =
     Run_Count (rr_status run) (rr_model run)
     # (if rr_actual_cost_usd run = 0 then [] else [Cost_Count (rr_model run) (fl (rr_actual_cost_usd run))])"

section \<open>The routes\<close>

definition counted :: "('a \<Rightarrow> metric list) \<Rightarrow> ('a \<Rightarrow> api_body) \<Rightarrow> (app, 'a) prog \<Rightarrow> (app, api_body) prog" where
  "counted metrics body m = bind m (\<lambda>x. bind (count_all (metrics x)) (\<lambda>_. ret (body x)))"

definition found :: "exn \<Rightarrow> (app, 'a option) prog \<Rightarrow> (app, 'a) prog" where
  "found e m = bind m (\<lambda>x. case x of None \<Rightarrow> raise e | Some y \<Rightarrow> ret y)"

definition readiness :: "services \<Rightarrow> environ \<Rightarrow> kill_switch_state \<Rightarrow> (string \<times> string) list" where
  "readiness V env k =
     [(''status'', ''ready''),
      (''environment'', cf_environment (sv_settings V)),
      (''scorer'', sv_scorer_version V),
      (''kill_switch'', lower (str_bool (ks_active k))),
      (''openai_agent'', if agent_available env (sv_agent V) then ''available'' else ''disabled''),
      (''openai_model'', cf_openai_model (sv_settings V)),
      (''identity_mode'', if cf_strict_local_identity (sv_settings V) then ''strict-local'' else ''local-permissive''),
      (''adapter_contract_version'', ''v1'')]"

definition evaluate_route :: "deployment \<Rightarrow> services \<Rightarrow> wall \<Rightarrow> evaluation_request \<Rightarrow> (app, api_body) prog" where
  "evaluate_route D V clock q =
     counted (\<lambda>t. [Decision_Count (pe_disposition (dt_policy t)) (dt_mode t)]) BTrace
       (on_tables (evaluation_service (dp_lib D) (service_orchestrator D V) (clock 0) q))"

definition list_decisions_route :: "int \<Rightarrow> string option \<Rightarrow> string option \<Rightarrow> (app, api_body) prog" where
  "list_decisions_route limit tenant_id header =
     (if limit < 1 \<or> 500 < limit
      then raise (Exn HTTPException ''limit must be between 1 and 500'' [''422''])
      else let tenant = (case tenant_id of Some t \<Rightarrow> (if t = [] then header else Some t) | None \<Rightarrow> header)
           in counted (\<lambda>_. []) BTraces (on_tables (\<lambda>db. (Inr (sql_list_recent (nat limit) tenant db), db))))"

definition agent_route :: "deployment \<Rightarrow> services \<Rightarrow> wall \<Rightarrow> wall \<Rightarrow> agent_run_request \<Rightarrow> (app, api_body) prog" where
  "agent_route D V clock wall q =
     counted (\<lambda>x. run_metrics (rs_run x)) BAgent
       (on_world (agent_run (dp_lib D) (dp_isoformat D) (dp_json D) (dp_env D) (dp_default_client D) default_ttl True
          sandbox_port clock wall (sv_agent V) q))"

fun api_route ::
  "deployment \<Rightarrow> services \<Rightarrow> wall \<Rightarrow> wall \<Rightarrow> api_request \<Rightarrow> (app, api_body) prog"
where
  "api_route D V clock wall Get_Health = ret (BStatus [(''status'', ''ok'')])"
| "api_route D V clock wall Get_Ready =
     counted (\<lambda>_. []) (\<lambda>k. BStatus (readiness V (dp_env D) k)) (on_tables read_kill_switch)"
| "api_route D V clock wall Get_Kill_Switch = counted (\<lambda>_. []) BKill (on_tables read_kill_switch)"
| "api_route D V clock wall (Post_Kill_Switch u) =
     counted (\<lambda>_. []) BKill (on_tables (set_kill_switch (dp_env D) (clock 0) u))"
| "api_route D V clock wall Get_Autonomy = counted (\<lambda>_. []) BProfiles (on_tables read_profiles)"
| "api_route D V clock wall (Get_Profile a) = counted (\<lambda>_. []) BProfile (on_tables (read_profile a))"
| "api_route D V clock wall (Post_Profile a u) =
     counted (\<lambda>_. []) BProfile (on_tables (set_profile (dp_env D) (clock 0) a u))"
| "api_route D V clock wall (Post_Evaluate q) = evaluate_route D V clock q"
| "api_route D V clock wall (Post_Shadow q) = evaluate_route D V clock (q\<lparr>er_mode := SHADOW\<rparr>)"
| "api_route D V clock wall (Get_Decisions limit tenant header) = list_decisions_route limit tenant header"
| "api_route D V clock wall (Get_Decision k) = counted (\<lambda>_. []) BState (on_world (workflow_get_state k))"
| "api_route D V clock wall (Post_Submit k actor) =
     counted (\<lambda>x. approval_metrics x @ action_metrics x) BState
       (on_world (submit (dp_lib D) default_ttl True sandbox_port wall k actor None))"
| "api_route D V clock wall Get_Approvals = counted (\<lambda>_. []) BApprovals (on_tables approval_service_list_pending)"
| "api_route D V clock wall (Post_Approve k inp) =
     counted (\<lambda>x. approval_metrics x @ action_metrics x) BState
       (on_world (approve_and_execute (dp_lib D) (dp_env D) True sandbox_port wall k inp None))"
| "api_route D V clock wall (Post_Reject k inp) =
     counted approval_metrics BState (on_world (reject_approval (dp_env D) wall k inp None))"
| "api_route D V clock wall (Post_Feedback k inp) =
     counted (\<lambda>_. []) BFeedback
       (on_tables (feedback_service_record (dp_lib D) (dp_isoformat D) (dp_env D) (clock 0) k inp))"
| "api_route D V clock wall (Get_Feedback k) = counted (\<lambda>_. []) BFeedbacks (on_tables (feedback_service_list k))"
| "api_route D V clock wall Get_Designs = ret (BDesigns LOCAL_VALUE_DESIGNS)"
| "api_route D V clock wall (Get_Action k) =
     counted (\<lambda>_. []) BAction
       (found (err RecordNotFoundError (''action '' @ repr_str k @ '' not found'')) (on_world (gateway_get k)))"
| "api_route D V clock wall (Post_Verify k ob) =
     counted outcome_metrics BState (on_world (verify_decision (dp_lib D) True wall k (Some ob) None))"
| "api_route D V clock wall Get_Budget =
     counted (\<lambda>_. []) BBudget (on_tables (budget_state (as_budget (sv_agent V)) (clock 0) None))"
| "api_route D V clock wall (Get_Run k) =
     counted (\<lambda>_. []) BRun (found (err OpenAIRunNotFoundError k) (on_tables (budget_get k)))"
| "api_route D V clock wall (Post_Agent_Run q) = agent_route D V clock wall q"

section \<open>Responses\<close>

datatype http_body =
    Content api_body
  | Detail string string "(string \<times> string list) list"
  | Detail_Text string
  | Invalid_Request
  | Server_Error

record http_response =
  hr_status :: int
  hr_body :: http_body
  hr_correlation_id :: "string option"

fun error_class_value :: "adapter_error_class \<Rightarrow> string" where
  "error_class_value AE_SUCCESS = ''SUCCESS''"
| "error_class_value AE_RETRYABLE = ''RETRYABLE''"
| "error_class_value AE_FATAL = ''FATAL''"
| "error_class_value AE_AMBIGUOUS = ''AMBIGUOUS''"
| "error_class_value AE_CONFLICT = ''CONFLICT''"
| "error_class_value AE_RATE_LIMITED = ''RATE_LIMITED''"
| "error_class_value AE_MALFORMED = ''MALFORMED''"
| "error_class_value AE_AUTH = ''AUTH''"

text \<open>The exceptions with a handler of their own: status and code.\<close>

fun registered_handler :: "exn_class \<Rightarrow> exn \<Rightarrow> (int \<times> string) option" where
  "registered_handler RecordNotFoundError e = Some (404, ''NOT_FOUND'')"
| "registered_handler OpenAIRunNotFoundError e = Some (404, ''OPENAI_RUN_NOT_FOUND'')"
| "registered_handler PersistenceConflictError e = Some (409, ''PERSISTENCE_CONFLICT'')"
| "registered_handler ApprovalError e = Some (409, ''APPROVAL_ERROR'')"
| "registered_handler ActionExecutionError e = Some (409, ''ACTION_EXECUTION_ERROR'')"
| "registered_handler AdapterRateLimited e = Some (429, ''ADAPTER_RATE_LIMITED'')"
| "registered_handler AdapterError e = Some (409, ''ADAPTER_'' @ error_class_value (error_class_of (exn_cls e)))"
| "registered_handler IdentityError e = Some (403, ''IDENTITY_ERROR'')"
| "registered_handler AutonomyControlError e = Some (409, ''AUTONOMY_CONTROL_ERROR'')"
| "registered_handler WorkflowError e = Some (409, ''WORKFLOW_ERROR'')"
| "registered_handler OpenAIAgentUnavailableError e = Some (503, ''OPENAI_AGENT_UNAVAILABLE'')"
| "registered_handler OpenAIBudgetExceededError e = Some (429, ''OPENAI_BUDGET_EXCEEDED'')"
| "registered_handler OpenAIPerRunLimitError e = Some (429, ''OPENAI_PER_RUN_LIMIT'')"
| "registered_handler OpenAIBudgetConfigurationError e = Some (500, ''OPENAI_BUDGET_CONFIGURATION'')"
| "registered_handler AgentOutputValidationError e = Some (502, ''OPENAI_OUTPUT_REJECTED'')"
| "registered_handler OpenAIResponseError e = Some (502, ''OPENAI_RESPONSE_ERROR'')"
| "registered_handler _ e = None"

text \<open>The first class in the resolution order of the exception that has a handler.\<close>

definition handler_for :: "exn \<Rightarrow> (int \<times> string) option" where
  "handler_for e =
     (case registered_handler (exn_cls e) e of
        Some h \<Rightarrow> Some h
      | None \<Rightarrow> (case base_class (exn_cls e) of
          None \<Rightarrow> None
        | Some b \<Rightarrow> (case registered_handler b e of
            Some h \<Rightarrow> Some h
          | None \<Rightarrow> (case base_class b of None \<Rightarrow> None | Some c \<Rightarrow> registered_handler c e))))"

definition error_message :: "exn \<Rightarrow> string" where
  "error_message e =
     (if exn_cls e = OpenAIResponseError then ''OpenAI did not produce a usable bounded review'' else exn_str e)"

definition error_extra :: "exn \<Rightarrow> (string \<times> string list) list" where
  "error_extra e =
     (case exn_cls e of
        AgentOutputValidationError \<Rightarrow>
          [(''run_id'', take 1 (exn_args e)), (''validation_errors'', drop 1 (exn_args e))]
      | OpenAIResponseError \<Rightarrow>
          [(''run_id'', take 1 (exn_args e)), (''provider_error_code'', drop 1 (exn_args e))]
      | _ \<Rightarrow> [])"

definition block_metrics :: "exn \<Rightarrow> metric list" where
  "block_metrics e =
     (case exn_cls e of
        OpenAIBudgetExceededError \<Rightarrow> [Budget_Block ''PROJECT_BUDGET'']
      | OpenAIPerRunLimitError \<Rightarrow> [Budget_Block ''PER_RUN_LIMIT'']
      | _ \<Rightarrow> [])"

text \<open>The middleware adds the correlation identifier to every response a handler makes; an
  exception without a handler passes it and becomes a bare 500.\<close>

definition error_response :: "string \<Rightarrow> exn \<Rightarrow> http_response" where
  "error_response correlation e =
     (if exn_cls e = HTTPException
      then \<lparr>hr_status = 422, hr_body = Detail_Text (exn_str e), hr_correlation_id = Some correlation\<rparr>
      else case handler_for e of
          Some (status, code) \<Rightarrow>
            \<lparr>hr_status = status, hr_body = Detail code (error_message e) (error_extra e),
             hr_correlation_id = Some correlation\<rparr>
        | None \<Rightarrow> \<lparr>hr_status = 500, hr_body = Server_Error, hr_correlation_id = None\<rparr>)"

definition serve ::
  "deployment \<Rightarrow> services \<Rightarrow> wall \<Rightarrow> wall \<Rightarrow> string \<Rightarrow> string option \<Rightarrow> api_request \<Rightarrow> app
   \<Rightarrow> http_response \<times> app"
where
  "serve D V clock wall fresh header request s =
     (let correlation = normalise_correlation_id fresh header in
      if \<not> request_valid request
      then (\<lparr>hr_status = 422, hr_body = Invalid_Request, hr_correlation_id = Some correlation\<rparr>, s)
      else case api_route D V clock wall request s of
          (Inr b, s') \<Rightarrow> (\<lparr>hr_status = 200, hr_body = Content b, hr_correlation_id = Some correlation\<rparr>, s')
        | (Inl e, s') \<Rightarrow> (error_response correlation e, snd (count_all (block_metrics e) s')))"

end
