(* ===== verification/Api_Properties.thy ===== *)
theory Api_Properties
  imports Api
begin

text \<open>
  What the interface of \<^verbatim>\<open>src/apps/api/main.py\<close> guarantees as a whole: the reachable states of a
  served application keep the authority invariant of the workflow, reading requests change
  nothing, and an evaluation that is sent again returns the recorded decision.
\<close>

section \<open>One request\<close>

lemma on_world_app: "on_world m s = (case m (app_world s) of (r, w) \<Rightarrow> (r, s\<lparr>app_world := w\<rparr>))"
  by (simp add: on_world_def on_part_def Let_def)

lemma on_tables_app:
  "on_tables m s = (case m (w_db (app_world s)) of (r, d) \<Rightarrow> (r, s\<lparr>app_world := (app_world s)\<lparr>w_db := d\<rparr>\<rparr>))"
  by (simp add: on_tables_def on_world_app on_db_app split: prod.split)

lemma count_all_app [simp]: "count_all xs s = (Inr (), s\<lparr>app_metrics := app_metrics s @ xs\<rparr>)"
  by (simp add: count_all_def)

text \<open>The world is left as the operation of the route leaves it.\<close>

lemma counted_world: "app_world (snd (counted metrics body m s)) = app_world (snd (m s))"
  by (cases "m s"; cases "fst (m s)") (auto simp: counted_def bind_app)

lemma found_world: "app_world (snd (found e m s)) = app_world (snd (m s))"
  by (cases "m s"; cases "fst (m s)") (auto simp: found_def bind_app split: option.split)

lemma on_world_world: "app_world (snd (on_world m s)) = snd (m (app_world s))"
  by (simp add: on_world_app split: prod.split)

lemma on_tables_world:
  "app_world (snd (on_tables m s)) = (app_world s)\<lparr>w_db := snd (m (w_db (app_world s)))\<rparr>"
  by (simp add: on_tables_app split: prod.split)

lemmas route_world = counted_world found_world on_world_world on_tables_world

lemma serve_world:
  assumes "serve D V clock wall fresh header q s = (resp, s')"
  shows "app_world s' = app_world s \<or>
    request_valid q \<and> app_world s' = app_world (snd (api_route D V clock wall q s))"
  using assms by (auto simp: serve_def Let_def split: if_splits prod.splits sum.splits)

section \<open>Authority\<close>

text \<open>A database that differs in events and feedback only grants the same.\<close>

lemma workflow_good_feedback: "workflow_good L (db\<lparr>tb_feedback := fs\<rparr>) = workflow_good L db"
  using same_grants [of "db\<lparr>tb_feedback := fs\<rparr>" db]
  by (simp add: workflow_good_def decisions_good_def approvals_good_def actions_good_def controls_good_def)

lemma feedback_service_record_good:
  "workflow_good L (snd (feedback_service_record L' fmt env now d payload db)) = workflow_good L db"
proof (cases "feedback_service_record L' fmt env now d payload db")
  case (Pair r db')
  then show ?thesis
    using feedback_service_record_InrD(5) feedback_service_record_Inl workflow_good_feedback
    by (cases r) (metis snd_conv)+
qed

lemma world_reads:
  "snd (read_kill_switch db) = db" "snd (read_profile a db) = db" "snd (feedback_service_list k db) = db"
  "snd (workflow_get_state k w) = w" "snd (budget_get k db) = db"
  using read_unchanged workflow_get_state_state
  by (metis prod.collapse, metis prod.collapse, simp add: feedback_service_list_def,
      metis prod.collapse, simp add: budget_get_def split: option.split)

lemma record_eta_db: "w\<lparr>w_db := w_db w\<rparr> = w" "s\<lparr>app_world := app_world s\<rparr> = s"
  by simp_all

lemma api_route_good:
  assumes fp: "distinguishes_decisions (dp_lib D)" and g: "workflow_good (dp_lib D) (w_db (app_world s))"
  shows "workflow_good (dp_lib D) (w_db (app_world (snd (api_route D V clock wall q s))))"
proof -
  let ?w = "app_world s"
  have step: "workflow_good (dp_lib D) (w_db v)" if "workflow_step (dp_lib D) ?w v" for v
    using workflow_step_good [OF that g fp] .
  have tables: "workflow_good (dp_lib D) (snd (m (w_db ?w)))"
    if "\<And>r v. on_db m ?w = (r, v) \<Longrightarrow> workflow_step (dp_lib D) ?w v" for m :: "(database, 'x) prog"
    using step [OF that [OF prod.collapse [symmetric]]] on_db_run [of m ?w, OF prod.collapse [symmetric]] by simp
  have evaluation: "workflow_good (dp_lib D)
      (snd (evaluation_service (dp_lib D) (service_orchestrator D V) now r (w_db ?w)))" for now r
    unfolding service_orchestrator_def by (rule workflow_good_evaluate [OF g])
  have agent: "workflow_good (dp_lib D) (w_db (snd (agent_run (dp_lib D) A json env c ttl gov sandbox_port
      clk wal S r ?w)))" for A json env c ttl gov clk wal S r
    using agent_run_keeps_authority [OF fp prod.collapse [symmetric]] g by (simp add: keeps_authority_def)
  have budget: "workflow_good (dp_lib D) (snd (budget_state M now t (w_db ?w)))" for M now t
    using budget_frame_good [OF budget_state_frame [OF prod.collapse [symmetric]]] g by blast
  show ?thesis
  proof (cases q)
    case (Post_Submit k actor)
    then show ?thesis by (simp add: route_world step workflow_step.submitting [OF prod.collapse [symmetric]])
  next
    case (Post_Approve k inp)
    then show ?thesis by (simp add: route_world step workflow_step.approving [OF prod.collapse [symmetric]])
  next
    case (Post_Reject k inp)
    then show ?thesis by (simp add: route_world step workflow_step.rejecting [OF prod.collapse [symmetric]])
  next
    case (Post_Verify k ob)
    then show ?thesis by (simp add: route_world step workflow_step.verifying [OF prod.collapse [symmetric]])
  next
    case (Get_Decisions limit tenant header)
    then show ?thesis using g by (simp add: list_decisions_route_def Let_def route_world)
  qed (use g in \<open>simp_all add: route_world world_reads evaluate_route_def agent_route_def evaluation agent
      budget workflow_good_set_controls [OF g] feedback_service_record_good read_profiles_def
      approval_service_list_pending_def gateway_get_def on_db_app\<close>)
qed

text \<open>A served application: requests by anyone in any order, the loss or change of the external
  systems at any time, and restarts of the process on the same database.\<close>

inductive api_step :: "deployment \<Rightarrow> app \<Rightarrow> app \<Rightarrow> bool" for D :: deployment where
  serving: "serve D V clock wall fresh header q s = (resp, s') \<Longrightarrow> api_step D s s'"
| disturbing: "s' = s\<lparr>app_world := (app_world s)\<lparr>w_ops := os\<rparr>\<rparr> \<Longrightarrow> api_step D s s'"
| restarting: "build_services D clock given client (w_db (app_world s)) = (r, db) \<Longrightarrow>
    s' = \<lparr>app_world = (app_world s)\<lparr>w_db := db\<rparr>, app_metrics = []\<rparr> \<Longrightarrow> api_step D s s'"

lemma build_services_good:
  assumes "workflow_good L db \<or> db = empty_database" and "build_services D clock given client db = (r, db')"
  shows "workflow_good L db' \<or> db' = db \<and> isl r"
proof -
  have boot: "workflow_good L (snd (bootstrap now db))" "fst (bootstrap now db) = Inr ()" for now
    using assms(1) bootstrap_good [of db now] workflow_good_start [of L now]
    by (auto simp: workflow_good_def bootstrap_def session_def)
  show ?thesis
    using assms(2) boot [of "clock 0"]
    by (auto simp: build_services_def bind_app budget_frame_good [OF budget_state_frame]
        split: prod.splits sum.splits)
qed

lemma api_step_good:
  assumes "api_step D s s'" and "distinguishes_decisions (dp_lib D)" and "workflow_good (dp_lib D) (w_db (app_world s))"
  shows "workflow_good (dp_lib D) (w_db (app_world s'))"
  using assms(1)
proof (cases rule: api_step.cases)
  case (serving V clock wall fresh header q resp)
  then show ?thesis using serve_world [OF serving] api_route_good [OF assms(2,3)] assms(3) by auto
next
  case (restarting clock given client r db)
  then show ?thesis using build_services_good [OF disjI1 [OF assms(3)] restarting(1)] assms(3) by auto
qed (use assms(3) in simp_all)

section \<open>What a request may change\<close>

fun reads :: "api_request \<Rightarrow> bool" where
  "reads (Post_Kill_Switch u) = False"
| "reads (Post_Profile a u) = False"
| "reads (Post_Evaluate r) = False"
| "reads (Post_Shadow r) = False"
| "reads (Post_Submit k a) = False"
| "reads (Post_Approve k i) = False"
| "reads (Post_Reject k i) = False"
| "reads (Post_Feedback k i) = False"
| "reads (Post_Verify k ob) = False"
| "reads Get_Budget = False"
| "reads (Post_Agent_Run r) = False"
| "reads _ = True"

fun may_act :: "api_request \<Rightarrow> bool" where
  "may_act (Post_Submit k a) = True"
| "may_act (Post_Approve k i) = True"
| "may_act (Post_Verify k ob) = True"
| "may_act (Post_Agent_Run r) = True"
| "may_act _ = False"

lemma reads_route: "reads q \<Longrightarrow> app_world (snd (api_route D V clock wall q s)) = app_world s"
  by (cases q) (simp_all add: route_world world_reads list_decisions_route_def Let_def read_profiles_def
      approval_service_list_pending_def gateway_get_def on_db_app)

lemma evaluation_actions:
  "tb_actions (snd (evaluation_service L (sql_orchestrator L score version gw) now q db)) = tb_actions db"
  by (auto simp: evaluation_service_def bind_app session_def event_ingest_def Let_def orchestrate_app
      sql_orchestrator_def sql_record_app split: prod.splits sum.splits option.splits)

lemma set_controls_actions:
  "tb_actions (snd (set_kill_switch env now ku db)) = tb_actions db"
  "tb_actions (snd (set_profile env now a au db)) = tb_actions db"
  by (auto simp: set_kill_switch_def set_profile_def bind_def session_def Let_def
      split: sum.splits option.splits prod.splits)

lemma feedback_actions: "tb_actions (snd (feedback_service_record L fmt env now k i db)) = tb_actions db"
  by (auto simp: feedback_service_record_def feedback_record_def session_def Let_def
      split: prod.splits sum.splits)

definition same_actions :: "database \<Rightarrow> database \<Rightarrow> bool" where
  "same_actions db db' \<longleftrightarrow> tb_actions db' = tb_actions db"

interpretation same_actions: frame_relation same_actions
  by unfold_locales (simp_all add: same_actions_def)

lemma reject_keeps_actions: "keeps same_actions (reject env k i now wl)"
proof -
  have "keeps same_actions (approval_update_if_pending x)" for x
    by (rule keepsI) (auto simp: approval_update_if_pending_def same_actions_def split: option.splits if_splits)
  then have "keeps same_actions (decide_write x i t u)" for x t u
    unfolding decide_write_def Let_def
    by (intro same_actions.keeps_bind same_actions.keeps_catch) (auto intro: same_actions.keeps_pure)
  moreover have "keeps same_actions (decide_read k i)"
    by (rule keepsI) (auto simp: decide_read_def same_actions_def split: option.splits if_splits sum.splits)
  ultimately show ?thesis
    unfolding reject_def approval_decide_def Let_def
    by (auto intro!: same_actions.keeps_bind same_actions.keeps_session)
qed

lemma reject_actions:
  "tb_actions (w_db (snd (reject_approval env wall k i now w))) = tb_actions (w_db w) \<and>
   w_ops (snd (reject_approval env wall k i now w)) = w_ops w"
proof -
  obtain r db where r: "reject env k i now (wall 0) (w_db w) = (r, db)" by fastforce
  have "tb_actions db = tb_actions (w_db w)" using keepsD [OF reject_keeps_actions r] by (simp add: same_actions_def)
  then show ?thesis
    using r by (cases r) (auto simp: reject_approval_def bind_app on_db_app workflow_decision_def split: option.splits)
qed

lemma passive_route:
  assumes "\<not> may_act q"
  shows "w_ops (app_world (snd (api_route D V clock wall q s))) = w_ops (app_world s) \<and>
    tb_actions (w_db (app_world (snd (api_route D V clock wall q s)))) = tb_actions (w_db (app_world s))"
proof (cases "reads q")
  case True
  then show ?thesis by (simp add: reads_route)
next
  case False
  have "tb_actions (snd (budget_state M now t db)) = tb_actions db" for M now t db
    using budget_state_frame [OF prod.collapse [symmetric]] by (auto simp: budget_frame_def)
  then show ?thesis
    using assms False
    by (cases q) (simp_all add: route_world evaluate_route_def service_orchestrator_def evaluation_actions
        set_controls_actions feedback_actions reject_actions)
qed

section \<open>Evaluations sent again\<close>

lemma registered_status: "registered_handler c e = Some (n, code) \<Longrightarrow> 400 \<le> n"
  by (cases c) auto

lemma autonomy_gateway_cong:
  "tb_controls db' = tb_controls db \<Longrightarrow> tb_profiles db' = tb_profiles db \<Longrightarrow>
   autonomy_gateway db' = autonomy_gateway db"
  by (auto simp: autonomy_gateway_def read_kill_switch_def read_profile_def context_version_def
      execution_permitted_def bind_app fun_eq_iff split: option.splits sum.splits)

lemma find_snoc: "List.find p xs = None \<Longrightarrow> List.find p (xs @ [x]) = (if p x then Some x else None)"
  by (induction xs) (auto split: if_splits)

lemma event_ingest_replay:
  assumes "session (event_ingest L e q now) db = (Inr row, db1)" and "tb_events db2 = tb_events db1"
  shows "session (event_ingest L e q now') db2 = (Inr row, db2)"
proof (cases "List.find (same_event e) (tb_events db)")
  case None
  then show ?thesis
    using assms find_snoc [OF None]
    by (auto simp: session_def event_ingest_def Let_def same_event_def split: option.splits if_splits)
qed (use assms in \<open>auto simp: session_def event_ingest_def Let_def split: option.splits if_splits\<close>)

lemma evaluation_service_replay:
  assumes g: "decisions_good L db"
    and run: "evaluation_service L (sql_orchestrator L score version autonomy_gateway) now q db = (Inr t, db')"
  shows "evaluation_service L (sql_orchestrator L score version autonomy_gateway) now' q db' = (Inr t, db')"
proof -
  let ?ob = "sql_orchestrator L score version autonomy_gateway"
  obtain row db1 where i: "session (event_ingest L (er_event q) q now) db = (Inr row, db1)"
    and o: "orchestrate L ?ob q db1 = (Inr t, db')"
    using run unfolding evaluation_service_def by (rule bind_InrE)
  have tabs: "tb_decisions db1 = tb_decisions db"
    using i by (auto simp: session_def event_ingest_def Let_def split: option.splits if_splits)
  have frame: "tb_events db' = tb_events db1 \<and> tb_controls db' = tb_controls db1 \<and> tb_profiles db' = tb_profiles db1"
    using o by (auto simp: orchestrate_app sql_orchestrator_def sql_record_app split: sum.splits option.splits if_splits)
  have good1: "decisions_good L db1" using g good_cong(1) [OF tabs] by simp
  have "orc_policy ?ob db' = orc_policy ?ob db1"
    unfolding sql_orchestrator_def using autonomy_gateway_cong [of db' db1] frame by simp
  then have "orchestrate L ?ob q db' = (Inr t, db')"
    by (rule sql_pipeline.orchestrate_replay [OF good1 o])
  moreover have "session (event_ingest L (er_event q) q now') db' = (Inr row, db')"
    by (rule event_ingest_replay [OF i]) (use frame in simp)
  ultimately show ?thesis by (simp add: evaluation_service_def)
qed

section \<open>The outcomes of an evaluation\<close>

text \<open>A container that was built scores by one of the two scorers.\<close>

lemma build_services_score:
  assumes "build_services D clock given client db = (Inr V, db')" and "valid_order_context c"
  shows "valid_risk_assessment (sv_score V c)"
proof -
  obtain score version where "scorer_from_environment D = Inr (score, version)" "sv_score V = score"
    using assms(1) by (auto simp: build_services_def bind_app split: prod.splits sum.splits)
  then have "score = deterministic_score \<or> (\<exists>a :: risk_artifact. score = trained_score a)"
    by (cases "if getenv (dp_env D) ''RISK_MODEL_PATH'' [] = [] then None
        else dp_load D (getenv (dp_env D) ''RISK_MODEL_PATH'' [])")
      (auto simp: scorer_from_environment_def Let_def bind_res_Inr dest: sym)
  then show ?thesis using rules.score_valid trained.score_valid assms(2) \<open>sv_score V = score\<close> by auto
qed

lemma evaluation_service_outcomes:
  fixes L :: lib
  defines "ob v sc \<equiv> sql_orchestrator L sc v autonomy_gateway"
  assumes good: "controls_good db" "decisions_good L db" and q: "valid_evaluation_request r" "order_money_fits (er_order r)"
    and score: "valid_risk_assessment (orc_score (ob version score) (er_order r))"
    and run: "evaluation_service L (ob version score) now r db = (x, d)"
  obtains (recorded) t where "x = Inr t" "sql_get (dt_decision_id t) d = Some t"
  | (taken) e where "x = Inl e" "exn_cls e = PersistenceConflictError" "d = db"
      "\<exists>row\<in>set (tb_events db). same_event (er_event r) row \<and>
         evr_fingerprint row \<noteq> canonical_fingerprint L (json_request L r)"
  | (unstorable) e where "x = Inl e" "exn_cls e \<in> {DataError, OverflowError}" "d = db"
      "\<not> event_storable (db_dialect L) (er_event r)"
  | (conflict) e where "x = Inl e" "exn_cls e = LedgerConflictError" "tb_decisions d = tb_decisions db"
      "\<exists>row\<in>set (tb_decisions db). \<exists>t. decide L (ob version score) db r = Inr t \<and>
         dcr_decision_id row = dt_decision_id t \<and> dcr_fingerprint row \<noteq> trace_fingerprint L t"
proof -
  obtain i db1 where i: "session (event_ingest L (er_event r) r now) db = (i, db1)" by fastforce
  have tabs: "tb_decisions db1 = tb_decisions db" "tb_controls db1 = tb_controls db" "tb_profiles db1 = tb_profiles db"
    using i by (auto simp: session_def event_ingest_def Let_def split: option.splits if_splits)
  obtain t where t: "decide L (ob version score) db r = Inr t"
    using autonomy.controlled_decide_total [OF good(1), of "ob version score" r L] q score
    by (auto simp: ob_def sql_orchestrator_def)
  have t1: "decide L (ob version score) db1 r = Inr t"
    using t autonomy_gateway_cong [OF tabs(2,3)] by (simp add: decide_def ob_def sql_orchestrator_def)
  show thesis
  proof (cases i)
    case (Inl e)
    then have "db1 = db \<and> (exn_cls e = PersistenceConflictError \<and> (\<exists>row\<in>set (tb_events db).
        same_event (er_event r) row \<and> evr_fingerprint row \<noteq> canonical_fingerprint L (json_request L r)) \<or>
        exn_cls e \<in> {DataError, OverflowError} \<and> \<not> event_storable (db_dialect L) (er_event r))"
      using i by (auto simp: session_def event_ingest_def event_storable_def integer_error_def Let_def find_Some_iff
          split: option.splits if_splits sql_dialect.splits)
    then show thesis using Inl i run taken unstorable by (auto simp: evaluation_service_def)
  next
    case (Inr row)
    have g1: "decisions_good L db1" using good(2) good_cong(1) [OF tabs(1)] by simp
    have x: "sql_record L t db1 = (x, d)"
      using run i Inr t1 by (simp add: evaluation_service_def orchestrate_app ob_def sql_orchestrator_def)
    show thesis
    proof (cases x)
      case (Inl e)
      have c: "exn_cls e = LedgerConflictError \<and> d = db1" using sql.put_InlD [OF g1] x Inl by blast
      have "\<exists>row\<in>set (tb_decisions db1). dcr_decision_id row = dt_decision_id t \<and> dcr_fingerprint row \<noteq> trace_fingerprint L t"
        using x Inl by (auto simp: sql_record_app split: option.splits if_splits dest!: row_get_SomeD)
      then show thesis using conflict [OF Inl] c t tabs(1) by auto
    next
      case (Inr y)
      have "sql_get (dt_decision_id y) d = Some y" using sql.put_InrD [OF g1] x Inr by metis
      with Inr show thesis by (rule recorded)
    qed
  qed
qed

lemma serve_evaluate:
  "valid_evaluation_request r \<Longrightarrow> serve D V clock wall fresh header (Post_Evaluate r) s =
    (case evaluation_service (dp_lib D) (service_orchestrator D V) (clock 0) r (w_db (app_world s)) of
       (Inr x, d) \<Rightarrow> (\<lparr>hr_status = 200, hr_body = Content (BTrace x),
           hr_correlation_id = Some (normalise_correlation_id fresh header)\<rparr>,
         \<lparr>app_world = (app_world s)\<lparr>w_db := d\<rparr>,
          app_metrics = app_metrics s @ [Decision_Count (pe_disposition (dt_policy x)) (dt_mode x)]\<rparr>)
     | (Inl e, d) \<Rightarrow> (error_response (normalise_correlation_id fresh header) e,
         \<lparr>app_world = (app_world s)\<lparr>w_db := d\<rparr>, app_metrics = app_metrics s @ block_metrics e\<rparr>))"
  by (cases s) (auto simp: serve_def evaluate_route_def counted_def bind_app on_tables_app Let_def
      split: prod.splits sum.splits)

section \<open>Properties\<close>

text \<open>C2: No request to the interface can take an action without authority. A process is started on
  an empty database, or on one that an earlier process left, and serves any requests by anyone
  in any order, with restarts in between and whatever happens in the external systems: then
  every action of the table carries out what its decision selected, on an autonomous
  disposition of that decision or on the approval of someone other than the requester.\<close>

theorem api_takes_no_action_without_authority:
  assumes "distinguishes_decisions (dp_lib D)" and "workflow_good (dp_lib D) db0 \<or> db0 = empty_database"
    and "build_services D clock given client db0 = (Inr V, db)"
    and "(api_step D)\<^sup>*\<^sup>* \<lparr>app_world = \<lparr>w_db = db, w_ops = os\<rparr>, app_metrics = []\<rparr> s"
    and "row \<in> set (tb_actions (w_db (app_world s)))"
  shows "granted (w_db (app_world s)) (acr_command row)"
proof -
  have "workflow_good (dp_lib D) (w_db (app_world s))"
    using assms(4)
  proof (induction rule: rtranclp_induct)
    case base
    show ?case using build_services_good [OF assms(2,3)] assms(2) by auto
  next
    case (step u v)
    show ?case by (rule api_step_good [OF step(2) assms(1) step(3)])
  qed
  then show ?thesis using assms(5) by (simp add: workflow_good_def)
qed

text \<open>C29: Reading is free of effects and acting is confined: a request that only reads leaves the
  tables and the external systems as they are; reading the budget settles reservations that
  ran out and changes nothing else; and the action table and the external systems are changed
  by submissions, approvals, verifications and agent runs only.\<close>

theorem requests_are_confined:
  assumes "serve D V clock wall fresh header q s = (resp, s')"
  shows "(reads q \<longrightarrow> app_world s' = app_world s) \<and>
    (q = Get_Budget \<longrightarrow> budget_frame (w_db (app_world s)) (w_db (app_world s')) \<and>
       w_ops (app_world s') = w_ops (app_world s)) \<and>
    (w_ops (app_world s') \<noteq> w_ops (app_world s) \<or>
     tb_actions (w_db (app_world s')) \<noteq> tb_actions (w_db (app_world s)) \<longrightarrow>
       request_valid q \<and> may_act q)"
proof -
  have "budget_frame (w_db (app_world s)) (snd (budget_state (as_budget (sv_agent V)) (clock 0) None (w_db (app_world s))))"
    by (rule budget_state_frame [OF surjective_pairing])
  then show ?thesis
    using serve_world [OF assms] reads_route passive_route [of q D V clock wall s]
    by (cases "may_act q") (auto simp: route_world budget_frame.refl)
qed

text \<open>C12: Sending an evaluation again is safe: a request that was answered with a decision is
  answered with the same decision at any later time, as long as nothing else was served in
  between, and leaves the tables exactly as they are; no second event and no second decision.\<close>

theorem evaluation_is_idempotent:
  assumes "decisions_good (dp_lib D) (w_db (app_world s))" and "q \<in> {Post_Evaluate r, Post_Shadow r}"
    and "serve D V clock wall fresh header q s = (resp, s')" and "hr_status resp = 200"
    and "serve D V clock' wall' fresh' header' q s' = (resp', s'')"
  shows "hr_body resp' = hr_body resp \<and> hr_status resp' = 200 \<and> app_world s'' = app_world s'"
proof -
  obtain p where p: "api_route D V c w q u = evaluate_route D V c p u" for c w u
    using assms(2) by (auto intro: that [of r] that [of "r\<lparr>er_mode := SHADOW\<rparr>"])
  let ?ev = "\<lambda>now. evaluation_service (dp_lib D) (service_orchestrator D V) now p"
  have valid: "request_valid q" using assms(3,4) by (auto simp: serve_def Let_def split: if_splits)
  have route: "evaluate_route D V c p u = (case ?ev (c 0) (w_db (app_world u)) of
      (Inl e, d) \<Rightarrow> (Inl e, u\<lparr>app_world := (app_world u)\<lparr>w_db := d\<rparr>\<rparr>)
    | (Inr t, d) \<Rightarrow> (Inr (BTrace t), \<lparr>app_world = (app_world u)\<lparr>w_db := d\<rparr>,
        app_metrics = app_metrics u @ [Decision_Count (pe_disposition (dt_policy t)) (dt_mode t)]\<rparr>))" for c u
    by (cases u) (auto simp: evaluate_route_def counted_def bind_app on_tables_app split: prod.splits sum.splits)
  have failed: "hr_status (error_response cid e) \<noteq> 200" for cid e
    by (auto simp: error_response_def handler_for_def split: option.splits dest!: registered_status)
  obtain t d where t: "?ev (clock 0) (w_db (app_world s)) = (Inr t, d)" and s': "w_db (app_world s') = d"
    and body: "hr_body resp = Content (BTrace t)"
    using assms(3,4) valid failed by (auto simp: serve_def Let_def p route split: prod.splits sum.splits)
  have "?ev (clock' 0) d = (Inr t, d)"
    using evaluation_service_replay [OF assms(1) t [unfolded service_orchestrator_def]]
    by (simp add: service_orchestrator_def)
  then show ?thesis using assms(5) valid s' body by (auto simp: serve_def Let_def p route)
qed

text \<open>C11: Every valid evaluation is answered: on consistent tables, by any container that was
  built, and with amounts the decimals can hold, a valid request gets its decision, which is in
  the ledger from then on, except in three cases. It gets status 409 only where the identity of its
  event is taken by another content, and status 500, from an exception without a handler, only where
  the columns of the event table do not hold its event or where the identifier of its decision is
  taken. Of a valid event, it is the version that may not fit the integer column, or the schema
  version that may not fit the text column of PostgreSQL: no validator bounds either. In the first
  two cases nothing at all is changed.\<close>

theorem evaluation_is_answered:
  assumes "workflow_good (dp_lib D) (w_db (app_world s))" and "valid_evaluation_request r"
    and "order_money_fits (er_order r)" and "build_services D clock0 given client db0 = (Inr V, db1)"
    and "serve D V clock wall fresh header (Post_Evaluate r) s = (resp, s')"
  shows "(\<exists>t. hr_status resp = 200 \<and> hr_body resp = Content (BTrace t) \<and>
      sql_get (dt_decision_id t) (w_db (app_world s')) = Some t) \<or>
    hr_status resp = 409 \<and> app_world s' = app_world s \<and>
      (\<exists>row\<in>set (tb_events (w_db (app_world s))). same_event (er_event r) row \<and>
         evr_fingerprint row \<noteq> canonical_fingerprint (dp_lib D) (json_request (dp_lib D) r)) \<or>
    hr_status resp = 500 \<and> app_world s' = app_world s \<and>
      (integer_error (db_dialect (dp_lib D)) (ev_event_version (er_event r)) \<noteq> None \<or>
       \<not> column_holds (db_dialect (dp_lib D)) 20 (ev_schema_version (er_event r))) \<or>
    hr_status resp = 500 \<and> tb_decisions (w_db (app_world s')) = tb_decisions (w_db (app_world s)) \<and>
      (\<exists>row\<in>set (tb_decisions (w_db (app_world s))). \<exists>t.
         decide (dp_lib D) (service_orchestrator D V) (w_db (app_world s)) r = Inr t \<and>
         dcr_decision_id row = dt_decision_id t \<and> dcr_fingerprint row \<noteq> trace_fingerprint (dp_lib D) t)"
proof -
  obtain x d where x: "evaluation_service (dp_lib D) (service_orchestrator D V) (clock 0) r (w_db (app_world s)) = (x, d)"
    by fastforce
  have ok: "valid_risk_assessment (orc_score (service_orchestrator D V) (er_order r))"
    using build_services_score [OF assms(4)] assms(2)
    by (simp add: service_orchestrator_def sql_orchestrator_def valid_evaluation_request_def)
  have good: "controls_good (w_db (app_world s))" "decisions_good (dp_lib D) (w_db (app_world s))"
    using assms(1) by (simp_all add: workflow_good_def)
  have answer: "(resp, s') = (case (x, d) of
       (Inr t, d) \<Rightarrow> (\<lparr>hr_status = 200, hr_body = Content (BTrace t),
           hr_correlation_id = Some (normalise_correlation_id fresh header)\<rparr>,
         \<lparr>app_world = (app_world s)\<lparr>w_db := d\<rparr>,
          app_metrics = app_metrics s @ [Decision_Count (pe_disposition (dt_policy t)) (dt_mode t)]\<rparr>)
     | (Inl e, d) \<Rightarrow> (error_response (normalise_correlation_id fresh header) e,
         \<lparr>app_world = (app_world s)\<lparr>w_db := d\<rparr>, app_metrics = app_metrics s @ block_metrics e\<rparr>))"
    using assms(5) unfolding serve_evaluate [OF assms(2)] x by simp
  show ?thesis
    using good assms(2,3) ok [unfolded service_orchestrator_def] x [unfolded service_orchestrator_def]
  proof (cases rule: evaluation_service_outcomes)
    case (recorded t)
    then show ?thesis using answer by simp
  next
    case (taken e)
    then show ?thesis using answer by (simp add: error_response_def handler_for_def)
  next
    case (unstorable e)
    have "valid_operational_event (er_event r)" using assms(2) by (simp add: valid_evaluation_request_def)
    with unstorable show ?thesis
      using answer by (auto simp: error_response_def handler_for_def valid_event_storable)
  next
    case (conflict e)
    then show ?thesis using answer by (simp add: error_response_def handler_for_def service_orchestrator_def)
  qed
qed

section \<open>A sample application\<close>

definition sample_deployment :: deployment where
  "sample_deployment = \<lparr>dp_lib = sample_execution_lib, dp_isoformat = \<lambda>_. ''t'', dp_json = \<lambda>_. ''{}'', dp_env = [],
     dp_default_client = Inl (err ValueError []), dp_load = \<lambda>_. None\<rparr>"

definition sample_build :: "services res \<times> database" where
  "sample_build = build_services sample_deployment (\<lambda>n. utc (int n)) None None empty_database"

definition sample_app :: app where
  "sample_app = \<lparr>app_world = \<lparr>w_db = sample_controls, w_ops = empty_sandbox\<rparr>, app_metrics = []\<rparr>"

lemma sample_build_ok:
  "\<exists>V db. sample_build = (Inr V, db)"
proof -
  have "case sample_build of (Inl e, d) \<Rightarrow> False | (Inr V, d) \<Rightarrow> True" by code_simp
  then show ?thesis by (auto split: prod.splits sum.splits)
qed

lemma sample_app_good: "workflow_good L (w_db (app_world sample_app))"
  by (simp add: sample_app_def sample_controls_def workflow_good_start)

lemma sample_app_empty: "tb_events (w_db (app_world sample_app)) = []" "tb_decisions (w_db (app_world sample_app)) = []"
  by (simp_all add: sample_app_def sample_controls_def bootstrap_def session_def empty_database_def)

lemma sample_money_fits: "order_money_fits (er_order (sample_request m))"
proof -
  have "order_money_fits sample_order" by code_simp
  then show ?thesis by (simp add: sample_request_def)
qed

lemma sample_storable:
  "integer_error (db_dialect (dp_lib sample_deployment)) (ev_event_version (er_event (sample_request m))) = None"
  "column_holds (db_dialect (dp_lib sample_deployment)) 20 (ev_schema_version (er_event (sample_request m)))"
  "event_storable (db_dialect sample_execution_lib) (er_event (sample_request m))"
proof -
  show s: "event_storable (db_dialect sample_execution_lib) (er_event (sample_request m))"
    by (cases m) code_simp+
  then show "integer_error (db_dialect (dp_lib sample_deployment)) (ev_event_version (er_event (sample_request m))) = None"
    "column_holds (db_dialect (dp_lib sample_deployment)) 20 (ev_schema_version (er_event (sample_request m)))"
    by (simp_all add: event_storable_def event_texts_fit_def sample_deployment_def)
qed

definition sample_evaluate :: "services \<Rightarrow> http_response \<times> app" where
  "sample_evaluate V = serve sample_deployment V (\<lambda>_. utc 20) (\<lambda>_. utc 20) ''c'' None
     (Post_Evaluate (sample_request RECOMMENDATION)) sample_app"

lemma evaluation_is_answered_witness:
  "\<exists>V db t. sample_build = (Inr V, db) \<and> hr_body (fst (sample_evaluate V)) = Content (BTrace t)"
proof -
  obtain V db where V: "sample_build = (Inr V, db)" using sample_build_ok by blast
  from evaluation_is_answered [OF sample_app_good sample_request_valid sample_money_fits
      V [unfolded sample_build_def] surjective_pairing] V sample_app_empty sample_storable
  show ?thesis unfolding sample_evaluate_def by fastforce
qed

lemma sample_lib [simp]: "dp_lib sample_deployment = sample_execution_lib"
  by (simp add: sample_deployment_def)

lemma sample_evaluated:
  assumes "sample_build = (Inr V, db)" shows "hr_status (fst (sample_evaluate V)) = 200"
proof -
  let ?ob = "sql_orchestrator sample_execution_lib (sv_score V) (sv_scorer_version V) autonomy_gateway"
  have ob: "service_orchestrator sample_deployment V = ?ob" by (simp add: service_orchestrator_def)
  obtain x d where x: "evaluation_service sample_execution_lib ?ob (utc 20) (sample_request RECOMMENDATION)
      (w_db (app_world sample_app)) = (x, d)" by fastforce
  have good: "controls_good (w_db (app_world sample_app))" "decisions_good sample_execution_lib (w_db (app_world sample_app))"
    using sample_app_good [of sample_execution_lib] by (simp_all add: workflow_good_def)
  have ok: "valid_risk_assessment (orc_score ?ob (er_order (sample_request RECOMMENDATION)))"
    using build_services_score [OF assms [unfolded sample_build_def]] sample_request_valid
    by (simp add: sql_orchestrator_def valid_evaluation_request_def)
  have "\<exists>t. x = Inr t"
    by (rule evaluation_service_outcomes [OF good sample_request_valid sample_money_fits ok x])
      (use sample_app_empty sample_storable(3) in auto)
  then show ?thesis
    using x ob by (auto simp: sample_evaluate_def serve_evaluate [OF sample_request_valid])
qed

lemma evaluation_is_idempotent_witness:
  "\<exists>V db resp s. sample_build = (Inr V, db) \<and> sample_evaluate V = (resp, s) \<and>
     app_world (snd (serve sample_deployment V (\<lambda>_. utc 30) (\<lambda>_. utc 30) ''d'' None
       (Post_Evaluate (sample_request RECOMMENDATION)) s)) = app_world s"
proof -
  obtain V db where V: "sample_build = (Inr V, db)" using sample_build_ok by blast
  obtain resp s where r: "sample_evaluate V = (resp, s)" by fastforce
  have good: "decisions_good (dp_lib sample_deployment) (w_db (app_world sample_app))"
    using sample_app_good [of sample_execution_lib] by (simp add: workflow_good_def)
  have "hr_status resp = 200" using sample_evaluated [OF V] r by simp
  with evaluation_is_idempotent [OF good insertI1 r [unfolded sample_evaluate_def] _ surjective_pairing] V r
  show ?thesis by blast
qed

lemma requests_are_confined_witness:
  "\<exists>V db. sample_build = (Inr V, db) \<and>
     app_world (snd (serve sample_deployment V (\<lambda>_. utc 0) (\<lambda>_. utc 0) ''c'' None Get_Ready sample_app)) =
     app_world sample_app"
proof -
  obtain V db where V: "sample_build = (Inr V, db)" using sample_build_ok by blast
  from requests_are_confined [where D = sample_deployment and V = V and clock = "\<lambda>_. utc 0" and wall = "\<lambda>_. utc 0"
      and fresh = "''c''" and header = None and q = Get_Ready and s = sample_app, OF surjective_pairing] V
  show ?thesis by auto
qed

text \<open>A restart on the database of a submitted decision, and the approval of that decision.\<close>

definition sample_restart :: "services res \<times> database" where
  "sample_restart = build_services sample_deployment (\<lambda>n. utc (int n)) None None (w_db sample_submitted)"

definition sample_restarted :: app where
  "sample_restarted = \<lparr>app_world = \<lparr>w_db = snd sample_restart, w_ops = w_ops sample_submitted\<rparr>, app_metrics = []\<rparr>"

definition sample_approval :: "services \<Rightarrow> http_response \<times> app" where
  "sample_approval V = serve sample_deployment V (\<lambda>_. utc 10) (\<lambda>_. utc 10) ''c'' None
     (Post_Approve ''apr_dec_1|REROUTE|policy-v2'' sample_manager) sample_restarted"

lemma sample_restart_ok: "\<exists>V db. sample_restart = (Inr V, db)"
proof -
  have "case sample_restart of (Inl e, d) \<Rightarrow> False | (Inr V, d) \<Rightarrow> True" by code_simp
  then show ?thesis by (auto split: prod.splits sum.splits)
qed

lemma sample_approval_acts:
  "map (\<lambda>r. (acr_decision_id r, acr_status r)) (tb_actions (w_db (app_world (snd
     (sample_approval V))))) = [(''dec_1'', AC_SUCCEEDED)]"
  by code_simp

lemma api_takes_no_action_without_authority_witness:
  "\<exists>V db. sample_restart = (Inr V, db) \<and> (\<exists>row\<in>set (tb_actions (w_db (app_world (snd (sample_approval V))))).
     granted (w_db (app_world (snd (sample_approval V)))) (acr_command row))"
proof -
  obtain V db where V: "sample_restart = (Inr V, db)" using sample_restart_ok by blast
  have "workflow_good sample_execution_lib (w_db sample_submitted)"
    by (rule workflow_step_good [OF sample_submit_step sample_workflow_good sample_distinguishes])
  then have good: "workflow_good (dp_lib sample_deployment) (w_db sample_submitted) \<or> w_db sample_submitted = empty_database"
    by simp
  have dist: "distinguishes_decisions (dp_lib sample_deployment)" using sample_distinguishes by simp
  have start: "\<lparr>app_world = \<lparr>w_db = db, w_ops = w_ops sample_submitted\<rparr>, app_metrics = []\<rparr> = sample_restarted"
    unfolding sample_restarted_def V snd_conv by (rule refl)
  have "api_step sample_deployment sample_restarted (snd (sample_approval V))"
    unfolding sample_approval_def by (rule api_step.serving [OF surjective_pairing])
  then have steps: "(api_step sample_deployment)\<^sup>*\<^sup>* \<lparr>app_world = \<lparr>w_db = db, w_ops = w_ops sample_submitted\<rparr>, app_metrics = []\<rparr>
      (snd (sample_approval V))"
    unfolding start by (rule r_into_rtranclp)
  obtain row where "row \<in> set (tb_actions (w_db (app_world (snd (sample_approval V)))))"
    using sample_approval_acts [of V] by (auto simp: map_eq_Cons_conv)
  with api_takes_no_action_without_authority [OF dist good V [unfolded sample_restart_def] steps] V
  show ?thesis by blast
qed

end
