(* ===== verification/Synthetic_Data.thy ===== *)
theory Synthetic_Data
  imports Decision_Optimizer Adapters
begin

text \<open>
  \<^verbatim>\<open>src/src/promiseguard/synthetic.py\<close>: the generator of synthetic orders with their known
  counterfactual chances, and the optimal action under those. The pseudo-random generator is a
  library: it is a parameter, a function from a request for a draw and its state to the draw
  and the next state. The order of the draws is the order of the calls.
\<close>

section \<open>Records\<close>

record synthetic_ground_truth =
  sg_no_action_on_time_probability :: rat
  sg_reroute_on_time_probability :: rat
  sg_carrier_upgrade_on_time_probability :: rat
  sg_split_shipment_on_time_probability :: rat
  sg_sampled_no_action_failure :: bool
  sg_optimal_action :: recovery_action

definition valid_ground_truth :: "synthetic_ground_truth \<Rightarrow> bool" where
  "valid_ground_truth g \<longleftrightarrow>
     unit_float (sg_no_action_on_time_probability g) \<and> unit_float (sg_reroute_on_time_probability g) \<and>
     unit_float (sg_carrier_upgrade_on_time_probability g) \<and>
     unit_float (sg_split_shipment_on_time_probability g)"

record synthetic_record =
  sy_request :: evaluation_request
  sy_ground_truth :: synthetic_ground_truth

section \<open>Draws\<close>

text \<open>The calls on \<open>random.Random\<close> that return a float; \<open>Lognormal n d s\<close> is
  \<open>lognormvariate(math.log(n), s)\<close>.\<close>

datatype draw =
    Random
  | Uniform rat rat
  | Gauss rat rat
  | Beta rat rat
  | Expo rat
  | Lognormal rat rat

text \<open>\<open>choice\<close> and \<open>choices\<close> return the position they draw.\<close>

record 'g rng =
  rg_float :: "draw \<Rightarrow> 'g \<Rightarrow> rat \<times> 'g"
  rg_randrange :: "int \<Rightarrow> int \<Rightarrow> 'g \<Rightarrow> int \<times> 'g"
  rg_choice :: "nat \<Rightarrow> 'g \<Rightarrow> nat \<times> 'g"
  rg_choices :: "rat list \<Rightarrow> 'g \<Rightarrow> nat \<times> 'g"

definition drawn :: "('g \<Rightarrow> 'a \<times> 'g) \<Rightarrow> ('g, 'a) prog" where
  "drawn f = (\<lambda>g. case f g of (x, g') \<Rightarrow> (Inr x, g'))"

definition chosen :: "'g rng \<Rightarrow> 'a list \<Rightarrow> ('g, 'a) prog" where
  "chosen R xs = bind (drawn (rg_choice R (length xs))) (\<lambda>i. ret (xs ! i))"

definition chosen_by_weight :: "'g rng \<Rightarrow> ('a \<times> rat) list \<Rightarrow> ('g, 'a) prog" where
  "chosen_by_weight R xs = bind (drawn (rg_choices R (map snd xs))) (\<lambda>i. ret (fst (xs ! i)))"

section \<open>Dates and texts\<close>

text \<open>Days since 1 January 1970 of the local clock, and the month and weekday of that day.\<close>

definition day_number :: "datetime \<Rightarrow> int" where
  "day_number d = dt_local d div 86400000000"

definition month_of :: "datetime \<Rightarrow> int" where
  "month_of d =
     (let z = day_number d + 719468;
          doe = z mod 146097;
          yoe = (doe - doe div 1460 + doe div 36524 - doe div 146096) div 365;
          doy = doe - (365 * yoe + yoe div 4 - yoe div 100);
          mp = (5 * doy + 2) div 153
      in if mp < 10 then mp + 3 else mp - 9)"

definition weekday_of :: "datetime \<Rightarrow> int" where
  "weekday_of d = (day_number d + 3) mod 7"

definition minutes_us :: "int \<Rightarrow> int" where
  "minutes_us m = m * 60000000"

definition hours_us :: "int \<Rightarrow> int" where
  "hours_us h = minutes_us (h * 60)"

definition pad_zeros :: "nat \<Rightarrow> string \<Rightarrow> string" where
  "pad_zeros n s = replicate (n - length s) CHR ''0'' @ s"

text \<open>\<open>str.replace\<close> of a word that is not empty.\<close>

fun replace_all :: "string \<Rightarrow> string \<Rightarrow> string \<Rightarrow> string" where
  "replace_all old new [] = []"
| "replace_all old new (c # s) =
     (if startswith old (c # s) then new @ replace_all old new (drop (length old - 1) s)
      else c # replace_all old new s)"

section \<open>Helpers\<close>

definition money_of_float :: "rat \<Rightarrow> rat res" where
  "money_of_float x = money (decimal_of_float x)"

definition clip_between :: "rat \<Rightarrow> rat \<Rightarrow> rat \<Rightarrow> rat" where
  "clip_between minimum maximum value = py_round 4 (min (max value minimum) maximum)"

definition clip :: "rat \<Rightarrow> rat" where
  "clip = clip_between (fl (1/100)) (fl (99/100))"

definition fulfilment_centres :: "string list" where
  "fulfilment_centres = [''FC-MEL'', ''FC-SYD'', ''FC-BNE'']"

definition stores :: "string list" where
  "stores = map (\<lambda>i. ''STORE-'' @ pad_zeros 2 (str_nat i)) [1..<16]"

definition carriers :: "(string \<times> rat) list" where
  "carriers = [(''AUSPOST_STANDARD'', fl (89/100)), (''STARTRACK_STANDARD'', fl (93/100))]"

section \<open>The optimal action\<close>

fun action_cost :: "order_context \<Rightarrow> recovery_action \<Rightarrow> rat" where
  "action_cost c REROUTE = oc_reroute_cost c"
| "action_cost c CARRIER_UPGRADE = oc_carrier_upgrade_cost c"
| "action_cost c SPLIT_SHIPMENT = oc_split_shipment_cost c"
| "action_cost c _ = 0"

fun truly_feasible :: "order_context \<Rightarrow> recovery_action \<Rightarrow> bool" where
  "truly_feasible c REROUTE = oc_alternative_location_available c"
| "truly_feasible c SPLIT_SHIPMENT = oc_split_shipment_possible c"
| "truly_feasible c _ = True"

definition counterfactual_value :: "order_context \<Rightarrow> rat \<Rightarrow> rat \<Rightarrow> rat res" where
  "counterfactual_value c probability cost =
     (let success = decimal_of_float probability;
          failure_cost = dadd (oc_cancellation_cost c) (oc_support_cost c)
      in money (dsub (dsub (dmul (oc_gross_margin c) success) (dmul failure_cost (dsub 1 success))) cost))"

fun action_values ::
  "order_context \<Rightarrow> (recovery_action \<times> rat) list \<Rightarrow> (recovery_action \<times> rat) list res"
where
  "action_values c [] = Inr []"
| "action_values c ((a, p) # ps) =
     (if \<not> truly_feasible c a then action_values c ps
      else bind_res (counterfactual_value c p (action_cost c a)) (\<lambda>v.
           bind_res (action_values c ps) (\<lambda>vs. Inr ((a, v) # vs))))"

text \<open>\<open>max(xs, key=...)\<close>: the first greatest element.\<close>

fun py_max :: "('a \<Rightarrow> 'k::linorder) \<Rightarrow> 'a list \<Rightarrow> 'a res" where
  "py_max key [] = Inl (err ValueError ''max() iterable argument is empty'')"
| "py_max key (x # xs) = Inr (foldl (\<lambda>best y. if key best < key y then y else best) x xs)"

definition optimal_action :: "order_context \<Rightarrow> (recovery_action \<times> rat) list \<Rightarrow> recovery_action res" where
  "optimal_action c probabilities =
     bind_res (action_values c probabilities) (\<lambda>vs.
     bind_res (py_max (\<lambda>(a, v). (v, recovery_action_value a)) vs) (\<lambda>b. Inr (fst b)))"

section \<open>The stages of one record\<close>

record season =
  se_evaluation_time :: datetime
  se_peak :: bool
  se_weekend :: bool

definition draw_season :: "'g rng \<Rightarrow> datetime \<Rightarrow> ('g, season) prog" where
  "draw_season R start =
     bind (drawn (rg_randrange R 0 365)) (\<lambda>day_offset.
     bind (drawn (rg_randrange R 0 (24 * 60))) (\<lambda>minute_offset.
     let evaluation_time = plus_us start (hours_us (24 * day_offset) + minutes_us minute_offset)
     in ret \<lparr>se_evaluation_time = evaluation_time, se_peak = month_of evaluation_time \<in> {11, 12},
          se_weekend = 5 \<le> weekday_of evaluation_time\<rparr>))"

record locations =
  lo_current :: string
  lo_available :: bool
  lo_alternative :: "string option"

definition draw_locations :: "'g rng \<Rightarrow> season \<Rightarrow> ('g, locations) prog" where
  "draw_locations R s =
     bind (chosen R fulfilment_centres) (\<lambda>current.
     let pool = filter (\<lambda>l. l \<noteq> current) (fulfilment_centres @ stores)
     in bind (drawn (rg_float R Random)) (\<lambda>x.
        let available = x < (if \<not> se_peak s then fl (79/100) else fl (67/100))
        in bind (if available then bind (chosen R pool) (\<lambda>l. ret (Some l)) else ret None) (\<lambda>alternative.
           ret \<lparr>lo_current = current, lo_available = available, lo_alternative = alternative\<rparr>)))"

definition congestion :: "season \<Rightarrow> rat" where
  "congestion s = fadd (if se_peak s then fl (12/100) else fl (3/100)) (if se_weekend s then fl (3/100) else 0)"

definition draw_carrier :: "'g rng \<Rightarrow> season \<Rightarrow> ('g, string \<times> rat) prog" where
  "draw_carrier R s =
     bind (chosen R carriers) (\<lambda>(service, base).
     bind (drawn (rg_float R (Gauss 0 (fl (35/1000))))) (\<lambda>noise.
     ret (service, clip (fadd (fsub base (congestion s)) noise))))"

record inventory =
  in_confidence :: rat
  in_reserved :: bool
  in_available :: bool

definition draw_inventory :: "'g rng \<Rightarrow> season \<Rightarrow> ('g, inventory) prog" where
  "draw_inventory R s =
     bind (drawn (rg_float R (Beta 18 2))) (\<lambda>b.
     let confidence = clip_between (fl (35/100)) (fl (999/1000)) (fsub b (if se_peak s then fl (8/100) else 0))
     in bind (drawn (rg_float R Random)) (\<lambda>x.
        let unavailable = fadd (fl (25/1000)) (fmul (fsub 1 confidence) (fl (55/100)));
            unavailable' = (if se_peak s then fadd unavailable (fl (45/1000)) else unavailable)
        in bind (drawn (rg_float R Random)) (\<lambda>y.
           ret \<lparr>in_confidence = confidence, in_reserved = x < fl (96/100),
                in_available = unavailable' \<le> y\<rparr>)))"

definition draw_scan_delay :: "'g rng \<Rightarrow> season \<Rightarrow> ('g, rat) prog" where
  "draw_scan_delay R s =
     bind (drawn (rg_float R (Expo (fdiv 1 (if \<not> se_weekend s then fl (65/100) else fl (11/10)))))) (\<lambda>delay.
     bind (drawn (rg_float R Random)) (\<lambda>x.
     bind (if x < congestion s
           then bind (drawn (rg_float R (Uniform (fl (3/2)) 8))) (\<lambda>u. ret (fadd delay u))
           else ret delay) (\<lambda>delay.
     ret (py_round 2 (min delay 24)))))"

record amounts =
  am_gross_margin :: rat
  am_cancellation_cost :: rat
  am_support_cost :: rat
  am_reroute_cost :: rat
  am_carrier_upgrade_cost :: rat
  am_split_cost :: rat

definition draw_amount :: "'g rng \<Rightarrow> rat \<Rightarrow> rat \<Rightarrow> ('g, rat) prog" where
  "draw_amount R a b = bind (drawn (rg_float R (Uniform a b))) (\<lambda>u. of_res (money_of_float u))"

definition draw_amounts :: "'g rng \<Rightarrow> ('g, amounts) prog" where
  "draw_amounts R =
     bind (drawn (rg_float R (Lognormal 48 (fl (55/100))))) (\<lambda>x.
     bind (of_res (money_of_float x)) (\<lambda>margin.
     bind (drawn (rg_float R (Uniform (fl (2/10)) (fl (55/100))))) (\<lambda>u.
     bind (of_res (money_of_float (max 4 (fmul (fl margin) u)))) (\<lambda>cancellation.
     bind (draw_amount R 4 16) (\<lambda>support.
     bind (draw_amount R 5 21) (\<lambda>reroute.
     bind (draw_amount R 7 28) (\<lambda>upgrade.
     bind (draw_amount R 12 38) (\<lambda>split.
     ret \<lparr>am_gross_margin = margin, am_cancellation_cost = cancellation, am_support_cost = support,
          am_reroute_cost = reroute, am_carrier_upgrade_cost = upgrade, am_split_cost = split\<rparr>))))))))"

definition no_action_on_time :: "rat \<Rightarrow> inventory \<Rightarrow> rat \<Rightarrow> int \<Rightarrow> rat" where
  "no_action_on_time carrier_probability i hours promise_hours =
     (let f0 = fsub 1 carrier_probability;
          f1 = (if in_reserved i \<and> \<not> in_available i then fadd f0 (fl (48/100)) else f0);
          f2 = fadd f1 (fmul (max 0 (fsub (fl (78/100)) (in_confidence i))) (fl (55/100)));
          f3 = fadd f2 (min (fl (1/4)) (fdiv hours 40));
          f4 = (if promise_hours \<le> 18 then fadd f3 (fl (9/100)) else f3)
      in clip (fsub 1 (clip f4)))"

record outlook =
  ou_no_action :: rat
  ou_reroute :: rat
  ou_upgrade :: rat
  ou_split_possible :: bool
  ou_split :: rat

definition draw_outlook ::
  "'g rng \<Rightarrow> season \<Rightarrow> bool \<Rightarrow> rat \<Rightarrow> inventory \<Rightarrow> rat \<Rightarrow> int \<Rightarrow> ('g, outlook) prog"
where
  "draw_outlook R s available carrier_probability i hours promise_hours =
     bind (if available
           then bind (drawn (rg_float R (Gauss 0 (fl (25/1000))))) (\<lambda>x.
             ret (clip (fadd (fsub (fsub (fl (91/100)) (if se_peak s then fl (9/100) else 0))
                                   (if promise_hours \<le> 12 then fl (4/100) else 0)) x)))
           else ret 0) (\<lambda>reroute.
     bind (drawn (rg_float R (Gauss 0 (fl (2/100))))) (\<lambda>x.
     let upgrade = clip (fadd (fsub (fadd carrier_probability (fl (11/100)))
                                    (if in_reserved i \<and> \<not> in_available i then fl (5/100) else 0)) x)
     in bind (if available then bind (drawn (rg_float R Random)) (\<lambda>y. ret (y < fl (72/100))) else ret False)
          (\<lambda>possible.
        ret \<lparr>ou_no_action = no_action_on_time carrier_probability i hours promise_hours,
             ou_reroute = reroute, ou_upgrade = upgrade, ou_split_possible = possible,
             ou_split = (if possible then clip (fadd (max reroute upgrade) (fl (25/1000))) else 0)\<rparr>)))"

section \<open>One record\<close>

definition references_of :: "string \<Rightarrow> string \<Rightarrow> string \<Rightarrow> datetime \<Rightarrow> int \<Rightarrow> source_reference list" where
  "references_of order_id sku current evaluation_time freshness =
     [\<lparr>sr_system = ''oms'', sr_record_id = order_id, sr_observed_at = evaluation_time\<rparr>,
      \<lparr>sr_system = ''wms'', sr_record_id = ''inventory:'' @ sku @ '':'' @ current,
       sr_observed_at = plus_us evaluation_time (- minutes_us freshness)\<rparr>,
      \<lparr>sr_system = ''carrier'', sr_record_id = ''shipment:'' @ order_id,
       sr_observed_at = plus_us evaluation_time (- minutes_us (min freshness 15))\<rparr>]"

definition event_of :: "string \<Rightarrow> datetime \<Rightarrow> operational_event" where
  "event_of event_id evaluation_time =
     \<lparr>ev_source_system = ''simulator'', ev_event_id = event_id, ev_event_version = 1,
      ev_event_type = ''ORDER_RISK_EVALUATION_REQUESTED'',
      ev_event_time = plus_us evaluation_time (- 10000000),
      ev_ingestion_time = plus_us evaluation_time (- 2000000),
      ev_schema_version = ''v1'', ev_deduplication_key = ''simulator:'' @ event_id @ '':v1''\<rparr>"

definition draw_order ::
  "'g rng \<Rightarrow> string \<Rightarrow> season \<Rightarrow> locations \<Rightarrow> string \<times> rat \<Rightarrow> inventory \<Rightarrow> rat \<Rightarrow> int \<Rightarrow> amounts \<Rightarrow> outlook
     \<Rightarrow> string \<Rightarrow> string \<Rightarrow> int \<Rightarrow> source_reference list \<Rightarrow> ('g, order_context) prog"
where
  "draw_order R order_id s l carrier i hours promise_hours m u sku segment freshness refs =
     bind (drawn (rg_randrange R 1 25001)) (\<lambda>customer.
     bind (chosen_by_weight R [(1, fl (76/100)), (2, fl (16/100)), (3, fl (6/100)), (4, fl (2/100))]) (\<lambda>quantity.
     bind (drawn (rg_float R Random)) (\<lambda>x.
     checked valid_order_context
       \<lparr>oc_order_id = order_id, oc_evaluation_time = se_evaluation_time s,
        oc_promised_delivery_at = plus_us (se_evaluation_time s) (hours_us promise_hours),
        oc_gross_margin = am_gross_margin m, oc_cancellation_cost = am_cancellation_cost m,
        oc_support_cost = am_support_cost m, oc_inventory_reserved = in_reserved i,
        oc_inventory_available = in_available i, oc_inventory_confidence = in_confidence i,
        oc_carrier_on_time_probability = snd carrier, oc_hours_since_expected_scan = hours,
        oc_alternative_location_available = lo_available l, oc_reroute_on_time_probability = ou_reroute u,
        oc_carrier_upgrade_on_time_probability = ou_upgrade u, oc_reroute_cost = am_reroute_cost m,
        oc_carrier_upgrade_cost = am_carrier_upgrade_cost m, oc_data_freshness_minutes = freshness,
        oc_source_references = refs, oc_external_notes = None,
        oc_customer_id = ''customer-'' @ pad_zeros 5 (str_int customer), oc_customer_segment = segment,
        oc_currency = ''AUD'', oc_sku = sku, oc_quantity = quantity,
        oc_current_fulfilment_location = lo_current l, oc_alternative_location_id = lo_alternative l,
        oc_current_carrier_service = fst carrier,
        oc_upgraded_carrier_service = replace_all ''STANDARD'' ''EXPRESS'' (fst carrier),
        oc_split_shipment_possible = ou_split_possible u, oc_split_shipment_on_time_probability = ou_split u,
        oc_split_shipment_cost = am_split_cost m, oc_restricted_product = x < fl (12/1000),
        oc_tenant_id = ''local-default''\<rparr>)))"

definition ground_truth_of ::
  "'g rng \<Rightarrow> order_context \<Rightarrow> outlook \<Rightarrow> ('g, synthetic_ground_truth) prog"
where
  "ground_truth_of R c u =
     bind (drawn (rg_float R Random)) (\<lambda>x.
     bind (of_res (optimal_action c [(TAKE_NO_ACTION, ou_no_action u), (REROUTE, ou_reroute u),
             (CARRIER_UPGRADE, ou_upgrade u), (SPLIT_SHIPMENT, ou_split u)])) (\<lambda>best.
     checked valid_ground_truth
       \<lparr>sg_no_action_on_time_probability = ou_no_action u, sg_reroute_on_time_probability = ou_reroute u,
        sg_carrier_upgrade_on_time_probability = ou_upgrade u,
        sg_split_shipment_on_time_probability = ou_split u,
        sg_sampled_no_action_failure = ou_no_action u < x, sg_optimal_action = best\<rparr>))"

definition one_record ::
  "'g rng \<Rightarrow> nat \<Rightarrow> datetime \<Rightarrow> operating_mode \<Rightarrow> ('g, synthetic_record) prog"
where
  "one_record R index start mode =
     bind (draw_season R start) (\<lambda>s.
     bind (draw_locations R s) (\<lambda>l.
     bind (draw_carrier R s) (\<lambda>carrier.
     bind (draw_inventory R s) (\<lambda>i.
     bind (draw_scan_delay R s) (\<lambda>hours.
     bind (chosen R [12, 18, 24, 36, 48, 72]) (\<lambda>promise_hours.
     bind (draw_amounts R) (\<lambda>m.
     bind (draw_outlook R s (lo_available l) (snd carrier) i hours promise_hours) (\<lambda>u.
     bind (drawn (rg_randrange R 1 5001)) (\<lambda>n.
     bind (chosen_by_weight R [(''STANDARD'', fl (72/100)), (''LOYAL'', fl (23/100)), (''VIP'', fl (5/100))]) (\<lambda>segment.
     bind (chosen_by_weight R [(1, fl (2/10)), (3, fl (27/100)), (5, fl (24/100)), (12, fl (16/100)),
             (20, fl (9/100)), (45, fl (4/100))]) (\<lambda>freshness.
     let order_id = ''order-'' @ pad_zeros 7 (str_nat (index + 1));
         event_id = ''evt-'' @ pad_zeros 7 (str_nat (index + 1));
         sku = ''SKU-'' @ pad_zeros 5 (str_int n);
         time = se_evaluation_time s;
         refs = references_of order_id sku (lo_current l) time freshness
     in bind (checked (list_all valid_source_reference) refs) (\<lambda>refs.
        bind (checked valid_operational_event (event_of event_id time)) (\<lambda>event.
        bind (draw_order R order_id s l carrier i hours promise_hours m u sku segment freshness refs) (\<lambda>c.
        bind (ground_truth_of R c u) (\<lambda>truth.
        bind (checked valid_evaluation_request \<lparr>er_event = event, er_order = c, er_mode = mode\<rparr>) (\<lambda>request.
        ret \<lparr>sy_request = request, sy_ground_truth = truth\<rparr>))))))))))))))))"

text \<open>\<open>generate\<close>: the records of a whole run; where one raises, the generator ends there.\<close>

fun record_run ::
  "'g rng \<Rightarrow> nat list \<Rightarrow> datetime \<Rightarrow> operating_mode \<Rightarrow> ('g, synthetic_record list) prog"
where
  "record_run R [] start mode = ret []"
| "record_run R (i # is) start mode =
     bind (one_record R i start mode) (\<lambda>x.
     bind (record_run R is start mode) (\<lambda>xs. ret (x # xs)))"

definition generate_records ::
  "'g rng \<Rightarrow> int \<Rightarrow> datetime option \<Rightarrow> operating_mode \<Rightarrow> ('g, synthetic_record list) prog"
where
  "generate_records R count start_at mode =
     (if count < 1 then raise (err ValueError ''count must be positive'')
      else let start = now_or start_at (utc (hours_us (24 * 20301)))
           in if \<not> tz_aware start then raise (err ValueError ''start_at must be timezone-aware'')
              else record_run R [0..<nat count] start mode)"

end
