(* ===== verification/Value_Evaluation.thy ===== *)
theory Value_Evaluation
  imports Synthetic_Data Risk_Scoring
begin

text \<open>
  \<^verbatim>\<open>src/src/promiseguard/value_evaluation.py\<close>: the value of the selected actions against the
  counterfactual chances of synthetic records. Records are scored in batches and the pipeline
  of the service, simulate and select, runs on each; the sums, the quantile and the counts are
  computed at the end. The second half shows that batches do not change the result and that
  the reported quantile covers what it claims.
\<close>

section \<open>The scorer\<close>

text \<open>A scorer, with \<open>score_many\<close> where it is a \<open>BatchRiskScorer\<close>.\<close>

record evaluation_scorer =
  es_model_version :: string
  es_score :: "order_context \<Rightarrow> risk_assessment"
  es_score_many :: "(order_context list \<Rightarrow> risk_assessment list) option"

definition rules_evaluation_scorer :: evaluation_scorer where
  "rules_evaluation_scorer =
     \<lparr>es_model_version = deterministic_model_version, es_score = deterministic_score,
      es_score_many = Some deterministic_score_many\<rparr>"

definition trained_evaluation_scorer :: "risk_artifact \<Rightarrow> evaluation_scorer" where
  "trained_evaluation_scorer a =
     \<lparr>es_model_version = art_model_version a, es_score = trained_score a,
      es_score_many = Some (trained_score_many a)\<rparr>"

section \<open>Ground truth\<close>

definition ground_truth_probability :: "synthetic_record \<Rightarrow> recovery_action \<Rightarrow> rat res" where
  "ground_truth_probability r a =
     (let g = sy_ground_truth r
      in case a of
           TAKE_NO_ACTION \<Rightarrow> Inr (sg_no_action_on_time_probability g)
         | REROUTE \<Rightarrow> Inr (sg_reroute_on_time_probability g)
         | CARRIER_UPGRADE \<Rightarrow> Inr (sg_carrier_upgrade_on_time_probability g)
         | SPLIT_SHIPMENT \<Rightarrow> Inr (sg_split_shipment_on_time_probability g)
         | _ \<Rightarrow> Inl (err ValueError
                  (''action '' @ recovery_action_value a @ '' has no synthetic ground truth'')))"

text \<open>\<open>_action_cost\<close> is the function of the same table as the generator's costs.\<close>

definition evaluated_cost :: "order_context \<Rightarrow> recovery_action \<Rightarrow> rat" where
  "evaluated_cost c a =
     (case a of REROUTE \<Rightarrow> oc_reroute_cost c | CARRIER_UPGRADE \<Rightarrow> oc_carrier_upgrade_cost c
      | SPLIT_SHIPMENT \<Rightarrow> oc_split_shipment_cost c | _ \<Rightarrow> 0)"

definition ground_truth_value :: "synthetic_record \<Rightarrow> recovery_action \<Rightarrow> rat res" where
  "ground_truth_value r a =
     bind_res (ground_truth_probability r a) (\<lambda>p.
     let probability = decimal_of_float p;
         order = er_order (sy_request r);
         failure_cost = dadd (oc_cancellation_cost order) (oc_support_cost order)
     in money (dsub (dsub (dmul (oc_gross_margin order) probability)
                          (dmul failure_cost (dsub 1 probability)))
                    (evaluated_cost order a)))"

section \<open>Counting and summing\<close>

text \<open>A \<open>Counter\<close>, its keys in the order of insertion.\<close>

fun tally :: "string \<Rightarrow> (string \<times> nat) list \<Rightarrow> (string \<times> nat) list" where
  "tally k [] = [(k, 1)]"
| "tally k ((k', n) # cs) = (if k = k' then (k', n + 1) # cs else (k', n) # tally k cs)"

text \<open>\<open>sum\<close> of floats: the compensated summation of the interpreter, from the first term.\<close>

fun compensated_sum :: "rat \<Rightarrow> rat \<Rightarrow> rat list \<Rightarrow> rat" where
  "compensated_sum f_result c [] = (if c \<noteq> 0 then fadd f_result c else f_result)"
| "compensated_sum f_result c (x # xs) =
     (let t = fadd f_result x
      in compensated_sum t
           (fadd c (if \<bar>x\<bar> \<le> \<bar>f_result\<bar> then fadd (fsub f_result t) x else fadd (fsub x t) f_result)) xs)"

fun sum_floats :: "rat list \<Rightarrow> rat" where
  "sum_floats [] = 0"
| "sum_floats (x # xs) = compensated_sum x 0 xs"

definition sum_decimals :: "rat list \<Rightarrow> rat" where
  "sum_decimals xs = foldl dadd 0 xs"

section \<open>Batches\<close>

fun batches_from :: "nat \<Rightarrow> 'a list \<Rightarrow> 'a list \<Rightarrow> 'a list list" where
  "batches_from batch_size batch [] = (if batch \<noteq> [] then [batch] else [])"
| "batches_from batch_size batch (x # xs) =
     (let batch' = batch @ [x]
      in if batch_size \<le> length batch' then batch' # batches_from batch_size [] xs
         else batches_from batch_size batch' xs)"

definition batches :: "nat \<Rightarrow> 'a list \<Rightarrow> 'a list list" where
  "batches batch_size records = batches_from batch_size [] records"

section \<open>The evaluation\<close>

record evaluation_acc =
  ea_selected_counts :: "(string \<times> nat) list"
  ea_regrets :: "rat list"
  ea_incremental_values :: "rat list"
  ea_intervention_costs :: "rat list"
  ea_probability_uplifts :: "rat list"
  ea_record_count :: nat
  ea_interventions :: nat
  ea_false_interventions :: nat
  ea_correct_actions :: nat

definition empty_acc :: evaluation_acc where
  "empty_acc =
     \<lparr>ea_selected_counts = [], ea_regrets = [], ea_incremental_values = [],
      ea_intervention_costs = [], ea_probability_uplifts = [], ea_record_count = 0,
      ea_interventions = 0, ea_false_interventions = 0, ea_correct_actions = 0\<rparr>"

definition evaluate_one :: "evaluation_acc \<Rightarrow> synthetic_record \<Rightarrow> risk_assessment \<Rightarrow> evaluation_acc res" where
  "evaluate_one acc r risk =
     bind_res (simulate (er_order (sy_request r)) risk) (\<lambda>options.
     bind_res (select options) (\<lambda>recommendation.
     let selected = dr_selected_action recommendation; best = sg_optimal_action (sy_ground_truth r)
     in bind_res (ground_truth_value r selected) (\<lambda>selected_value.
        bind_res (ground_truth_value r TAKE_NO_ACTION) (\<lambda>no_action_value.
        bind_res (ground_truth_value r best) (\<lambda>optimal_value.
        bind_res (money (dsub selected_value no_action_value)) (\<lambda>incremental.
        bind_res (money (dsub optimal_value selected_value)) (\<lambda>regret.
        bind_res (ground_truth_probability r selected) (\<lambda>selected_probability.
        Inr \<lparr>ea_selected_counts = tally (recovery_action_value selected) (ea_selected_counts acc),
             ea_regrets = ea_regrets acc @ [max 0 regret],
             ea_incremental_values = ea_incremental_values acc @ [incremental],
             ea_intervention_costs =
               ea_intervention_costs acc @ [evaluated_cost (er_order (sy_request r)) selected],
             ea_probability_uplifts = ea_probability_uplifts acc @
               [fsub selected_probability (sg_no_action_on_time_probability (sy_ground_truth r))],
             ea_record_count = ea_record_count acc + 1,
             ea_interventions =
               (if selected \<noteq> TAKE_NO_ACTION then ea_interventions acc + 1 else ea_interventions acc),
             ea_false_interventions =
               (if selected \<noteq> TAKE_NO_ACTION \<and> incremental \<le> 0
                then ea_false_interventions acc + 1 else ea_false_interventions acc),
             ea_correct_actions =
               (if selected = best then ea_correct_actions acc + 1 else ea_correct_actions acc)\<rparr>))))))))"

text \<open>\<open>zip(batch, risks, strict=True)\<close> raises after the pairs it has yielded.\<close>

fun evaluate_zip ::
  "evaluation_acc \<Rightarrow> synthetic_record list \<Rightarrow> risk_assessment list \<Rightarrow> evaluation_acc res"
where
  "evaluate_zip acc [] [] = Inr acc"
| "evaluate_zip acc (r # rs) (k # ks) = bind_res (evaluate_one acc r k) (\<lambda>acc. evaluate_zip acc rs ks)"
| "evaluate_zip acc (r # rs) [] = Inl (err ValueError ''zip() argument 2 is shorter than argument 1'')"
| "evaluate_zip acc [] (k # ks) = Inl (err ValueError ''zip() argument 2 is longer than argument 1'')"

definition risks_of :: "evaluation_scorer \<Rightarrow> synthetic_record list \<Rightarrow> risk_assessment list" where
  "risks_of S batch =
     (let orders = map (\<lambda>r. er_order (sy_request r)) batch
      in case es_score_many S of Some score_many \<Rightarrow> score_many orders | None \<Rightarrow> map (es_score S) orders)"

fun evaluate_batches ::
  "evaluation_scorer \<Rightarrow> evaluation_acc \<Rightarrow> synthetic_record list list \<Rightarrow> evaluation_acc res"
where
  "evaluate_batches S acc [] = Inr acc"
| "evaluate_batches S acc (b # bs) =
     bind_res (evaluate_zip acc b (risks_of S b)) (\<lambda>acc. evaluate_batches S acc bs)"

section \<open>The summary\<close>

record value_evaluation_summary =
  vs_records :: nat
  vs_model_version :: string
  vs_simulator_version :: string
  vs_optimiser_version :: string
  vs_intervention_rate :: rat
  vs_action_agreement_with_ground_truth :: rat
  vs_false_intervention_rate :: rat
  vs_mean_on_time_probability_uplift :: rat
  vs_simulated_incremental_value :: rat
  vs_simulated_intervention_cost :: rat
  vs_simulated_gross_uplift_before_intervention_cost :: rat
  vs_mean_regret :: rat
  vs_p95_regret :: rat
  vs_selected_action_counts :: "(string \<times> nat) list"

definition p95_index :: "nat \<Rightarrow> int" where
  "p95_index n = max 0 (min (int n - 1) (\<lceil>fmul (fl (of_nat n)) (fl (95/100))\<rceil> - 1))"

text \<open>The quotient of two integers is correctly rounded.\<close>

definition rate :: "nat \<Rightarrow> nat \<Rightarrow> rat" where
  "rate k n = fl (of_nat k / of_nat n)"

definition summarise :: "evaluation_scorer \<Rightarrow> evaluation_acc \<Rightarrow> value_evaluation_summary res" where
  "summarise S acc =
     (if ea_record_count acc = 0 then Inl (err ValueError ''at least one synthetic record is required'')
      else let n = ea_record_count acc; sorted_regrets = sort (ea_regrets acc)
           in bind_res (money (sum_decimals (ea_incremental_values acc))) (\<lambda>total_incremental.
              bind_res (money (sum_decimals (ea_intervention_costs acc))) (\<lambda>total_cost.
              bind_res (money (dadd total_incremental total_cost)) (\<lambda>gross_uplift.
              bind_res (money (ddiv (sum_decimals (ea_regrets acc)) (of_nat n))) (\<lambda>mean_regret.
              Inr \<lparr>vs_records = n, vs_model_version = es_model_version S,
                   vs_simulator_version = simulator_version, vs_optimiser_version = optimiser_version,
                   vs_intervention_rate = rate (ea_interventions acc) n,
                   vs_action_agreement_with_ground_truth = rate (ea_correct_actions acc) n,
                   vs_false_intervention_rate =
                     (if ea_interventions acc \<noteq> 0
                      then rate (ea_false_interventions acc) (ea_interventions acc) else 0),
                   vs_mean_on_time_probability_uplift =
                     fdiv (sum_floats (ea_probability_uplifts acc)) (fl (of_nat n)),
                   vs_simulated_incremental_value = total_incremental,
                   vs_simulated_intervention_cost = total_cost,
                   vs_simulated_gross_uplift_before_intervention_cost = gross_uplift,
                   vs_mean_regret = mean_regret,
                   vs_p95_regret = sorted_regrets ! nat (p95_index (length sorted_regrets)),
                   vs_selected_action_counts = sort (ea_selected_counts acc)\<rparr>)))))"

definition evaluate_value :: "evaluation_scorer \<Rightarrow> synthetic_record list \<Rightarrow> value_evaluation_summary res" where
  "evaluate_value S records =
     bind_res (evaluate_batches S empty_acc (batches 2048 records)) (summarise S)"

section \<open>Batches do not change the result\<close>

lemma concat_batches: "concat (batches k xs) = xs"
proof -
  have "concat (batches_from k b xs) = b @ xs" for b
    by (induction k b xs rule: batches_from.induct) (auto simp: Let_def)
  then show ?thesis by (simp add: batches_def)
qed

lemma batches_bounded:
  assumes "0 < k" shows "\<forall>b\<in>set (batches k xs). b \<noteq> [] \<and> length b \<le> k"
proof -
  have "length b < k \<Longrightarrow> \<forall>b'\<in>set (batches_from k b xs). b' \<noteq> [] \<and> length b' \<le> k" for b
  proof (induction k b xs rule: batches_from.induct)
    case (2 k b x xs)
    then show ?case using assms by (cases "k \<le> length (b @ [x])") (auto simp: Let_def)
  qed auto
  from this [of "[]"] show ?thesis using assms by (simp add: batches_def)
qed

text \<open>The reference: one record at a time.\<close>

fun evaluate_each :: "evaluation_scorer \<Rightarrow> evaluation_acc \<Rightarrow> synthetic_record list \<Rightarrow> evaluation_acc res" where
  "evaluate_each S acc [] = Inr acc"
| "evaluate_each S acc (r # rs) =
     bind_res (evaluate_one acc r (es_score S (er_order (sy_request r)))) (\<lambda>acc. evaluate_each S acc rs)"

lemma bind_res_assoc: "bind_res (bind_res m f) g = bind_res m (\<lambda>x. bind_res (f x) g)"
  by (cases m) auto

lemma evaluate_each_append:
  "evaluate_each S acc (xs @ ys) = bind_res (evaluate_each S acc xs) (\<lambda>acc. evaluate_each S acc ys)"
  by (induction S acc xs rule: evaluate_each.induct) (simp_all add: bind_res_assoc cong: if_cong)

lemma evaluate_zip_map:
  "evaluate_zip acc rs (map (\<lambda>r. es_score S (er_order (sy_request r))) rs) = evaluate_each S acc rs"
  by (induction rs arbitrary: acc) simp_all

text \<open>The contract of a batch scorer: a batch is scored as its orders one by one are.\<close>

locale batch_scorer = risk_scorer score for score :: "order_context \<Rightarrow> risk_assessment" +
  fixes score_many :: "order_context list \<Rightarrow> risk_assessment list"
  assumes score_many_map: "score_many cs = map score cs"
begin

lemma evaluate_batches_each:
  assumes "es_score S = score" "es_score_many S = Some score_many"
  shows "evaluate_batches S acc bs = evaluate_each S acc (concat bs)"
proof -
  have "risks_of S b = map (\<lambda>r. es_score S (er_order (sy_request r))) b" for b
    using assms by (simp add: risks_of_def score_many_map)
  then show ?thesis
    by (induction bs arbitrary: acc) (simp_all add: evaluate_zip_map evaluate_each_append)
qed

lemma evaluate_value_each:
  "es_score S = score \<Longrightarrow> es_score_many S = Some score_many \<Longrightarrow>
     evaluate_value S rs = bind_res (evaluate_each S empty_acc rs) (summarise S)"
  by (simp add: evaluate_value_def evaluate_batches_each concat_batches)

end

interpretation rules_batch: batch_scorer deterministic_score deterministic_score_many
  by unfold_locales (simp add: deterministic_score_many_def)

interpretation trained_batch: batch_scorer "trained_score a" "trained_score_many a" for a
  by unfold_locales (simp add: trained_score_many_eq)

text \<open>The evaluation in batches of 2048 records, for the rules and for every trained artifact,
  is the evaluation of the records one at a time: same summary, same exception.\<close>

theorem batches_do_not_matter:
  "evaluate_value rules_evaluation_scorer records =
     bind_res (evaluate_each rules_evaluation_scorer empty_acc records) (summarise rules_evaluation_scorer) \<and>
   evaluate_value (trained_evaluation_scorer a) records =
     bind_res (evaluate_each (trained_evaluation_scorer a) empty_acc records)
       (summarise (trained_evaluation_scorer a))"
  by (simp add: rules_batch.evaluate_value_each trained_batch.evaluate_value_each
      rules_evaluation_scorer_def trained_evaluation_scorer_def)

section \<open>The quantile\<close>

lemma is_float_dyadic: "\<bar>k\<bar> \<le> 2 ^ 53 \<Longrightarrow> is_float (of_int k / 2 ^ m)"
  unfolding is_float_def fl_def
  by (rule round_sig_fixed) (auto intro!: sig_digitsI [of _ k _ "- int m"] simp: power_int_minus divide_inverse)

lemma quantile_position:
  fixes n c :: int
  assumes "0 < n" "c \<le> 19 * n div 20 + 1" "(19 * n - 1) div 20 + 1 \<le> c"
  shows "20 * max 0 (min (n - 1) (c - 1)) \<le> 19 * n" and "19 * n \<le> 20 * (max 0 (min (n - 1) (c - 1)) + 1)"
proof -
  have "20 * (19 * n div 20) \<le> 19 * n" "19 * n \<le> 20 * ((19 * n - 1) div 20) + 20" by presburger+
  then show "20 * max 0 (min (n - 1) (c - 1)) \<le> 19 * n" "19 * n \<le> 20 * (max 0 (min (n - 1) (c - 1)) + 1)"
    using assms by (auto simp: max_def min_def)
qed

lemma p95_index_bounds:
  assumes "0 < n" "n \<le> 2 ^ 40"
  shows "0 \<le> p95_index n" and "p95_index n < int n"
    and "20 * p95_index n \<le> 19 * int n" and "19 * int n \<le> 20 * (p95_index n + 1)"
proof -
  let ?x = "rat_of_int (int n)" and ?c = "fl (95/100)"
  let ?q = "fmul (fl (of_nat n)) ?c" and ?m = "19 * int n div 20" and ?k = "(19 * int n - 1) div 20"
  have c: "?c \<le> 95/100" "95/100 - 1 / 2 ^ 50 \<le> ?c" by code_simp+
  have "int n \<le> int (2 ^ 40)" using assms(2) by (simp only: of_nat_le_iff)
  then have big: "int n \<le> 2 ^ 40" by simp
  then have "\<bar>int n\<bar> \<le> 2 ^ 53" by simp
  from is_float_dyadic [OF this, of 0] have fn: "fl (of_nat n) = ?x" unfolding is_float_def by simp
  have "?x \<le> of_int (2 ^ 40)" using big by (simp only: of_int_le_iff)
  then have n: "?x \<le> 2 ^ 40" "0 < ?x" using assms(1) by simp_all
  have m: "19 * ?x / 20 \<le> of_int (?m + 1)" and mf: "\<bar>?m + 1\<bar> \<le> 2 ^ 53"
  proof -
    have "19 * int n \<le> 20 * (?m + 1)" by presburger
    then have "of_int (19 * int n) \<le> (of_int (20 * (?m + 1)) :: rat)" by (simp only: of_int_le_iff)
    then show "19 * ?x / 20 \<le> of_int (?m + 1)" by simp
    show "\<bar>?m + 1\<bar> \<le> 2 ^ 53" using big assms(1) by simp
  qed
  have "?x * ?c \<le> ?x * (95/100)" using c(1) n(2) by (intro mult_left_mono) auto
  then have "?x * ?c \<le> of_int (?m + 1)" using m by simp
  then have "?q \<le> of_int (?m + 1)"
    unfolding fmul_def fn using is_float_dyadic [OF mf, of 0] by (intro float.rnd_le_rep) auto
  then have up: "\<lceil>?q\<rceil> \<le> ?m + 1" by (simp only: ceiling_le_iff)
  have k: "of_int ?k + 1/20 \<le> 19 * ?x / 20" and kf: "\<bar>32 * ?k + 1\<bar> \<le> 2 ^ 53"
  proof -
    have "20 * ?k + 1 \<le> 19 * int n" by presburger
    then have "of_int (20 * ?k + 1) \<le> (of_int (19 * int n) :: rat)" by (simp only: of_int_le_iff)
    then show "of_int ?k + 1/20 \<le> 19 * ?x / 20" by simp
    show "\<bar>32 * ?k + 1\<bar> \<le> 2 ^ 53" using big assms(1) by simp
  qed
  have "?x * (95/100 - 1 / 2 ^ 50) \<le> ?x * ?c" using c(2) n(2) by (intro mult_left_mono) auto
  moreover have "19 * ?x / 20 - 1/1024 \<le> ?x * (95/100 - 1 / 2 ^ 50)" using n(1) by (simp add: field_simps)
  ultimately have "of_int (32 * ?k + 1) / 2 ^ 5 \<le> ?x * ?c" using k by simp
  then have "of_int (32 * ?k + 1) / 2 ^ 5 \<le> ?q"
    unfolding fmul_def fn by (rule float.rnd_ge_rep [OF is_float_dyadic [OF kf]])
  then have "of_int ?k < ?q" by simp
  then have low: "?k + 1 \<le> \<lceil>?q\<rceil>" by (simp only: flip: less_ceiling_iff add1_zle_eq)
  show "0 \<le> p95_index n" by (simp add: p95_index_def)
  show "p95_index n < int n" using assms(1) by (simp add: p95_index_def)
  have "0 < int n" using assms(1) by simp
  from quantile_position [OF this up low]
  show "20 * p95_index n \<le> 19 * int n" "19 * int n \<le> 20 * (p95_index n + 1)"
    by (simp_all only: p95_index_def)
qed

lemma sorted_quantile:
  assumes "sorted xs" "i < length xs"
  shows "length (filter (\<lambda>x. x < xs ! i) xs) \<le> i" and "i + 1 \<le> length (filter (\<lambda>x. x \<le> xs ! i) xs)"
proof -
  have split: "xs = take i xs @ drop i xs" "xs = take (i + 1) xs @ drop (i + 1) xs" by simp_all
  have "filter (\<lambda>x. x < xs ! i) (drop i xs) = []"
    using assms by (auto simp: filter_empty_conv in_set_conv_nth not_less intro!: sorted_nth_mono)
  then have "filter (\<lambda>x. x < xs ! i) xs = filter (\<lambda>x. x < xs ! i) (take i xs)"
    using split(1) filter_append [of "\<lambda>x. x < xs ! i" "take i xs" "drop i xs"] by simp
  then show "length (filter (\<lambda>x. x < xs ! i) xs) \<le> i"
    using length_filter_le [of "\<lambda>x. x < xs ! i" "take i xs"] by simp
  have "filter (\<lambda>x. x \<le> xs ! i) (take (i + 1) xs) = take (i + 1) xs"
    using assms by (auto simp: filter_id_conv in_set_conv_nth less_Suc_eq_le intro!: sorted_nth_mono)
  then have "length (filter (\<lambda>x. x \<le> xs ! i) xs) =
      length (take (i + 1) xs) + length (filter (\<lambda>x. x \<le> xs ! i) (drop (i + 1) xs))"
    using split(2) filter_append [of "\<lambda>x. x \<le> xs ! i" "take (i + 1) xs" "drop (i + 1) xs"]
    by (metis length_append)
  then show "i + 1 \<le> length (filter (\<lambda>x. x \<le> xs ! i) xs)" using assms(2) by simp
qed

lemma length_filter_sort: "length (filter p (sort xs)) = length (filter p xs)"
  by (metis filter_sort length_sort)

lemma evaluate_one_lengths:
  "evaluate_one acc r k = Inr acc' \<Longrightarrow>
     length (ea_regrets acc') = length (ea_regrets acc) + 1 \<and> ea_record_count acc' = ea_record_count acc + 1"
  by (auto simp: evaluate_one_def Let_def bind_res_Inr)

lemma evaluate_zip_lengths:
  "evaluate_zip acc rs ks = Inr acc' \<Longrightarrow>
     length (ea_regrets acc') = length (ea_regrets acc) + length rs \<and>
     ea_record_count acc' = ea_record_count acc + length rs"
  by (induction acc rs ks rule: evaluate_zip.induct) (force simp: bind_res_Inr dest: evaluate_one_lengths)+

lemma evaluate_batches_lengths:
  "evaluate_batches S acc bs = Inr acc' \<Longrightarrow>
     length (ea_regrets acc') = length (ea_regrets acc) + length (concat bs) \<and>
     ea_record_count acc' = ea_record_count acc + length (concat bs)"
  by (induction S acc bs rule: evaluate_batches.induct) (force simp: bind_res_Inr dest: evaluate_zip_lengths)+

text \<open>\<open>p95_regret\<close> is a 0.95 quantile of the regrets, for up to \<open>2^40\<close> records and in spite of
  the float product that picks its position: at most 95 percent of the regrets are below it, at
  least 95 percent are not above it, and it is one of them.\<close>

theorem p95_regret_is_quantile:
  assumes "evaluate_batches S empty_acc (batches 2048 records) = Inr acc" and "summarise S acc = Inr s"
    and "length records \<le> 2 ^ 40"
  shows "evaluate_value S records = Inr s \<and> vs_p95_regret s \<in> set (ea_regrets acc) \<and>
    20 * length (filter (\<lambda>x. x < vs_p95_regret s) (ea_regrets acc)) \<le> 19 * length records \<and>
    19 * length records \<le> 20 * length (filter (\<lambda>x. x \<le> vs_p95_regret s) (ea_regrets acc))"
proof -
  let ?n = "length records" and ?xs = "sort (ea_regrets acc)"
  let ?i = "nat (p95_index ?n)"
  have len: "length (ea_regrets acc) = ?n" "ea_record_count acc = ?n"
    using evaluate_batches_lengths [OF assms(1)] by (simp_all add: concat_batches empty_acc_def)
  have n: "0 < ?n" and q: "vs_p95_regret s = ?xs ! ?i"
    using assms(2) len by (auto simp: summarise_def Let_def bind_res_Inr split: if_splits)
  note p = p95_index_bounds [OF n assms(3)]
  have i: "?i < length ?xs" "20 * ?i \<le> 19 * ?n" "19 * ?n \<le> 20 * (?i + 1)" using p len by auto
  note sq = sorted_quantile [OF sorted_sort i(1), unfolded length_filter_sort]
  show ?thesis
    using assms(1,2) sq i nth_mem [OF i(1)] unfolding q by (auto simp: evaluate_value_def)
qed

end
