(* ===== verification/Synthetic_Soundness.thy ===== *)
theory Synthetic_Soundness
  imports Value_Evaluation
begin

text \<open>
  What the generator of \<open>Synthetic_Data\<close> guarantees, whatever a conforming random source draws:
  every record it makes passes the validators of the models, and the action it labels optimal
  has the greatest counterfactual value of the feasible actions.
\<close>

section \<open>Programs that cannot fail\<close>

definition succeeds :: "('a \<Rightarrow> bool) \<Rightarrow> ('s, 'a) prog \<Rightarrow> bool" where
  "succeeds P m \<longleftrightarrow> (\<forall>s. \<exists>x t. m s = (Inr x, t) \<and> P x)"

lemma succeeds_ret [intro]: "P x \<Longrightarrow> succeeds P (ret x)"
  by (simp add: succeeds_def)

lemma succeeds_checked [intro]: "p x \<Longrightarrow> P x \<Longrightarrow> succeeds P (checked p x)"
  by (simp add: succeeds_def checked_def)

lemma succeeds_of_res [intro]: "\<exists>x. r = Inr x \<and> P x \<Longrightarrow> succeeds P (of_res r)"
  by (auto simp: succeeds_def)

lemma succeeds_bind:
  assumes "succeeds P m" and "\<And>x. P x \<Longrightarrow> succeeds Q (f x)"
  shows "succeeds Q (bind m f)"
  unfolding succeeds_def
proof
  fix s
  obtain x t where "m s = (Inr x, t)" "P x" using assms(1) unfolding succeeds_def by blast
  moreover obtain y u where "f x t = (Inr y, u)" "Q y"
    using assms(2) [OF \<open>P x\<close>] unfolding succeeds_def by blast
  ultimately show "\<exists>x t. bind m f s = (Inr x, t) \<and> Q x" by simp
qed

lemma succeeds_mono: "succeeds P m \<Longrightarrow> (\<And>x. P x \<Longrightarrow> Q x) \<Longrightarrow> succeeds Q m"
  unfolding succeeds_def by blast

lemma succeeds_drawn [intro]: "(\<And>g. P (fst (f g))) \<Longrightarrow> succeeds P (drawn f)"
  by (auto simp: succeeds_def drawn_def split: prod.splits) (metis fst_conv)

section \<open>The random source\<close>

text \<open>The documented ranges of \<open>random.Random\<close>. The log-normal distribution has no bound, its
  sampler has one: \<open>normalvariate\<close> accepts a ratio \<open>z\<close> only with \<open>z\<^sup>2/4 \<le> - ln u\<close> for a positive
  \<open>u\<close> that is a multiple of \<open>2\<close> to the power \<open>-53\<close>, so \<open>48 exp(0.55 z)\<close> stays below \<open>40000\<close>.\<close>

definition rng_ok :: "'g rng \<Rightarrow> bool" where
  "rng_ok R \<longleftrightarrow>
     (\<forall>d g. is_float (fst (rg_float R d g))) \<and>
     (\<forall>g. 0 \<le> fst (rg_float R Random g) \<and> fst (rg_float R Random g) < 1) \<and>
     (\<forall>a b g. is_float a \<and> is_float b \<and> a \<le> b \<longrightarrow>
        a \<le> fst (rg_float R (Uniform a b) g) \<and> fst (rg_float R (Uniform a b) g) \<le> b) \<and>
     (\<forall>a b g. 0 \<le> fst (rg_float R (Beta a b) g) \<and> fst (rg_float R (Beta a b) g) \<le> 1) \<and>
     (\<forall>r g. 0 < r \<longrightarrow> 0 \<le> fst (rg_float R (Expo r) g)) \<and>
     (\<forall>n s g. 0 \<le> fst (rg_float R (Lognormal n s) g) \<and> fst (rg_float R (Lognormal n s) g) \<le> 2 ^ 20) \<and>
     (\<forall>a b g. a < b \<longrightarrow> a \<le> fst (rg_randrange R a b g) \<and> fst (rg_randrange R a b g) < b) \<and>
     (\<forall>n g. 0 < n \<longrightarrow> fst (rg_choice R n g) < n) \<and>
     (\<forall>ws g. ws \<noteq> [] \<longrightarrow> fst (rg_choices R ws g) < length ws)"

lemma rng_float: "rng_ok R \<Longrightarrow> is_float (fst (rg_float R d g))"
  by (simp add: rng_ok_def)

lemma rng_choices: "rng_ok R \<Longrightarrow> ws \<noteq> [] \<Longrightarrow> fst (rg_choices R ws g) < length ws"
  unfolding rng_ok_def by blast

lemma draw_random: "rng_ok R \<Longrightarrow> succeeds (\<lambda>x. True) (drawn (rg_float R d))"
  by (rule succeeds_drawn) simp

lemma draw_uniform:
  "rng_ok R \<Longrightarrow> is_float a \<Longrightarrow> is_float b \<Longrightarrow> a \<le> b \<Longrightarrow>
     succeeds (\<lambda>x. is_float x \<and> a \<le> x \<and> x \<le> b) (drawn (rg_float R (Uniform a b)))"
  by (rule succeeds_drawn) (simp add: rng_ok_def)

lemma draw_range: "rng_ok R \<Longrightarrow> a < b \<Longrightarrow> succeeds (\<lambda>x. a \<le> x \<and> x < b) (drawn (rg_randrange R a b))"
  by (rule succeeds_drawn) (simp add: rng_ok_def)

lemma draw_chosen: "rng_ok R \<Longrightarrow> xs \<noteq> [] \<Longrightarrow> succeeds (\<lambda>x. x \<in> set xs) (chosen R xs)"
  unfolding chosen_def
  by (rule succeeds_bind [where P = "\<lambda>i. i < length xs"]) (auto simp: rng_ok_def)

lemma draw_weighted: "rng_ok R \<Longrightarrow> xs \<noteq> [] \<Longrightarrow> succeeds (\<lambda>x. x \<in> fst ` set xs) (chosen_by_weight R xs)"
  unfolding chosen_by_weight_def
proof (rule succeeds_bind [where P = "\<lambda>i. i < length xs"])
  assume "rng_ok R" "xs \<noteq> []"
  then have "map snd xs \<noteq> []" by simp
  with \<open>rng_ok R\<close> show "succeeds (\<lambda>i. i < length xs) (drawn (rg_choices R (map snd xs)))"
    using rng_choices [of R "map snd xs"] by (intro succeeds_drawn) simp
qed auto

section \<open>Numbers and texts\<close>

lemma clip_between_unit:
  assumes "0 \<le> a" "a \<le> b" "b \<le> 1"
  shows "unit_float (clip_between a b x)" and "py_round 4 a \<le> clip_between a b x"
  using assms unfolding clip_between_def by (auto intro!: unit_float_round py_round_mono)

lemma clip_unit: "unit_float (clip x)"
proof -
  have "0 \<le> fl (1/100)" "fl (1/100) \<le> fl (99/100)" "fl (99/100) \<le> 1" by code_simp+
  then show ?thesis unfolding clip_def by (rule clip_between_unit)
qed

lemma clip_pos: "0 < clip x"
proof -
  have c: "0 \<le> fl (1/100)" "fl (1/100) \<le> fl (99/100)" "fl (99/100) \<le> 1" by code_simp+
  have "0 < py_round 4 (fl (1/100))" by code_simp
  then show ?thesis using clip_between_unit(2) [OF c, of x] unfolding clip_def by linarith
qed

lemma length_pad_zeros [simp]: "length (pad_zeros n s) = max n (length s)"
  by (simp add: pad_zeros_def)

lemma length_str_nat: "n < 10 ^ k \<Longrightarrow> length (str_nat n) \<le> max 1 k"
proof (induction n arbitrary: k rule: str_nat.induct)
  case (1 n)
  show ?case
  proof (cases "n < 10")
    case True
    then show ?thesis by (simp add: str_nat.simps [of n])
  next
    case False
    then obtain j where k: "k = Suc j" using "1.prems" by (cases k) auto
    have "n div 10 < 10 ^ j" using "1.prems" k by (simp add: less_mult_imp_div_less mult.commute)
    moreover have "0 < n div 10" using False by simp
    then have "0 < j" using calculation by (cases j) auto
    ultimately show ?thesis using "1.IH" [OF False, of j] k by (simp add: str_nat.simps [of n])
  qed
qed

lemma money_of_float_bound:
  assumes "is_float x" "0 \<le> x" "x \<le> k" "is_float k" "decimal_of_float k + 1 \<le> b" "b \<le> 10 ^ 25"
  shows "\<exists>y. money_of_float x = Inr y \<and> 0 \<le> y \<and> y \<le> b"
proof -
  have d: "0 \<le> decimal_of_float x" "decimal_of_float x \<le> decimal_of_float k"
    using decimal_of_float_le [OF _ assms(1), of 0] decimal_of_float_le [OF assms(1,4)] assms(2,3) by auto
  then obtain y where y: "money_of_float x = Inr y"
    using money_total [of "decimal_of_float x"] assms(5,6) by (force simp: money_of_float_def)
  then have m: "money (decimal_of_float x) = Inr y" by (simp add: money_of_float_def)
  have "y - decimal_of_float x \<le> 1/200" using money_error [OF m] by (rule abs_le_D1)
  then show ?thesis using money_nonneg [OF m d(1)] d(2) assms(5) y by auto
qed

section \<open>The stages\<close>

lemma draw_season_ok:
  "rng_ok R \<Longrightarrow> tz_aware start \<Longrightarrow> succeeds (\<lambda>s. tz_aware (se_evaluation_time s)) (draw_season R start)"
  unfolding draw_season_def
  by (auto intro!: succeeds_bind [OF draw_range] simp: Let_def tz_aware_def plus_us_def)

definition locations_ok :: "locations \<Rightarrow> bool" where
  "locations_ok l \<longleftrightarrow>
     len_within 1 20 (lo_current l) \<and> lo_alternative l \<noteq> Some (lo_current l) \<and>
     (case lo_alternative l of None \<Rightarrow> \<not> lo_available l | Some a \<Rightarrow> lo_available l \<and> len_within 1 20 a)"

lemma location_names: "list_all (len_within 1 20) (fulfilment_centres @ stores)"
  by code_simp

lemma location_pool: "filter (\<lambda>l. l \<noteq> c) (fulfilment_centres @ stores) \<noteq> []"
proof -
  have "set (fulfilment_centres @ stores) \<noteq> {c}"
    by (auto simp: fulfilment_centres_def)
  then show ?thesis by (auto simp: filter_empty_conv fulfilment_centres_def)
qed

lemma draw_locations_ok:
  assumes "rng_ok R" shows "succeeds locations_ok (draw_locations R s)"
proof -
  have names: "x \<in> set (fulfilment_centres @ stores) \<Longrightarrow> len_within (Suc 0) 20 x" for x
    using location_names by (simp only: list_all_iff One_nat_def)
  have current: "succeeds (\<lambda>c. c \<in> set fulfilment_centres) (chosen R fulfilment_centres)"
    by (rule draw_chosen [OF assms]) (simp add: fulfilment_centres_def)
  have alternative: "succeeds (\<lambda>x. case x of None \<Rightarrow> \<not> b | Some a \<Rightarrow> b \<and> a \<noteq> c \<and> len_within 1 20 a)
      (if b then bind (chosen R (filter (\<lambda>l. l \<noteq> c) (fulfilment_centres @ stores))) (\<lambda>l. ret (Some l)) else ret None)"
    for b c
  proof (cases b)
    case True
    have "succeeds (\<lambda>x. case x of None \<Rightarrow> \<not> b | Some a \<Rightarrow> b \<and> a \<noteq> c \<and> len_within 1 20 a)
        (bind (chosen R (filter (\<lambda>l. l \<noteq> c) (fulfilment_centres @ stores))) (\<lambda>l. ret (Some l)))"
      by (rule succeeds_bind [OF draw_chosen [OF assms location_pool]]) (use True names in auto)
    then show ?thesis using True by simp
  qed (simp add: succeeds_ret)
  show ?thesis
    unfolding draw_locations_def Let_def
    by (auto intro!: succeeds_bind [OF current] succeeds_bind [OF draw_random [OF assms]]
        succeeds_bind [OF alternative] succeeds_ret names simp: locations_ok_def split: option.splits)
qed

lemma draw_carrier_ok:
  assumes "rng_ok R"
  shows "succeeds (\<lambda>c. fst c \<in> fst ` set carriers \<and> unit_float (snd c)) (draw_carrier R s)"
proof -
  have "succeeds (\<lambda>c. c \<in> set carriers) (chosen R carriers)"
    by (rule draw_chosen [OF assms]) (simp add: carriers_def)
  then show ?thesis
    unfolding draw_carrier_def
    by (rule succeeds_bind)
      (force intro!: succeeds_bind [OF draw_random [OF assms]] succeeds_ret clip_unit split: prod.splits)
qed

lemma draw_inventory_ok:
  assumes "rng_ok R" shows "succeeds (\<lambda>i. unit_float (in_confidence i)) (draw_inventory R s)"
proof -
  have "0 \<le> fl (35/100)" "fl (35/100) \<le> fl (999/1000)" "fl (999/1000) \<le> 1" by code_simp+
  then show ?thesis
    unfolding draw_inventory_def Let_def
    by (auto intro!: succeeds_bind [OF draw_random [OF assms]] clip_between_unit(1))
qed

lemma draw_scan_delay_ok:
  assumes R: "rng_ok R"
  shows "succeeds (\<lambda>h. is_float h \<and> 0 \<le> h \<and> h \<le> 240) (draw_scan_delay R s)"
proof -
  have rate: "0 < fdiv 1 (if \<not> se_weekend s then fl (65/100) else fl (11/10))"
    by (cases "se_weekend s") (simp; code_simp)+
  have first: "succeeds (\<lambda>x. 0 \<le> x) (drawn (rg_float R (Expo (fdiv 1 (if \<not> se_weekend s then fl (65/100) else fl (11/10))))))"
    by (rule succeeds_drawn) (use R rate in \<open>simp add: rng_ok_def\<close>)
  have second: "succeeds (\<lambda>x. 0 \<le> x) (if c then bind (drawn (rg_float R (Uniform (fl (3/2)) 8))) (\<lambda>u. ret (fadd d u))
      else ret d)" if "0 \<le> d" for c d
  proof -
    have "fl (3/2) \<le> 8" "0 \<le> fl (3/2)" "is_float 8" by code_simp+
    then show ?thesis
      using that by (auto intro!: succeeds_bind [OF draw_uniform [OF R]] float.rnd_nonneg simp: fadd_def)
  qed
  have "py_round 2 24 = 24" by code_simp
  then have last: "is_float (py_round 2 (min d 24)) \<and> 0 \<le> py_round 2 (min d 24) \<and> py_round 2 (min d 24) \<le> 240"
    if "0 \<le> d" for d
    using py_round_mono [of 0 "min d 24" 2] py_round_mono [of "min d 24" 24 2] that by auto
  show ?thesis
    unfolding draw_scan_delay_def
    by (rule succeeds_bind [OF first], rule succeeds_bind [OF draw_random [OF R]],
        rule succeeds_bind [OF second], assumption, rule succeeds_ret, rule last, assumption)
qed

text \<open>The amounts of a generated order, and of every order the evaluator is sure to price.\<close>

definition small_money :: "rat \<Rightarrow> bool" where
  "small_money x \<longleftrightarrow> 0 \<le> x \<and> x \<le> 10 ^ 8"

definition order_money_small :: "order_context \<Rightarrow> bool" where
  "order_money_small c \<longleftrightarrow>
     list_all small_money
       [oc_gross_margin c, oc_cancellation_cost c, oc_support_cost c,
        oc_reroute_cost c, oc_carrier_upgrade_cost c, oc_split_shipment_cost c]"

lemma order_money_small_fits: "order_money_small c \<Longrightarrow> order_money_fits c"
  by (auto simp: order_money_small_def order_money_fits_def small_money_def money_fits_def)

definition amounts_ok :: "amounts \<Rightarrow> bool" where
  "amounts_ok m \<longleftrightarrow>
     list_all small_money [am_gross_margin m, am_cancellation_cost m, am_support_cost m, am_reroute_cost m,
       am_carrier_upgrade_cost m, am_split_cost m]"

lemma draw_amount_ok:
  assumes "rng_ok R" and "0 \<le> a" "a \<le> b" "b \<le> 64" "is_float a" "is_float b"
  shows "succeeds small_money (draw_amount R a b)"
  unfolding draw_amount_def
proof (rule succeeds_bind [OF draw_uniform [OF assms(1,5,6,3)]])
  fix x assume x: "is_float x \<and> a \<le> x \<and> x \<le> b"
  have k: "is_float 64" "decimal_of_float 64 + 1 \<le> 65" by code_simp+
  have "\<exists>y. money_of_float x = Inr y \<and> 0 \<le> y \<and> y \<le> 65"
    by (rule money_of_float_bound [OF _ _ _ k]) (use x assms in auto)
  then show "succeeds small_money (of_res (money_of_float x))"
    by (auto simp: small_money_def intro!: succeeds_of_res)
qed

lemma draw_amounts_ok:
  assumes R: "rng_ok R" shows "succeeds amounts_ok (draw_amounts R)"
proof -
  have margin_draw: "succeeds (\<lambda>x. is_float x \<and> 0 \<le> x \<and> x \<le> 2 ^ 20) (drawn (rg_float R (Lognormal 48 (fl (55/100)))))"
    by (rule succeeds_drawn) (use R in \<open>simp add: rng_ok_def\<close>)
  have k: "is_float (2 ^ 20)" "decimal_of_float (2 ^ 20) + 1 \<le> 10 ^ 7"
    "is_float (2 ^ 24)" "decimal_of_float (2 ^ 24) + 1 \<le> 10 ^ 8" "fl (10 ^ 7) = 10 ^ 7" by code_simp+
  have u: "fl (2/10) \<le> fl (55/100)" "0 \<le> fl (2/10)" "fl (55/100) \<le> 1" "is_float 4" by code_simp+
  have f: "is_float 16" "is_float 5" "is_float 21" "is_float 7" "is_float 28" "is_float 12" "is_float 38" by code_simp+
  note f = f u(4) fl_is_float
  have margin: "succeeds (\<lambda>y. 0 \<le> y \<and> y \<le> 10 ^ 7) (of_res (money_of_float x))"
    if "is_float x \<and> 0 \<le> x \<and> x \<le> 2 ^ 20" for x
    by (rule succeeds_of_res, rule money_of_float_bound [OF _ _ _ k(1,2)]) (use that in auto)
  have cancellation: "succeeds small_money (of_res (money_of_float (max 4 (fmul (fl m) v))))"
    if m: "0 \<le> m \<and> m \<le> 10 ^ 7" and v: "is_float v \<and> fl (2/10) \<le> v \<and> v \<le> fl (55/100)" for m v
  proof -
    have fm: "0 \<le> fl m" "fl m \<le> 10 ^ 7" using float.rnd_nonneg [of m] float.rnd_mono [of m "10 ^ 7"] m k(5) by auto
    have "0 \<le> v" "v \<le> 1" using v u by auto
    then have "fl m * v \<le> 10 ^ 7 * 1" using fm by (intro mult_mono) auto
    then have "fmul (fl m) v \<le> 10 ^ 7" using float.rnd_mono [of "fl m * v" "10 ^ 7"] k(5) by (simp add: fmul_def)
    then have "\<exists>y. money_of_float (max 4 (fmul (fl m) v)) = Inr y \<and> 0 \<le> y \<and> y \<le> 10 ^ 8"
      by (intro money_of_float_bound [OF _ _ _ k(3,4)]) (auto simp: u(4) fmul_def max_def)
    then show ?thesis by (auto simp: small_money_def intro!: succeeds_of_res)
  qed
  show ?thesis
    unfolding draw_amounts_def
    by (rule succeeds_bind [OF margin_draw], rule succeeds_bind [OF margin], assumption,
        rule succeeds_bind [OF draw_uniform [OF R fl_is_float fl_is_float u(1)]], rule succeeds_bind [OF cancellation], assumption, assumption,
        rule succeeds_bind [OF draw_amount_ok [OF R]], (simp add: f; fail)+,
        rule succeeds_bind [OF draw_amount_ok [OF R]], (simp add: f; fail)+,
        rule succeeds_bind [OF draw_amount_ok [OF R]], (simp add: f; fail)+,
        rule succeeds_bind [OF draw_amount_ok [OF R]], (simp add: f; fail)+)
      (auto simp: amounts_ok_def small_money_def)
qed

definition outlook_ok :: "bool \<Rightarrow> outlook \<Rightarrow> bool" where
  "outlook_ok available u \<longleftrightarrow>
     unit_float (ou_no_action u) \<and> unit_float (ou_reroute u) \<and> unit_float (ou_upgrade u) \<and>
     unit_float (ou_split u) \<and> (ou_split_possible u \<longrightarrow> 0 < ou_split u \<and> available)"

lemma draw_outlook_ok:
  assumes R: "rng_ok R"
  shows "succeeds (outlook_ok available) (draw_outlook R s available p i hours promise)"
proof -
  have reroute: "succeeds unit_float (if available then bind (drawn (rg_float R d)) (\<lambda>x. ret (clip (f x))) else ret 0)" for d f
    by (cases available) (auto intro!: succeeds_bind [OF draw_random [OF R]] clip_unit)
  have possible: "succeeds (\<lambda>b. b \<longrightarrow> available)
      (if available then bind (drawn (rg_float R d)) (\<lambda>y. ret (y < c)) else ret False)" for d c
    by (cases available) (auto intro!: succeeds_bind [OF draw_random [OF R]])
  have na: "unit_float (no_action_on_time p i hours promise)"
    by (simp add: no_action_on_time_def Let_def clip_unit)
  show ?thesis
    unfolding draw_outlook_def Let_def
    by (rule succeeds_bind [OF reroute], rule succeeds_bind [OF draw_random [OF R]], rule succeeds_bind [OF possible])
      (auto simp: outlook_ok_def na clip_unit clip_pos)
qed

section \<open>The order and its event\<close>

lemma length_str_int:
  assumes "0 \<le> n" "n < 10 ^ k" shows "length (str_int n) \<le> max 1 k"
proof -
  have "nat n < 10 ^ k" using assms by (simp add: nat_less_iff)
  then show ?thesis using length_str_nat [of "nat n" k] assms(1) by (simp add: str_int_def)
qed

lemma references_valid:
  assumes "n < 10 ^ 100" and "0 \<le> k" "k < 10 ^ 5" and "len_within 1 20 current" and "tz_aware t"
  shows "list_all valid_source_reference
           (references_of (''order-'' @ pad_zeros 7 (str_nat n)) (''SKU-'' @ pad_zeros 5 (str_int k)) current t f)"
  using length_str_nat [OF assms(1)] length_str_int [OF assms(2,3)] assms(4,5)
  by (auto simp: references_of_def valid_source_reference_def len_within_def tz_aware_def plus_us_def)

lemma event_valid:
  assumes "n < 10 ^ 100" and "tz_aware t"
  shows "valid_operational_event (event_of (''evt-'' @ pad_zeros 7 (str_nat n)) t)"
  using length_str_nat [OF assms(1)] assms(2)
  by (auto simp: event_of_def valid_operational_event_def len_within_def tz_aware_def plus_us_def is_digit_def)


section \<open>The optimal action\<close>

lemma counterfactual_total:
  assumes p: "unit_float p" and k: "1 \<le> k" "k \<le> 10 ^ 24"
    and m: "0 \<le> oc_gross_margin c" "oc_gross_margin c \<le> of_int k"
      "0 \<le> oc_cancellation_cost c" "oc_cancellation_cost c \<le> of_int k"
      "0 \<le> oc_support_cost c" "oc_support_cost c \<le> of_int k" "0 \<le> cost" "cost \<le> of_int k"
  shows "\<exists>v. counterfactual_value c p cost = Inr v \<and> \<bar>v\<bar> \<le> of_int (5 * k)"
proof -
  let ?s = "decimal_of_float p" and ?f = "dadd (oc_cancellation_cost c) (oc_support_cost c)"
  have s: "0 \<le> ?s" "?s \<le> 1" using unit_floatD [OF p] decimal_of_float_unit by auto
  have f: "0 \<le> dsub 1 ?s" "dsub 1 ?s \<le> 1" using dec.rnd_one_minus [OF s] by (simp_all add: dsub_def)
  have a: "\<bar>dmul (oc_gross_margin c) ?s\<bar> \<le> of_int k"
    unfolding dmul_def using m s k by (intro dec_abs_bound mult_unit_abs) auto
  have "\<bar>?f\<bar> \<le> of_int (2 * k)"
    unfolding dadd_def using m k by (intro dec_abs_bound) auto
  then have b: "\<bar>dmul ?f (dsub 1 ?s)\<bar> \<le> of_int (2 * k)"
    unfolding dmul_def using f k by (intro dec_abs_bound mult_unit_abs) auto
  have "\<bar>dsub (dmul (oc_gross_margin c) ?s) (dmul ?f (dsub 1 ?s))\<bar> \<le> of_int (3 * k)"
    unfolding dsub_def [of "dmul (oc_gross_margin c) ?s"] using a b k by (intro dec_abs_bound) auto
  then have d: "\<bar>dsub (dsub (dmul (oc_gross_margin c) ?s) (dmul ?f (dsub 1 ?s))) cost\<bar> \<le> of_int (4 * k)"
    (is "\<bar>?d\<bar> \<le> _")
    unfolding dsub_def [of "dsub (dmul (oc_gross_margin c) ?s) (dmul ?f (dsub 1 ?s))"]
    using m(7,8) k by (intro dec_abs_bound) auto
  have "of_int (4 * k) \<le> (of_int (4 * 10 ^ 24) :: rat)" using k(2) by (simp only: of_int_le_iff)
  then obtain v where v: "money ?d = Inr v" using money_total [of ?d] d by auto
  have "1 \<le> (of_int k :: rat)" using k(1) by simp
  then have "\<bar>v\<bar> \<le> of_int (5 * k)" using money_error [OF v] d unfolding abs_le_iff by simp
  then show ?thesis using v by (simp add: counterfactual_value_def Let_def)
qed

definition truth_of :: "synthetic_record \<Rightarrow> recovery_action \<Rightarrow> rat" where
  "truth_of r a = (case ground_truth_value r a of Inr v \<Rightarrow> v | Inl _ \<Rightarrow> 0)"

lemma evaluated_cost_eq: "evaluated_cost c a = action_cost c a"
  by (cases a) (simp_all add: evaluated_cost_def)

lemma ground_truth_value_eq:
  "ground_truth_probability r a = Inr p \<Longrightarrow>
     ground_truth_value r a = counterfactual_value (er_order (sy_request r)) p (action_cost (er_order (sy_request r)) a)"
  by (simp add: ground_truth_value_def counterfactual_value_def evaluated_cost_eq Let_def)

lemma action_cost_small: "order_money_small c \<Longrightarrow> 0 \<le> action_cost c a \<and> action_cost c a \<le> of_int (10 ^ 8)"
  by (cases a) (auto simp: order_money_small_def small_money_def)

lemma counterfactual_small:
  "order_money_small c \<Longrightarrow> unit_float p \<Longrightarrow>
     \<exists>v. counterfactual_value c p (action_cost c a) = Inr v \<and> \<bar>v\<bar> \<le> of_int (5 * 10 ^ 8)"
  using action_cost_small [of c a]
  by (intro counterfactual_total) (auto simp: order_money_small_def small_money_def)

lemma action_values_total:
  assumes c: "order_money_small c" and ps: "\<forall>(a, p)\<in>set ps. unit_float p"
  shows "\<exists>vs. action_values c ps = Inr vs \<and>
    set vs = {(a, v). \<exists>p. (a, p) \<in> set ps \<and> truly_feasible c a \<and> counterfactual_value c p (action_cost c a) = Inr v}"
  using ps
proof (induction ps)
  case (Cons x ps)
  obtain a p where x: "x = (a, p)" by force
  obtain v where v: "counterfactual_value c p (action_cost c a) = Inr v"
    using counterfactual_small [OF c, of p a] Cons.prems x by auto
  obtain vs where vs: "action_values c ps = Inr vs"
    "set vs = {(a, v). \<exists>p. (a, p) \<in> set ps \<and> truly_feasible c a \<and> counterfactual_value c p (action_cost c a) = Inr v}"
    using Cons by auto
  show ?case using v vs(2) by (auto simp: x vs(1))
qed simp

lemma foldl_max:
  fixes key :: "'a \<Rightarrow> 'k::linorder"
  shows "foldl (\<lambda>best y. if key best < key y then y else best) b xs \<in> insert b (set xs) \<and>
    (\<forall>y\<in>insert b (set xs). key y \<le> key (foldl (\<lambda>best y. if key best < key y then y else best) b xs))"
proof (induction xs arbitrary: b)
  case (Cons x xs)
  show ?case using Cons [of "if key b < key x then x else b"] by (auto split: if_splits)
qed simp

lemma py_max_total:
  "xs \<noteq> [] \<Longrightarrow> \<exists>m. py_max key xs = Inr m \<and> m \<in> set xs \<and> (\<forall>y\<in>set xs. key y \<le> key m)"
proof (cases xs)
  case (Cons x ys)
  show ?thesis using foldl_max [of key x ys] by (auto simp: Cons)
qed simp

lemma optimal_action_ok:
  assumes c: "order_money_small c" and ps: "\<forall>(a, p)\<in>set ps. unit_float p" and na: "\<exists>p. (TAKE_NO_ACTION, p) \<in> set ps"
  shows "\<exists>b p v. optimal_action c ps = Inr b \<and> (b, p) \<in> set ps \<and> truly_feasible c b \<and>
    counterfactual_value c p (action_cost c b) = Inr v \<and>
    (\<forall>a q w. (a, q) \<in> set ps \<longrightarrow> truly_feasible c a \<longrightarrow> counterfactual_value c q (action_cost c a) = Inr w \<longrightarrow> w \<le> v)"
proof -
  obtain vs where vs: "action_values c ps = Inr vs"
    "set vs = {(a, v). \<exists>p. (a, p) \<in> set ps \<and> truly_feasible c a \<and> counterfactual_value c p (action_cost c a) = Inr v}"
    using action_values_total [OF c ps] by auto
  obtain p where p: "(TAKE_NO_ACTION, p) \<in> set ps" using na by auto
  then obtain v where "counterfactual_value c p (action_cost c TAKE_NO_ACTION) = Inr v"
    using counterfactual_small [OF c, of p TAKE_NO_ACTION] ps by auto
  then have "(TAKE_NO_ACTION, v) \<in> set vs" using p vs(2) by auto
  then have "vs \<noteq> []" by auto
  then obtain m where m: "py_max (\<lambda>(a, v). (v, recovery_action_value a)) vs = Inr m" "m \<in> set vs"
    and mx: "\<forall>y\<in>set vs. (\<lambda>(a, v). (v, recovery_action_value a)) y \<le> (\<lambda>(a, v). (v, recovery_action_value a)) m"
    using py_max_total by blast
  obtain b v where bv: "m = (b, v)" by force
  have best: "w \<le> v" if "(a, q) \<in> set ps" "truly_feasible c a" "counterfactual_value c q (action_cost c a) = Inr w"
    for a q w
  proof -
    have "(a, w) \<in> set vs" using that vs(2) by auto
    from bspec [OF mx this] show ?thesis by (auto simp: bv)
  qed
  have "optimal_action c ps = Inr b" by (simp add: optimal_action_def vs(1) m(1) bv)
  moreover obtain q where "(b, q) \<in> set ps" "truly_feasible c b" "counterfactual_value c q (action_cost c b) = Inr v"
    using m(2) vs(2) by (auto simp: bv)
  ultimately show ?thesis using best by blast
qed

end
