(* ===== verification/Synthetic_Records.thy ===== *)
theory Synthetic_Records
  imports Synthetic_Soundness
begin

text \<open>
  A whole run of the generator: with a conforming random source it makes as many records as
  asked for, each passes every validator, their keys are distinct, and the action labelled
  optimal is feasible and has the greatest value under the labels.
\<close>

section \<open>The order\<close>

definition order_matches :: "datetime \<Rightarrow> outlook \<Rightarrow> order_context \<Rightarrow> bool" where
  "order_matches t u c \<longleftrightarrow>
     valid_order_context c \<and> order_money_small c \<and> oc_evaluation_time c = t \<and>
     oc_reroute_on_time_probability c = ou_reroute u \<and>
     oc_carrier_upgrade_on_time_probability c = ou_upgrade u \<and>
     oc_split_shipment_on_time_probability c = ou_split u"

lemma carrier_names:
  "list_all (\<lambda>c. len_within 1 80 c \<and> len_within 1 80 (replace_all ''STANDARD'' ''EXPRESS'' c)) (map fst carriers)"
  by code_simp

lemma draw_order_ok:
  assumes R: "rng_ok R" and names: "len_within 1 120 oid" "len_within 1 120 sku" "len_within 1 40 segment"
    and t: "tz_aware (se_evaluation_time s)" and l: "locations_ok l"
    and ca: "fst ca \<in> fst ` set carriers" "unit_float (snd ca)" and i: "unit_float (in_confidence i)"
    and h: "is_float h" "0 \<le> h" "h \<le> 240" and ph: "0 < ph" and m: "amounts_ok m"
    and u: "outlook_ok (lo_available l) u" and f: "0 \<le> f" "f \<le> 10080"
    and refs: "refs \<noteq> []" "list_all valid_source_reference refs"
  shows "succeeds (\<lambda>c. order_matches (se_evaluation_time s) u c \<and> oc_order_id c = oid)
           (draw_order R oid s l ca i h ph m u sku segment f refs)"
proof -
  have q: "(1::int) \<le> q \<and> q \<le> 4" if "q \<in> fst ` set [(1, w1), (2, w2), (3, w3), (4, w4)]" for q and w1 w2 w3 w4 :: rat
    using that by auto
  have customer: "len_within 1 120 (''customer-'' @ pad_zeros 5 (str_int n))" if "1 \<le> n \<and> n < 25001" for n :: int
    using length_str_int [of n 5] that by (auto simp: len_within_def)
  have carrier: "len_within 1 80 (fst ca)" "len_within 1 80 (replace_all ''STANDARD'' ''EXPRESS'' (fst ca))"
    using carrier_names ca(1) by (auto simp: list_all_iff)
  have later: "instant (se_evaluation_time s) < instant (plus_us (se_evaluation_time s) (hours_us ph))"
    using ph by (simp add: hours_us_def minutes_us_def)
  have promised: "tz_aware (plus_us (se_evaluation_time s) (hours_us ph))"
    using t by (simp add: tz_aware_def plus_us_def)
  have aud: "currency_pattern ''AUD''" by code_simp
  show ?thesis
    unfolding draw_order_def
  proof (rule succeeds_bind [OF draw_range [OF R]], simp,
      rule succeeds_bind [OF draw_weighted [OF R]], simp,
      rule succeeds_bind [OF draw_random [OF R]], rule succeeds_checked)
    fix n q :: int and x :: rat
    assume n: "1 \<le> n \<and> n < 25001"
      and "q \<in> fst ` set [(1::int, fl (76/100)), (2, fl (16/100)), (3, fl (6/100)), (4, fl (2/100))]"
    then have q: "1 \<le> q \<and> q \<le> 4" by (simp only: q)
    let ?c = "\<lparr>oc_order_id = oid, oc_evaluation_time = se_evaluation_time s,
        oc_promised_delivery_at = plus_us (se_evaluation_time s) (hours_us ph),
        oc_gross_margin = am_gross_margin m, oc_cancellation_cost = am_cancellation_cost m,
        oc_support_cost = am_support_cost m, oc_inventory_reserved = in_reserved i,
        oc_inventory_available = in_available i, oc_inventory_confidence = in_confidence i,
        oc_carrier_on_time_probability = snd ca, oc_hours_since_expected_scan = h,
        oc_alternative_location_available = lo_available l, oc_reroute_on_time_probability = ou_reroute u,
        oc_carrier_upgrade_on_time_probability = ou_upgrade u, oc_reroute_cost = am_reroute_cost m,
        oc_carrier_upgrade_cost = am_carrier_upgrade_cost m, oc_data_freshness_minutes = f,
        oc_source_references = refs, oc_external_notes = None,
        oc_customer_id = ''customer-'' @ pad_zeros 5 (str_int n), oc_customer_segment = segment,
        oc_currency = ''AUD'', oc_sku = sku, oc_quantity = q,
        oc_current_fulfilment_location = lo_current l, oc_alternative_location_id = lo_alternative l,
        oc_current_carrier_service = fst ca,
        oc_upgraded_carrier_service = replace_all ''STANDARD'' ''EXPRESS'' (fst ca),
        oc_split_shipment_possible = ou_split_possible u, oc_split_shipment_on_time_probability = ou_split u,
        oc_split_shipment_cost = am_split_cost m, oc_restricted_product = x < fl (12/1000),
        oc_tenant_id = ''local-default''\<rparr>"
    have names2: "len_within 1 80 (lo_current l)" "case lo_alternative l of None \<Rightarrow> True | Some a \<Rightarrow> len_within 0 80 a"
      using l by (auto simp: locations_ok_def len_within_def split: option.splits)
    show v: "valid_order_context ?c"
      unfolding valid_order_context_def
      using names t promised m i ca(2) h u f refs customer [OF n] aud q names2 l carrier later
      by (simp add: amounts_ok_def small_money_def non_negative_money_def outlook_ok_def positive_quantity_def
          locations_ok_def len_within_def [of _ _ "''local-default''"])
    show "order_matches (se_evaluation_time s) u ?c \<and> oc_order_id ?c = oid"
      using v m by (simp add: order_matches_def order_money_small_def amounts_ok_def)
  qed
qed

section \<open>The labels\<close>

text \<open>The action labelled optimal can be taken and none that can be taken has a greater value.\<close>

definition best_labelled :: "synthetic_record \<Rightarrow> bool" where
  "best_labelled r \<longleftrightarrow>
     (let c = er_order (sy_request r); best = sg_optimal_action (sy_ground_truth r)
      in truly_feasible c best \<and>
         (case ground_truth_value r best of
            Inl _ \<Rightarrow> False
          | Inr b \<Rightarrow>
              list_all (\<lambda>a. case ground_truth_value r a of Inl _ \<Rightarrow> False | Inr v \<Rightarrow> truly_feasible c a \<longrightarrow> v \<le> b)
                [TAKE_NO_ACTION, REROUTE, CARRIER_UPGRADE, SPLIT_SHIPMENT]))"

text \<open>The orders show the chances of the interventions that the labels hold.\<close>

definition labels_match :: "synthetic_record \<Rightarrow> bool" where
  "labels_match r \<longleftrightarrow>
     (let c = er_order (sy_request r); g = sy_ground_truth r
      in sg_reroute_on_time_probability g = oc_reroute_on_time_probability c \<and>
         sg_carrier_upgrade_on_time_probability g = oc_carrier_upgrade_on_time_probability c \<and>
         sg_split_shipment_on_time_probability g = oc_split_shipment_on_time_probability c)"

definition sound_record :: "operating_mode \<Rightarrow> synthetic_record \<Rightarrow> bool" where
  "sound_record mode r \<longleftrightarrow>
     valid_evaluation_request (sy_request r) \<and> er_mode (sy_request r) = mode \<and>
     order_money_small (er_order (sy_request r)) \<and> valid_ground_truth (sy_ground_truth r) \<and>
     labels_match r \<and> best_labelled r"

definition labels_of :: "outlook \<Rightarrow> (recovery_action \<times> rat) list" where
  "labels_of u =
     [(TAKE_NO_ACTION, ou_no_action u), (REROUTE, ou_reroute u),
      (CARRIER_UPGRADE, ou_upgrade u), (SPLIT_SHIPMENT, ou_split u)]"

lemma ground_truth_of_ok:
  assumes R: "rng_ok R" and c: "order_matches t u c" and u: "outlook_ok b u"
    and q: "er_order q = c"
  shows "succeeds (\<lambda>g. valid_ground_truth g \<and> labels_match \<lparr>sy_request = q, sy_ground_truth = g\<rparr> \<and>
      best_labelled \<lparr>sy_request = q, sy_ground_truth = g\<rparr>) (ground_truth_of R c u)"
proof -
  have m: "order_money_small c" using c by (simp add: order_matches_def)
  have ps: "\<forall>(a, p)\<in>set (labels_of u). unit_float p" and na: "\<exists>p. (TAKE_NO_ACTION, p) \<in> set (labels_of u)"
    using u by (auto simp: labels_of_def outlook_ok_def)
  obtain best p v where best: "optimal_action c (labels_of u) = Inr best" "(best, p) \<in> set (labels_of u)"
    "truly_feasible c best" "counterfactual_value c p (action_cost c best) = Inr v"
    and mx: "\<And>a q w. (a, q) \<in> set (labels_of u) \<Longrightarrow> truly_feasible c a \<Longrightarrow>
        counterfactual_value c q (action_cost c a) = Inr w \<Longrightarrow> w \<le> v"
    using optimal_action_ok [OF m ps na] by blast
  show ?thesis
    unfolding ground_truth_of_def labels_of_def [symmetric] best(1)
  proof (rule succeeds_bind [OF draw_random [OF R]], rule succeeds_bind [where P = "\<lambda>b. b = best"],
      rule succeeds_of_res, simp, simp, rule succeeds_checked)
    fix x b
    let ?g = "\<lparr>sg_no_action_on_time_probability = ou_no_action u, sg_reroute_on_time_probability = ou_reroute u,
        sg_carrier_upgrade_on_time_probability = ou_upgrade u, sg_split_shipment_on_time_probability = ou_split u,
        sg_sampled_no_action_failure = ou_no_action u < x, sg_optimal_action = best\<rparr>"
    let ?r = "\<lparr>sy_request = q, sy_ground_truth = ?g\<rparr>"
    show g: "valid_ground_truth ?g" using u by (simp add: valid_ground_truth_def outlook_ok_def)
    have valued: "ground_truth_value ?r a = counterfactual_value c p (action_cost c a)" if "(a, p) \<in> set (labels_of u)" for a p
      using that q by (subst ground_truth_value_eq [of _ _ p]) (auto simp: labels_of_def ground_truth_probability_def)
    have each: "case ground_truth_value ?r a of Inl _ \<Rightarrow> False | Inr w \<Rightarrow> truly_feasible c a \<longrightarrow> w \<le> v"
      if a: "(a, p) \<in> set (labels_of u)" for a p
    proof -
      have "unit_float p" using ps a by auto
      then obtain w where "counterfactual_value c p (action_cost c a) = Inr w"
        using counterfactual_small [OF m] by blast
      then show ?thesis using valued [OF a] mx [OF a] by auto
    qed
    have "best_labelled ?r"
      unfolding best_labelled_def
      using best(3) valued [OF best(2)] best(4) each [of TAKE_NO_ACTION] each [of REROUTE]
        each [of CARRIER_UPGRADE] each [of SPLIT_SHIPMENT]
      by (simp add: q labels_of_def)
    moreover have "labels_match ?r" using c q by (simp add: labels_match_def order_matches_def)
    ultimately show "valid_ground_truth ?g \<and> labels_match ?r \<and> best_labelled ?r" using g by simp
  qed
qed

section \<open>One record\<close>

definition order_name :: "nat \<Rightarrow> string" where
  "order_name i = ''order-'' @ pad_zeros 7 (str_nat (i + 1))"

definition event_name :: "nat \<Rightarrow> string" where
  "event_name i = ''evt-'' @ pad_zeros 7 (str_nat (i + 1))"

lemma nat_of_digits_pad: "nat_of_digits (pad_zeros k (str_nat n)) = n"
proof -
  have "nat_of_digits (replicate j CHR ''0'' @ s) = nat_of_digits s" for j s
    by (induction j) (simp_all add: nat_of_digits_def)
  then show ?thesis by (simp add: pad_zeros_def)
qed

lemma names_inject: "order_name i = order_name j \<longleftrightarrow> i = j" "event_name i = event_name j \<longleftrightarrow> i = j"
  unfolding order_name_def event_name_def by (metis Suc_eq_plus1 append_same_eq nat_of_digits_pad old.nat.inject same_append_eq)+

definition named_record :: "operating_mode \<Rightarrow> nat \<Rightarrow> synthetic_record \<Rightarrow> bool" where
  "named_record mode i r \<longleftrightarrow>
     sound_record mode r \<and> oc_order_id (er_order (sy_request r)) = order_name i \<and>
     ev_event_id (er_event (sy_request r)) = event_name i"

lemma bind_checked: "p x \<Longrightarrow> bind (checked p x) f = f x"
  by (simp add: fun_eq_iff bind_app checked_def)

lemma one_record_ok:
  assumes R: "rng_ok R" and start: "tz_aware start" and i: "i + 1 < 10 ^ 100"
  shows "succeeds (named_record mode i) (one_record R i start mode)"
  unfolding one_record_def Let_def
proof (rule succeeds_bind [OF draw_season_ok [OF R start]],
    rule succeeds_bind [OF draw_locations_ok [OF R]],
    rule succeeds_bind [OF draw_carrier_ok [OF R]],
    rule succeeds_bind [OF draw_inventory_ok [OF R]],
    rule succeeds_bind [OF draw_scan_delay_ok [OF R]],
    rule succeeds_bind [OF draw_chosen [OF R]], simp,
    rule succeeds_bind [OF draw_amounts_ok [OF R]],
    rule succeeds_bind [OF draw_outlook_ok [OF R]],
    rule succeeds_bind [OF draw_range [OF R]], simp,
    rule succeeds_bind [OF draw_weighted [OF R]], simp,
    rule succeeds_bind [OF draw_weighted [OF R]], simp)
  fix s :: season and l :: locations and inv :: inventory and h :: rat and ph n f :: int and m :: amounts
    and u :: outlook and seg :: string and ca :: "string \<times> rat"
  let ?t = "se_evaluation_time s" and ?sku = "''SKU-'' @ pad_zeros 5 (str_int n)"
  let ?oid = "''order-'' @ pad_zeros 7 (str_nat (i + 1))" and ?eid = "''evt-'' @ pad_zeros 7 (str_nat (i + 1))"
  let ?refs = "references_of ?oid ?sku (lo_current l) ?t f" and ?e = "event_of ?eid ?t"
  assume t: "tz_aware ?t" and l: "locations_ok l" and ca: "fst ca \<in> fst ` set carriers \<and> unit_float (snd ca)"
    and inv: "unit_float (in_confidence inv)" and h: "is_float h \<and> 0 \<le> h \<and> h \<le> 240"
    and ph: "ph \<in> set [12, 18, 24, 36, 48, 72]" and m: "amounts_ok m" and u: "outlook_ok (lo_available l) u"
    and n: "1 \<le> n \<and> n < 5001" and seg: "seg \<in> fst ` set [(''STANDARD'', fl (72/100)), (''LOYAL'', fl (23/100)), (''VIP'', fl (5/100))]"
    and f: "f \<in> fst ` set [(1, fl (2/10)), (3, fl (27/100)), (5, fl (24/100)), (12, fl (16/100)), (20, fl (9/100)), (45, fl (4/100))]"
  have cur: "len_within 1 20 (lo_current l)" using l by (simp add: locations_ok_def)
  have refs: "list_all valid_source_reference ?refs"
    using n by (intro references_valid [OF i _ _ cur t]) auto
  have ev: "valid_operational_event ?e" by (rule event_valid [OF i t])
  have oid: "len_within 1 120 ?oid" using length_str_nat [OF i] by (auto simp: len_within_def)
  have sku: "len_within 1 120 ?sku" using length_str_int [of n 5] n by (auto simp: len_within_def)
  have seg': "len_within 1 40 seg" using seg by (auto simp: len_within_def)
  have f': "0 \<le> f" "f \<le> 10080" using f by auto
  have ph': "0 < ph" using ph by auto
  show "succeeds (named_record mode i)
     (bind (checked (list_all valid_source_reference) ?refs) (\<lambda>refs.
      bind (checked valid_operational_event ?e) (\<lambda>event.
      bind (draw_order R ?oid s l ca inv h ph m u ?sku seg f refs) (\<lambda>c.
      bind (ground_truth_of R c u) (\<lambda>truth.
      bind (checked valid_evaluation_request \<lparr>er_event = event, er_order = c, er_mode = mode\<rparr>) (\<lambda>request.
      ret \<lparr>sy_request = request, sy_ground_truth = truth\<rparr>))))))"
    unfolding bind_checked [of "list_all valid_source_reference", OF refs] bind_checked [of valid_operational_event, OF ev]
  proof (rule succeeds_bind [OF draw_order_ok [OF R oid sku seg' t l _ _ inv _ _ _ ph' m u f' _ refs]])
    fix c assume c: "order_matches ?t u c \<and> oc_order_id c = ?oid"
    let ?q = "\<lparr>er_event = ?e, er_order = c, er_mode = mode\<rparr>"
    have q: "valid_evaluation_request ?q"
      using ev c by (simp add: valid_evaluation_request_def order_matches_def event_of_def)
    show "succeeds (named_record mode i) (bind (ground_truth_of R c u) (\<lambda>truth.
        bind (checked valid_evaluation_request ?q) (\<lambda>request. ret \<lparr>sy_request = request, sy_ground_truth = truth\<rparr>)))"
    proof (rule succeeds_bind [OF ground_truth_of_ok [OF R _ u, of _ c ?q]])
      show "order_matches ?t u c" using c by simp
      fix g assume g: "valid_ground_truth g \<and> labels_match \<lparr>sy_request = ?q, sy_ground_truth = g\<rparr> \<and>
          best_labelled \<lparr>sy_request = ?q, sy_ground_truth = g\<rparr>"
      show "succeeds (named_record mode i)
          (bind (checked valid_evaluation_request ?q) (\<lambda>request. ret \<lparr>sy_request = request, sy_ground_truth = g\<rparr>))"
        unfolding bind_checked [of valid_evaluation_request, OF q]
        by (rule succeeds_ret)
          (use q g c in \<open>simp add: named_record_def sound_record_def order_matches_def order_name_def event_name_def event_of_def\<close>)
    qed simp
  qed (use ca h in \<open>simp_all add: references_of_def\<close>)
qed

section \<open>A run\<close>

lemma record_run_ok:
  assumes R: "rng_ok R" and start: "tz_aware start" and js: "\<forall>i\<in>set js. i + 1 < 10 ^ 100"
  shows "succeeds (list_all2 (named_record mode) js) (record_run R js start mode)"
  using js
proof (induction js)
  case (Cons i js)
  show ?case
    using Cons.prems
    by (auto intro!: succeeds_bind [OF one_record_ok [OF R start]] succeeds_bind [OF Cons.IH] succeeds_ret)
qed (simp add: succeeds_ret)

lemma generate_records_ok:
  assumes "rng_ok R" and "0 < count" and "count < 10 ^ 100" and "case start_at of None \<Rightarrow> True | Some d \<Rightarrow> tz_aware d"
  shows "\<exists>xs g'. generate_records R count start_at mode g = (Inr xs, g') \<and> length xs = nat count \<and>
    list_all (sound_record mode) xs \<and>
    distinct (map (\<lambda>r. oc_order_id (er_order (sy_request r))) xs) \<and>
    distinct (map (\<lambda>r. ev_event_id (er_event (sy_request r))) xs)"
proof -
  let ?start = "now_or start_at (utc (hours_us (24 * 20301)))" and ?js = "[0..<nat count]"
  have start: "tz_aware ?start" using assms(4) by (cases start_at) (simp_all add: now_or_def tz_aware_def)
  have "nat count < 10 ^ 100" using assms(2,3) by (simp add: nat_less_iff)
  then have js: "\<forall>i\<in>set ?js. i + 1 < 10 ^ 100" by auto
  have ok: "succeeds (list_all2 (named_record mode) ?js) (record_run R ?js ?start mode)"
    by (rule record_run_ok [OF assms(1) start js])
  obtain xs g' where run: "record_run R ?js ?start mode g = (Inr xs, g')"
    and xs: "list_all2 (named_record mode) ?js xs"
    using ok unfolding succeeds_def by blast
  have len: "length xs = length ?js" using xs by (metis list_all2_lengthD)
  have nth: "named_record mode i (xs ! i)" if "i < length xs" for i
    using list_all2_nthD2 [OF xs that] that len by simp
  have "list_all (sound_record mode) xs"
    using nth by (auto simp: list_all_length named_record_def)
  moreover have "map (\<lambda>r. oc_order_id (er_order (sy_request r))) xs = map order_name ?js"
    "map (\<lambda>r. ev_event_id (er_event (sy_request r))) xs = map event_name ?js"
    using nth len by (auto intro!: nth_equalityI simp: named_record_def)
  moreover have "distinct (map order_name ?js)" "distinct (map event_name ?js)"
    by (simp_all add: distinct_map inj_on_def names_inject)
  moreover have "generate_records R count start_at mode g = (Inr xs, g')"
    using run start assms(2) by (simp add: generate_records_def Let_def)
  ultimately show ?thesis using len by auto
qed

text \<open>A source that draws the least value every time.\<close>

fun least_draw :: "draw \<Rightarrow> rat" where
  "least_draw (Uniform a b) = (if is_float a then a else 0)"
| "least_draw _ = 0"

definition least_rng :: "unit rng" where
  "least_rng =
     \<lparr>rg_float = \<lambda>d g. (least_draw d, g), rg_randrange = \<lambda>a b g. (a, g),
      rg_choice = \<lambda>n g. (0, g), rg_choices = \<lambda>ws g. (0, g)\<rparr>"

lemma least_rng_ok: "rng_ok least_rng"
proof -
  have "is_float (least_draw d)" for d by (cases d) auto
  then show ?thesis by (simp add: rng_ok_def least_rng_def)
qed

text \<open>C30: with any conforming random source the generator of \<open>count\<close> records raises nothing and
  makes \<open>count\<close> of them; every one is a valid request in the requested mode with valid labels, its
  amounts are small enough for the decision pipeline, the action labelled optimal is feasible and has
  the greatest counterfactual value, and no two records share an order or an event.\<close>

theorem generated_records_are_sound:
  assumes "rng_ok R" and "0 < count" and "count < 10 ^ 100" and "case start_at of None \<Rightarrow> True | Some d \<Rightarrow> tz_aware d"
  shows "\<exists>xs g'. generate_records R count start_at mode g = (Inr xs, g') \<and> length xs = nat count \<and>
    list_all (sound_record mode) xs \<and>
    distinct (map (\<lambda>r. oc_order_id (er_order (sy_request r))) xs) \<and>
    distinct (map (\<lambda>r. ev_event_id (er_event (sy_request r))) xs)"
  by (rule generate_records_ok [OF assms])

theorem generated_records_are_sound_witness:
  "\<exists>xs g'. generate_records least_rng 3 None SHADOW () = (Inr xs, g') \<and> length xs = 3 \<and>
    list_all (sound_record SHADOW) xs \<and> distinct (map (\<lambda>r. oc_order_id (er_order (sy_request r))) xs)"
  using generated_records_are_sound [OF least_rng_ok, of 3 None SHADOW "()"]
  by auto

end
