(* ===== verification/Value_Backtest.thy ===== *)
theory Value_Backtest
  imports Synthetic_Records
begin

text \<open>
  The evaluator of \<open>Value_Evaluation\<close> on sound records: it raises nothing, and its accumulators
  and totals are those of a declarative account, one line per figure, over the actions the
  pipeline selects.
\<close>

section \<open>Cents\<close>

definition in_cents :: "rat \<Rightarrow> bool" where
  "in_cents x \<longleftrightarrow> x * 100 \<in> \<int>"

lemma in_centsE: "in_cents x \<Longrightarrow> (\<And>k. x = of_int k / 100 \<Longrightarrow> thesis) \<Longrightarrow> thesis"
  unfolding in_cents_def by (metis Ints_cases nonzero_mult_div_cancel_right zero_neq_numeral)

lemma in_cents_of_int [intro]: "in_cents (of_int k / 100)"
  by (simp add: in_cents_def)

lemma in_cents_closed: "in_cents 0" "in_cents x \<Longrightarrow> in_cents y \<Longrightarrow> in_cents (x + y)"
    "in_cents x \<Longrightarrow> in_cents y \<Longrightarrow> in_cents (x - y)"
  by (auto simp: in_cents_def distrib_right left_diff_distrib)

lemma money_in_cents: "money x = Inr y \<Longrightarrow> in_cents y"
  by (auto dest!: money_InrD)

lemma dctx_cents: "in_cents x \<Longrightarrow> \<bar>x\<bar> \<le> 10 ^ 25 \<Longrightarrow> dctx x = x"
proof (erule in_centsE)
  fix k assume x: "x = of_int k / 100" and b: "\<bar>x\<bar> \<le> 10 ^ 25"
  have "\<bar>of_int k :: rat\<bar> \<le> of_int (10 ^ 28)" using b unfolding x by (simp add: abs_le_iff)
  then have "\<bar>k\<bar> \<le> 10 ^ 28" by (simp only: of_int_abs [symmetric] of_int_le_iff)
  then have "dctx (of_int k / 100) = of_int k / 100" by (intro dec.rep_fixed decimal28I [of _ k 2]) simp_all
  then show ?thesis by (simp only: x)
qed

lemma money_cents: "in_cents x \<Longrightarrow> \<bar>x\<bar> \<le> 10 ^ 25 \<Longrightarrow> money x = Inr x"
proof (erule in_centsE)
  fix k assume x: "x = of_int k / 100" and b: "\<bar>x\<bar> \<le> 10 ^ 25"
  obtain y where y: "money x = Inr y" using money_total [OF b] by auto
  have "y = of_int (round_half_up (of_int k)) / 100" using money_InrD [OF y] by (simp add: x)
  then have "y = x" by (simp only: x round_half_up_of_int)
  then show ?thesis using y by (simp only:)
qed

lemma sum_decimals_exact:
  assumes "\<forall>x\<in>set xs. in_cents x \<and> \<bar>x\<bar> \<le> of_nat b" and "length xs * b \<le> 10 ^ 25"
  shows "sum_decimals xs = sum_list xs \<and> in_cents (sum_list xs) \<and> \<bar>sum_list xs\<bar> \<le> of_nat (length xs * b)"
  using assms
proof (induction xs rule: rev_induct)
  case (snoc x xs)
  have IH: "sum_decimals xs = sum_list xs" "in_cents (sum_list xs)" "\<bar>sum_list xs\<bar> \<le> of_nat (length xs * b)"
    using snoc by simp_all
  have x: "in_cents x" "\<bar>x\<bar> \<le> of_nat b" using snoc.prems by simp_all
  have c: "in_cents (sum_list xs + x)" using IH x by (intro in_cents_closed)
  have s: "\<bar>sum_list xs + x\<bar> \<le> of_nat (length (xs @ [x]) * b)"
    using IH(3) x(2) by (simp add: distrib_right abs_le_iff)
  have "of_nat (length (xs @ [x]) * b) \<le> (of_nat (10 ^ 25) :: rat)" using snoc.prems(2) by (simp only: of_nat_le_iff)
  then have "dctx (sum_list xs + x) = sum_list xs + x" using s by (intro dctx_cents [OF c]) simp
  then have "sum_decimals (xs @ [x]) = sum_list xs + x" using IH(1) by (simp add: sum_decimals_def dadd_def)
  then show ?case using c s by simp
qed (simp add: sum_decimals_def in_cents_closed)

section \<open>The declarative account\<close>

definition selected_of :: "evaluation_scorer \<Rightarrow> synthetic_record \<Rightarrow> recovery_action" where
  "selected_of S r =
     (let c = er_order (sy_request r)
      in case bind_res (simulate c (es_score S c)) select of
           Inl _ \<Rightarrow> TAKE_NO_ACTION | Inr rec \<Rightarrow> dr_selected_action rec)"

definition incremental_of :: "evaluation_scorer \<Rightarrow> synthetic_record \<Rightarrow> rat" where
  "incremental_of S r = truth_of r (selected_of S r) - truth_of r TAKE_NO_ACTION"

definition regret_of :: "evaluation_scorer \<Rightarrow> synthetic_record \<Rightarrow> rat" where
  "regret_of S r = truth_of r (sg_optimal_action (sy_ground_truth r)) - truth_of r (selected_of S r)"

text \<open>The chance a record gives an action, and what the selected action adds to that of doing nothing.\<close>

definition chance_of :: "synthetic_record \<Rightarrow> recovery_action \<Rightarrow> rat" where
  "chance_of r a =
     (let g = sy_ground_truth r
      in if a = REROUTE then sg_reroute_on_time_probability g
         else if a = CARRIER_UPGRADE then sg_carrier_upgrade_on_time_probability g
         else if a = SPLIT_SHIPMENT then sg_split_shipment_on_time_probability g
         else sg_no_action_on_time_probability g)"

definition uplift_of :: "evaluation_scorer \<Rightarrow> synthetic_record \<Rightarrow> rat" where
  "uplift_of S r = fsub (chance_of r (selected_of S r)) (chance_of r TAKE_NO_ACTION)"

definition cost_of :: "evaluation_scorer \<Rightarrow> synthetic_record \<Rightarrow> rat" where
  "cost_of S r = action_cost (er_order (sy_request r)) (selected_of S r)"

definition intervenes :: "evaluation_scorer \<Rightarrow> synthetic_record \<Rightarrow> bool" where
  "intervenes S r \<longleftrightarrow> selected_of S r \<noteq> TAKE_NO_ACTION"

definition sound_scorer :: "evaluation_scorer \<Rightarrow> bool" where
  "sound_scorer S \<longleftrightarrow> S = rules_evaluation_scorer \<or> (\<exists>a. S = trained_evaluation_scorer a)"

lemma sound_scorer_risk:
  "sound_scorer S \<Longrightarrow> valid_order_context c \<Longrightarrow> valid_risk_assessment (es_score S c)"
  by (auto simp: sound_scorer_def rules_evaluation_scorer_def trained_evaluation_scorer_def
      intro: rules.score_valid trained.score_valid)

lemma sound_scorer_each:
  "sound_scorer S \<Longrightarrow> evaluate_value S rs = bind_res (evaluate_each S empty_acc rs) (summarise S)"
  by (auto simp: sound_scorer_def rules_evaluation_scorer_def trained_evaluation_scorer_def
      rules_batch.evaluate_value_each trained_batch.evaluate_value_each)

lemma selected_action_feasible:
  assumes "simulate c k = Inr options" and "select options = Inr rec"
  shows "dr_selected_action rec \<in> {TAKE_NO_ACTION, REROUTE, CARRIER_UPGRADE, SPLIT_SHIPMENT} \<and>
    truly_feasible c (dr_selected_action rec)"
proof -
  obtain n r u v where o: "options = [n, r, u, v]" using assms(1) by (rule simulate_InrE)
  show ?thesis
    using select_feasible_action [OF assms(2)] simulate_actions(1,2) [OF assms(1)]
    unfolding o by (auto simp: reroute_feasible_def)
qed

lemma sound_record_values:
  assumes "sound_record mode r" and "a \<in> {TAKE_NO_ACTION, REROUTE, CARRIER_UPGRADE, SPLIT_SHIPMENT}"
  shows "ground_truth_value r a = Inr (truth_of r a) \<and> in_cents (truth_of r a) \<and>
    \<bar>truth_of r a\<bar> \<le> of_int (5 * 10 ^ 8) \<and> (\<exists>p. ground_truth_probability r a = Inr p)"
proof -
  let ?c = "er_order (sy_request r)"
  obtain p where p: "ground_truth_probability r a = Inr p" "unit_float p"
    using assms by (auto simp: sound_record_def valid_ground_truth_def ground_truth_probability_def)
  have "order_money_small ?c" using assms(1) by (simp add: sound_record_def)
  then obtain v where v: "counterfactual_value ?c p (action_cost ?c a) = Inr v" "\<bar>v\<bar> \<le> of_int (5 * 10 ^ 8)"
    using counterfactual_small p(2) by blast
  then have "ground_truth_value r a = Inr v" using ground_truth_value_eq [OF p(1)] by simp
  moreover have "in_cents v" using v(1) by (auto simp: counterfactual_value_def Let_def intro: money_in_cents)
  ultimately show ?thesis using v(2) p(1) by (simp add: truth_of_def)
qed

lemma sound_record_best:
  assumes "sound_record mode r"
  shows "sg_optimal_action (sy_ground_truth r) \<in> {TAKE_NO_ACTION, REROUTE, CARRIER_UPGRADE, SPLIT_SHIPMENT}"
    and "a \<in> {TAKE_NO_ACTION, REROUTE, CARRIER_UPGRADE, SPLIT_SHIPMENT} \<Longrightarrow> truly_feasible (er_order (sy_request r)) a \<Longrightarrow>
      truth_of r a \<le> truth_of r (sg_optimal_action (sy_ground_truth r))"
proof -
  let ?best = "sg_optimal_action (sy_ground_truth r)"
  have b: "best_labelled r" using assms by (simp add: sound_record_def)
  show best: "?best \<in> {TAKE_NO_ACTION, REROUTE, CARRIER_UPGRADE, SPLIT_SHIPMENT}"
    using b by (cases ?best)
      (auto simp: best_labelled_def Let_def ground_truth_value_def ground_truth_probability_def)
  assume a: "a \<in> {TAKE_NO_ACTION, REROUTE, CARRIER_UPGRADE, SPLIT_SHIPMENT}" "truly_feasible (er_order (sy_request r)) a"
  have "ground_truth_value r ?best = Inr (truth_of r ?best)" "ground_truth_value r a = Inr (truth_of r a)"
    using sound_record_values [OF assms] best a(1) by blast+
  then show "truth_of r a \<le> truth_of r ?best"
    using b a by (auto simp: best_labelled_def Let_def)
qed

section \<open>One record\<close>

text \<open>What one record adds to the accumulator.\<close>

definition add_record :: "evaluation_scorer \<Rightarrow> evaluation_acc \<Rightarrow> synthetic_record \<Rightarrow> evaluation_acc" where
  "add_record S acc r =
     \<lparr>ea_selected_counts = tally (recovery_action_value (selected_of S r)) (ea_selected_counts acc),
      ea_regrets = ea_regrets acc @ [regret_of S r],
      ea_incremental_values = ea_incremental_values acc @ [incremental_of S r],
      ea_intervention_costs = ea_intervention_costs acc @ [cost_of S r],
      ea_probability_uplifts = ea_probability_uplifts acc @ [uplift_of S r],
      ea_record_count = ea_record_count acc + 1,
      ea_interventions = ea_interventions acc + (if intervenes S r then 1 else 0),
      ea_false_interventions =
        ea_false_interventions acc + (if intervenes S r \<and> incremental_of S r \<le> 0 then 1 else 0),
      ea_correct_actions = ea_correct_actions acc +
        (if selected_of S r = sg_optimal_action (sy_ground_truth r) then 1 else 0)\<rparr>"

lemma selected_of_ok:
  assumes S: "sound_scorer S" and r: "sound_record mode r"
  shows "\<exists>options rec. simulate (er_order (sy_request r)) (es_score S (er_order (sy_request r))) = Inr options \<and>
    select options = Inr rec \<and> dr_selected_action rec = selected_of S r"
    and "selected_of S r \<in> {TAKE_NO_ACTION, REROUTE, CARRIER_UPGRADE, SPLIT_SHIPMENT}"
    and "truly_feasible (er_order (sy_request r)) (selected_of S r)"
proof -
  let ?c = "er_order (sy_request r)"
  have c: "valid_order_context ?c" "order_money_fits ?c"
    using r by (simp_all add: sound_record_def valid_evaluation_request_def order_money_small_fits)
  obtain options where o: "simulate ?c (es_score S ?c) = Inr options"
    using simulate_succeeds [OF c sound_scorer_risk [OF S c(1)]] by blast
  obtain rec where sel: "select options = Inr rec" using simulated_select_succeeds [OF o] by blast
  then have eq: "dr_selected_action rec = selected_of S r" using o by (simp add: selected_of_def Let_def)
  show "\<exists>options rec. simulate ?c (es_score S ?c) = Inr options \<and> select options = Inr rec \<and>
      dr_selected_action rec = selected_of S r"
    using o sel eq by blast
  show "selected_of S r \<in> {TAKE_NO_ACTION, REROUTE, CARRIER_UPGRADE, SPLIT_SHIPMENT}"
    "truly_feasible ?c (selected_of S r)"
    using selected_action_feasible [OF o sel] by (simp_all only: eq)
qed

lemma record_figures:
  assumes S: "sound_scorer S" and r: "sound_record mode r"
  shows "in_cents (incremental_of S r)" "\<bar>incremental_of S r\<bar> \<le> of_nat (10 ^ 9)"
    and "in_cents (regret_of S r)" "\<bar>regret_of S r\<bar> \<le> of_nat (10 ^ 9)" "0 \<le> regret_of S r"
proof -
  note sel = selected_of_ok(2,3) [OF S r]
  note v = sound_record_values [OF r sel(1)] sound_record_values [OF r, of TAKE_NO_ACTION]
    sound_record_values [OF r sound_record_best(1) [OF r]]
  show "in_cents (incremental_of S r)" "in_cents (regret_of S r)"
    using v by (auto simp: incremental_of_def regret_of_def intro: in_cents_closed)
  show "\<bar>incremental_of S r\<bar> \<le> of_nat (10 ^ 9)" using v by (auto simp: incremental_of_def abs_le_iff)
  show "\<bar>regret_of S r\<bar> \<le> of_nat (10 ^ 9)" using v by (auto simp: regret_of_def abs_le_iff)
  show "0 \<le> regret_of S r" using sound_record_best(2) [OF r sel] by (simp add: regret_of_def)
qed

lemma evaluate_one_ok:
  assumes S: "sound_scorer S" and r: "sound_record mode r"
  shows "evaluate_one acc r (es_score S (er_order (sy_request r))) = Inr (add_record S acc r)"
proof -
  let ?c = "er_order (sy_request r)"
  obtain options rec where o: "simulate ?c (es_score S ?c) = Inr options" "select options = Inr rec"
    "dr_selected_action rec = selected_of S r"
    using selected_of_ok(1) [OF S r] by blast
  note sel = selected_of_ok(2) [OF S r]
  note v = sound_record_values [OF r sel] sound_record_values [OF r, of TAKE_NO_ACTION]
    sound_record_values [OF r sound_record_best(1) [OF r]]
  note f = record_figures [OF S r]
  have inc: "dsub (truth_of r (selected_of S r)) (truth_of r TAKE_NO_ACTION) = incremental_of S r"
    using dctx_cents [OF f(1)] f(2) by (simp add: dsub_def incremental_of_def)
  have reg: "dsub (truth_of r (sg_optimal_action (sy_ground_truth r))) (truth_of r (selected_of S r)) = regret_of S r"
    using dctx_cents [OF f(3)] f(4) by (simp add: dsub_def regret_of_def)
  have m: "money (incremental_of S r) = Inr (incremental_of S r)" "money (regret_of S r) = Inr (regret_of S r)"
    using money_cents [OF f(1)] money_cents [OF f(3)] f(2,4) by simp_all
  have mx: "max 0 (regret_of S r) = regret_of S r" using f(5) by simp
  have p: "ground_truth_probability r (selected_of S r) = Inr (chance_of r (selected_of S r))"
    using sel by (auto simp: ground_truth_probability_def chance_of_def Let_def)
  have v': "ground_truth_value r (selected_of S r) = Inr (truth_of r (selected_of S r))"
    "ground_truth_value r TAKE_NO_ACTION = Inr (truth_of r TAKE_NO_ACTION)"
    "ground_truth_value r (sg_optimal_action (sy_ground_truth r)) =
       Inr (truth_of r (sg_optimal_action (sy_ground_truth r)))"
    using v by auto
  have cost: "evaluated_cost ?c (selected_of S r) = cost_of S r" by (simp add: cost_of_def evaluated_cost_eq)
  have uplift: "fsub (chance_of r (selected_of S r)) (sg_no_action_on_time_probability (sy_ground_truth r)) =
      uplift_of S r"
    by (simp add: uplift_of_def chance_of_def [of r TAKE_NO_ACTION] Let_def)
  show ?thesis
    by (simp add: evaluate_one_def Let_def o v' inc reg m p mx add_record_def intervenes_def cost uplift)
qed

lemma evaluate_each_ok:
  "sound_scorer S \<Longrightarrow> list_all (sound_record mode) rs \<Longrightarrow>
     evaluate_each S acc rs = Inr (foldl (add_record S) acc rs)"
  by (induction rs arbitrary: acc) (simp_all add: evaluate_one_ok [where mode = mode])

section \<open>All records\<close>

lemma tally_total: "sum_list (map snd (tally k cs)) = sum_list (map snd cs) + 1"
  by (induction k cs rule: tally.induct) auto

lemma tally_keys: "set (map fst (tally k cs)) = insert k (set (map fst cs))"
  by (induction k cs rule: tally.induct) auto

lemma tally_distinct: "distinct (map fst cs) \<Longrightarrow> distinct (map fst (tally k cs))"
  by (induction k cs rule: tally.induct) (auto simp: tally_keys [simplified])

lemma tally_lookup:
  "distinct (map fst cs) \<Longrightarrow>
     map_of (tally k cs) j = (if j = k then Some (case map_of cs k of Some n \<Rightarrow> n + 1 | None \<Rightarrow> 1) else map_of cs j)"
  by (induction k cs rule: tally.induct) auto

lemma accumulated:
  fixes S rs
  assumes "acc = foldl (add_record S) empty_acc rs"
  shows "ea_regrets acc = map (regret_of S) rs"
    and "ea_incremental_values acc = map (incremental_of S) rs"
    and "ea_record_count acc = length rs"
    and "ea_interventions acc = length (filter (intervenes S) rs)"
    and "ea_false_interventions acc = length (filter (\<lambda>r. intervenes S r \<and> incremental_of S r \<le> 0) rs)"
    and "ea_correct_actions acc = length (filter (\<lambda>r. selected_of S r = sg_optimal_action (sy_ground_truth r)) rs)"
    and "ea_intervention_costs acc = map (cost_of S) rs"
    and "ea_probability_uplifts acc = map (uplift_of S) rs"
    and "distinct (map fst (ea_selected_counts acc))"
    and "map_of (ea_selected_counts acc) a =
      (let n = length (filter (\<lambda>r. recovery_action_value (selected_of S r) = a) rs) in if n = 0 then None else Some n)"
  unfolding assms
  by (induction rs arbitrary: a rule: rev_induct)
    (simp_all add: add_record_def empty_acc_def tally_distinct tally_lookup Let_def)

lemma sum_decimals_bound:
  assumes "\<forall>x\<in>set xs. 0 \<le> x \<and> x \<le> of_nat b" and "length xs * b \<le> 10 ^ 25"
  shows "0 \<le> sum_decimals xs \<and> sum_decimals xs \<le> of_nat (length xs * b)"
  using assms
proof (induction xs rule: rev_induct)
  case (snoc x xs)
  have IH: "0 \<le> sum_decimals xs" "sum_decimals xs \<le> of_nat (length xs * b)" and x: "0 \<le> x" "x \<le> of_nat b"
    using snoc by simp_all
  have "sum_decimals xs + x \<le> of_int (int (length (xs @ [x]) * b))" using IH x by (simp add: distrib_right)
  moreover have "int (length (xs @ [x]) * b) \<le> int (10 ^ 25)" using snoc.prems(2) by (simp only: of_nat_le_iff)
  then have "\<bar>int (length (xs @ [x]) * b)\<bar> \<le> 10 ^ 28" by (simp only: abs_of_nat) simp
  ultimately have "dctx (sum_decimals xs + x) \<le> of_int (int (length (xs @ [x]) * b))" by (rule dec_le_int)
  moreover have "0 \<le> dctx (sum_decimals xs + x)" using IH x by (intro dec.rnd_nonneg) simp
  ultimately show ?case by (simp add: sum_decimals_def dadd_def)
qed (simp add: sum_decimals_def)

lemma map_of_sort: "distinct (map fst cs) \<Longrightarrow> map_of (sort cs) = map_of cs"
  by (rule map_of_inject_set [THEN iffD2]) (simp_all add: distinct_map)

lemma backtest_report:
  assumes S: "sound_scorer S" and rs: "list_all (sound_record mode) rs" "rs \<noteq> []" "length rs \<le> 10 ^ 12"
  shows "\<exists>s. evaluate_value S rs = Inr s \<and> vs_records s = length rs \<and> vs_model_version s = es_model_version S \<and>
    vs_simulated_incremental_value s = (\<Sum>r\<leftarrow>rs. incremental_of S r) \<and>
    money (sum_decimals (map (cost_of S) rs)) = Inr (vs_simulated_intervention_cost s) \<and>
    ((\<forall>r\<in>set rs. in_cents (cost_of S r)) \<longrightarrow> vs_simulated_intervention_cost s = (\<Sum>r\<leftarrow>rs. cost_of S r)) \<and>
    vs_simulated_gross_uplift_before_intervention_cost s =
      vs_simulated_incremental_value s + vs_simulated_intervention_cost s \<and>
    vs_mean_on_time_probability_uplift s = fdiv (sum_floats (map (uplift_of S) rs)) (fl (of_nat (length rs))) \<and>
    vs_intervention_rate s = rate (length (filter (intervenes S) rs)) (length rs) \<and>
    vs_action_agreement_with_ground_truth s =
      rate (length (filter (\<lambda>r. selected_of S r = sg_optimal_action (sy_ground_truth r)) rs)) (length rs) \<and>
    vs_false_intervention_rate s =
      (if filter (intervenes S) rs = [] then 0
       else rate (length (filter (\<lambda>r. intervenes S r \<and> incremental_of S r \<le> 0) rs)) (length (filter (intervenes S) rs))) \<and>
    money (ddiv (\<Sum>r\<leftarrow>rs. regret_of S r) (of_nat (length rs))) = Inr (vs_mean_regret s) \<and>
    (\<forall>r\<in>set rs. 0 \<le> regret_of S r) \<and> vs_p95_regret s \<in> regret_of S ` set rs \<and>
    20 * length (filter (\<lambda>r. regret_of S r < vs_p95_regret s) rs) \<le> 19 * length rs \<and>
    19 * length rs \<le> 20 * length (filter (\<lambda>r. regret_of S r \<le> vs_p95_regret s) rs) \<and>
    map_of (vs_selected_action_counts s) a =
      (let n = length (filter (\<lambda>r. recovery_action_value (selected_of S r) = a) rs) in if n = 0 then None else Some n)"
proof -
  let ?n = "length rs" and ?acc = "foldl (add_record S) empty_acc rs"
  let ?inc = "\<Sum>r\<leftarrow>rs. incremental_of S r" and ?reg = "\<Sum>r\<leftarrow>rs. regret_of S r"
  let ?costs = "map (cost_of S) rs"
  note acc = accumulated [OF refl, of S rs]
  have sound: "sound_record mode r" if "r \<in> set rs" for r using rs(1) that by (simp add: list_all_iff)
  note fig = record_figures [OF S sound]
  have n: "0 < ?n" "?n * 10 ^ 9 \<le> 10 ^ 21" "?n * 10 ^ 8 \<le> 10 ^ 20" using rs(2,3) by simp_all
  have inc: "sum_decimals (map (incremental_of S) rs) = ?inc" "in_cents ?inc" "\<bar>?inc\<bar> \<le> of_nat (?n * 10 ^ 9)"
    using sum_decimals_exact [of "map (incremental_of S) rs" "10 ^ 9"] fig(1,2) n(2) by simp_all
  have reg: "sum_decimals (map (regret_of S) rs) = ?reg" "\<bar>?reg\<bar> \<le> of_nat (?n * 10 ^ 9)"
    using sum_decimals_exact [of "map (regret_of S) rs" "10 ^ 9"] fig(3,4) n(2) by simp_all
  have reg0: "0 \<le> ?reg" using fig(5) by (auto intro!: sum_list_nonneg)
  have "\<forall>x\<in>set ?costs. 0 \<le> x \<and> x \<le> of_nat (10 ^ 8)"
    using sound action_cost_small by (fastforce simp: sound_record_def cost_of_def)
  then have costs: "0 \<le> sum_decimals ?costs" "sum_decimals ?costs \<le> of_nat (?n * 10 ^ 8)"
    using sum_decimals_bound [of ?costs "10 ^ 8"] n(3) by simp_all
  have big: "of_nat (?n * 10 ^ 9) \<le> (of_nat (10 ^ 21) :: rat)" "of_nat (?n * 10 ^ 8) \<le> (of_nat (10 ^ 20) :: rat)"
    using n(2,3) by (simp_all only: of_nat_le_iff)
  have m1: "money ?inc = Inr ?inc" using inc(3) big(1) by (intro money_cents [OF inc(2)]) simp
  obtain cost where m2: "money (sum_decimals ?costs) = Inr cost"
    using money_total [of "sum_decimals ?costs"] costs big(2) by (auto simp: abs_le_iff)
  have cost: "in_cents cost" "0 \<le> cost" "cost \<le> 10 ^ 21"
    using money_in_cents [OF m2] money_nonneg [OF m2 costs(1)] money_error [OF m2] costs(2) big(2)
    unfolding abs_le_iff by simp_all
  have sum: "in_cents (?inc + cost)" "\<bar>?inc + cost\<bar> \<le> 10 ^ 25"
    using inc(2,3) cost big(1) by (auto intro: in_cents_closed simp: abs_le_iff)
  have m3: "money (dadd ?inc cost) = Inr (?inc + cost)"
    using dctx_cents [OF sum] money_cents [OF sum] by (simp add: dadd_def)
  have mean: "0 \<le> ?reg / of_nat ?n" "\<bar>?reg / of_nat ?n\<bar> \<le> of_int (10 ^ 21)"
  proof -
    show "0 \<le> ?reg / of_nat ?n" using reg0 by simp
    have "1 \<le> (of_nat ?n :: rat)" using n(1) by (simp add: Suc_leI)
    then have "?reg / of_nat ?n \<le> ?reg / 1" using reg0 rs(2) by (intro divide_left_mono) simp_all
    then show "\<bar>?reg / of_nat ?n\<bar> \<le> of_int (10 ^ 21)" using reg(2) big(1) reg0 by simp
  qed
  have dd: "0 \<le> ddiv ?reg (of_nat ?n)" "\<bar>ddiv ?reg (of_nat ?n)\<bar> \<le> of_int (10 ^ 21)"
    unfolding ddiv_def by (rule dec.rnd_nonneg [OF mean(1)], rule dec_abs_bound [OF mean(2)]) simp
  obtain mr where m4: "money (ddiv ?reg (of_nat ?n)) = Inr mr"
    using money_total [of "ddiv ?reg (of_nat ?n)"] dd by auto
  have cents: "cost = (\<Sum>r\<leftarrow>rs. cost_of S r)" if "\<forall>r\<in>set rs. in_cents (cost_of S r)"
  proof -
    have "\<forall>x\<in>set ?costs. in_cents x \<and> \<bar>x\<bar> \<le> of_nat (10 ^ 8)"
      using that \<open>\<forall>x\<in>set ?costs. 0 \<le> x \<and> x \<le> of_nat (10 ^ 8)\<close> by (auto simp: abs_le_iff intro: order_trans)
    from sum_decimals_exact [OF this] n(3) have e: "sum_decimals ?costs = sum_list ?costs" "in_cents (sum_list ?costs)"
      by simp_all
    have "\<bar>sum_list ?costs\<bar> \<le> 10 ^ 25" using costs big(2) unfolding e(1) by (simp add: abs_le_iff)
    from money_cents [OF e(2) this] show ?thesis using m2 by (simp add: e(1))
  qed
  let ?xs = "sort (map (regret_of S) rs)"
  let ?p = "?xs ! nat (p95_index ?n)"
  have "(10::nat) ^ 12 \<le> 2 ^ 40" by simp
  then have "?n \<le> 2 ^ 40" using rs(3) by (rule order_trans [rotated])
  note idx = p95_index_bounds [OF n(1) this]
  have i: "nat (p95_index ?n) < length ?xs" using idx by simp
  from nth_mem [OF i] have p: "?p \<in> regret_of S ` set rs" by simp
  have quantile: "20 * length (filter (\<lambda>r. regret_of S r < ?p) rs) \<le> 19 * ?n"
    "19 * ?n \<le> 20 * length (filter (\<lambda>r. regret_of S r \<le> ?p) rs)"
    using sorted_quantile [OF sorted_sort i, unfolded length_filter_sort filter_map o_def length_map] idx by auto
  obtain s where s: "summarise S ?acc = Inr s" "vs_records s = ?n" "vs_model_version s = es_model_version S" "vs_simulated_incremental_value s = ?inc"
    "vs_simulated_intervention_cost s = cost" "vs_simulated_gross_uplift_before_intervention_cost s = ?inc + cost"
    "vs_intervention_rate s = rate (ea_interventions ?acc) ?n"
    "vs_action_agreement_with_ground_truth s = rate (ea_correct_actions ?acc) ?n"
    "vs_false_intervention_rate s =
       (if ea_interventions ?acc \<noteq> 0 then rate (ea_false_interventions ?acc) (ea_interventions ?acc) else 0)"
    "vs_mean_on_time_probability_uplift s = fdiv (sum_floats (map (uplift_of S) rs)) (fl (of_nat ?n))"
    "vs_mean_regret s = mr" "vs_p95_regret s = ?p" "vs_selected_action_counts s = sort (ea_selected_counts ?acc)"
    using rs(2) by (simp add: summarise_def Let_def acc(1-3,7,8) inc(1) reg(1) m1 m2 m3 m4)
  have counts: "map_of (sort (ea_selected_counts ?acc)) a =
      (let n = length (filter (\<lambda>r. recovery_action_value (selected_of S r) = a) rs) in if n = 0 then None else Some n)"
    by (simp only: map_of_sort [OF acc(9)] acc(10))
  have "evaluate_value S rs = Inr s" using s(1) by (simp add: sound_scorer_each [OF S] evaluate_each_ok [OF S rs(1)])
  then show ?thesis
    using m2 m4 p quantile fig(5) cents
    by (intro exI [of _ s]) (simp add: s acc(4-6) counts)
qed

text \<open>C31: on sound records, whatever the scorer, the evaluator raises nothing, and its report is that of a
  declarative account over the selected actions. The incremental value is the exact sum over the records
  of the value of the selected action less that of doing nothing; the intervention cost is the sum of the
  costs of the selected actions in decimal arithmetic rounded to cents, exact where those costs are in
  cents; the gross uplift is the sum of the two; the mean uplift is the float mean of the differences of
  the chances; the rates count the records that intervene, agree with the label, or intervene for no
  gain. No regret is negative, the mean regret is their mean rounded to cents, the p95 regret is one of
  them with at most 95 percent of them below and at least 95 percent not above it, and the counts are
  those of the actions.\<close>

theorem backtest_is_exact:
  assumes S: "sound_scorer S" and rs: "list_all (sound_record mode) rs" "rs \<noteq> []" "length rs \<le> 10 ^ 12"
  shows "\<exists>s. evaluate_value S rs = Inr s \<and> vs_records s = length rs \<and> vs_model_version s = es_model_version S \<and>
    vs_simulated_incremental_value s = (\<Sum>r\<leftarrow>rs. incremental_of S r) \<and>
    money (sum_decimals (map (cost_of S) rs)) = Inr (vs_simulated_intervention_cost s) \<and>
    ((\<forall>r\<in>set rs. in_cents (cost_of S r)) \<longrightarrow> vs_simulated_intervention_cost s = (\<Sum>r\<leftarrow>rs. cost_of S r)) \<and>
    vs_simulated_gross_uplift_before_intervention_cost s =
      vs_simulated_incremental_value s + vs_simulated_intervention_cost s \<and>
    vs_mean_on_time_probability_uplift s = fdiv (sum_floats (map (uplift_of S) rs)) (fl (of_nat (length rs))) \<and>
    vs_intervention_rate s = rate (length (filter (intervenes S) rs)) (length rs) \<and>
    vs_action_agreement_with_ground_truth s =
      rate (length (filter (\<lambda>r. selected_of S r = sg_optimal_action (sy_ground_truth r)) rs)) (length rs) \<and>
    vs_false_intervention_rate s =
      (if filter (intervenes S) rs = [] then 0
       else rate (length (filter (\<lambda>r. intervenes S r \<and> incremental_of S r \<le> 0) rs)) (length (filter (intervenes S) rs))) \<and>
    money (ddiv (\<Sum>r\<leftarrow>rs. regret_of S r) (of_nat (length rs))) = Inr (vs_mean_regret s) \<and>
    (\<forall>r\<in>set rs. 0 \<le> regret_of S r) \<and> vs_p95_regret s \<in> regret_of S ` set rs \<and>
    20 * length (filter (\<lambda>r. regret_of S r < vs_p95_regret s) rs) \<le> 19 * length rs \<and>
    19 * length rs \<le> 20 * length (filter (\<lambda>r. regret_of S r \<le> vs_p95_regret s) rs) \<and>
    map_of (vs_selected_action_counts s) a =
      (let n = length (filter (\<lambda>r. recovery_action_value (selected_of S r) = a) rs) in if n = 0 then None else Some n)"
  by (rule backtest_report [OF assms])

theorem backtest_is_exact_witness:
  "\<exists>rs g' s. generate_records least_rng 3 None SHADOW () = (Inr rs, g') \<and>
     evaluate_value rules_evaluation_scorer rs = Inr s \<and> vs_records s = 3 \<and>
     vs_simulated_incremental_value s = (\<Sum>r\<leftarrow>rs. incremental_of rules_evaluation_scorer r) \<and>
     57 \<le> 20 * length (filter (\<lambda>r. regret_of rules_evaluation_scorer r \<le> vs_p95_regret s) rs)"
proof -
  obtain rs g' where rs: "generate_records least_rng 3 None SHADOW () = (Inr rs, g')" "length rs = 3"
    "list_all (sound_record SHADOW) rs"
    using generate_records_ok [OF least_rng_ok, of 3 None SHADOW "()"] by auto
  have "sound_scorer rules_evaluation_scorer" by (simp add: sound_scorer_def)
  then obtain s where "evaluate_value rules_evaluation_scorer rs = Inr s" "vs_records s = 3"
    "vs_simulated_incremental_value s = (\<Sum>r\<leftarrow>rs. incremental_of rules_evaluation_scorer r)"
    "57 \<le> 20 * length (filter (\<lambda>r. regret_of rules_evaluation_scorer r \<le> vs_p95_regret s) rs)"
    using backtest_is_exact [OF _ rs(3), of rules_evaluation_scorer] rs(2) by fastforce
  with rs(1) show ?thesis by blast
qed

end
