(* ===== verification/Synthetic_Events.thy ===== *)
theory Synthetic_Events
  imports Synthetic_Records
begin

text \<open>
  \<^verbatim>\<open>src/src/promiseguard/synthetic_events.py\<close>: the events of an order, with late arrivals, events
  out of order and duplicates, each labelled. The text of a datetime is a parameter. The lemmas
  show that the labels are exact and that dropping the duplicates and sorting by the sequence of
  the events recovers what the order emitted.
\<close>

section \<open>Envelopes\<close>

datatype event_anomaly = AN_NONE | AN_DUPLICATE | AN_LATE_ARRIVAL | AN_OUT_OF_ORDER

record event_envelope =
  en_order_id :: string
  en_event_sequence :: int
  en_emission_sequence :: int
  en_event :: operational_event
  en_payload :: "(string \<times> py_value) list"
  en_anomaly :: event_anomaly
  en_duplicate_of :: "string option"

text \<open>A missing and an empty reference are both false.\<close>

definition refers :: "string option \<Rightarrow> bool" where
  "refers d \<longleftrightarrow> d \<noteq> None \<and> d \<noteq> Some []"

definition valid_event_envelope :: "event_envelope \<Rightarrow> bool" where
  "valid_event_envelope e \<longleftrightarrow>
     len_within 1 120 (en_order_id e) \<and> 1 \<le> en_event_sequence e \<and> 1 \<le> en_emission_sequence e \<and>
     valid_operational_event (en_event e) \<and> (en_anomaly e = AN_DUPLICATE \<longleftrightarrow> refers (en_duplicate_of e))"

section \<open>The events of an order\<close>

record event_definition =
  ed_sequence :: int
  ed_event_type :: string
  ed_event_time :: datetime
  ed_ingestion_time :: datetime
  ed_payload :: "(string \<times> py_value) list"

definition event_definitions ::
  "(datetime \<Rightarrow> string) \<Rightarrow> synthetic_record \<Rightarrow> bool \<Rightarrow> event_definition list"
where
  "event_definitions isoformat r late_arrival =
     (let order = er_order (sy_request r); event = er_event (sy_request r);
          base = oc_evaluation_time order
      in [\<lparr>ed_sequence = 1, ed_event_type = ''ORDER_CREATED'',
           ed_event_time = plus_us base (- hours_us 6),
           ed_ingestion_time = plus_us (plus_us base (- hours_us 6)) 2000000,
           ed_payload = [(''customer_id'', PyStr (oc_customer_id order)), (''sku'', PyStr (oc_sku order))]\<rparr>,
          \<lparr>ed_sequence = 2, ed_event_type = ''INVENTORY_RESERVATION_RECORDED'',
           ed_event_time = plus_us base (- hours_us 2),
           ed_ingestion_time =
             (if late_arrival then plus_us base (- minutes_us 30)
              else plus_us (plus_us base (- hours_us 2)) 5000000),
           ed_payload =
             [(''location'', PyStr (oc_current_fulfilment_location order)),
              (''inventory_available'', PyBool (oc_inventory_available order)),
              (''inventory_confidence'', PyFloat (oc_inventory_confidence order))]\<rparr>,
          \<lparr>ed_sequence = 3, ed_event_type = ''CARRIER_STATUS_OBSERVED'',
           ed_event_time = plus_us base (- hours_us 1),
           ed_ingestion_time = plus_us (plus_us base (- hours_us 1)) 4000000,
           ed_payload =
             [(''service'', PyStr (oc_current_carrier_service order)),
              (''hours_since_expected_scan'', PyFloat (oc_hours_since_expected_scan order))]\<rparr>,
          \<lparr>ed_sequence = 4, ed_event_type = ''ORDER_RISK_EVALUATION_REQUESTED'',
           ed_event_time = ev_event_time event, ed_ingestion_time = ev_ingestion_time event,
           ed_payload = [(''promised_delivery_at'', PyStr (isoformat (oc_promised_delivery_at order)))]\<rparr>])"

definition stream_event :: "string \<Rightarrow> event_definition \<Rightarrow> operational_event" where
  "stream_event order_id d =
     (let event_id = order_id @ '':'' @ lower (ed_event_type d)
      in \<lparr>ev_source_system = ''synthetic-event-stream'', ev_event_id = event_id, ev_event_version = 1,
          ev_event_type = ed_event_type d, ev_event_time = ed_event_time d,
          ev_ingestion_time = ed_ingestion_time d, ev_schema_version = ''v1'',
          ev_deduplication_key = ''synthetic-event-stream:'' @ event_id @ '':v1''\<rparr>)"

definition envelope_of :: "string \<Rightarrow> bool \<Rightarrow> event_definition \<Rightarrow> ('g, event_envelope) prog" where
  "envelope_of order_id late_arrival d =
     bind (checked valid_operational_event (stream_event order_id d)) (\<lambda>event.
     checked valid_event_envelope
       \<lparr>en_order_id = order_id, en_event_sequence = ed_sequence d, en_emission_sequence = ed_sequence d,
        en_event = event, en_payload = ed_payload d,
        en_anomaly = (if late_arrival \<and> ed_sequence d = 2 then AN_LATE_ARRIVAL else AN_NONE),
        en_duplicate_of = None\<rparr>)"

fun envelopes_of :: "string \<Rightarrow> bool \<Rightarrow> event_definition list \<Rightarrow> ('g, event_envelope list) prog" where
  "envelopes_of order_id late_arrival [] = ret []"
| "envelopes_of order_id late_arrival (d # ds) =
     bind (envelope_of order_id late_arrival d) (\<lambda>e.
     bind (envelopes_of order_id late_arrival ds) (\<lambda>es. ret (e # es)))"

definition order_events ::
  "(datetime \<Rightarrow> string) \<Rightarrow> synthetic_record \<Rightarrow> bool \<Rightarrow> ('g, event_envelope list) prog"
where
  "order_events isoformat r late_arrival =
     envelopes_of (oc_order_id (er_order (sy_request r))) late_arrival (event_definitions isoformat r late_arrival)"

section \<open>Anomalies\<close>

text \<open>\<open>model_copy(update=...)\<close> does not validate.\<close>

definition swapped :: "event_envelope list \<Rightarrow> event_envelope list" where
  "swapped es =
     (let es = es[1 := es ! 2, 2 := es ! 1]
      in map (\<lambda>(index, e). e\<lparr>en_emission_sequence := index,
                en_anomaly := (if en_event_sequence e = 3 then AN_OUT_OF_ORDER else en_anomaly e)\<rparr>)
           (zip [1..int (length es)] es))"

definition duplicated :: "event_envelope list \<Rightarrow> event_envelope \<Rightarrow> event_envelope" where
  "duplicated es original =
     original\<lparr>en_emission_sequence := int (length es) + 1, en_anomaly := AN_DUPLICATE,
       en_duplicate_of := Some (ev_event_id (en_event original))\<rparr>"

definition record_stream ::
  "(datetime \<Rightarrow> string) \<Rightarrow> 'g rng \<Rightarrow> rat \<Rightarrow> rat \<Rightarrow> rat \<Rightarrow> synthetic_record \<Rightarrow> ('g, event_envelope list) prog"
where
  "record_stream isoformat R duplicate_rate late_arrival_rate out_of_order_rate r =
     bind (drawn (rg_float R Random)) (\<lambda>x.
     bind (order_events isoformat r (x < late_arrival_rate)) (\<lambda>envelopes.
     bind (drawn (rg_float R Random)) (\<lambda>y.
     let envelopes = (if y < out_of_order_rate then swapped envelopes else envelopes)
     in bind (drawn (rg_float R Random)) (\<lambda>z.
        if z < duplicate_rate
        then bind (chosen R envelopes) (\<lambda>original. ret (envelopes @ [duplicated envelopes original]))
        else ret envelopes))))"

fun stream_run ::
  "(datetime \<Rightarrow> string) \<Rightarrow> 'g rng \<Rightarrow> rat \<Rightarrow> rat \<Rightarrow> rat \<Rightarrow> synthetic_record list \<Rightarrow> ('g, event_envelope list) prog"
where
  "stream_run isoformat R dr lr oor [] = ret []"
| "stream_run isoformat R dr lr oor (r # rs) =
     bind (record_stream isoformat R dr lr oor r) (\<lambda>es.
     bind (stream_run isoformat R dr lr oor rs) (\<lambda>es'. ret (es @ es')))"

definition generate_events ::
  "(datetime \<Rightarrow> string) \<Rightarrow> 'g rng \<Rightarrow> rat \<Rightarrow> rat \<Rightarrow> rat \<Rightarrow> synthetic_record list \<Rightarrow> ('g, event_envelope list) prog"
where
  "generate_events isoformat R duplicate_rate late_arrival_rate out_of_order_rate rs =
     (if list_all is_probability [duplicate_rate, late_arrival_rate, out_of_order_rate]
      then stream_run isoformat R duplicate_rate late_arrival_rate out_of_order_rate rs
      else raise (err ValueError ''anomaly rates must be between zero and one''))"

section \<open>What a stream holds\<close>

text \<open>Event identifiers add up to 32 characters to the identifier of the order, and hold 120.\<close>

definition streamable :: "synthetic_record \<Rightarrow> bool" where
  "streamable r \<longleftrightarrow>
     valid_evaluation_request (sy_request r) \<and> len_within 1 88 (oc_order_id (er_order (sy_request r)))"

definition plain_envelope :: "string \<Rightarrow> bool \<Rightarrow> event_definition \<Rightarrow> event_envelope" where
  "plain_envelope oid late d =
     \<lparr>en_order_id = oid, en_event_sequence = ed_sequence d, en_emission_sequence = ed_sequence d,
      en_event = stream_event oid d, en_payload = ed_payload d,
      en_anomaly = (if late \<and> ed_sequence d = 2 then AN_LATE_ARRIVAL else AN_NONE), en_duplicate_of = None\<rparr>"

definition emitted :: "(datetime \<Rightarrow> string) \<Rightarrow> synthetic_record \<Rightarrow> bool \<Rightarrow> event_envelope list" where
  "emitted isoformat r late =
     map (plain_envelope (oc_order_id (er_order (sy_request r))) late) (event_definitions isoformat r late)"

text \<open>The stream of one order: without the duplicates, and sorted by their own sequence, the envelopes
  hold the events of the order; a late arrival, an event overtaken and a duplicate are labelled, and
  nothing else is; the emission sequence counts the envelopes.\<close>

definition stream_sound :: "(datetime \<Rightarrow> string) \<Rightarrow> synthetic_record \<Rightarrow> event_envelope list \<Rightarrow> bool" where
  "stream_sound isoformat r es \<longleftrightarrow>
     (let originals = filter (\<lambda>e. en_anomaly e \<noteq> AN_DUPLICATE) es;
          duplicates = filter (\<lambda>e. en_anomaly e = AN_DUPLICATE) es
      in list_all valid_event_envelope es \<and>
         map en_emission_sequence es = [1..int (length es)] \<and>
         es = originals @ duplicates \<and> length duplicates \<le> 1 \<and>
         (\<exists>late. map (\<lambda>e. (en_event_sequence e, en_event e, en_payload e)) (sort_key en_event_sequence originals) =
              map (\<lambda>d. (ed_sequence d, stream_event (oc_order_id (er_order (sy_request r))) d, ed_payload d))
                (event_definitions isoformat r late) \<and>
            list_all (\<lambda>e. en_anomaly e = AN_LATE_ARRIVAL \<longleftrightarrow> late \<and> en_event_sequence e = 2) originals) \<and>
         list_all (\<lambda>e. en_anomaly e = AN_OUT_OF_ORDER \<longleftrightarrow> en_event_sequence e = 3 \<and> en_emission_sequence e = 2) originals \<and>
         list_all (\<lambda>d. list_ex (\<lambda>e. en_event d = en_event e \<and> en_payload d = en_payload e \<and>
              en_event_sequence d = en_event_sequence e \<and>
              en_duplicate_of d = Some (ev_event_id (en_event e))) originals) duplicates)"

lemma event_definitions_valid:
  assumes "streamable r" and "d \<in> set (event_definitions isoformat r late)"
  shows "valid_event_envelope (plain_envelope (oc_order_id (er_order (sy_request r))) late d)"
    and "valid_operational_event (stream_event (oc_order_id (er_order (sy_request r))) d)"
proof -
  have t: "tz_aware (oc_evaluation_time (er_order (sy_request r)))"
    "tz_aware (ev_event_time (er_event (sy_request r)))" "tz_aware (ev_ingestion_time (er_event (sy_request r)))"
    and oid: "len_within 1 88 (oc_order_id (er_order (sy_request r)))"
    using assms(1) by (auto simp: streamable_def valid_evaluation_request_def valid_order_context_def valid_operational_event_def)
  then have "tz_aware (ed_event_time d) \<and> tz_aware (ed_ingestion_time d) \<and> 1 \<le> ed_sequence d \<and>
      1 \<le> length (ed_event_type d) \<and> length (ed_event_type d) \<le> 31"
    using assms(2) by (auto simp: event_definitions_def Let_def tz_aware_def plus_us_def)
  then show ev: "valid_operational_event (stream_event (oc_order_id (er_order (sy_request r))) d)"
    using oid by (auto simp: stream_event_def Let_def valid_operational_event_def len_within_def lower_def is_digit_def)
  then show "valid_event_envelope (plain_envelope (oc_order_id (er_order (sy_request r))) late d)"
    using oid \<open>_ \<and> _\<close> by (auto simp: plain_envelope_def valid_event_envelope_def refers_def len_within_def)
qed

lemma order_events_emits: "streamable r \<Longrightarrow> order_events isoformat r late = ret (emitted isoformat r late)"
proof -
  assume r: "streamable r"
  let ?oid = "oc_order_id (er_order (sy_request r))"
  have "\<forall>d\<in>set ds. valid_event_envelope (plain_envelope ?oid late d) \<and> valid_operational_event (stream_event ?oid d) \<Longrightarrow>
      envelopes_of ?oid late ds = ret (map (plain_envelope ?oid late) ds)" for ds
    by (induction ds) (auto simp: fun_eq_iff bind_app envelope_of_def checked_def plain_envelope_def)
  then show ?thesis using event_definitions_valid [OF r] unfolding order_events_def emitted_def by blast
qed

lemma emitted_list:
  "\<exists>a b c d. emitted isoformat r late = [a, b, c, d] \<and> en_event_sequence a = 1 \<and> en_event_sequence b = 2 \<and>
     en_event_sequence c = 3 \<and> en_event_sequence d = 4 \<and> en_emission_sequence a = 1 \<and> en_emission_sequence b = 2 \<and>
     en_emission_sequence c = 3 \<and> en_emission_sequence d = 4 \<and> en_anomaly a = AN_NONE \<and>
     en_anomaly b = (if late then AN_LATE_ARRIVAL else AN_NONE) \<and> en_anomaly c = AN_NONE \<and> en_anomaly d = AN_NONE \<and>
     map (\<lambda>e. (en_event_sequence e, en_event e, en_payload e)) [a, b, c, d] =
       map (\<lambda>d. (ed_sequence d, stream_event (oc_order_id (er_order (sy_request r))) d, ed_payload d))
         (event_definitions isoformat r late)"
  by (simp add: emitted_def event_definitions_def Let_def plain_envelope_def)

lemma emitted_sound:
  assumes r: "streamable r"
  shows "stream_sound isoformat r (emitted isoformat r late)"
    and "stream_sound isoformat r (swapped (emitted isoformat r late))"
proof -
  obtain a b c d where e: "emitted isoformat r late = [a, b, c, d]"
    "en_event_sequence a = 1" "en_event_sequence b = 2" "en_event_sequence c = 3" "en_event_sequence d = 4"
    "en_emission_sequence a = 1" "en_emission_sequence b = 2" "en_emission_sequence c = 3" "en_emission_sequence d = 4"
    "en_anomaly a = AN_NONE" "en_anomaly b = (if late then AN_LATE_ARRIVAL else AN_NONE)" "en_anomaly c = AN_NONE"
    "en_anomaly d = AN_NONE"
    and m: "map (\<lambda>e. (en_event_sequence e, en_event e, en_payload e)) [a, b, c, d] =
       map (\<lambda>d. (ed_sequence d, stream_event (oc_order_id (er_order (sy_request r))) d, ed_payload d))
         (event_definitions isoformat r late)"
    using emitted_list by blast
  have v: "list_all valid_event_envelope (emitted isoformat r late)"
    using event_definitions_valid [OF r] by (auto simp: emitted_def list_all_iff)
  have i: "[1..4] = [1, 2, 3, 4::int]" by code_simp
  show "stream_sound isoformat r (emitted isoformat r late)"
    using v m by (auto simp: stream_sound_def Let_def e i intro!: exI [of _ late])
  show "stream_sound isoformat r (swapped (emitted isoformat r late))"
    using v m by (auto simp: stream_sound_def Let_def e i swapped_def valid_event_envelope_def intro!: exI [of _ late] split: if_splits)
qed

lemma duplicate_sound:
  assumes s: "stream_sound isoformat r es" and none: "list_all (\<lambda>e. en_anomaly e \<noteq> AN_DUPLICATE) es" and x: "x \<in> set es"
  shows "stream_sound isoformat r (es @ [duplicated es x])"
proof -
  let ?d = "duplicated es x"
  have f: "filter (\<lambda>e. en_anomaly e \<noteq> AN_DUPLICATE) es = es" "filter (\<lambda>e. en_anomaly e = AN_DUPLICATE) es = []"
    using none by (simp_all add: filter_id_conv filter_empty_conv list_all_iff)
  have v: "valid_event_envelope x" and all: "list_all valid_event_envelope es"
    using s x by (auto simp: stream_sound_def Let_def list_all_iff)
  have d: "valid_event_envelope ?d"
    using v by (auto simp: valid_event_envelope_def duplicated_def refers_def valid_operational_event_def len_within_def)
  have n: "map en_emission_sequence (es @ [?d]) = [1..int (length (es @ [?d]))]"
    using s upto_rec2 [of 1 "1 + int (length es)"] by (simp add: stream_sound_def Let_def duplicated_def add.commute)
  have ex: "list_ex (\<lambda>e. en_event ?d = en_event e \<and> en_payload ?d = en_payload e \<and>
      en_event_sequence ?d = en_event_sequence e \<and> en_duplicate_of ?d = Some (ev_event_id (en_event e))) es"
    using x by (auto simp: list_ex_iff duplicated_def)
  have an: "en_anomaly ?d = AN_DUPLICATE" by (simp add: duplicated_def)
  show ?thesis
    using s all d n ex unfolding stream_sound_def Let_def filter_append f
    by (simp add: an)
qed

lemma no_duplicates:
  "list_all (\<lambda>e. en_anomaly e \<noteq> AN_DUPLICATE) (emitted isoformat r late)"
  "list_all (\<lambda>e. en_anomaly e \<noteq> AN_DUPLICATE) (swapped (emitted isoformat r late))"
  by (simp_all add: emitted_def event_definitions_def Let_def plain_envelope_def swapped_def list_all_iff upto_rec1)

lemma record_stream_ok:
  assumes R: "rng_ok R" and r: "streamable r"
  shows "succeeds (stream_sound isoformat r) (record_stream isoformat R dr lr oor r)"
proof -
  have one: "succeeds (stream_sound isoformat r)
      (if z < dr then bind (chosen R es) (\<lambda>x. ret (es @ [duplicated es x])) else ret es)"
    if es: "stream_sound isoformat r es" "list_all (\<lambda>e. en_anomaly e \<noteq> AN_DUPLICATE) es" "es \<noteq> []" for es z
  proof (cases "z < dr")
    case True
    have "succeeds (stream_sound isoformat r) (bind (chosen R es) (\<lambda>x. ret (es @ [duplicated es x])))"
      by (rule succeeds_bind [OF draw_chosen [OF R es(3)]], rule succeeds_ret, rule duplicate_sound [OF es(1,2)])
    then show ?thesis using True by simp
  qed (simp add: succeeds_ret es(1))
  have ne: "emitted isoformat r late \<noteq> []" "swapped (emitted isoformat r late) \<noteq> []" for late
    by (simp_all add: emitted_def event_definitions_def Let_def swapped_def upto_rec1)
  have both: "stream_sound isoformat r (if b then swapped (emitted isoformat r late) else emitted isoformat r late)"
    "list_all (\<lambda>e. en_anomaly e \<noteq> AN_DUPLICATE) (if b then swapped (emitted isoformat r late) else emitted isoformat r late)"
    "(if b then swapped (emitted isoformat r late) else emitted isoformat r late) \<noteq> []" for b late
    using emitted_sound [OF r] no_duplicates ne by (cases b; simp)+
  show ?thesis
    unfolding record_stream_def order_events_emits [OF r] Let_def
  proof (rule succeeds_bind [OF draw_random [OF R]], rule succeeds_bind [where P = "\<lambda>es. \<exists>late. es = emitted isoformat r late"],
      rule succeeds_ret, blast, elim exE, hypsubst, rule succeeds_bind [OF draw_random [OF R]],
      rule succeeds_bind [OF draw_random [OF R]])
  qed (rule one [OF both])
qed

lemma stream_run_ok:
  assumes R: "rng_ok R" and rs: "list_all streamable rs"
  shows "succeeds (\<lambda>es. \<exists>ess. es = concat ess \<and> list_all2 (stream_sound isoformat) rs ess) (stream_run isoformat R dr lr oor rs)"
  using rs
proof (induction rs)
  case (Cons r rs)
  have r: "streamable r" and IH: "succeeds (\<lambda>es. \<exists>ess. es = concat ess \<and> list_all2 (stream_sound isoformat) rs ess)
      (stream_run isoformat R dr lr oor rs)" using Cons by simp_all
  show ?case
    unfolding stream_run.simps
  proof (rule succeeds_bind [OF record_stream_ok [OF R r]], rule succeeds_bind [OF IH], rule succeeds_ret)
    fix es es'
    assume "stream_sound isoformat r es" and "\<exists>ess. es' = concat ess \<and> list_all2 (stream_sound isoformat) rs ess"
    then show "\<exists>ess. es @ es' = concat ess \<and> list_all2 (stream_sound isoformat) (r # rs) ess"
      by (metis concat.simps(2) list.rel_intros(2))
  qed
qed (simp add: succeeds_ret)

section \<open>Orders whose identifier is too long\<close>

definition unstreamable :: "synthetic_record \<Rightarrow> bool" where
  "unstreamable r \<longleftrightarrow> 88 < length (oc_order_id (er_order (sy_request r)))"

lemma streamable_iff: "valid_evaluation_request (sy_request r) \<Longrightarrow> streamable r \<longleftrightarrow> \<not> unstreamable r"
  by (auto simp: streamable_def unstreamable_def valid_evaluation_request_def valid_order_context_def len_within_def)

lemma invalid_event_raises:
  "d \<in> set ds \<Longrightarrow> \<not> valid_operational_event (stream_event oid d) \<Longrightarrow>
     envelopes_of oid late ds = raise (err ValidationError ''validation error'')"
  by (induction ds) (auto simp: fun_eq_iff bind_app envelope_of_def checked_def)

lemma unstreamable_order_raises:
  assumes "unstreamable r"
  shows "order_events isoformat r late = raise (err ValidationError ''validation error'')"
proof -
  let ?d = "event_definitions isoformat r late ! 3"
  have "?d \<in> set (event_definitions isoformat r late)" by (simp add: event_definitions_def Let_def)
  moreover have "\<not> valid_operational_event (stream_event (oc_order_id (er_order (sy_request r))) ?d)"
    using assms
    by (simp add: event_definitions_def Let_def stream_event_def valid_operational_event_def len_within_def
        unstreamable_def lower_def)
  ultimately show ?thesis unfolding order_events_def by (rule invalid_event_raises)
qed

lemma unstreamable_record_raises:
  assumes "rng_ok R" and "unstreamable r"
  shows "\<exists>g'. record_stream isoformat R dr lr oor r g = (Inl (err ValidationError ''validation error''), g')"
proof -
  obtain x g' where "drawn (rg_float R Random) g = (Inr x, g')"
    using draw_random [OF assms(1)] unfolding succeeds_def by blast
  then show ?thesis by (simp add: record_stream_def bind_app unstreamable_order_raises [OF assms(2)])
qed

lemma stream_run_raises:
  assumes R: "rng_ok R" and rs: "list_all (\<lambda>r. valid_evaluation_request (sy_request r)) rs" and r: "list_ex unstreamable rs"
  shows "\<exists>g'. stream_run isoformat R dr lr oor rs g = (Inl (err ValidationError ''validation error''), g')"
  using rs r
proof (induction rs arbitrary: g)
  case (Cons r rs)
  show ?case
  proof (cases "unstreamable r")
    case True
    then show ?thesis using unstreamable_record_raises [OF R, of r isoformat dr lr oor g] by (auto simp: bind_app)
  next
    case False
    then have "streamable r" using Cons.prems(1) by (simp add: streamable_iff)
    from record_stream_ok [OF R this, of isoformat dr lr oor] obtain es h
      where h: "record_stream isoformat R dr lr oor r g = (Inr es, h)" unfolding succeeds_def by blast
    from Cons False obtain g' where "stream_run isoformat R dr lr oor rs h = (Inl (err ValidationError ''validation error''), g')"
      by auto
    with h show ?thesis by (simp add: bind_app)
  qed
qed simp

text \<open>C33: for any conforming random source, any rates between zero and one and any valid records, the
  generator raises exactly when some order's identifier has more than 88 characters: the identifier of
  an event adds up to 32 characters to it and holds 120, so the validation of the event fails. Otherwise
  the stream is made of one sound stream per order, in their order: the events of the order can be
  recovered from it and every anomaly, and nothing else, is labelled.\<close>

theorem event_streams_are_sound:
  assumes "rng_ok R" and "list_all (\<lambda>r. valid_evaluation_request (sy_request r)) rs"
    and "list_all is_probability [dr, lr, oor]"
  shows "if list_all (\<lambda>r. length (oc_order_id (er_order (sy_request r))) \<le> 88) rs
    then \<exists>ess g'. generate_events isoformat R dr lr oor rs g = (Inr (concat ess), g') \<and>
      list_all2 (stream_sound isoformat) rs ess
    else \<exists>g'. generate_events isoformat R dr lr oor rs g = (Inl (err ValidationError ''validation error''), g')"
proof (cases "list_all (\<lambda>r. length (oc_order_id (er_order (sy_request r))) \<le> 88) rs")
  case True
  then have "list_all streamable rs" using assms(2) by (simp add: list_all_iff streamable_iff unstreamable_def not_less)
  then obtain es g' where "stream_run isoformat R dr lr oor rs g = (Inr es, g')"
    "\<exists>ess. es = concat ess \<and> list_all2 (stream_sound isoformat) rs ess"
    using stream_run_ok [OF assms(1), of rs isoformat dr lr oor] unfolding succeeds_def by blast
  then show ?thesis using True assms(3) by (auto simp: generate_events_def)
next
  case False
  then have "list_ex unstreamable rs" by (auto simp: list_all_iff list_ex_iff unstreamable_def not_le)
  from stream_run_raises [OF assms(1,2) this, of isoformat dr lr oor g] show ?thesis
    using False assms(3) by (auto simp: generate_events_def)
qed

definition sample_record :: synthetic_record where
  "sample_record =
     \<lparr>sy_request = sample_request SHADOW,
      sy_ground_truth =
        \<lparr>sg_no_action_on_time_probability = 0, sg_reroute_on_time_probability = 0,
         sg_carrier_upgrade_on_time_probability = 0, sg_split_shipment_on_time_probability = 0,
         sg_sampled_no_action_failure = True, sg_optimal_action = TAKE_NO_ACTION\<rparr>\<rparr>"

definition record_with_id :: "string \<Rightarrow> synthetic_record" where
  "record_with_id oid =
     sample_record\<lparr>sy_request := (sy_request sample_record)
       \<lparr>er_order := (er_order (sy_request sample_record))\<lparr>oc_order_id := oid\<rparr>\<rparr>\<rparr>"

theorem event_streams_are_sound_witness:
  "\<exists>es g' e g''. generate_events (\<lambda>_. ''t'') least_rng 1 0 1 [sample_record] () = (Inr es, g') \<and>
     stream_sound (\<lambda>_. ''t'') sample_record es \<and>
     generate_events (\<lambda>_. ''t'') least_rng 1 0 1 [sample_record, record_with_id (replicate 89 CHR ''a'')] () = (Inl e, g'')"
proof -
  have "valid_evaluation_request (sy_request sample_record)"
    using sample_request_valid [of SHADOW] by (simp add: sample_record_def)
  moreover have "valid_evaluation_request (sy_request (record_with_id (replicate 89 CHR ''a'')))"
    using sample_request_valid [of SHADOW]
    by (simp add: record_with_id_def sample_record_def valid_evaluation_request_def valid_order_context_def len_within_def)
  moreover have "list_all is_probability [1, 0, 1]" by (simp add: is_probability_def)
  moreover have "length (oc_order_id (er_order (sy_request sample_record))) \<le> 88"
    by (simp add: sample_record_def sample_request_def sample_order_def)
  moreover have "length (oc_order_id (er_order (sy_request (record_with_id (replicate 89 CHR ''a''))))) = 89"
    by (simp add: record_with_id_def)
  ultimately show ?thesis
    using event_streams_are_sound [OF least_rng_ok, of "[sample_record]" 1 0 1 "\<lambda>_. ''t''" "()"]
      event_streams_are_sound [OF least_rng_ok, of "[sample_record, record_with_id (replicate 89 CHR ''a'')]" 1 0 1 "\<lambda>_. ''t''" "()"]
    by (auto simp: list_all2_Cons1)
qed

end
