(* ===== verification/Schema.thy ===== *)
theory Schema
  imports Store
begin

text \<open>
  The relational schema: the tables of \<^verbatim>\<open>src/src/promiseguard/db_models.py\<close> and the migrations
  of \<^verbatim>\<open>src/alembic/versions\<close>, as lists of DDL statements over a schema of tables and indexes. A
  statement that the database refuses is \<open>None\<close>: the migrations run in one transaction. The
  migrations lead to the schema of the models and back, also from a schema that the service has
  completed with \<open>create_all\<close>; and the widths of the columns are compared with what the
  validators of the models let through.
\<close>

section \<open>Schemas and DDL\<close>

datatype sql_type =
    SInteger | SString nat | STimestamp | SJSON | SText | SBoolean | SNumeric nat nat
  | SReferenced string string

record table_column =
  co_name :: string
  co_type :: sql_type
  co_nullable :: bool
  co_server_default :: "string option"

definition column :: "string \<Rightarrow> sql_type \<Rightarrow> bool \<Rightarrow> table_column" where
  "column name type nullable =
     \<lparr>co_name = name, co_type = type, co_nullable = nullable, co_server_default = None\<rparr>"

datatype table_constraint =
    PrimaryKey "string list"
  | UniqueKey string "string list"
  | ForeignKey string string string string

record table =
  ta_name :: string
  ta_columns :: "table_column list"
  ta_constraints :: "table_constraint list"

record table_index =
  ix_name :: string
  ix_table :: string
  ix_columns :: "string list"

definition index_on :: "string \<Rightarrow> string \<Rightarrow> string list \<Rightarrow> table_index" where
  "index_on name t columns = \<lparr>ix_name = name, ix_table = t, ix_columns = columns\<rparr>"

record schema =
  sc_tables :: "table list"
  sc_indexes :: "table_index list"

definition empty_schema :: schema where
  "empty_schema = \<lparr>sc_tables = [], sc_indexes = []\<rparr>"

datatype ddl =
    CreateTable table | DropTable string | CreateIndex table_index | DropIndex string string
  | AddColumn string table_column | DropColumn string string

definition find_table :: "string \<Rightarrow> schema \<Rightarrow> table option" where
  "find_table n s = List.find (\<lambda>t. ta_name t = n) (sc_tables s)"

fun column_names :: "table option \<Rightarrow> string list" where
  "column_names None = []"
| "column_names (Some t) = map co_name (ta_columns t)"

fun references_to :: "table_constraint \<Rightarrow> string list" where
  "references_to (ForeignKey c t d e) = [t]"
| "references_to _ = []"

fun uses_column :: "string \<Rightarrow> table_constraint \<Rightarrow> bool" where
  "uses_column c (PrimaryKey cs) = (c \<in> set cs)"
| "uses_column c (UniqueKey n cs) = (c \<in> set cs)"
| "uses_column c (ForeignKey d t e f) = (c = d)"

definition map_table :: "string \<Rightarrow> (table_column list \<Rightarrow> table_column list) \<Rightarrow> schema \<Rightarrow> schema" where
  "map_table n f s =
     s\<lparr>sc_tables := map (\<lambda>t. if ta_name t = n then t\<lparr>ta_columns := f (ta_columns t)\<rparr> else t) (sc_tables s)\<rparr>"

text \<open>A statement on a schema, refused where PostgreSQL refuses it: a name that is taken or missing, a
  reference to a missing table, a table or column that is still referred to, and a new column that
  is not nullable and has no default.\<close>

fun ddl_step :: "ddl \<Rightarrow> schema \<Rightarrow> schema option" where
  "ddl_step (CreateTable t) s =
     (if find_table (ta_name t) s = None \<and>
         list_all (\<lambda>n. find_table n s \<noteq> None) (concat (map references_to (ta_constraints t)))
      then Some (s\<lparr>sc_tables := sc_tables s @ [t]\<rparr>) else None)"
| "ddl_step (DropTable n) s =
     (if find_table n s \<noteq> None \<and>
         list_all (\<lambda>t. ta_name t = n \<or> n \<notin> set (concat (map references_to (ta_constraints t)))) (sc_tables s)
      then Some (s\<lparr>sc_tables := filter (\<lambda>t. ta_name t \<noteq> n) (sc_tables s),
                   sc_indexes := filter (\<lambda>i. ix_table i \<noteq> n) (sc_indexes s)\<rparr>) else None)"
| "ddl_step (CreateIndex i) s =
     (if list_all (\<lambda>j. ix_name j \<noteq> ix_name i) (sc_indexes s) \<and> find_table (ix_table i) s \<noteq> None \<and>
         list_all (\<lambda>c. c \<in> set (column_names (find_table (ix_table i) s))) (ix_columns i)
      then Some (s\<lparr>sc_indexes := sc_indexes s @ [i]\<rparr>) else None)"
| "ddl_step (DropIndex n t) s =
     (if list_ex (\<lambda>i. ix_name i = n \<and> ix_table i = t) (sc_indexes s)
      then Some (s\<lparr>sc_indexes := filter (\<lambda>i. ix_name i \<noteq> n) (sc_indexes s)\<rparr>) else None)"
| "ddl_step (AddColumn n c) s =
     (if find_table n s \<noteq> None \<and> co_name c \<notin> set (column_names (find_table n s)) \<and>
         (co_nullable c \<or> co_server_default c \<noteq> None)
      then Some (map_table n (\<lambda>cs. cs @ [c]) s) else None)"
| "ddl_step (DropColumn n c) s =
     (if c \<in> set (column_names (find_table n s)) \<and>
         list_all (\<lambda>t. ta_name t = n \<longrightarrow> list_all (\<lambda>k. \<not> uses_column c k) (ta_constraints t)) (sc_tables s) \<and>
         list_all (\<lambda>i. ix_table i = n \<longrightarrow> c \<notin> set (ix_columns i)) (sc_indexes s)
      then Some (map_table n (filter (\<lambda>d. co_name d \<noteq> c)) s) else None)"

fun run_ddl :: "ddl list \<Rightarrow> schema \<Rightarrow> schema option" where
  "run_ddl [] s = Some s"
| "run_ddl (d # ds) s = (case ddl_step d s of None \<Rightarrow> None | Some s' \<Rightarrow> run_ddl ds s')"

section \<open>The models\<close>

text \<open>A table of the metadata with the indexes that \<open>create_all\<close> makes with it; a column declared by
  its foreign key alone has the type of the column it refers to.\<close>

record orm_table =
  ot_table :: table
  ot_indexes :: "table_index list"

definition operational_events_model :: orm_table where
  "operational_events_model =
     \<lparr>ot_table = \<lparr>ta_name = ''operational_events'',
       ta_columns =
         [column ''id'' SInteger False,
          column ''source_system'' (SString 80) False,
          column ''event_id'' (SString 120) False,
          column ''event_version'' SInteger False,
          column ''event_type'' (SString 100) False,
          column ''event_time'' STimestamp False,
          column ''ingestion_time'' STimestamp False,
          column ''schema_version'' (SString 20) False,
          column ''deduplication_key'' (SString 180) False,
          column ''payload'' SJSON False,
          column ''fingerprint'' (SString 64) False,
          column ''created_at'' STimestamp False],
       ta_constraints = [PrimaryKey [''id''],
          UniqueKey ''uq_operational_event_identity'' [''source_system'', ''event_id'', ''event_version'']]\<rparr>,
      ot_indexes = [index_on ''ix_operational_events_dedup_key'' ''operational_events'' [''deduplication_key'']]\<rparr>"

definition decisions_model :: orm_table where
  "decisions_model =
     \<lparr>ot_table = \<lparr>ta_name = ''decisions'',
       ta_columns =
         [column ''decision_id'' (SString 64) False,
          column ''event_id'' (SString 120) False,
          column ''order_id'' (SString 120) False,
          column ''tenant_id'' (SString 80) False,
          column ''trace'' SJSON False,
          column ''fingerprint'' (SString 64) False,
          column ''created_at'' STimestamp False],
       ta_constraints = [PrimaryKey [''decision_id'']]\<rparr>,
      ot_indexes = [index_on ''ix_decisions_event_id'' ''decisions'' [''event_id''],
         index_on ''ix_decisions_order_id'' ''decisions'' [''order_id''],
         index_on ''ix_decisions_tenant_id'' ''decisions'' [''tenant_id'']]\<rparr>"

definition approvals_model :: orm_table where
  "approvals_model =
     \<lparr>ot_table = \<lparr>ta_name = ''approvals'',
       ta_columns =
         [column ''approval_id'' (SString 64) False,
          column ''decision_id'' (SReferenced ''decisions'' ''decision_id'') False,
          column ''requested_action'' (SString 40) False,
          column ''status'' (SString 30) False,
          column ''requested_by'' (SString 120) False,
          column ''requested_at'' STimestamp False,
          column ''expires_at'' STimestamp False,
          column ''decided_by'' (SString 120) True,
          column ''decided_by_role'' (SString 40) True,
          column ''decision_reason'' SText True,
          column ''decided_at'' STimestamp True],
       ta_constraints = [PrimaryKey [''approval_id''],
          ForeignKey ''decision_id'' ''decisions'' ''decision_id'' ''CASCADE'']\<rparr>,
      ot_indexes = [index_on ''ix_approvals_decision_id'' ''approvals'' [''decision_id''],
         index_on ''ix_approvals_status_requested_at'' ''approvals'' [''status'', ''requested_at'']]\<rparr>"

definition actions_model :: orm_table where
  "actions_model =
     \<lparr>ot_table = \<lparr>ta_name = ''actions'',
       ta_columns =
         [column ''action_id'' (SString 64) False,
          column ''decision_id'' (SReferenced ''decisions'' ''decision_id'') False,
          column ''order_id'' (SString 120) False,
          column ''action'' (SString 40) False,
          column ''idempotency_key'' (SString 180) False,
          column ''status'' (SString 40) False,
          column ''command'' SJSON False,
          column ''steps'' SJSON False,
          column ''fingerprint'' (SString 64) False,
          column ''started_at'' STimestamp False,
          column ''completed_at'' STimestamp True,
          column ''error_code'' (SString 120) True,
          column ''manual_recovery_reason'' SText True],
       ta_constraints = [PrimaryKey [''action_id''],
          ForeignKey ''decision_id'' ''decisions'' ''decision_id'' ''CASCADE'',
          UniqueKey ''uq_actions_idempotency_key'' [''idempotency_key'']]\<rparr>,
      ot_indexes = [index_on ''ix_actions_decision_id'' ''actions'' [''decision_id''],
         index_on ''ix_actions_order_id'' ''actions'' [''order_id''],
         index_on ''ix_actions_status_started_at'' ''actions'' [''status'', ''started_at'']]\<rparr>"

definition outcomes_model :: orm_table where
  "outcomes_model =
     \<lparr>ot_table = \<lparr>ta_name = ''outcomes'',
       ta_columns =
         [column ''outcome_id'' (SString 64) False,
          column ''decision_id'' (SReferenced ''decisions'' ''decision_id'') False,
          column ''action_id'' (SReferenced ''actions'' ''action_id'') False,
          column ''status'' (SString 40) False,
          column ''verified_at'' STimestamp False,
          column ''on_time_delivery_observed'' SBoolean True,
          column ''actual_intervention_cost'' (SNumeric 14 2) False,
          column ''realised_gross_margin'' (SNumeric 14 2) False,
          column ''estimated_incremental_value'' (SNumeric 14 2) False,
          column ''evidence_references'' SJSON False,
          column ''details'' SJSON False,
          column ''fingerprint'' (SString 64) False],
       ta_constraints = [PrimaryKey [''outcome_id''],
          ForeignKey ''decision_id'' ''decisions'' ''decision_id'' ''CASCADE'',
          ForeignKey ''action_id'' ''actions'' ''action_id'' ''CASCADE'',
          UniqueKey ''uq_outcomes_decision_id'' [''decision_id'']]\<rparr>,
      ot_indexes = [index_on ''ix_outcomes_decision_id'' ''outcomes'' [''decision_id''],
         index_on ''ix_outcomes_action_id'' ''outcomes'' [''action_id'']]\<rparr>"

definition runtime_controls_model :: orm_table where
  "runtime_controls_model =
     \<lparr>ot_table = \<lparr>ta_name = ''runtime_controls'',
       ta_columns =
         [column ''control_key'' (SString 80) False,
          column ''enabled'' SBoolean False,
          column ''reason'' SText False,
          column ''updated_by'' (SString 120) False,
          column ''updated_at'' STimestamp False,
          column ''version'' SInteger False],
       ta_constraints = [PrimaryKey [''control_key'']]\<rparr>,
      ot_indexes = []\<rparr>"

definition autonomy_profiles_model :: orm_table where
  "autonomy_profiles_model =
     \<lparr>ot_table = \<lparr>ta_name = ''autonomy_profiles'',
       ta_columns =
         [column ''action'' (SString 40) False,
          column ''level'' (SString 40) False,
          column ''verified_successes'' SInteger False,
          column ''consecutive_verified_successes'' SInteger False,
          column ''compensation_count'' SInteger False,
          column ''failure_count'' SInteger False,
          column ''reason'' SText False,
          column ''last_evidence_at'' STimestamp True,
          column ''updated_by'' (SString 120) False,
          column ''updated_at'' STimestamp False,
          column ''version'' SInteger False],
       ta_constraints = [PrimaryKey [''action'']]\<rparr>,
      ot_indexes = []\<rparr>"

definition autonomy_evidence_model :: orm_table where
  "autonomy_evidence_model =
     \<lparr>ot_table = \<lparr>ta_name = ''autonomy_evidence'',
       ta_columns =
         [column ''evidence_id'' (SString 80) False,
          column ''action'' (SReferenced ''autonomy_profiles'' ''action'') False,
          column ''evidence_kind'' (SString 40) False,
          column ''successful'' SBoolean False,
          column ''compensated'' SBoolean False,
          column ''created_at'' STimestamp False],
       ta_constraints = [PrimaryKey [''evidence_id''],
          ForeignKey ''action'' ''autonomy_profiles'' ''action'' ''CASCADE'']\<rparr>,
      ot_indexes = [index_on ''ix_autonomy_evidence_action'' ''autonomy_evidence'' [''action'']]\<rparr>"

definition openai_budgets_model :: orm_table where
  "openai_budgets_model =
     \<lparr>ot_table = \<lparr>ta_name = ''openai_budgets'',
       ta_columns =
         [column ''budget_key'' (SString 80) False,
          column ''limit_usd'' (SNumeric 14 6) False,
          column ''reserved_usd'' (SNumeric 14 6) False,
          column ''spent_usd'' (SNumeric 14 6) False,
          column ''updated_at'' STimestamp False,
          column ''version'' SInteger False],
       ta_constraints = [PrimaryKey [''budget_key'']]\<rparr>,
      ot_indexes = []\<rparr>"

definition openai_runs_model :: orm_table where
  "openai_runs_model =
     \<lparr>ot_table = \<lparr>ta_name = ''openai_runs'',
       ta_columns =
         [column ''run_id'' (SString 64) False,
          column ''request_key'' (SString 64) False,
          column ''decision_id'' (SReferenced ''decisions'' ''decision_id'') False,
          column ''model'' (SString 120) False,
          column ''prompt_version'' (SString 120) False,
          column ''status'' (SString 40) False,
          column ''context_fingerprint'' (SString 64) False,
          column ''reserved_cost_usd'' (SNumeric 14 6) False,
          column ''actual_cost_usd'' (SNumeric 14 6) False,
          column ''input_tokens'' SInteger True,
          column ''cached_input_tokens'' SInteger True,
          column ''output_tokens'' SInteger True,
          column ''total_tokens'' SInteger True,
          column ''response_id'' (SString 160) True,
          column ''review'' SJSON True,
          column ''created_at'' STimestamp False,
          column ''completed_at'' STimestamp True,
          column ''reservation_expires_at'' STimestamp False,
          column ''error_code'' (SString 160) True,
          column ''validation_errors'' SJSON False],
       ta_constraints = [PrimaryKey [''run_id''],
          ForeignKey ''decision_id'' ''decisions'' ''decision_id'' ''CASCADE'']\<rparr>,
      ot_indexes = [index_on ''ix_openai_runs_request_status'' ''openai_runs'' [''request_key'', ''status''],
         index_on ''ix_openai_runs_decision_created'' ''openai_runs'' [''decision_id'', ''created_at'']]\<rparr>"

definition operator_feedback_model :: orm_table where
  "operator_feedback_model =
     \<lparr>ot_table = \<lparr>ta_name = ''operator_feedback'',
       ta_columns =
         [column ''feedback_id'' (SString 64) False,
          column ''decision_id'' (SReferenced ''decisions'' ''decision_id'') False,
          column ''actor_id'' (SString 120) False,
          column ''actor_role'' (SString 40) False,
          column ''useful'' SBoolean False,
          column ''expected_outcome_matched'' SBoolean True,
          column ''comment'' SText False,
          column ''created_at'' STimestamp False],
       ta_constraints = [PrimaryKey [''feedback_id''],
          ForeignKey ''decision_id'' ''decisions'' ''decision_id'' ''CASCADE'']\<rparr>,
      ot_indexes = [index_on ''ix_operator_feedback_decision_id'' ''operator_feedback'' [''decision_id''],
         index_on ''ix_operator_feedback_decision_created'' ''operator_feedback'' [''decision_id'', ''created_at'']]\<rparr>"

definition orm_tables :: "orm_table list" where
  "orm_tables =
     [operational_events_model, decisions_model, approvals_model, actions_model, outcomes_model,
      runtime_controls_model, autonomy_profiles_model, autonomy_evidence_model, openai_budgets_model,
      openai_runs_model, operator_feedback_model]"

fun resolved_type :: "sql_type \<Rightarrow> sql_type" where
  "resolved_type (SReferenced t c) =
     (case List.find (\<lambda>o'. ta_name (ot_table o') = t) orm_tables of
        None \<Rightarrow> SReferenced t c
      | Some o' \<Rightarrow> (case List.find (\<lambda>d. co_name d = c) (ta_columns (ot_table o')) of
                     None \<Rightarrow> SReferenced t c | Some d \<Rightarrow> co_type d))"
| "resolved_type t = t"

definition resolved :: "table \<Rightarrow> table" where
  "resolved t = t\<lparr>ta_columns := map (\<lambda>c. c\<lparr>co_type := resolved_type (co_type c)\<rparr>) (ta_columns t)\<rparr>"

definition model_schema :: schema where
  "model_schema =
     \<lparr>sc_tables = map (\<lambda>o'. resolved (ot_table o')) orm_tables,
      sc_indexes = concat (map ot_indexes orm_tables)\<rparr>"

text \<open>\<open>create_all\<close> makes the tables that are missing, with their indexes.\<close>

definition create_schema :: "schema \<Rightarrow> schema option" where
  "create_schema s =
     run_ddl (concat (map (\<lambda>o'. CreateTable (resolved (ot_table o')) # map CreateIndex (ot_indexes o'))
                (filter (\<lambda>o'. find_table (ta_name (ot_table o')) s = None) orm_tables))) s"

section \<open>The migrations\<close>

definition upgrade_0001 :: "ddl list" where
  "upgrade_0001 =
     [CreateTable \<lparr>ta_name = ''operational_events'',
        ta_columns =
          [column ''id'' SInteger False,
           column ''source_system'' (SString 80) False,
           column ''event_id'' (SString 120) False,
           column ''event_version'' SInteger False,
           column ''event_type'' (SString 100) False,
           column ''event_time'' STimestamp False,
           column ''ingestion_time'' STimestamp False,
           column ''schema_version'' (SString 20) False,
           column ''deduplication_key'' (SString 180) False,
           column ''payload'' SJSON False,
           column ''fingerprint'' (SString 64) False,
           column ''created_at'' STimestamp False],
        ta_constraints = [PrimaryKey [''id''],
           UniqueKey ''uq_operational_event_identity'' [''source_system'', ''event_id'', ''event_version'']]\<rparr>,
      CreateIndex (index_on ''ix_operational_events_dedup_key'' ''operational_events'' [''deduplication_key'']),
      CreateTable \<lparr>ta_name = ''decisions'',
        ta_columns =
          [column ''decision_id'' (SString 64) False,
           column ''event_id'' (SString 120) False,
           column ''order_id'' (SString 120) False,
           column ''trace'' SJSON False,
           column ''fingerprint'' (SString 64) False,
           column ''created_at'' STimestamp False],
        ta_constraints = [PrimaryKey [''decision_id'']]\<rparr>,
      CreateIndex (index_on ''ix_decisions_event_id'' ''decisions'' [''event_id'']),
      CreateIndex (index_on ''ix_decisions_order_id'' ''decisions'' [''order_id'']),
      CreateTable \<lparr>ta_name = ''approvals'',
        ta_columns =
          [column ''approval_id'' (SString 64) False,
           column ''decision_id'' (SString 64) False,
           column ''requested_action'' (SString 40) False,
           column ''status'' (SString 30) False,
           column ''requested_by'' (SString 120) False,
           column ''requested_at'' STimestamp False,
           column ''expires_at'' STimestamp False,
           column ''decided_by'' (SString 120) True,
           column ''decided_by_role'' (SString 40) True,
           column ''decision_reason'' SText True,
           column ''decided_at'' STimestamp True],
        ta_constraints = [ForeignKey ''decision_id'' ''decisions'' ''decision_id'' ''CASCADE'',
           PrimaryKey [''approval_id'']]\<rparr>,
      CreateIndex (index_on ''ix_approvals_decision_id'' ''approvals'' [''decision_id'']),
      CreateIndex (index_on ''ix_approvals_status_requested_at'' ''approvals'' [''status'', ''requested_at'']),
      CreateTable \<lparr>ta_name = ''actions'',
        ta_columns =
          [column ''action_id'' (SString 64) False,
           column ''decision_id'' (SString 64) False,
           column ''order_id'' (SString 120) False,
           column ''action'' (SString 40) False,
           column ''idempotency_key'' (SString 180) False,
           column ''status'' (SString 40) False,
           column ''command'' SJSON False,
           column ''steps'' SJSON False,
           column ''fingerprint'' (SString 64) False,
           column ''started_at'' STimestamp False,
           column ''completed_at'' STimestamp True,
           column ''error_code'' (SString 120) True,
           column ''manual_recovery_reason'' SText True],
        ta_constraints = [ForeignKey ''decision_id'' ''decisions'' ''decision_id'' ''CASCADE'',
           PrimaryKey [''action_id''],
           UniqueKey ''uq_actions_idempotency_key'' [''idempotency_key'']]\<rparr>,
      CreateIndex (index_on ''ix_actions_decision_id'' ''actions'' [''decision_id'']),
      CreateIndex (index_on ''ix_actions_order_id'' ''actions'' [''order_id'']),
      CreateIndex (index_on ''ix_actions_status_started_at'' ''actions'' [''status'', ''started_at'']),
      CreateTable \<lparr>ta_name = ''outcomes'',
        ta_columns =
          [column ''outcome_id'' (SString 64) False,
           column ''decision_id'' (SString 64) False,
           column ''action_id'' (SString 64) False,
           column ''status'' (SString 40) False,
           column ''verified_at'' STimestamp False,
           column ''on_time_delivery_observed'' SBoolean True,
           column ''actual_intervention_cost'' (SNumeric 14 2) False,
           column ''realised_gross_margin'' (SNumeric 14 2) False,
           column ''estimated_incremental_value'' (SNumeric 14 2) False,
           column ''evidence_references'' SJSON False,
           column ''details'' SJSON False,
           column ''fingerprint'' (SString 64) False],
        ta_constraints = [ForeignKey ''action_id'' ''actions'' ''action_id'' ''CASCADE'',
           ForeignKey ''decision_id'' ''decisions'' ''decision_id'' ''CASCADE'',
           PrimaryKey [''outcome_id''],
           UniqueKey ''uq_outcomes_decision_id'' [''decision_id'']]\<rparr>,
      CreateIndex (index_on ''ix_outcomes_action_id'' ''outcomes'' [''action_id'']),
      CreateIndex (index_on ''ix_outcomes_decision_id'' ''outcomes'' [''decision_id''])]"

definition downgrade_0001 :: "ddl list" where
  "downgrade_0001 =
     [DropIndex ''ix_outcomes_decision_id'' ''outcomes'',
      DropIndex ''ix_outcomes_action_id'' ''outcomes'',
      DropTable ''outcomes'',
      DropIndex ''ix_actions_status_started_at'' ''actions'',
      DropIndex ''ix_actions_order_id'' ''actions'',
      DropIndex ''ix_actions_decision_id'' ''actions'',
      DropTable ''actions'',
      DropIndex ''ix_approvals_status_requested_at'' ''approvals'',
      DropIndex ''ix_approvals_decision_id'' ''approvals'',
      DropTable ''approvals'',
      DropIndex ''ix_decisions_order_id'' ''decisions'',
      DropIndex ''ix_decisions_event_id'' ''decisions'',
      DropTable ''decisions'',
      DropIndex ''ix_operational_events_dedup_key'' ''operational_events'',
      DropTable ''operational_events'']"

definition upgrade_0002 :: "ddl list" where
  "upgrade_0002 =
     [CreateTable \<lparr>ta_name = ''runtime_controls'',
        ta_columns =
          [column ''control_key'' (SString 80) False,
           column ''enabled'' SBoolean False,
           column ''reason'' SText False,
           column ''updated_by'' (SString 120) False,
           column ''updated_at'' STimestamp False,
           column ''version'' SInteger False],
        ta_constraints = [PrimaryKey [''control_key'']]\<rparr>,
      CreateTable \<lparr>ta_name = ''autonomy_profiles'',
        ta_columns =
          [column ''action'' (SString 40) False,
           column ''level'' (SString 40) False,
           column ''verified_successes'' SInteger False,
           column ''consecutive_verified_successes'' SInteger False,
           column ''compensation_count'' SInteger False,
           column ''failure_count'' SInteger False,
           column ''reason'' SText False,
           column ''last_evidence_at'' STimestamp True,
           column ''updated_by'' (SString 120) False,
           column ''updated_at'' STimestamp False,
           column ''version'' SInteger False],
        ta_constraints = [PrimaryKey [''action'']]\<rparr>,
      CreateTable \<lparr>ta_name = ''autonomy_evidence'',
        ta_columns =
          [column ''evidence_id'' (SString 80) False,
           column ''action'' (SString 40) False,
           column ''evidence_kind'' (SString 40) False,
           column ''successful'' SBoolean False,
           column ''compensated'' SBoolean False,
           column ''created_at'' STimestamp False],
        ta_constraints = [ForeignKey ''action'' ''autonomy_profiles'' ''action'' ''CASCADE'',
           PrimaryKey [''evidence_id'']]\<rparr>,
      CreateIndex (index_on ''ix_autonomy_evidence_action'' ''autonomy_evidence'' [''action''])]"

definition downgrade_0002 :: "ddl list" where
  "downgrade_0002 =
     [DropIndex ''ix_autonomy_evidence_action'' ''autonomy_evidence'',
      DropTable ''autonomy_evidence'',
      DropTable ''autonomy_profiles'',
      DropTable ''runtime_controls'']"

definition upgrade_0003 :: "ddl list" where
  "upgrade_0003 =
     [CreateTable \<lparr>ta_name = ''openai_budgets'',
        ta_columns =
          [column ''budget_key'' (SString 80) False,
           column ''limit_usd'' (SNumeric 14 6) False,
           column ''reserved_usd'' (SNumeric 14 6) False,
           column ''spent_usd'' (SNumeric 14 6) False,
           column ''updated_at'' STimestamp False,
           column ''version'' SInteger False],
        ta_constraints = [PrimaryKey [''budget_key'']]\<rparr>,
      CreateTable \<lparr>ta_name = ''openai_runs'',
        ta_columns =
          [column ''run_id'' (SString 64) False,
           column ''request_key'' (SString 64) False,
           column ''decision_id'' (SString 64) False,
           column ''model'' (SString 120) False,
           column ''prompt_version'' (SString 120) False,
           column ''status'' (SString 40) False,
           column ''context_fingerprint'' (SString 64) False,
           column ''reserved_cost_usd'' (SNumeric 14 6) False,
           column ''actual_cost_usd'' (SNumeric 14 6) False,
           column ''input_tokens'' SInteger True,
           column ''cached_input_tokens'' SInteger True,
           column ''output_tokens'' SInteger True,
           column ''total_tokens'' SInteger True,
           column ''response_id'' (SString 160) True,
           column ''review'' SJSON True,
           column ''created_at'' STimestamp False,
           column ''completed_at'' STimestamp True,
           column ''reservation_expires_at'' STimestamp False,
           column ''error_code'' (SString 160) True,
           column ''validation_errors'' SJSON False],
        ta_constraints = [ForeignKey ''decision_id'' ''decisions'' ''decision_id'' ''CASCADE'',
           PrimaryKey [''run_id'']]\<rparr>,
      CreateIndex (index_on ''ix_openai_runs_request_status'' ''openai_runs'' [''request_key'', ''status'']),
      CreateIndex (index_on ''ix_openai_runs_decision_created'' ''openai_runs'' [''decision_id'', ''created_at''])]"

definition downgrade_0003 :: "ddl list" where
  "downgrade_0003 =
     [DropIndex ''ix_openai_runs_decision_created'' ''openai_runs'',
      DropIndex ''ix_openai_runs_request_status'' ''openai_runs'',
      DropTable ''openai_runs'',
      DropTable ''openai_budgets'']"

text \<open>The fourth migration looks at the database first.\<close>

definition operator_feedback_table :: table where
  "operator_feedback_table =
     \<lparr>ta_name = ''operator_feedback'',
      ta_columns =
        [column ''feedback_id'' (SString 64) False,
         column ''decision_id'' (SString 64) False,
         column ''actor_id'' (SString 120) False,
         column ''actor_role'' (SString 40) False,
         column ''useful'' SBoolean False,
         column ''expected_outcome_matched'' SBoolean True,
         column ''comment'' SText False,
         column ''created_at'' STimestamp False],
      ta_constraints =
        [ForeignKey ''decision_id'' ''decisions'' ''decision_id'' ''CASCADE'', PrimaryKey [''feedback_id'']]\<rparr>"

definition has_index :: "string \<Rightarrow> string \<Rightarrow> schema \<Rightarrow> bool" where
  "has_index t n s \<longleftrightarrow> list_ex (\<lambda>i. ix_table i = t \<and> ix_name i = n) (sc_indexes s)"

definition upgrade_0004 :: "schema \<Rightarrow> ddl list" where
  "upgrade_0004 s =
     (if ''tenant_id'' \<notin> set (column_names (find_table ''decisions'' s))
      then [AddColumn ''decisions''
              ((column ''tenant_id'' (SString 80) False)\<lparr>co_server_default := Some ''local-default''\<rparr>)]
      else []) @
     (if \<not> has_index ''decisions'' ''ix_decisions_tenant_id'' s
      then [CreateIndex (index_on ''ix_decisions_tenant_id'' ''decisions'' [''tenant_id''])] else []) @
     (if find_table ''operator_feedback'' s = None
      then [CreateTable operator_feedback_table,
            CreateIndex (index_on ''ix_operator_feedback_decision_id'' ''operator_feedback'' [''decision_id'']),
            CreateIndex (index_on ''ix_operator_feedback_decision_created'' ''operator_feedback''
              [''decision_id'', ''created_at''])]
      else [])"

definition downgrade_0004 :: "schema \<Rightarrow> ddl list" where
  "downgrade_0004 s =
     (if find_table ''operator_feedback'' s \<noteq> None
      then [DropIndex ''ix_operator_feedback_decision_created'' ''operator_feedback'',
            DropIndex ''ix_operator_feedback_decision_id'' ''operator_feedback'',
            DropTable ''operator_feedback'']
      else []) @
     (if has_index ''decisions'' ''ix_decisions_tenant_id'' s
      then [DropIndex ''ix_decisions_tenant_id'' ''decisions''] else []) @
     (if ''tenant_id'' \<in> set (column_names (find_table ''decisions'' s))
      then [DropColumn ''decisions'' ''tenant_id''] else [])"

record revision =
  rv_revision :: string
  rv_down_revision :: "string option"
  rv_upgrade :: "schema \<Rightarrow> ddl list"
  rv_downgrade :: "schema \<Rightarrow> ddl list"

definition revisions :: "revision list" where
  "revisions =
     [\<lparr>rv_revision = ''0001_initial_schema'', rv_down_revision = None,
       rv_upgrade = \<lambda>_. upgrade_0001, rv_downgrade = \<lambda>_. downgrade_0001\<rparr>,
      \<lparr>rv_revision = ''0002_autonomy_controls'', rv_down_revision = Some ''0001_initial_schema'',
       rv_upgrade = \<lambda>_. upgrade_0002, rv_downgrade = \<lambda>_. downgrade_0002\<rparr>,
      \<lparr>rv_revision = ''0003_openai_budget_and_runs'', rv_down_revision = Some ''0002_autonomy_controls'',
       rv_upgrade = \<lambda>_. upgrade_0003, rv_downgrade = \<lambda>_. downgrade_0003\<rparr>,
      \<lparr>rv_revision = ''0004_tenant_feedback'', rv_down_revision = Some ''0003_openai_budget_and_runs'',
       rv_upgrade = upgrade_0004, rv_downgrade = downgrade_0004\<rparr>]"

text \<open>A database is its schema and the revision it is stamped with. Alembic follows the chain of
  revisions up or down; the number of revisions bounds its length.\<close>

type_synonym stamped = "schema \<times> string option"

fun upgrade_steps :: "nat \<Rightarrow> stamped \<Rightarrow> stamped option" where
  "upgrade_steps 0 d = Some d"
| "upgrade_steps (Suc k) (s, v) =
     (case List.find (\<lambda>r. rv_down_revision r = v) revisions of
        None \<Rightarrow> Some (s, v)
      | Some r \<Rightarrow> (case run_ddl (rv_upgrade r s) s of
                     None \<Rightarrow> None | Some s' \<Rightarrow> upgrade_steps k (s', Some (rv_revision r))))"

fun downgrade_steps :: "nat \<Rightarrow> stamped \<Rightarrow> stamped option" where
  "downgrade_steps 0 d = Some d"
| "downgrade_steps (Suc k) (s, v) =
     (case List.find (\<lambda>r. Some (rv_revision r) = v) revisions of
        None \<Rightarrow> Some (s, v)
      | Some r \<Rightarrow> (case run_ddl (rv_downgrade r s) s of
                     None \<Rightarrow> None | Some s' \<Rightarrow> downgrade_steps k (s', rv_down_revision r)))"

section \<open>The migrations and the models agree\<close>

definition same_elements :: "'a list \<Rightarrow> 'a list \<Rightarrow> bool" where
  "same_elements xs ys \<longleftrightarrow> list_all (\<lambda>x. x \<in> set ys) xs \<and> list_all (\<lambda>y. y \<in> set xs) ys"

definition column_shape :: "table_column \<Rightarrow> string \<times> sql_type \<times> bool" where
  "column_shape c = (co_name c, co_type c, co_nullable c)"

text \<open>Up to the order of the tables, columns, constraints and indexes and to the server defaults, which
  the models do not have.\<close>

definition same_table :: "table \<Rightarrow> table \<Rightarrow> bool" where
  "same_table t u \<longleftrightarrow>
     ta_name t = ta_name u \<and> length (ta_columns t) = length (ta_columns u) \<and>
     same_elements (map column_shape (ta_columns t)) (map column_shape (ta_columns u)) \<and>
     same_elements (ta_constraints t) (ta_constraints u)"

definition same_schema :: "schema \<Rightarrow> schema \<Rightarrow> bool" where
  "same_schema s t \<longleftrightarrow>
     length (sc_tables s) = length (sc_tables t) \<and> length (sc_indexes s) = length (sc_indexes t) \<and>
     list_all (\<lambda>a. list_ex (same_table a) (sc_tables t)) (sc_tables s) \<and>
     list_all (\<lambda>b. list_ex (\<lambda>a. same_table a b) (sc_tables s)) (sc_tables t) \<and>
     same_elements (sc_indexes s) (sc_indexes t)"

definition at_head :: "stamped option \<Rightarrow> bool" where
  "at_head d =
     (case d of None \<Rightarrow> False
      | Some (s, v) \<Rightarrow> same_schema s model_schema \<and> v = Some ''0004_tenant_feedback'')"

definition completed :: "stamped option \<Rightarrow> stamped option" where
  "completed d = (case d of None \<Rightarrow> None | Some (s, v) \<Rightarrow> map_option (\<lambda>s. (s, v)) (create_schema s))"

subsection \<open>What happens to a database\<close>

text \<open>What is done to one database in the course of its life: a migration by one revision, rolled back when
  a statement of it is refused, and a start of the service with \<open>auto_create_schema\<close>, the default
  of \<open>Settings\<close>.\<close>

datatype schema_event = Upgrade_One | Service_Start

fun schema_step :: "schema_event \<Rightarrow> stamped \<Rightarrow> stamped" where
  "schema_step Upgrade_One d = (case upgrade_steps 1 d of None \<Rightarrow> d | Some d' \<Rightarrow> d')"
| "schema_step Service_Start d = (case completed (Some d) of None \<Rightarrow> d | Some d' \<Rightarrow> d')"

definition schema_after :: "schema_event list \<Rightarrow> stamped" where
  "schema_after ops = foldl (\<lambda>d op. schema_step op d) (empty_schema, None) ops"

text \<open>The databases that such a life goes through: migrated by so many revisions, completed by the service after
  so many, or completed at the third revision and then migrated.\<close>

datatype schema_kind = Migrated nat | Completed_At nat | Completed_Then_Migrated

fun database_of :: "schema_kind \<Rightarrow> stamped" where
  "database_of (Migrated k) = the (upgrade_steps k (empty_schema, None))"
| "database_of (Completed_At k) = the (completed (upgrade_steps k (empty_schema, None)))"
| "database_of Completed_Then_Migrated =
     the (Option.bind (completed (upgrade_steps 3 (empty_schema, None))) (upgrade_steps 1))"

fun kind_step :: "schema_event \<Rightarrow> schema_kind \<Rightarrow> schema_kind" where
  "kind_step Upgrade_One (Migrated k) = Migrated (min 4 (k + 1))"
| "kind_step Upgrade_One (Completed_At k) = (if k < 3 then Completed_At k else Completed_Then_Migrated)"
| "kind_step Upgrade_One Completed_Then_Migrated = Completed_Then_Migrated"
| "kind_step Service_Start (Migrated k) = (if k < 4 then Completed_At k else Migrated k)"
| "kind_step Service_Start a = a"

definition schema_kinds :: "schema_kind list" where
  "schema_kinds = map Migrated [0, 1, 2, 3, 4] @ map Completed_At [0, 1, 2, 3] @ [Completed_Then_Migrated]"

lemma kind_step_kinds: "list_all (\<lambda>a. kind_step op a \<in> set schema_kinds) schema_kinds"
  by (cases op) (simp_all add: schema_kinds_def)

text \<open>The runs on fixed data that the rest is proved from.\<close>

lemma head_migrated: "at_head (upgrade_steps 4 (empty_schema, None))"
  by code_simp

lemma head_completed_late:
  "at_head (Option.bind (completed (upgrade_steps 3 (empty_schema, None))) (upgrade_steps 1))"
  by code_simp

definition tables_present :: "stamped option \<Rightarrow> bool" where
  "tables_present d =
     (case d of None \<Rightarrow> False
      | Some (s, v) \<Rightarrow> list_all (\<lambda>m. find_table (ta_name (ot_table m)) s \<noteq> None) orm_tables \<and>
          v \<noteq> Some ''0004_tenant_feedback'')"

lemma early_completed:
  "tables_present (completed (upgrade_steps 0 (empty_schema, None)))"
  "tables_present (completed (upgrade_steps 1 (empty_schema, None)))"
  "tables_present (completed (upgrade_steps 2 (empty_schema, None)))"
  "tables_present (completed (upgrade_steps 3 (empty_schema, None)))"
  by code_simp+

lemma early_refused:
  "Option.bind (completed (upgrade_steps 0 (empty_schema, None))) (upgrade_steps 1) = None"
  "Option.bind (completed (upgrade_steps 1 (empty_schema, None))) (upgrade_steps 1) = None"
  "Option.bind (completed (upgrade_steps 2 (empty_schema, None))) (upgrade_steps 1) = None"
  unfolding Option.is_none_def [symmetric] by code_simp+

lemma early_versions:
  "list_all (\<lambda>k. \<not> at_head (upgrade_steps k (empty_schema, None))) [0, 1, 2, 3]"
  by code_simp

lemma models_created: "create_schema empty_schema = Some model_schema"
  by code_simp

text \<open>A schema that has the tables is complete, and the last revision has no successor.\<close>

lemma tables_present_complete: "tables_present (Some d) \<Longrightarrow> completed (Some d) = Some d"
  by (cases d) (auto simp: tables_present_def completed_def create_schema_def list_all_iff filter_empty_conv)

lemma at_head_complete: "at_head (Some d) \<Longrightarrow> completed (Some d) = Some d"
proof -
  obtain s v where d: "d = (s, v)" by (cases d)
  assume "at_head (Some d)"
  then have "list_all (\<lambda>b. list_ex (\<lambda>a. same_table a b) (sc_tables s)) (sc_tables model_schema)"
    by (simp add: at_head_def d same_schema_def)
  then have "\<forall>m\<in>set orm_tables. \<exists>a\<in>set (sc_tables s). ta_name a = ta_name (ot_table m)"
    by (auto simp: model_schema_def list_all_iff list_ex_iff same_table_def resolved_def)
  then have "\<forall>m\<in>set orm_tables. find_table (ta_name (ot_table m)) s \<noteq> None"
    by (auto simp: find_table_def find_None_iff)
  then show ?thesis by (simp add: d completed_def create_schema_def filter_empty_conv)
qed

lemma at_head_upgraded: "at_head (Some d) \<Longrightarrow> upgrade_steps 1 d = Some d"
  by (cases d) (simp add: at_head_def revisions_def)

lemma upgrade_steps_Suc: "upgrade_steps (Suc k) d = Option.bind (upgrade_steps k d) (upgrade_steps 1)"
proof (induction k arbitrary: d)
  case 0
  then show ?case by simp
next
  case (Suc k)
  obtain s v where d: "d = (s, v)" by (cases d)
  show ?case
  proof (cases "List.find (\<lambda>r. rv_down_revision r = v) revisions")
    case None
    then show ?thesis by (simp add: d)
  next
    case (Some r)
    note step = upgrade_steps.simps(2) [of "Suc k" s v] upgrade_steps.simps(2) [of k s v]
    show ?thesis
    proof (cases "run_ddl (rv_upgrade r s) s")
      case None
      with Some show ?thesis by (simp only: d step option.case Option.bind.simps)
    next
      case (Some s')
      with \<open>List.find _ _ = Some r\<close> have
        "upgrade_steps (Suc (Suc k)) d = upgrade_steps (Suc k) (s', Some (rv_revision r))"
        "upgrade_steps (Suc k) d = upgrade_steps k (s', Some (rv_revision r))"
        by (simp_all only: d step option.case)
      then show ?thesis by (simp only: Suc.IH)
    qed
  qed
qed

lemma migrated_some: "k \<le> 4 \<Longrightarrow> upgrade_steps k (empty_schema, None) = Some (database_of (Migrated k))"
proof -
  assume "k \<le> 4"
  then obtain j where "4 = k + j" by (auto simp: le_iff_add)
  moreover have "upgrade_steps (k + j) (empty_schema, None) = None" if "upgrade_steps k (empty_schema, None) = None" for j
    by (induction j) (simp_all add: that upgrade_steps_Suc)
  ultimately have "upgrade_steps k (empty_schema, None) \<noteq> None"
    using head_migrated by (metis at_head_def option.case(1))
  then show ?thesis by auto
qed

lemma completed_some:
  "k \<le> 3 \<Longrightarrow> completed (upgrade_steps k (empty_schema, None)) = Some (database_of (Completed_At k)) \<and>
     tables_present (Some (database_of (Completed_At k)))"
proof -
  assume "k \<le> 3"
  then have "k = 0 \<or> k = 1 \<or> k = 2 \<or> k = 3" by auto
  then have "tables_present (completed (upgrade_steps k (empty_schema, None)))"
    using early_completed by (elim disjE) simp_all
  then show ?thesis by (cases "completed (upgrade_steps k (empty_schema, None))") (auto simp: tables_present_def)
qed

lemma completed_migrated:
  "Option.bind (completed (upgrade_steps 3 (empty_schema, None))) (upgrade_steps 1) =
     Some (database_of Completed_Then_Migrated)"
  using head_completed_late
  by (cases "Option.bind (completed (upgrade_steps 3 (empty_schema, None))) (upgrade_steps 1)")
    (auto simp: at_head_def)

lemma kind_heads:
  "at_head (Some (database_of (Migrated 4)))" "at_head (Some (database_of Completed_Then_Migrated))"
  using head_migrated head_completed_late by (simp_all only: migrated_some [OF order_refl] completed_migrated)

lemma completed_upgrade:
  assumes "k < 3"
  shows "upgrade_steps 1 (database_of (Completed_At k)) = None"
proof -
  have "k = 0 \<or> k = 1 \<or> k = 2" using assms by auto
  then have "Option.bind (completed (upgrade_steps k (empty_schema, None))) (upgrade_steps 1) = None"
    using early_refused by (elim disjE) simp_all
  moreover have "completed (upgrade_steps k (empty_schema, None)) = Some (database_of (Completed_At k))"
    using completed_some [of k] assms by (simp del: database_of.simps)
  ultimately show ?thesis by (simp only: Option.bind.simps)
qed

lemma schema_step_simulated:
  assumes "a \<in> set schema_kinds"
  shows "schema_step op (database_of a) = database_of (kind_step op a)"
proof (cases a)
  case (Migrated k)
  then have k: "k \<le> 4" using assms by (auto simp: schema_kinds_def)
  show ?thesis
  proof (cases "k = 4")
    case True
    then show ?thesis
      using at_head_upgraded [OF kind_heads(1)] at_head_complete [OF kind_heads(1)] Migrated
      by (cases op) (simp_all del: database_of.simps upgrade_steps.simps)
  next
    case False
    then have "upgrade_steps 1 (database_of (Migrated k)) = Some (database_of (Migrated (k + 1)))"
      using k migrated_some [of k] migrated_some [of "k + 1"] upgrade_steps_Suc [of k "(empty_schema, None)"]
      by (simp del: database_of.simps upgrade_steps.simps)
    moreover have "completed (Some (database_of (Migrated k))) = Some (database_of (Completed_At k))"
      using completed_some [of k] migrated_some [of k] k False by (simp del: database_of.simps)
    ultimately show ?thesis
      using k False Migrated by (cases op) (simp_all del: database_of.simps upgrade_steps.simps)
  qed
next
  case (Completed_At k)
  then have k: "k \<le> 3" using assms by (auto simp: schema_kinds_def)
  have "upgrade_steps 1 (database_of (Completed_At k)) = Some (database_of Completed_Then_Migrated)"
    if "k = 3" using completed_migrated completed_some [of 3] that by (simp del: database_of.simps upgrade_steps.simps)
  then show ?thesis
    using k completed_upgrade [of k] tables_present_complete completed_some [OF k] Completed_At
    by (cases op; cases "k = 3") (simp_all del: database_of.simps upgrade_steps.simps)
next
  case Completed_Then_Migrated
  then show ?thesis
    using at_head_upgraded [OF kind_heads(2)] at_head_complete [OF kind_heads(2)]
    by (cases op) (simp_all del: database_of.simps upgrade_steps.simps)
qed

lemma head_kinds:
  assumes "a \<in> set schema_kinds"
  shows "at_head (Some (database_of a)) = (a \<in> {Migrated 4, Completed_Then_Migrated})"
proof (cases a)
  case (Migrated k)
  then have "k = 4 \<or> k \<in> set [0, 1, 2, 3] \<and> k \<le> 4" using assms by (auto simp: schema_kinds_def)
  then show ?thesis
    using kind_heads(1) early_versions migrated_some [of k] Migrated
    by (auto simp only: list_all_iff)
next
  case (Completed_At k)
  then have "k \<le> 3" using assms by (auto simp: schema_kinds_def)
  then have "tables_present (Some (database_of a))" using completed_some [of k] Completed_At by (simp del: database_of.simps)
  then show ?thesis using Completed_At
    by (auto simp: tables_present_def at_head_def split: prod.splits simp del: database_of.simps)
next
  case Completed_Then_Migrated
  then show ?thesis using kind_heads(2) by simp
qed

lemma schema_after_simulated:
  "schema_after ops = database_of (foldl (\<lambda>a op. kind_step op a) (Migrated 0) ops) \<and>
     foldl (\<lambda>a op. kind_step op a) (Migrated 0) ops \<in> set schema_kinds"
proof (induction ops rule: rev_induct)
  case Nil
  show ?case by (simp add: schema_after_def schema_kinds_def)
next
  case (snoc op ops)
  let ?a = "foldl (\<lambda>a op. kind_step op a) (Migrated 0) ops"
  have a: "?a \<in> set schema_kinds" and d: "schema_after ops = database_of ?a" using snoc by simp_all
  have "schema_step op (database_of ?a) = database_of (kind_step op ?a)"
    by (rule schema_step_simulated [OF a])
  moreover have "kind_step op ?a \<in> set schema_kinds" using kind_step_kinds a by (simp only: list_all_iff)
  moreover have "schema_after (ops @ [op]) = schema_step op (schema_after ops)" by (simp add: schema_after_def)
  ultimately show ?case using d by simp
qed

text \<open>Which of them a sequence leads to.\<close>

definition kind_of :: "schema_event list \<Rightarrow> schema_kind" where
  "kind_of ops =
     (let first = length (takeWhile (\<lambda>op. op = Upgrade_One) ops); upgrades = count_list ops Upgrade_One
      in if upgrades = length ops \<or> 4 \<le> first then Migrated (min 4 first)
         else if first < 3 then Completed_At first
         else if upgrades = 3 then Completed_At 3 else Completed_Then_Migrated)"

lemma takeWhile_upgrades: "length (takeWhile (\<lambda>op. op = Upgrade_One) ops) \<le> count_list ops Upgrade_One"
  by (induction ops) auto

lemma all_upgrades:
  "count_list ops Upgrade_One = length ops \<longleftrightarrow> length (takeWhile (\<lambda>op. op = Upgrade_One) ops) = length ops"
proof (induction ops)
  case (Cons op ops)
  then show ?case using count_le_length [of ops Upgrade_One] by (cases op) auto
qed simp

lemma takeWhile_snoc_length:
  "length (takeWhile P (xs @ [x])) =
     (if length (takeWhile P xs) = length xs \<and> P x then length xs + 1 else length (takeWhile P xs))"
  by (induction xs) auto

lemma takeWhile_all_length: "length (takeWhile P xs) = length xs \<Longrightarrow> x \<in> set xs \<Longrightarrow> P x"
  by (induction xs) (auto split: if_splits)

lemma schema_after_kind: "foldl (\<lambda>a op. kind_step op a) (Migrated 0) ops = kind_of ops"
proof (induction ops rule: rev_induct)
  case (snoc op ops)
  have b: "length (takeWhile (\<lambda>op. op = Upgrade_One) ops) \<le> length ops" by (rule length_takeWhile_le)
  show ?case
    using snoc takeWhile_upgrades [of ops] all_upgrades [of ops] count_le_length [of ops Upgrade_One] b
    by (cases op) (auto simp: kind_of_def Let_def takeWhile_snoc_length)
qed (simp add: kind_of_def)

lemma early_stuck:
  "k < 3 \<Longrightarrow> foldl (\<lambda>a op. kind_step op a) (Completed_At k) ops = Completed_At k"
proof (induction ops)
  case (Cons op ops)
  then show ?case by (cases op) simp_all
qed simp

text \<open>C32: whatever sequence of migrations by one revision and of starts of the service is run on an empty
  database, it has the tables, columns, types, keys and indexes of the models and the last revision
  exactly when four migrations were run, at least three of them before the service first started. A
  service that starts before the third revision completes the schema by itself (on an empty database,
  to the schema of the models), and from then on every migration is refused and nothing changes the
  database.\<close>

theorem migrations_reach_models:
  "(at_head (Some (schema_after ops)) \<longleftrightarrow>
      4 \<le> count_list ops Upgrade_One \<and> 3 \<le> length (takeWhile (\<lambda>op. op = Upgrade_One) ops)) \<and>
   (Service_Start \<in> set ops \<and> length (takeWhile (\<lambda>op. op = Upgrade_One) ops) < 3 \<longrightarrow>
      upgrade_steps 1 (schema_after ops) = None \<and> schema_after (ops @ later) = schema_after ops) \<and>
   schema_after [Service_Start] = (model_schema, None)"
proof (intro conjI impI)
  let ?first = "length (takeWhile (\<lambda>op. op = Upgrade_One) ops)"
  note b = takeWhile_upgrades [of ops] all_upgrades [of ops] count_le_length [of ops Upgrade_One]
  note d = schema_after_simulated [of ops, unfolded schema_after_kind]
  have "at_head (Some (database_of (kind_of ops))) = (kind_of ops \<in> {Migrated 4, Completed_Then_Migrated})"
    using head_kinds d by blast
  moreover have "(kind_of ops \<in> {Migrated 4, Completed_Then_Migrated}) = (4 \<le> count_list ops Upgrade_One \<and> 3 \<le> ?first)"
    using b by (auto simp: kind_of_def Let_def)
  ultimately show "at_head (Some (schema_after ops)) = (4 \<le> count_list ops Upgrade_One \<and> 3 \<le> ?first)"
    using d by simp
  assume early: "Service_Start \<in> set ops \<and> ?first < 3"
  then have "?first \<noteq> length ops" using takeWhile_all_length [of "\<lambda>op. op = Upgrade_One" ops] by auto
  then have kind: "kind_of ops = Completed_At ?first" "?first < 3" using early b by (simp_all add: kind_of_def Let_def)
  then show "upgrade_steps 1 (schema_after ops) = None" using completed_upgrade d by (simp only:)
  show "schema_after (ops @ later) = schema_after ops"
    using schema_after_simulated [of "ops @ later"] schema_after_kind [of ops] early_stuck [OF kind(2)] d kind(1)
    by simp
next
  show "schema_after [Service_Start] = (model_schema, None)"
    by (simp add: schema_after_def completed_def models_created)
qed

theorem migrations_reach_models_witness:
  "at_head (Some (schema_after [Upgrade_One, Upgrade_One, Upgrade_One, Service_Start, Upgrade_One])) \<and>
   upgrade_steps 1 (schema_after [Upgrade_One, Service_Start]) = None \<and>
   schema_after ([Upgrade_One, Service_Start] @ [Upgrade_One, Upgrade_One]) = schema_after [Upgrade_One, Service_Start]"
  using migrations_reach_models [of "[Upgrade_One, Upgrade_One, Upgrade_One, Service_Start, Upgrade_One]" "[]"]
    migrations_reach_models [of "[Upgrade_One, Service_Start]" "[Upgrade_One, Upgrade_One]"]
  by simp

definition undone :: "nat \<Rightarrow> bool" where
  "undone k =
     (case upgrade_steps k (empty_schema, None) of None \<Rightarrow> False
      | Some d \<Rightarrow> (case upgrade_steps 1 d of None \<Rightarrow> False | Some d' \<Rightarrow> downgrade_steps 1 d' = Some d))"

text \<open>The downgrade of every revision undoes its upgrade exactly, and the whole chain leads back to
  the empty database.\<close>

theorem downgrades_undo_upgrades:
  "list_all undone [0, 1, 2, 3] \<and>
   Option.bind (upgrade_steps 4 (empty_schema, None)) (downgrade_steps 4) = Some (empty_schema, None)"
  by (intro conjI; code_simp)

section \<open>What the columns hold\<close>

definition text_fits :: "orm_table \<Rightarrow> string \<Rightarrow> string \<Rightarrow> bool" where
  "text_fits m c x =
     (case List.find (\<lambda>d. co_name d = c) (ta_columns (ot_table m)) of
        None \<Rightarrow> False
      | Some d \<Rightarrow> (case co_type d of SString n \<Rightarrow> length x \<le> n | _ \<Rightarrow> True))"

definition event_fits :: "operational_event \<Rightarrow> bool" where
  "event_fits e \<longleftrightarrow>
     text_fits operational_events_model ''source_system'' (ev_source_system e) \<and>
     text_fits operational_events_model ''event_id'' (ev_event_id e) \<and>
     text_fits operational_events_model ''event_type'' (ev_event_type e) \<and>
     text_fits operational_events_model ''schema_version'' (ev_schema_version e) \<and>
     text_fits operational_events_model ''deduplication_key'' (ev_deduplication_key e)"

text \<open>The store checks the texts of an event against the widths that its model declares.\<close>

lemma event_fits_declared: "event_fits e \<longleftrightarrow> event_texts_fit PostgreSQL e"
  by (simp add: event_fits_def event_texts_fit_def column_holds_def text_fits_def operational_events_model_def column_def)

text \<open>The texts of an event that passed the validators fit the columns of its row exactly when its
  schema version has at most 20 characters, which no validator checks.\<close>

theorem event_fits_iff:
  assumes "valid_operational_event e"
  shows "event_fits e \<longleftrightarrow> length (ev_schema_version e) \<le> 20"
  using assms
  by (auto simp: event_fits_def text_fits_def operational_events_model_def column_def valid_operational_event_def len_within_def)

end
