(* ===== verification/Training.thy ===== *)
theory Training
  imports Api Value_Evaluation "HOL-Library.Multiset"
begin

text \<open>
  \<^verbatim>\<open>src/src/promiseguard/training.py\<close>: the temporal split of the records, the fit of the
  candidates on the earlier part, their metrics on the later part, the choice of a candidate and
  the artifact it is saved in. What scikit-learn, LightGBM, numpy and \<open>json\<close> compute is a record of
  functions, the parameter of the definitions. The lemmas show that the holdout is later than what the
  models were fitted on, that every forecast is counted in one calibration bin, and that the service
  loads what the training writes.
\<close>

section \<open>The library\<close>

text \<open>The estimators, with the arguments of their constructors.\<close>

record logistic_arguments =
  lo_max_iter :: nat
  lo_class_weight :: string
  lo_random_state :: int

record lightgbm_arguments =
  lg_n_estimators :: nat
  lg_learning_rate :: rat
  lg_num_leaves :: nat
  lg_min_child_samples :: nat
  lg_subsample :: rat
  lg_colsample_bytree :: rat
  lg_class_weight :: string
  lg_random_state :: int
  lg_verbosity :: int

datatype base_estimator =
    Scaled_Logistic logistic_arguments
  | LightGBM lightgbm_arguments

record calibrated_classifier =
  ca_base :: base_estimator
  ca_method :: string
  ca_cv :: nat

record candidate_metrics =
  cm_pr_auc :: rat
  cm_roc_auc :: rat
  cm_brier_score :: rat
  cm_expected_calibration_error :: rat
  cm_holdout_prevalence :: rat
  cm_holdout_size :: rat

record version_material =
  vm_selected :: string
  vm_features :: "string list"
  vm_metrics :: candidate_metrics
  vm_records :: nat
  vm_random_state :: int

text \<open>A fitted estimator is the function from a row to the probability of the positive class; a fit
  may raise. \<open>ml_lightgbm\<close> says whether the optional package is installed.\<close>

record ml_library =
  ml_fit :: "calibrated_classifier \<Rightarrow> rat list list \<Rightarrow> int list \<Rightarrow> (rat list \<Rightarrow> rat) res"
  ml_pr_auc :: "int list \<Rightarrow> rat list \<Rightarrow> rat"
  ml_roc_auc :: "int list \<Rightarrow> rat list \<Rightarrow> rat"
  ml_brier :: "int list \<Rightarrow> rat list \<Rightarrow> rat"
  ml_mean :: "rat list \<Rightarrow> rat"
  ml_linspace :: "rat \<Rightarrow> rat \<Rightarrow> nat \<Rightarrow> rat list"
  ml_lightgbm :: bool
  ml_json :: "version_material \<Rightarrow> string"

section \<open>Calibration\<close>

definition pairwise_list :: "'a list \<Rightarrow> ('a \<times> 'a) list" where
  "pairwise_list xs = zip xs (tl xs)"

definition in_bin :: "rat \<times> rat \<Rightarrow> rat \<Rightarrow> bool" where
  "in_bin b p =
     (let (lower, upper) = b
      in if upper = 1 then lower \<le> p \<and> p \<le> upper else lower \<le> p \<and> p < upper)"

text \<open>The outcomes and forecasts a bin's mask selects.\<close>

definition bin_members :: "int list \<Rightarrow> rat list \<Rightarrow> rat \<times> rat \<Rightarrow> (int \<times> rat) list" where
  "bin_members y_true probabilities b = filter (\<lambda>(y, p). in_bin b p) (zip y_true probabilities)"

definition add_bin :: "ml_library \<Rightarrow> int list \<Rightarrow> rat list \<Rightarrow> rat \<Rightarrow> rat \<times> rat \<Rightarrow> rat" where
  "add_bin M y_true probabilities calibration_error b =
     (let mask = map (in_bin b) probabilities; members = bin_members y_true probabilities b
      in if True \<notin> set mask then calibration_error
         else let confidence = ml_mean M (map snd members);
                  accuracy = ml_mean M (map (\<lambda>(y, p). of_int y) members)
              in fadd calibration_error
                   (fmul (ml_mean M (map float_of_bool mask)) \<bar>fsub accuracy confidence\<bar>))"

definition expected_calibration_error :: "ml_library \<Rightarrow> nat \<Rightarrow> int list \<Rightarrow> rat list \<Rightarrow> rat" where
  "expected_calibration_error M bins y_true probabilities =
     foldl (add_bin M y_true probabilities) 0 (pairwise_list (ml_linspace M 0 1 (bins + 1)))"

section \<open>The temporal split\<close>

definition evaluated_at :: "synthetic_record \<Rightarrow> int" where
  "evaluated_at r = instant (oc_evaluation_time (er_order (sy_request r)))"

definition feature_row :: "synthetic_record \<Rightarrow> rat list" where
  "feature_row r = extract_features (er_order (sy_request r))"

definition failure_label :: "synthetic_record \<Rightarrow> int" where
  "failure_label r = (if sg_sampled_no_action_failure (sy_ground_truth r) then 1 else 0)"

definition split_index :: "nat \<Rightarrow> int" where
  "split_index n = min (max 100 \<lfloor>fmul (fl (of_nat n)) (fl (8/10))\<rfloor>) (int n - 20)"

definition temporal_split :: "synthetic_record list \<Rightarrow> synthetic_record list \<times> synthetic_record list" where
  "temporal_split records =
     (let ordered = sort_key evaluated_at records; k = nat (split_index (length ordered))
      in (take k ordered, drop k ordered))"

section \<open>The candidates\<close>

definition candidates :: "ml_library \<Rightarrow> int \<Rightarrow> bool \<Rightarrow> (string \<times> calibrated_classifier) list" where
  "candidates M random_state include_lightgbm =
     (''calibrated_logistic'',
      \<lparr>ca_base = Scaled_Logistic \<lparr>lo_max_iter = 1000, lo_class_weight = ''balanced'',
         lo_random_state = random_state\<rparr>, ca_method = ''sigmoid'', ca_cv = 3\<rparr>) #
     (if include_lightgbm \<and> ml_lightgbm M
      then [(''calibrated_lightgbm'',
             \<lparr>ca_base = LightGBM \<lparr>lg_n_estimators = 120, lg_learning_rate = fl (4/100), lg_num_leaves = 15,
                lg_min_child_samples = 25, lg_subsample = fl (9/10), lg_colsample_bytree = fl (9/10),
                lg_class_weight = ''balanced'', lg_random_state = random_state, lg_verbosity = -1\<rparr>,
              ca_method = ''sigmoid'', ca_cv = 3\<rparr>)]
      else [])"

definition candidate_metrics_of :: "ml_library \<Rightarrow> int list \<Rightarrow> rat list \<Rightarrow> candidate_metrics" where
  "candidate_metrics_of M y_test probabilities =
     \<lparr>cm_pr_auc = ml_pr_auc M y_test probabilities, cm_roc_auc = ml_roc_auc M y_test probabilities,
      cm_brier_score = ml_brier M y_test probabilities,
      cm_expected_calibration_error = expected_calibration_error M 10 y_test probabilities,
      cm_holdout_prevalence = ml_mean M (map of_int y_test), cm_holdout_size = fl (of_nat (length y_test))\<rparr>"

type_synonym trained_candidate = "string \<times> (rat list \<Rightarrow> rat) \<times> candidate_metrics"

text \<open>The candidates are fitted in order; the first exception ends the training.\<close>

fun train_candidates ::
  "ml_library \<Rightarrow> synthetic_record list \<Rightarrow> synthetic_record list \<Rightarrow> (string \<times> calibrated_classifier) list
     \<Rightarrow> trained_candidate list res"
where
  "train_candidates M train test [] = Inr []"
| "train_candidates M train test ((name, e) # es) =
     bind_res (ml_fit M e (map feature_row train) (map failure_label train)) (\<lambda>estimator.
     bind_res (train_candidates M train test es) (\<lambda>trained.
     Inr ((name, estimator,
           candidate_metrics_of M (map failure_label test) (map (\<lambda>r. estimator (feature_row r)) test)) # trained)))"

text \<open>\<open>min(xs, key=...)\<close>: the first least element.\<close>

fun py_min :: "('a \<Rightarrow> 'k::linorder) \<Rightarrow> 'a list \<Rightarrow> 'a res" where
  "py_min key [] = Inl (err ValueError ''min() iterable argument is empty'')"
| "py_min key (x # xs) = Inr (foldl (\<lambda>best y. if key y < key best then y else best) x xs)"

definition selection_key :: "trained_candidate \<Rightarrow> rat \<times> rat" where
  "selection_key c = (cm_brier_score (snd (snd c)), - cm_pr_auc (snd (snd c)))"

section \<open>Training\<close>

record training_artifact = risk_artifact +
  ta_trained_at :: string
  ta_training_records :: nat
  ta_temporal_holdout_records :: nat
  ta_metrics :: candidate_metrics

record metrics_payload =
  mp_selected_model :: string
  mp_model_version :: string
  mp_all_candidates :: "(string \<times> candidate_metrics) list"
  mp_feature_names :: "string list"
  mp_training_records :: nat
  mp_temporal_holdout_records :: nat

text \<open>A path is the directory and the name of the file.\<close>

record trained_model_summary =
  tm_artifact_path :: "string \<times> string"
  tm_metrics_path :: "string \<times> string"
  tm_selected_model :: string
  tm_model_version :: string
  tm_metrics :: "(string \<times> candidate_metrics) list"

text \<open>The result of a training: the summary it returns and what it writes to the two paths.\<close>

record training_run =
  tr_summary :: trained_model_summary
  tr_artifact :: training_artifact
  tr_payload :: metrics_payload

definition model_version :: "lib \<Rightarrow> ml_library \<Rightarrow> string \<Rightarrow> candidate_metrics \<Rightarrow> nat \<Rightarrow> int \<Rightarrow> string" where
  "model_version L M selected_name m n random_state =
     ''risk-'' @ selected_name @ ''-'' @
     take 12 (sha256_hex L (ml_json M
       \<lparr>vm_selected = selected_name, vm_features = FEATURE_NAMES, vm_metrics = m, vm_records = n,
        vm_random_state = random_state\<rparr>))"

definition train_risk_models ::
  "lib \<Rightarrow> isoformat \<Rightarrow> ml_library \<Rightarrow> datetime \<Rightarrow> synthetic_record list \<Rightarrow> string \<Rightarrow> int \<Rightarrow> bool \<Rightarrow> training_run res"
where
  "train_risk_models L A M now records output_dir random_state include_lightgbm =
     (if length records < 120
      then Inl (err ValueError ''at least 120 records are required for temporal training'')
      else let (train, test) = temporal_split records in
        if length (remdups (map failure_label train)) < 2 \<or> length (remdups (map failure_label test)) < 2
        then Inl (err ValueError ''training and temporal holdout must each contain both classes'')
        else bind_res (train_candidates M train test (candidates M random_state include_lightgbm)) (\<lambda>trained.
             bind_res (py_min selection_key trained) (\<lambda>(selected_name, selected, m).
             let metrics = map (\<lambda>(name, estimator, m). (name, m)) trained;
                 version = model_version L M selected_name m (length records) random_state
             in Inr \<lparr>tr_summary =
                       \<lparr>tm_artifact_path = (output_dir, ''risk_model.joblib''),
                        tm_metrics_path = (output_dir, ''risk_model_metrics.json''),
                        tm_selected_model = selected_name, tm_model_version = version, tm_metrics = metrics\<rparr>,
                     tr_artifact =
                       \<lparr>art_feature_names = FEATURE_NAMES, art_estimator = selected, art_model_version = version,
                        ta_trained_at = A now, ta_training_records = length records,
                        ta_temporal_holdout_records = length test, ta_metrics = m\<rparr>,
                     tr_payload =
                       \<lparr>mp_selected_model = selected_name, mp_model_version = version,
                        mp_all_candidates = metrics, mp_feature_names = FEATURE_NAMES,
                        mp_training_records = length records, mp_temporal_holdout_records = length test\<rparr>\<rparr>)))"

section \<open>Both classes\<close>

definition both_classes :: "synthetic_record list \<Rightarrow> bool" where
  "both_classes rs \<longleftrightarrow> failure_label ` set rs = {0, 1}"

lemma both_classes_iff: "length (remdups (map failure_label rs)) < 2 \<longleftrightarrow> \<not> both_classes rs"
proof -
  have sub: "failure_label ` set rs \<subseteq> {0, 1}" by (auto simp: failure_label_def)
  have "length (remdups (map failure_label rs)) = card (failure_label ` set rs)"
    by (simp add: length_remdups_card_conv)
  moreover have "card (failure_label ` set rs) < 2 \<longleftrightarrow> failure_label ` set rs \<noteq> {0, 1}"
  proof (cases "failure_label ` set rs = {0, 1}")
    case False
    then have "failure_label ` set rs \<subset> {0, 1}" using sub by blast
    from psubset_card_mono [OF _ this] False show ?thesis by simp
  qed simp
  ultimately show ?thesis by (simp add: both_classes_def)
qed

section \<open>A sample run\<close>

text \<open>A library that forecasts a failure for every order, and 120 records of one time.\<close>

definition sample_ml :: ml_library where
  "sample_ml =
     \<lparr>ml_fit = \<lambda>_ _ _. Inr (\<lambda>_. 1), ml_pr_auc = \<lambda>_ _. 1/2, ml_roc_auc = \<lambda>_ _. 1/2,
      ml_brier = \<lambda>_ _. 1/2, ml_mean = \<lambda>_. 1/2,
      ml_linspace = \<lambda>a b n. [0, 1/2, 1], ml_lightgbm = True, ml_json = \<lambda>_. ''m''\<rparr>"

definition labelled_record :: "bool \<Rightarrow> synthetic_record" where
  "labelled_record failure =
     \<lparr>sy_request = sample_request SHADOW,
      sy_ground_truth =
        \<lparr>sg_no_action_on_time_probability = 0, sg_reroute_on_time_probability = 0,
         sg_carrier_upgrade_on_time_probability = 0, sg_split_shipment_on_time_probability = 0,
         sg_sampled_no_action_failure = failure, sg_optimal_action = TAKE_NO_ACTION\<rparr>\<rparr>"

definition sample_records :: "synthetic_record list" where
  "sample_records =
     replicate 50 (labelled_record False) @ replicate 60 (labelled_record True) @
     replicate 10 (labelled_record False)"

definition sample_train :: "synthetic_record list" where
  "sample_train = replicate 50 (labelled_record False) @ replicate 50 (labelled_record True)"

definition sample_test :: "synthetic_record list" where
  "sample_test = replicate 10 (labelled_record True) @ replicate 10 (labelled_record False)"

lemma sample_split: "temporal_split sample_records = (sample_train, sample_test)"
proof -
  have "evaluated_at r = evaluated_at (labelled_record False)" if "r \<in> set sample_records" for r
    using that by (auto simp: sample_records_def evaluated_at_def labelled_record_def)
  then have "map evaluated_at sample_records = replicate (length sample_records) (evaluated_at (labelled_record False))"
    by (intro replicate_eqI) auto
  then have "sort_key evaluated_at sample_records = sample_records"
    by (intro sort_key_id_if_sorted) simp
  moreover have "nat (split_index (length sample_records)) = 100"
  proof -
    have "length sample_records = 120" by (simp add: sample_records_def)
    moreover have "nat (split_index 120) = 100" by code_simp
    ultimately show ?thesis by simp
  qed
  ultimately show ?thesis
    by (simp add: temporal_split_def Let_def)
      (simp add: sample_records_def sample_train_def sample_test_def)
qed

lemma sample_classes: "both_classes sample_train" "both_classes sample_test" "length sample_records = 120"
  by (auto simp: both_classes_def sample_train_def sample_test_def sample_records_def failure_label_def
      labelled_record_def)

definition sample_training :: "training_run res" where
  "sample_training = train_risk_models sample_lib (\<lambda>_. ''t'') sample_ml (utc 0) sample_records ''models'' 1 True"

section \<open>The holdout is later\<close>

lemma split_index_bounds:
  assumes "120 \<le> n"
  shows "100 \<le> split_index n" "split_index n \<le> int n - 20"
  using assms by (auto simp: split_index_def)

text \<open>The float \<open>0.8\<close> is above four fifths, by too little to move the whole part of the product.\<close>

lemma split_index_eighty:
  assumes "125 \<le> n" "n \<le> 2 ^ 40"
  shows "split_index n = 4 * int n div 5"
proof -
  let ?x = "rat_of_int (int n)" and ?c = "fl (8/10)" and ?k = "4 * int n div 5"
  let ?q = "fmul (fl (of_nat n)) ?c"
  have c: "8/10 \<le> ?c" "?c \<le> 8/10 + 1 / 2 ^ 50" by code_simp+
  have "int n \<le> int (2 ^ 40)" using assms(2) by (simp only: of_nat_le_iff)
  then have big: "int n \<le> 2 ^ 40" by simp
  then have "\<bar>int n\<bar> \<le> 2 ^ 53" by simp
  from is_float_dyadic [OF this, of 0] have fn: "fl (of_nat n) = ?x" unfolding is_float_def by simp
  have "?x \<le> of_int (2 ^ 40)" using big by (simp only: of_int_le_iff)
  then have n: "?x \<le> 2 ^ 40" "0 \<le> ?x" by simp_all
  have kf: "\<bar>?k\<bar> \<le> 2 ^ 53" "\<bar>32 * ?k + 31\<bar> \<le> 2 ^ 53" using big by simp_all
  have "5 * ?k \<le> 4 * int n" "4 * int n \<le> 5 * ?k + 4" by presburger+
  then have "of_int (5 * ?k) \<le> (of_int (4 * int n) :: rat)" "of_int (4 * int n) \<le> (of_int (5 * ?k + 4) :: rat)"
    by (simp_all only: of_int_le_iff)
  then have k: "of_int ?k \<le> ?x * (8/10)" "?x * (8/10) \<le> of_int ?k + 8/10" by simp_all
  have "?x * (8/10) \<le> ?x * ?c" using c(1) n(2) by (intro mult_left_mono) auto
  then have "of_int ?k \<le> ?x * ?c" using k(1) by simp
  then have low: "of_int ?k \<le> ?q"
    unfolding fmul_def fn using is_float_dyadic [OF kf(1), of 0] by (intro float.rnd_ge_rep) auto
  have "?x * ?c \<le> ?x * (8/10 + 1 / 2 ^ 50)" using c(2) n(2) by (intro mult_left_mono) auto
  moreover have "?x * (8/10 + 1 / 2 ^ 50) \<le> ?x * (8/10) + 1/1024" using n(1) by (simp add: field_simps)
  ultimately have "?x * ?c \<le> of_int (32 * ?k + 31) / 2 ^ 5" using k(2) by simp
  then have "?q \<le> of_int (32 * ?k + 31) / 2 ^ 5"
    unfolding fmul_def fn by (rule float.rnd_le_rep [OF is_float_dyadic [OF kf(2)]])
  then have "?q < of_int ?k + 1" by simp
  with low have "\<lfloor>?q\<rfloor> = ?k" by (rule floor_unique)
  moreover have "100 \<le> ?k" "?k \<le> int n - 20" using assms(1) by simp_all
  ultimately show ?thesis by (simp add: split_index_def)
qed

lemma sorted_parts:
  assumes "sorted (map f xs)" "a \<in> set (take k xs)" "b \<in> set (drop k xs)"
  shows "f a \<le> f b"
proof -
  have "sorted (map f (take k xs) @ map f (drop k xs))"
    using assms(1) by (simp flip: map_append)
  then show ?thesis using assms(2,3) by (auto simp: sorted_append)
qed

text \<open>C34: the temporal split loses and repeats no record, and no record of the holdout was evaluated
  before a record the models are fitted on. Of at least 120 records, at least 100 are fitted on and at
  least 20 held out; from 125 to \<open>2^40\<close> records, four fifths rounded down are fitted on, although the
  product is rounded.\<close>

theorem temporal_split_is_sound:
  assumes "120 \<le> length records" and "temporal_split records = (train, test)"
  shows "mset train + mset test = mset records \<and> 100 \<le> length train \<and> 20 \<le> length test \<and>
    (\<forall>a\<in>set train. \<forall>b\<in>set test. evaluated_at a \<le> evaluated_at b) \<and>
    (125 \<le> length records \<longrightarrow> length records \<le> 2 ^ 40 \<longrightarrow> length train = 4 * length records div 5)"
proof -
  let ?o = "sort_key evaluated_at records" and ?k = "nat (split_index (length records))"
  have parts: "train = take ?k ?o" "test = drop ?k ?o"
    using assms(2) by (auto simp: temporal_split_def Let_def)
  have "mset train + mset test = mset records" unfolding parts by (simp flip: mset_append)
  moreover have "100 \<le> ?k" "?k + 20 \<le> length records" using split_index_bounds [OF assms(1)] by linarith+
  moreover have "\<forall>a\<in>set train. \<forall>b\<in>set test. evaluated_at a \<le> evaluated_at b"
    unfolding parts using sorted_parts [of evaluated_at ?o] by (auto simp: sorted_sort_key)
  moreover have "?k = 4 * length records div 5" if "125 \<le> length records" "length records \<le> 2 ^ 40"
    using split_index_eighty [OF that] by (simp add: nat_div_distrib nat_mult_distrib)
  ultimately show ?thesis by (simp add: parts)
qed

theorem temporal_split_is_sound_witness:
  "mset sample_train + mset sample_test = mset sample_records \<and> 100 \<le> length sample_train"
  using temporal_split_is_sound [OF _ sample_split] sample_classes(3) by simp

section \<open>Every forecast is in one bin\<close>

lemma each_in_one:
  assumes "\<forall>x\<in>set xs. length (filter (\<lambda>b. P b x) bs) = 1"
  shows "mset (concat (map (\<lambda>b. filter (P b) xs) bs)) = mset xs"
  using assms
proof (induction xs)
  case (Cons x xs)
  have "mset (concat (map (\<lambda>b. filter (P b) (x # xs)) bs)) =
      mset (concat (map (\<lambda>b. filter (P b) xs) bs)) + replicate_mset (length (filter (\<lambda>b. P b x) bs)) x"
    by (induction bs) auto
  then show ?case using Cons by simp
qed simp

lemma pairwise_Cons [simp]: "pairwise_list (a # b # bs) = (a, b) # pairwise_list (b # bs)"
  by (simp add: pairwise_list_def)

lemma pairwise_single [simp]: "pairwise_list [a] = []"
  by (simp add: pairwise_list_def)

lemma below_no_bin:
  "sorted_wrt (<) (a # bs) \<Longrightarrow> p < a \<Longrightarrow> filter (\<lambda>b. in_bin b p) (pairwise_list (a # bs)) = []"
  by (induction bs arbitrary: a) (auto simp: in_bin_def)

lemma one_bin:
  assumes "sorted_wrt (<) (a # bs)" "bs \<noteq> []" "last bs = 1" "a \<le> p" "p \<le> 1"
  shows "length (filter (\<lambda>b. in_bin b p) (pairwise_list (a # bs))) = 1"
  using assms
proof (induction bs arbitrary: a)
  case (Cons b bs)
  show ?case
  proof (cases "bs = []")
    case True
    then show ?thesis using Cons.prems by (simp add: in_bin_def)
  next
    case False
    then have "b < 1" using Cons.prems last_in_set [OF False] by auto
    then show ?thesis
      using Cons.prems Cons.IH [of b] False below_no_bin [of b bs p]
      by (cases "p < b") (auto simp: in_bin_def)
  qed
qed simp

text \<open>Where \<open>linspace\<close> returns increasing boundaries from 0 to 1, every forecast of a probability is
  counted with its outcome in exactly one calibration bin, the boundaries and both ends included.\<close>

theorem calibration_counts_each_forecast_once:
  assumes "ml_linspace M 0 1 (bins + 1) = 0 # bs" and "sorted_wrt (<) (0 # bs)" and "bs \<noteq> []" and "last bs = 1"
    and "list_all (\<lambda>p. 0 \<le> p \<and> p \<le> 1) probabilities"
  shows "mset (concat (map (bin_members y_true probabilities) (pairwise_list (ml_linspace M 0 1 (bins + 1))))) =
    mset (zip y_true probabilities)"
proof -
  have "length (filter (\<lambda>b. case x of (y, p) \<Rightarrow> in_bin b p) (pairwise_list (0 # bs))) = 1"
    if "x \<in> set (zip y_true probabilities)" for x
    using one_bin [OF assms(2-4), of "snd x"] assms(5) that
    by (cases x) (auto simp: list_all_iff dest: set_zip_rightD)
  then show ?thesis
    unfolding assms(1) bin_members_def by (intro each_in_one) auto
qed

section \<open>What training returns\<close>

lemma foldl_min:
  fixes key :: "'a \<Rightarrow> 'k::linorder"
  shows "foldl (\<lambda>best y. if key y < key best then y else best) b xs \<in> insert b (set xs) \<and>
    (\<forall>y\<in>insert b (set xs). key (foldl (\<lambda>best y. if key y < key best then y else best) b xs) \<le> key y)"
proof (induction xs arbitrary: b)
  case (Cons x xs)
  show ?case using Cons [of "if key x < key b then x else b"] by (auto split: if_splits)
qed simp

lemma py_min_total:
  "xs \<noteq> [] \<Longrightarrow> \<exists>m. py_min key xs = Inr m \<and> m \<in> set xs \<and> (\<forall>y\<in>set xs. key m \<le> key y)"
proof (cases xs)
  case (Cons x ys)
  show ?thesis using foldl_min [of key x ys] by (auto simp: Cons)
qed simp

lemma train_candidates_Inr:
  "train_candidates M train test es = Inr trained \<Longrightarrow>
     map fst trained = map fst es \<and>
     (\<forall>(name, estimator, m)\<in>set trained. \<exists>e. (name, e) \<in> set es \<and>
        ml_fit M e (map feature_row train) (map failure_label train) = Inr estimator \<and>
        m = candidate_metrics_of M (map failure_label test) (map (\<lambda>r. estimator (feature_row r)) test))"
  by (induction es arbitrary: trained) (fastforce simp: bind_res_Inr)+

lemma train_candidates_total:
  "\<forall>(name, e)\<in>set es. \<exists>f. ml_fit M e (map feature_row train) (map failure_label train) = Inr f \<Longrightarrow>
     \<exists>trained. train_candidates M train test es = Inr trained"
  by (induction es) auto

lemma train_risk_models_cases:
  assumes "train_risk_models L A M now records out seed lgbm = Inr run"
  obtains train test trained name f m where
    "120 \<le> length records" "temporal_split records = (train, test)" "both_classes train" "both_classes test"
    "train_candidates M train test (candidates M seed lgbm) = Inr trained"
    "py_min selection_key trained = Inr (name, f, m)"
    "tm_selected_model (tr_summary run) = name"
    "tm_metrics (tr_summary run) = map (\<lambda>(name, estimator, m). (name, m)) trained"
    "risk_artifact.truncate (tr_artifact run) =
       \<lparr>art_feature_names = FEATURE_NAMES, art_estimator = f,
        art_model_version = tm_model_version (tr_summary run)\<rparr>"
    "ta_metrics (tr_artifact run) = m"
  using assms
  by (auto simp: train_risk_models_def Let_def bind_res_Inr both_classes_iff risk_artifact.truncate_def
      split: if_splits prod.splits)

lemma training_total:
  assumes "\<And>e x y. \<exists>f. ml_fit M e x y = Inr f" and "temporal_split records = (train, test)"
    and "120 \<le> length records" "both_classes train" "both_classes test"
  shows "\<exists>run. train_risk_models L A M now records out seed lgbm = Inr run"
proof -
  obtain trained where t: "train_candidates M train test (candidates M seed lgbm) = Inr trained"
    using train_candidates_total [of "candidates M seed lgbm" M train test] assms(1) by blast
  from train_candidates_Inr [OF t] have "trained \<noteq> []" by (auto simp: candidates_def)
  from py_min_total [OF this, of selection_key] obtain m where "py_min selection_key trained = Inr m" by blast
  then show ?thesis
    using t assms(2-5) by (simp add: train_risk_models_def both_classes_iff Let_def split: prod.split)
qed

text \<open>Where the library fits every candidate, training succeeds exactly on at least 120 records
  whose earlier and later part both hold failures and successes, and raises \<open>ValueError\<close> otherwise.\<close>

theorem training_succeeds_iff:
  assumes "\<And>e x y. \<exists>f. ml_fit M e x y = Inr f" and "temporal_split records = (train, test)"
  shows "case train_risk_models L A M now records out seed lgbm of
      Inr run \<Rightarrow> 120 \<le> length records \<and> both_classes train \<and> both_classes test
    | Inl e \<Rightarrow> exn_cls e = ValueError \<and> (length records < 120 \<or> \<not> both_classes train \<or> \<not> both_classes test)"
proof (cases "120 \<le> length records \<and> both_classes train \<and> both_classes test")
  case True
  from training_total [where L = L and A = A and now = now and out = out and seed = seed and lgbm = lgbm, OF _ assms(2)]
  show ?thesis using True assms(1) by fastforce
next
  case False
  then show ?thesis using assms(2) by (auto simp: train_risk_models_def both_classes_iff not_less)
qed

lemma sample_trained: "\<exists>run. sample_training = Inr run"
  unfolding sample_training_def
  by (rule training_total [OF _ sample_split]) (simp_all add: sample_classes sample_ml_def)

text \<open>The selected model is a candidate of least Brier score on the holdout, of greatest area under
  the precision-recall curve among those, and its estimator is what the library fitted on the earlier
  part alone; the metrics saved with it are those of the holdout.\<close>

theorem selected_model_is_best:
  assumes "train_risk_models L A M now records out seed lgbm = Inr run"
    and "temporal_split records = (train, test)"
  shows "(\<exists>e. (tm_selected_model (tr_summary run), e) \<in> set (candidates M seed lgbm) \<and>
      ml_fit M e (map feature_row train) (map failure_label train) = Inr (art_estimator (tr_artifact run))) \<and>
    ta_metrics (tr_artifact run) = candidate_metrics_of M (map failure_label test)
      (map (\<lambda>r. art_estimator (tr_artifact run) (feature_row r)) test) \<and>
    (tm_selected_model (tr_summary run), ta_metrics (tr_artifact run)) \<in> set (tm_metrics (tr_summary run)) \<and>
    (\<forall>(name, m)\<in>set (tm_metrics (tr_summary run)).
       cm_brier_score (ta_metrics (tr_artifact run)) \<le> cm_brier_score m \<and>
       (cm_brier_score m = cm_brier_score (ta_metrics (tr_artifact run)) \<longrightarrow>
        cm_pr_auc m \<le> cm_pr_auc (ta_metrics (tr_artifact run))))"
  using assms(1)
proof (cases rule: train_risk_models_cases)
  case (1 train' test' trained name f m)
  have t: "train' = train" "test' = test" using 1(2) assms(2) by simp_all
  have f: "art_estimator (tr_artifact run) = f"
    using arg_cong [OF 1(9), of art_estimator] by (simp add: risk_artifact.truncate_def)
  from train_candidates_Inr [OF 1(5)] have "trained \<noteq> []" by (auto simp: candidates_def)
  from py_min_total [OF this, of selection_key] 1(6)
  have in_t: "(name, f, m) \<in> set trained" and least: "\<forall>c\<in>set trained. selection_key (name, f, m) \<le> selection_key c"
    by auto
  from train_candidates_Inr [OF 1(5)] in_t obtain e where
    "(name, e) \<in> set (candidates M seed lgbm)"
    "ml_fit M e (map feature_row train) (map failure_label train) = Inr f"
    "m = candidate_metrics_of M (map failure_label test) (map (\<lambda>r. f (feature_row r)) test)"
    by (auto simp: t)
  moreover have "(name, m) \<in> set (tm_metrics (tr_summary run))"
    using in_t unfolding 1(8) by (force intro: image_eqI [of _ _ "(name, f, m)"])
  moreover have "cm_brier_score m \<le> cm_brier_score m' \<and>
      (cm_brier_score m' = cm_brier_score m \<longrightarrow> cm_pr_auc m' \<le> cm_pr_auc m)"
    if other: "(name', m') \<in> set (tm_metrics (tr_summary run))" for name' m'
  proof -
    obtain f' where "(name', f', m') \<in> set trained" using other unfolding 1(8) by auto
    with least have "selection_key (name, f, m) \<le> selection_key (name', f', m')" by blast
    then show ?thesis by (auto simp: selection_key_def less_eq_prod_def)
  qed
  ultimately show ?thesis unfolding 1(7,10) f by blast
qed

text \<open>C35: a service scores with what the training selected. The selected model is a candidate, fitted by the
  library on the earlier part of the records alone, of least Brier score on the holdout and of greatest area
  under the precision-recall curve among those. When the environment of a service names the artifact that
  was written and loading it returns what was dumped, the scorer of that service accepts its features and
  scores every order with exactly that fitted estimator, under the version the summary reports.\<close>

theorem trained_artifact_is_served:
  assumes "train_risk_models L A M now records out seed lgbm = Inr run"
    and "temporal_split records = (train, test)"
    and "getenv (dp_env D) ''RISK_MODEL_PATH'' [] = path" and "path \<noteq> []"
    and "dp_load D path = Some (risk_artifact.truncate (tr_artifact run))"
  shows "\<exists>candidate estimator m. (tm_selected_model (tr_summary run), candidate) \<in> set (candidates M seed lgbm) \<and>
    ml_fit M candidate (map feature_row train) (map failure_label train) = Inr estimator \<and>
    m = candidate_metrics_of M (map failure_label test) (map (\<lambda>r. estimator (feature_row r)) test) \<and>
    (tm_selected_model (tr_summary run), m) \<in> set (tm_metrics (tr_summary run)) \<and>
    (\<forall>(name, m')\<in>set (tm_metrics (tr_summary run)). cm_brier_score m \<le> cm_brier_score m' \<and>
       (cm_brier_score m' = cm_brier_score m \<longrightarrow> cm_pr_auc m' \<le> cm_pr_auc m)) \<and>
    art_feature_names (tr_artifact run) = FEATURE_NAMES \<and>
    (\<exists>score. scorer_from_environment D = Inr (score, tm_model_version (tr_summary run)) \<and>
      (\<forall>c. ra_failure_probability (score c) = clamp_probability (estimator (extract_features c)) \<and>
         ra_model_version (score c) = tm_model_version (tr_summary run)))"
proof -
  let ?f = "art_estimator (tr_artifact run)" and ?m = "ta_metrics (tr_artifact run)"
  note best = selected_model_is_best [OF assms(1,2)]
  have artifact: "risk_artifact.truncate (tr_artifact run) =
      \<lparr>art_feature_names = FEATURE_NAMES, art_estimator = ?f, art_model_version = tm_model_version (tr_summary run)\<rparr>"
    using assms(1) by (rule train_risk_models_cases) (auto simp: risk_artifact.truncate_def)
  then have "\<exists>score. scorer_from_environment D = Inr (score, tm_model_version (tr_summary run)) \<and>
      (\<forall>c. ra_failure_probability (score c) = clamp_probability (?f (extract_features c)) \<and>
         ra_model_version (score c) = tm_model_version (tr_summary run))"
    using assms(3-5) by (simp add: scorer_from_environment_def trained_scorer_init_def trained_score_eq trained_assessment_def)
  moreover have "art_feature_names (tr_artifact run) = FEATURE_NAMES"
    using arg_cong [OF artifact, of art_feature_names] by (simp add: risk_artifact.truncate_def)
  moreover obtain candidate where "(tm_selected_model (tr_summary run), candidate) \<in> set (candidates M seed lgbm)"
    "ml_fit M candidate (map feature_row train) (map failure_label train) = Inr ?f"
    using best by blast
  ultimately show ?thesis
    using best by (intro exI [of _ candidate] exI [of _ ?f] exI [of _ ?m]) (elim conjE, intro conjI; assumption)
qed

definition trained_deployment :: "training_artifact \<Rightarrow> deployment" where
  "trained_deployment a =
     \<lparr>dp_lib = sample_lib, dp_isoformat = \<lambda>_. ''t'', dp_json = \<lambda>_. ''{}'',
      dp_env = [(''RISK_MODEL_PATH'', ''models/risk_model.joblib'')], dp_default_client = Inl (err ValueError []),
      dp_load = \<lambda>path. if path = ''models/risk_model.joblib'' then Some (risk_artifact.truncate a) else None\<rparr>"

theorem trained_artifact_is_served_witness:
  "\<exists>run score. sample_training = Inr run \<and>
     scorer_from_environment (trained_deployment (tr_artifact run)) = Inr (score, tm_model_version (tr_summary run))"
proof -
  from sample_trained obtain run where run: "sample_training = Inr run" by blast
  show ?thesis
    using trained_artifact_is_served [OF run [unfolded sample_training_def] sample_split,
        of "trained_deployment (tr_artifact run)" "''models/risk_model.joblib''"] run
    by (auto simp: trained_deployment_def getenv_def)
qed

end
