(* ===== verification/Contracts.thy ===== *)
theory Contracts
  imports Execution
begin

text \<open>
  \<^verbatim>\<open>src/src/promiseguard/adapters/contracts.py\<close>: the descriptors of the three adapter contracts,
  which declare the operations, the retries, the meaning of an idempotency key and the compensating
  actions. The lemmas compare what they declare with what the gateway and the sandbox do.
\<close>

section \<open>Descriptors\<close>

definition ADAPTER_CONTRACT_VERSION :: string where
  "ADAPTER_CONTRACT_VERSION = ''v1''"

record timeout_policy =
  tp_request_timeout_seconds :: rat
  tp_verification_timeout_seconds :: rat

definition valid_timeout_policy :: "timeout_policy \<Rightarrow> bool" where
  "valid_timeout_policy p \<longleftrightarrow>
     0 < tp_request_timeout_seconds p \<and> tp_request_timeout_seconds p \<le> 120 \<and>
     0 < tp_verification_timeout_seconds p \<and> tp_verification_timeout_seconds p \<le> 120"

record retry_policy =
  rp_max_attempts :: int
  rp_retry_on :: "adapter_error_class list"
  rp_backoff_seconds :: rat

definition valid_retry_policy :: "retry_policy \<Rightarrow> bool" where
  "valid_retry_policy p \<longleftrightarrow> 1 \<le> rp_max_attempts p \<and> rp_max_attempts p \<le> 5 \<and>
     0 \<le> rp_backoff_seconds p \<and> rp_backoff_seconds p \<le> 30"

record idempotency_semantics =
  is_key_scope :: string
  is_reuse_same_operation :: string
  is_reuse_different_operation :: string
  is_verification_after_timeout :: string

record adapter_observability =
  ao_correlation_header :: string
  ao_log_fields :: "string list"
  ao_metric_names :: "string list"

definition default_observability :: adapter_observability where
  "default_observability =
     \<lparr>ao_correlation_header = ''X-Correlation-ID'',
      ao_log_fields = [''system'', ''operation'', ''error_class'', ''provider_reference'', ''duration_seconds''],
      ao_metric_names = [''promiseguard_adapter_calls_total'', ''promiseguard_adapter_latency_seconds'']\<rparr>"

record adapter_contract =
  ac_system :: string
  ac_contract_version :: string
  ac_operations :: "string list"
  ac_authentication_boundary :: string
  ac_timeout :: timeout_policy
  ac_retry :: retry_policy
  ac_idempotency :: idempotency_semantics
  ac_expected_postconditions :: "string list"
  ac_ambiguous_outcome_handling :: string
  ac_compensating_actions :: "string list"
  ac_rate_limit_per_minute :: "int option"
  ac_observability :: adapter_observability
  ac_error_classes :: "adapter_error_class list"
  ac_audit_evidence :: "string list"
  ac_versioning :: string

definition valid_adapter_contract :: "adapter_contract \<Rightarrow> bool" where
  "valid_adapter_contract k \<longleftrightarrow>
     ac_system k \<in> {''oms'', ''wms'', ''carrier''} \<and> valid_timeout_policy (ac_timeout k) \<and>
     valid_retry_policy (ac_retry k) \<and>
     (case ac_rate_limit_per_minute k of None \<Rightarrow> True | Some n \<Rightarrow> 1 \<le> n)"

text \<open>\<open>tuple(AdapterErrorClass)\<close>\<close>

definition all_error_classes :: "adapter_error_class list" where
  "all_error_classes =
     [AE_SUCCESS, AE_RETRYABLE, AE_FATAL, AE_AMBIGUOUS, AE_CONFLICT, AE_RATE_LIMITED, AE_MALFORMED, AE_AUTH]"

section \<open>The three contracts\<close>

definition WMS_CONTRACT :: adapter_contract where
  "WMS_CONTRACT =
     \<lparr>ac_system = ''wms'', ac_contract_version = ADAPTER_CONTRACT_VERSION,
      ac_operations = [''reserve_alternative'', ''release_alternative''],
      ac_authentication_boundary =
        ''Service identity authenticates to WMS. Core decision logic never holds WMS '' @
        ''credentials and never issues raw WMS commands.'',
      ac_timeout = \<lparr>tp_request_timeout_seconds = 5, tp_verification_timeout_seconds = 5\<rparr>,
      ac_retry = \<lparr>rp_max_attempts = 1, rp_retry_on = [], rp_backoff_seconds = 0\<rparr>,
      ac_idempotency =
        \<lparr>is_key_scope = ''wms-reservation-per-order-location'',
         is_reuse_same_operation = ''return-cached-provider-reference'',
         is_reuse_different_operation = ''conflict'',
         is_verification_after_timeout = ''read-reservation-postcondition-before-retry''\<rparr>,
      ac_expected_postconditions =
        [''reservation exists for (order_id, alternative_location_id)'',
         ''release removes that reservation''],
      ac_ambiguous_outcome_handling =
        ''Timeouts after a possible write are classified AMBIGUOUS. The gateway verifies '' @
        ''the reservation before completing or compensating.'',
      ac_compensating_actions = [''release_alternative''],
      ac_rate_limit_per_minute = Some 120, ac_observability = default_observability,
      ac_error_classes = all_error_classes,
      ac_audit_evidence = [''idempotency_key'', ''correlation_id'', ''provider_reference'', ''error_class''],
      ac_versioning = ''contract v1; additive response fields only''\<rparr>"

definition OMS_CONTRACT :: adapter_contract where
  "OMS_CONTRACT =
     \<lparr>ac_system = ''oms'', ac_contract_version = ADAPTER_CONTRACT_VERSION,
      ac_operations = [''change_location'', ''restore_location'', ''create_split'', ''cancel_split''],
      ac_authentication_boundary =
        ''Service identity authenticates to OMS. Fulfilment mutations occur only through '' @
        ''the governed action gateway.'',
      ac_timeout = \<lparr>tp_request_timeout_seconds = 5, tp_verification_timeout_seconds = 5\<rparr>,
      ac_retry = \<lparr>rp_max_attempts = 1, rp_retry_on = [], rp_backoff_seconds = 0\<rparr>,
      ac_idempotency =
        \<lparr>is_key_scope = ''oms-mutation-per-order-action'',
         is_reuse_same_operation = ''return-cached-provider-reference'',
         is_reuse_different_operation = ''conflict'',
         is_verification_after_timeout = ''read-order-postcondition-before-retry''\<rparr>,
      ac_expected_postconditions =
        [''reroute: order location equals alternative_location_id'',
         ''split: split-shipment flag is present for the order'',
         ''restore/cancel returns the order to the pre-action state''],
      ac_ambiguous_outcome_handling =
        ''Lost acknowledgements are treated as ambiguous. Success is recorded only after '' @
        ''an independent postcondition read.'',
      ac_compensating_actions = [''restore_location'', ''cancel_split''],
      ac_rate_limit_per_minute = Some 120, ac_observability = default_observability,
      ac_error_classes = all_error_classes,
      ac_audit_evidence = [''idempotency_key'', ''correlation_id'', ''provider_reference'', ''error_class''],
      ac_versioning = ''contract v1; additive response fields only''\<rparr>"

definition CARRIER_CONTRACT :: adapter_contract where
  "CARRIER_CONTRACT =
     \<lparr>ac_system = ''carrier'', ac_contract_version = ADAPTER_CONTRACT_VERSION,
      ac_operations = [''upgrade_carrier'', ''restore_carrier'', ''record_delivery_outcome''],
      ac_authentication_boundary =
        ''Service identity authenticates to the carrier API. Tracking reads used for '' @
        ''outcome verification are independent from the upgrade write.'',
      ac_timeout = \<lparr>tp_request_timeout_seconds = 8, tp_verification_timeout_seconds = 8\<rparr>,
      ac_retry = \<lparr>rp_max_attempts = 1, rp_retry_on = [], rp_backoff_seconds = 0\<rparr>,
      ac_idempotency =
        \<lparr>is_key_scope = ''carrier-service-change-per-order'',
         is_reuse_same_operation = ''return-cached-provider-reference'',
         is_reuse_different_operation = ''conflict'',
         is_verification_after_timeout = ''read-carrier-service-postcondition-before-retry''\<rparr>,
      ac_expected_postconditions =
        [''upgrade: recorded service equals upgraded_carrier_service'',
         ''restore: recorded service equals current_carrier_service''],
      ac_ambiguous_outcome_handling =
        ''Timeouts after a possible service change are verified against the carrier record '' @
        ''before retry or compensation.'',
      ac_compensating_actions = [''restore_carrier''],
      ac_rate_limit_per_minute = Some 60, ac_observability = default_observability,
      ac_error_classes = all_error_classes,
      ac_audit_evidence = [''idempotency_key'', ''correlation_id'', ''provider_reference'', ''error_class''],
      ac_versioning = ''contract v1; additive response fields only''\<rparr>"

definition CONTRACTS :: "adapter_contract list" where
  "CONTRACTS = [WMS_CONTRACT, OMS_CONTRACT, CARRIER_CONTRACT]"

lemmas contract_defs = CONTRACTS_def WMS_CONTRACT_def OMS_CONTRACT_def CARRIER_CONTRACT_def

section \<open>The gateway keeps to the declared operations\<close>

text \<open>What the contracts allow a finished execution to record: steps numbered from 1, each call that
  succeeded an operation of one of the contracts, and none recorded more often than that contract
  allows attempts.\<close>

definition declares :: "string \<Rightarrow> adapter_contract \<Rightarrow> bool" where
  "declares name k \<longleftrightarrow> name \<in> set (ac_operations k)"

definition attempts :: "string \<Rightarrow> action_step_result list \<Rightarrow> nat" where
  "attempts name steps = length (filter (\<lambda>s. sp_step_name s = name) steps)"

definition within_contracts :: "action_step_result list \<Rightarrow> bool" where
  "within_contracts steps \<longleftrightarrow>
     map sp_sequence steps = map int [1..<length steps + 1] \<and>
     (\<forall>s\<in>set steps. sp_status s = ST_SUCCEEDED \<longrightarrow>
        length (filter (declares (sp_step_name s)) CONTRACTS) = 1) \<and>
     (\<forall>k\<in>set CONTRACTS. \<forall>name\<in>set (ac_operations k).
        int (attempts name steps) \<le> rp_max_attempts (ac_retry k))"

abbreviation step_shape :: "action_execution \<Rightarrow> (int \<times> string \<times> step_status) list" where
  "step_shape y \<equiv> map (\<lambda>s. (sp_sequence s, sp_step_name s, sp_status s)) (ae_steps y)"

lemmas step_records = success_step_def compensation_step_def succeeded_def compensated_def

lemma single_step_shape:
  assumes "single_step port wall x c now a call undo name undo_name w = (Inr y, w')"
  shows "step_shape y \<in> {[(1, name, ST_SUCCEEDED)], [(1, undo_name, ST_COMPENSATED)]}"
  using assms
  by (auto simp: single_step_def bind_app step_records split: sum.splits prod.splits if_splits)

lemma reroute_shape:
  assumes "reroute port wall x c now w = (Inr y, w')"
  shows "step_shape y \<in>
    {[(1, ''reserve_alternative'', ST_SUCCEEDED), (2, ''change_location'', ST_SUCCEEDED)],
     [(1, ''reserve_alternative'', ST_SUCCEEDED), (2, ''compensate_reroute'', ST_COMPENSATED)]}"
  using assms
  by (auto simp: reroute_def Let_def bind_app step_records split: sum.splits prod.splits if_splits)

lemma executed_steps_shape:
  assumes "execute_steps port wall x c now w = (Inr y, w')"
  shows "step_shape y \<in>
    {[(1, ''reserve_alternative'', ST_SUCCEEDED), (2, ''change_location'', ST_SUCCEEDED)],
     [(1, ''reserve_alternative'', ST_SUCCEEDED), (2, ''compensate_reroute'', ST_COMPENSATED)],
     [(1, ''upgrade_carrier'', ST_SUCCEEDED)], [(1, ''compensate_carrier_upgrade'', ST_COMPENSATED)],
     [(1, ''create_split'', ST_SUCCEEDED)], [(1, ''compensate_split'', ST_COMPENSATED)]}"
proof (cases "cmd_action (ae_command x)")
  case REROUTE
  then have "reroute port wall x c now w = (Inr y, w')" using assms by (simp add: execute_steps_def)
  from reroute_shape [OF this] show ?thesis by blast
next
  case CARRIER_UPGRADE
  then have "carrier_upgrade port wall x c now w = (Inr y, w')" using assms by (simp add: execute_steps_def)
  from single_step_shape [OF this [unfolded carrier_upgrade_def]] show ?thesis by blast
next
  case SPLIT_SHIPMENT
  then have "split_shipment port wall x c now w = (Inr y, w')" using assms by (simp add: execute_steps_def)
  from single_step_shape [OF this [unfolded split_shipment_def]] show ?thesis by blast
qed (use assms in \<open>simp_all add: execute_steps_def\<close>)

definition shape_within_contracts :: "(int \<times> string \<times> step_status) list \<Rightarrow> bool" where
  "shape_within_contracts shape \<longleftrightarrow>
     map fst shape = map int [1..<length shape + 1] \<and>
     list_all (\<lambda>(i, n, t). t = ST_SUCCEEDED \<longrightarrow> length (filter (declares n) CONTRACTS) = 1) shape \<and>
     list_all (\<lambda>k. list_all (\<lambda>name.
       int (length (filter (\<lambda>(i, n, t). n = name) shape)) \<le> rp_max_attempts (ac_retry k)) (ac_operations k)) CONTRACTS"

lemma within_contracts_shape: "within_contracts (ae_steps y) \<longleftrightarrow> shape_within_contracts (step_shape y)"
  by (simp add: within_contracts_def shape_within_contracts_def attempts_def list_all_iff filter_map o_def
      case_prod_unfold)

lemma shapes_within_contracts:
  "list_all shape_within_contracts
    [[(1, ''reserve_alternative'', ST_SUCCEEDED), (2, ''change_location'', ST_SUCCEEDED)],
     [(1, ''reserve_alternative'', ST_SUCCEEDED), (2, ''compensate_reroute'', ST_COMPENSATED)],
     [(1, ''upgrade_carrier'', ST_SUCCEEDED)], [(1, ''compensate_carrier_upgrade'', ST_COMPENSATED)],
     [(1, ''create_split'', ST_SUCCEEDED)], [(1, ''compensate_split'', ST_COMPENSATED)]]"
  by code_simp

lemma contracts_valid: "list_all valid_adapter_contract CONTRACTS"
  by code_simp

text \<open>Whatever the adapters behind the port, an execution that returns records steps the contracts
  allow: numbered from 1, each successful call an operation that exactly one contract declares, and no
  operation more often than the attempts of its contract. The three contracts pass their own validation.\<close>

theorem executed_steps_are_contracted:
  assumes "execute_steps port wall x c now w = (Inr y, w')"
  shows "within_contracts (ae_steps y) \<and> list_all valid_adapter_contract CONTRACTS"
proof
  show "within_contracts (ae_steps y)"
    using executed_steps_shape [OF assms] shapes_within_contracts unfolding within_contracts_shape by auto
  show "list_all valid_adapter_contract CONTRACTS" by (rule contracts_valid)
qed

section \<open>The sandbox keeps to the declared meaning of a key\<close>

text \<open>The four calls that take an idempotency key, by the name of their operation, and what the sandbox
  claims a key for.\<close>

definition keyed_calls :: "order_context \<Rightarrow> (string \<times> (string \<Rightarrow> (sandbox, string) prog)) list" where
  "keyed_calls c =
     [(''reserve_alternative'', p_reserve sandbox_port c), (''change_location'', p_change sandbox_port c),
      (''upgrade_carrier'', p_upgrade sandbox_port c), (''create_split'', p_split sandbox_port c)]"

definition claimed_for :: "string \<Rightarrow> order_context \<Rightarrow> string" where
  "claimed_for name c =
     (if name = ''reserve_alternative''
      then ''reserve:'' @ oc_order_id c @ '':'' @ the (oc_alternative_location_id c)
      else if name = ''change_location''
      then ''reroute:'' @ oc_order_id c @ '':'' @ the (oc_alternative_location_id c)
      else if name = ''upgrade_carrier''
      then ''carrier:'' @ oc_order_id c @ '':'' @ oc_upgraded_carrier_service c
      else ''split:'' @ oc_order_id c)"

definition plain_effect :: "(sandbox \<Rightarrow> sandbox) \<Rightarrow> bool" where
  "plain_effect eff \<longleftrightarrow>
     (\<forall>s. eff (eff s) = eff s \<and> sb_keys (eff s) = sb_keys s \<and> sb_failure_modes (eff s) = sb_failure_modes s \<and>
          (\<forall>ks. eff (s\<lparr>sb_keys := ks\<rparr>) = (eff s)\<lparr>sb_keys := ks\<rparr>))"

text \<open>A call validates its request, and then is one adapter call.\<close>

definition keyed :: "string \<Rightarrow> string \<Rightarrow> string \<Rightarrow> (sandbox, string) prog \<Rightarrow> bool" where
  "keyed name key claim call \<longleftrightarrow>
     (\<exists>e. \<forall>s. call s = (Inl e, s)) \<or>
     (\<exists>eff reference. plain_effect eff \<and> (\<forall>s. call s = adapter_call name key claim eff reference s))"

lemma keyed_raise: "keyed name key claim (raise e)"
  by (auto simp: keyed_def)

lemma keyed_checked: "keyed name key claim (f x) \<Longrightarrow> keyed name key claim (bind (checked p x) f)"
  by (cases "p x") (simp_all add: keyed_def bind_app checked_app)

lemma prog_bind_assoc: "bind (bind m f) g = bind m (\<lambda>x. bind (f x) g)"
  by (rule ext) (simp add: bind_app split: sum.split prod.split)

lemma keyed_call: "plain_effect eff \<Longrightarrow> keyed name key claim (adapter_call name key claim eff reference)"
  by (auto simp: keyed_def)

lemma keyed_calls_keyed:
  assumes "(name, call) \<in> set (keyed_calls c)"
  shows "keyed name key (claimed_for name c) (call key)"
proof -
  consider "name = ''reserve_alternative''" "call = reserve_alternative c"
    | "name = ''change_location''" "call = change_location c"
    | "name = ''upgrade_carrier''" "call = upgrade_carrier c" | "name = ''create_split''" "call = create_split c"
    using assms by (auto simp: keyed_calls_def sandbox_port_def)
  then show ?thesis
  proof cases
    case 1
    have "keyed name key (claimed_for name c) (reserve_inventory \<lparr>wq_meta = m, wq_order_id = oc_order_id c,
        wq_sku = oc_sku c, wq_quantity = oc_quantity c, wq_location_id = l\<rparr>)"
      if "oc_alternative_location_id c = Some l" "rm_idempotency_key m = key" for l m
      unfolding reserve_inventory_def using that
      by (simp add: 1(1) claimed_for_def) (rule keyed_call, simp add: plain_effect_def)
    then show ?thesis
      by (auto simp: 1(2) reserve_alternative_def request_meta_def split: option.split
          intro!: keyed_checked keyed_raise)
  next
    case 2
    have "keyed name key (claimed_for name c) (change_fulfilment_location \<lparr>oq_meta = m, oq_order_id = oc_order_id c,
        oq_from_location = oc_current_fulfilment_location c, oq_to_location = l\<rparr>)"
      if "oc_alternative_location_id c = Some l" "rm_idempotency_key m = key" for l m
      unfolding change_fulfilment_location_def using that
      by (simp add: 2(1) claimed_for_def) (rule keyed_call, simp add: plain_effect_def)
    then show ?thesis
      by (auto simp: 2(2) change_location_def request_meta_def split: option.split
          intro!: keyed_checked keyed_raise)
  next
    case 3
    have "keyed name key (claimed_for name c) (upgrade_service \<lparr>cq_meta = m, cq_order_id = oc_order_id c,
        cq_from_service = oc_current_carrier_service c, cq_to_service = oc_upgraded_carrier_service c\<rparr>)"
      if "rm_idempotency_key m = key" for m
      unfolding upgrade_service_def using that
      by (simp add: 3(1) claimed_for_def) (rule keyed_call, simp add: plain_effect_def)
    then show ?thesis
      by (auto simp: 3(2) upgrade_carrier_def upgrade_request_def request_meta_def prog_bind_assoc
          intro!: keyed_checked)
  next
    case 4
    have "keyed name key (claimed_for name c) (create_split_shipment \<lparr>os_meta = m, os_order_id = oc_order_id c,
        os_quantity = oc_quantity c\<rparr>)"
      if "rm_idempotency_key m = key" for m
      unfolding create_split_shipment_def using that
      by (simp add: 4(1) claimed_for_def) (rule keyed_call, simp add: plain_effect_def)
    then show ?thesis
      by (auto simp: 4(2) create_split_def split_request_def request_meta_def prog_bind_assoc
          intro!: keyed_checked keyed_raise)
  qed
qed

lemma adapter_call_anew:
  assumes "adapter_call st key op eff ref s = (Inr r, s')" "sb_failure_modes t = sb_failure_modes s"
    and "sb_keys t key \<in> {None, Some op}" "plain_effect eff"
  shows "adapter_call st key op eff ref t = (Inr r, (eff t)\<lparr>sb_keys := (sb_keys t)(key \<mapsto> op)\<rparr>)"
  using assms
  by (auto simp: adapter_call_def bind_app claim_key_def respond_def checked_app before_step_def after_step_def
      plain_effect_def split: sum.splits prod.splits if_splits option.splits failure_mode.splits)

lemma adapter_call_keys:
  assumes "adapter_call st key op eff ref s = (Inr r, s')"
  shows "sb_keys s key \<in> {None, Some op}"
  using assms
  by (auto simp: adapter_call_def bind_app claim_key_def split: sum.splits prod.splits if_splits dest!: before_step_state)

lemma adapter_call_again:
  assumes "plain_effect eff" "adapter_call st key op eff ref s = (Inr r, s')"
  shows "adapter_call st key op eff ref s' = (Inr r, s')" "sb_keys s' key = Some op"
    "sb_failure_modes s' = sb_failure_modes s"
proof -
  have s': "s' = (eff s)\<lparr>sb_keys := (sb_keys s)(key \<mapsto> op)\<rparr>"
    using adapter_call_anew [OF assms(2) refl adapter_call_keys [OF assms(2)] assms(1)] assms(2) by simp
  then show key: "sb_keys s' key = Some op" and modes: "sb_failure_modes s' = sb_failure_modes s"
    using assms(1) by (simp_all add: plain_effect_def)
  have "eff s' = s'" "(sb_keys s')(key \<mapsto> op) = sb_keys s'" using assms(1) by (auto simp: s' plain_effect_def)
  then show "adapter_call st key op eff ref s' = (Inr r, s')"
    using adapter_call_anew [OF assms(2) modes _ assms(1)] key by simp
qed

lemma adapter_call_conflict:
  assumes "sb_keys s key = Some op'" "op' \<noteq> op"
  shows "\<exists>e. adapter_call st key op eff ref s = (Inl e, s)"
  using assms by (auto simp: adapter_call_def bind_app claim_key_def before_step_def split: sum.splits)

text \<open>The order and the destination that a claim names, and that the text of a claim tells them apart
  where the identifiers of the orders have no colon.\<close>

definition claim_target :: "string \<Rightarrow> order_context \<Rightarrow> string \<times> string option" where
  "claim_target name c =
     (oc_order_id c,
      if name \<in> {''reserve_alternative'', ''change_location''} then oc_alternative_location_id c
      else if name = ''upgrade_carrier'' then Some (oc_upgraded_carrier_service c) else None)"

lemma colon_split:
  "CHR '':'' \<notin> set a \<Longrightarrow> CHR '':'' \<notin> set b \<Longrightarrow> a @ CHR '':'' # x = b @ CHR '':'' # y \<longleftrightarrow> a = b \<and> x = y"
proof (induction a arbitrary: b)
  case Nil
  then show ?case by (cases b) auto
next
  case (Cons k a)
  then show ?case by (cases b) auto
qed

lemma claims_by_operation:
  assumes "(name, call) \<in> set (keyed_calls c)" "(name', call') \<in> set (keyed_calls c')" "name' \<noteq> name"
  shows "claimed_for name' c' \<noteq> claimed_for name c"
  using assms by (auto simp: keyed_calls_def claimed_for_def)

lemma claims_by_target:
  assumes "CHR '':'' \<notin> set (oc_order_id c)" "CHR '':'' \<notin> set (oc_order_id c')"
    and "name \<in> {''reserve_alternative'', ''change_location''} \<longrightarrow>
      oc_alternative_location_id c \<noteq> None \<and> oc_alternative_location_id c' \<noteq> None"
    and "claimed_for name c' = claimed_for name c"
  shows "claim_target name c' = claim_target name c"
  using assms by (auto simp: claim_target_def claimed_for_def colon_split split: if_splits)

lemma unplaced_refused:
  assumes "(name, call) \<in> set (keyed_calls c)" and "name \<in> {''reserve_alternative'', ''change_location''}"
    and "oc_alternative_location_id c = None"
  shows "\<exists>e. call key s = (Inl e, s)"
  using assms by (auto simp: keyed_calls_def sandbox_port_def reserve_alternative_def change_location_def bind_app)

text \<open>C36: what the sandbox keeps of the meaning of a key that the contracts declare. Right after a call that
  takes a key has succeeded, the same call with the same key returns the same reference and changes
  nothing. A call with that key for another operation raises and changes nothing, and so does a call
  of the same operation for another order or destination, provided no identifier of the two orders has a
  colon: the sandbox compares texts in which a colon separates the order from the destination.\<close>

theorem sandbox_keys_follow_contract:
  assumes "(name, call) \<in> set (keyed_calls c)" and "(name', call') \<in> set (keyed_calls c')"
    and "call key s = (Inr reference, s')"
  shows "call key s' = (Inr reference, s') \<and>
    (name' \<noteq> name \<longrightarrow> (\<exists>e. call' key s' = (Inl e, s'))) \<and>
    (name' = name \<and> claim_target name c' \<noteq> claim_target name c \<and>
       CHR '':'' \<notin> set (oc_order_id c) \<and> CHR '':'' \<notin> set (oc_order_id c') \<longrightarrow> (\<exists>e. call' key s' = (Inl e, s')))"
proof -
  obtain eff ref where eff: "plain_effect eff" "\<And>s. call key s = adapter_call name key (claimed_for name c) eff ref s"
    using keyed_calls_keyed [OF assms(1), of key] assms(3) unfolding keyed_def by auto
  note again = adapter_call_again [OF eff(1) assms(3) [unfolded eff(2)]]
  have other: "\<exists>e. call' key s' = (Inl e, s')" if "claimed_for name' c' \<noteq> claimed_for name c"
    using keyed_calls_keyed [OF assms(2), of key] adapter_call_conflict [OF again(2)] that
    unfolding keyed_def by metis
  moreover have "\<exists>e. call' key s' = (Inl e, s')"
    if t: "name' = name" "claim_target name c' \<noteq> claim_target name c"
      "CHR '':'' \<notin> set (oc_order_id c)" "CHR '':'' \<notin> set (oc_order_id c')"
  proof (cases "name \<in> {''reserve_alternative'', ''change_location''} \<and> oc_alternative_location_id c' = None")
    case True
    then show ?thesis using unplaced_refused [OF assms(2), of key s'] t(1) by blast
  next
    case False
    have "\<not> (name \<in> {''reserve_alternative'', ''change_location''} \<and> oc_alternative_location_id c = None)"
      using unplaced_refused [OF assms(1), of key s] assms(3) by auto
    with False have placed: "name \<in> {''reserve_alternative'', ''change_location''} \<longrightarrow>
        oc_alternative_location_id c \<noteq> None \<and> oc_alternative_location_id c' \<noteq> None" by argo
    have "claimed_for name' c' \<noteq> claimed_for name c"
      using claims_by_target [OF t(3,4) placed] t(1,2) by metis
    then show ?thesis by (rule other)
  qed
  ultimately show ?thesis using claims_by_operation [OF assms(1,2)] by (simp add: eff(2) again(1))
qed

text \<open>Two orders whose claims are one text: the second reservation takes the key of the first as its own.\<close>

lemma colon_claims_collide:
  "claimed_for ''reserve_alternative'' (sample_order\<lparr>oc_order_id := ''A:B'', oc_alternative_location_id := Some ''C''\<rparr>) =
   claimed_for ''reserve_alternative'' (sample_order\<lparr>oc_order_id := ''A'', oc_alternative_location_id := Some ''B:C''\<rparr>)"
  by (simp add: claimed_for_def)

definition sample_split_order :: order_context where
  "sample_split_order = sample_order\<lparr>oc_split_shipment_possible := True\<rparr>"

lemma sample_split_result:
  "create_split sample_split_order ''key-12345'' empty_sandbox =
     (Inr ''split-shipment:ORD-1'',
      empty_sandbox\<lparr>sb_keys := [''key-12345'' \<mapsto> ''split:ORD-1''], sb_split_shipments := {''ORD-1''}\<rparr>)"
  by (simp add: sample_split_order_def sample_order_def create_split_def split_request_def request_meta_def
      create_split_shipment_def adapter_call_def bind_app checked_app valid_request_meta_def valid_oms_split_def
      len_within_def positive_quantity_def before_step_def after_step_def claim_key_def respond_def
      empty_sandbox_def DEFAULT_TENANT_ID_def)

theorem sandbox_keys_follow_contract_witness:
  "\<exists>s. create_split sample_split_order ''key-12345'' s = (Inr ''split-shipment:ORD-1'', s) \<and>
     (\<exists>e. upgrade_carrier sample_split_order ''key-12345'' s = (Inl e, s))"
  using sandbox_keys_follow_contract [of "''create_split''" "create_split sample_split_order" sample_split_order
      "''upgrade_carrier''" "upgrade_carrier sample_split_order" sample_split_order "''key-12345''" empty_sandbox
      "''split-shipment:ORD-1''"
      "empty_sandbox\<lparr>sb_keys := [''key-12345'' \<mapsto> ''split:ORD-1''], sb_split_shipments := {''ORD-1''}\<rparr>"]
  using sample_split_result by (auto simp: keyed_calls_def sandbox_port_def claimed_for_def)

text \<open>The reference is not cached, though: after the reservation was released, the same call with the
  same key reserves again.\<close>

lemma released_key_reserves_again:
  assumes "valid_order_context c" and "p_reserve sandbox_port c key s = (Inr reference, s1)"
    and "p_release sandbox_port c s1 = (Inr released, s2)"
  shows "\<exists>s3. p_reserve sandbox_port c key s2 = (Inr reference, s3) \<and>
    \<not> sandbox_reserved c s2 \<and> sandbox_reserved c s3"
proof -
  have "(''reserve_alternative'', p_reserve sandbox_port c) \<in> set (keyed_calls c)" by (simp add: keyed_calls_def)
  from keyed_calls_keyed [OF this, of key] assms(2) obtain eff ref where eff: "plain_effect eff"
    "\<And>s. p_reserve sandbox_port c key s =
       adapter_call ''reserve_alternative'' key (claimed_for ''reserve_alternative'' c) eff ref s"
    unfolding keyed_def by auto
  note again = adapter_call_again [OF eff(1) assms(2) [unfolded eff(2)]]
  have "sb_failure_modes s2 = sb_failure_modes s" "sb_keys s2 key = Some (claimed_for ''reserve_alternative'' c)"
    using assms(3) again(2,3)
    by (auto simp: sandbox_port_def release_alternative_app [OF assms(1)] split: option.splits)
  with adapter_call_anew [OF assms(2) [unfolded eff(2)] _ _ eff(1), of s2]
  obtain s3 where s3: "p_reserve sandbox_port c key s2 = (Inr reference, s3)" by (auto simp: eff(2))
  moreover have "\<not> sandbox_reserved c s2" using sandbox.release_ok [OF assms(1), of s1] assms(3) by auto
  moreover have "sandbox_reserved c s3" by (rule sandbox.reserve_ok [OF s3])
  ultimately show ?thesis by blast
qed

end
