(* ===== verification/Healthy_Path.thy ===== *)
theory Healthy_Path
  imports Workflow Contracts
begin

text \<open>
  What the governed workflow achieves where nothing stands in its way. A port that is ready for a
  command carries its calls out: the locale \<open>responsive_port\<close> adds that to the contract of a port, and
  the sandbox without injected failures satisfies it. On such a port an execution succeeds, and an
  approval that is granted is carried out.
\<close>

section \<open>A responsive port\<close>

text \<open>What an action needs of the order. An alternative location with an empty name is not one: the
  validators of the order and the simulator accept it, the requests to the systems do not.\<close>

definition can_carry :: "order_context \<Rightarrow> recovery_action \<Rightarrow> bool" where
  "can_carry c a \<longleftrightarrow>
     (case a of
        REROUTE \<Rightarrow> (case oc_alternative_location_id c of None \<Rightarrow> False | Some l \<Rightarrow> l \<noteq> [])
      | CARRIER_UPGRADE \<Rightarrow> True
      | SPLIT_SHIPMENT \<Rightarrow> oc_split_shipment_possible c
      | _ \<Rightarrow> False)"

text \<open>The keys of a command whose suffixes still fit a request.\<close>

definition command_key :: "string \<Rightarrow> bool" where
  "command_key k \<longleftrightarrow> len_within 8 160 k"

locale responsive_port = operations_contract port held reserved
  for port :: "'w operations_port" and held and reserved +
  fixes ready :: "order_context \<Rightarrow> string \<Rightarrow> 'w \<Rightarrow> bool"
  assumes seed_ready: "ready c k w \<Longrightarrow> p_seed port c w = (Inr (), w') \<Longrightarrow> ready c k w'"
    and reserve_ready: "ready c k w \<Longrightarrow> valid_order_context c \<Longrightarrow> command_key k \<Longrightarrow> can_carry c REROUTE \<Longrightarrow>
      \<exists>r w'. p_reserve port c (k @ '':reserve'') w = (Inr r, w') \<and> ready c k w'"
    and change_ready: "ready c k w \<Longrightarrow> valid_order_context c \<Longrightarrow> command_key k \<Longrightarrow> can_carry c REROUTE \<Longrightarrow>
      \<exists>r w'. p_change port c (k @ '':change-location'') w = (Inr r, w')"
    and upgrade_ready: "ready c k w \<Longrightarrow> valid_order_context c \<Longrightarrow> command_key k \<Longrightarrow>
      \<exists>r w'. p_upgrade port c (k @ '':carrier'') w = (Inr r, w')"
    and split_ready: "ready c k w \<Longrightarrow> valid_order_context c \<Longrightarrow> command_key k \<Longrightarrow> can_carry c SPLIT_SHIPMENT \<Longrightarrow>
      \<exists>r w'. p_split port c (k @ '':split'') w = (Inr r, w')"
begin

lemma steps_succeed:
  assumes "ready c (cmd_idempotency_key (ae_command x)) w" and "valid_order_context c"
    and "command_key (cmd_idempotency_key (ae_command x))" and "can_carry c (cmd_action (ae_command x))"
  shows "\<exists>y w'. execute_steps port wall x c now w = (Inr y, w') \<and> ae_status y = AC_SUCCEEDED \<and>
    ae_command y = ae_command x \<and> held c (cmd_action (ae_command x)) w'"
proof (cases "cmd_action (ae_command x)")
  case REROUTE
  obtain r1 w1 where r1: "p_reserve port c (cmd_idempotency_key (ae_command x) @ '':reserve'') w = (Inr r1, w1)"
    "ready c (cmd_idempotency_key (ae_command x)) w1"
    using reserve_ready [OF assms(1-3)] assms(4) REROUTE by auto
  obtain r2 w2 where r2: "p_change port c (cmd_idempotency_key (ae_command x) @ '':change-location'') w1 = (Inr r2, w2)"
    using change_ready [OF r1(2) assms(2,3)] assms(4) REROUTE by auto
  then show ?thesis
    using r1 change_ok [OF r2] REROUTE
    by (simp add: execute_steps_def reroute_def Let_def verified_call_def catch_def succeeded_def)
next
  case CARRIER_UPGRADE
  obtain r1 w1 where r1: "p_upgrade port c (cmd_idempotency_key (ae_command x) @ '':carrier'') w = (Inr r1, w1)"
    using upgrade_ready [OF assms(1-3)] by auto
  then show ?thesis
    using upgrade_ok [OF r1] CARRIER_UPGRADE
    by (simp add: execute_steps_def carrier_upgrade_def single_step_def succeeded_def)
next
  case SPLIT_SHIPMENT
  obtain r1 w1 where r1: "p_split port c (cmd_idempotency_key (ae_command x) @ '':split'') w = (Inr r1, w1)"
    using split_ready [OF assms(1-3)] assms(4) SPLIT_SHIPMENT by auto
  then show ?thesis
    using split_ok [OF r1] SPLIT_SHIPMENT
    by (simp add: execute_steps_def split_shipment_def single_step_def succeeded_def)
qed (use assms(4) in \<open>simp_all add: can_carry_def\<close>)

end

section \<open>The sandbox is responsive\<close>

definition free_key :: "sandbox \<Rightarrow> string \<Rightarrow> string \<Rightarrow> bool" where
  "free_key s key operation \<longleftrightarrow> sb_keys s key \<in> {None, Some operation}"

definition sandbox_ready :: "order_context \<Rightarrow> string \<Rightarrow> sandbox \<Rightarrow> bool" where
  "sandbox_ready c k s \<longleftrightarrow>
     sb_failure_modes s = Map.empty \<and>
     free_key s (k @ '':reserve'') (claimed_for ''reserve_alternative'' c) \<and>
     free_key s (k @ '':change-location'') (claimed_for ''change_location'' c) \<and>
     free_key s (k @ '':carrier'') (claimed_for ''upgrade_carrier'' c) \<and>
     free_key s (k @ '':split'') (claimed_for ''create_split'' c)"

lemma adapter_call_ready:
  assumes "sb_failure_modes s = Map.empty" "free_key s key op" "plain_effect eff" "len_within 1 240 ref"
  shows "adapter_call st key op eff ref s = (Inr ref, (eff s)\<lparr>sb_keys := (sb_keys s)(key \<mapsto> op)\<rparr>)"
  using assms
  by (auto simp: adapter_call_def bind_app before_step_def after_step_def claim_key_def respond_def checked_app
      plain_effect_def free_key_def)

lemma suffixed_key: "command_key k \<Longrightarrow> length suffix \<le> 20 \<Longrightarrow> len_within 8 180 (k @ suffix)"
  by (simp add: command_key_def len_within_def)

lemma ready_reserve:
  assumes "sandbox_ready c k s" "valid_order_context c" "command_key k" "can_carry c REROUTE"
  shows "\<exists>r s'. reserve_alternative c (k @ '':reserve'') s = (Inr r, s') \<and> sandbox_ready c k s'"
proof -
  obtain l where l: "oc_alternative_location_id c = Some l" "l \<noteq> []"
    using assms(4) by (auto simp: can_carry_def split: option.splits)
  let ?eff = "\<lambda>s. s\<lparr>sb_reservations := insert (oc_order_id c, l) (sb_reservations s)\<rparr>"
  let ?ref = "''reservation:'' @ oc_order_id c @ '':'' @ l"
  have len: "len_within 1 80 l" "len_within 1 120 (oc_order_id c)"
    using valid_order_meta(1,8) [OF assms(2)] l by (auto simp: len_within_def Suc_le_eq)
  then have ref: "len_within 1 240 ?ref" by (simp add: len_within_def)
  have req: "valid_request_meta \<lparr>rm_idempotency_key = k @ '':reserve'', rm_tenant_id = oc_tenant_id c\<rparr>"
    using valid_order_meta(2) [OF assms(2)] suffixed_key [OF assms(3), of "'':reserve''"]
    by (simp add: valid_request_meta_def)
  have sku: "len_within 1 120 (oc_sku c)" using assms(2) by (simp add: valid_order_context_def)
  have eff: "plain_effect ?eff" by (simp add: plain_effect_def)
  have key: "sb_failure_modes s = Map.empty" "free_key s (k @ '':reserve'') (claimed_for ''reserve_alternative'' c)"
    using assms(1) by (simp_all add: sandbox_ready_def)
  have "reserve_alternative c (k @ '':reserve'') s =
      (Inr ?ref, (?eff s)\<lparr>sb_keys := (sb_keys s)(k @ '':reserve'' \<mapsto> claimed_for ''reserve_alternative'' c)\<rparr>)"
    using adapter_call_ready [OF key eff ref, of "''reserve_alternative''"] req len sku valid_order_meta(4) [OF assms(2)] l(1)
    by (simp add: reserve_alternative_def request_meta_def bind_app checked_app valid_wms_reserve_def
        reserve_inventory_def claimed_for_def)
  then show ?thesis using assms(1) by (simp add: sandbox_ready_def free_key_def)
qed

lemma ready_change:
  assumes "sandbox_ready c k s" "valid_order_context c" "command_key k" "can_carry c REROUTE"
  shows "\<exists>r s'. change_location c (k @ '':change-location'') s = (Inr r, s')"
proof -
  obtain l where l: "oc_alternative_location_id c = Some l" "l \<noteq> []"
    using assms(4) by (auto simp: can_carry_def split: option.splits)
  let ?eff = "\<lambda>s. s\<lparr>sb_order_locations := (sb_order_locations s)(oc_order_id c \<mapsto> l)\<rparr>"
  let ?ref = "''order-location:'' @ oc_order_id c @ '':'' @ l"
  have len: "len_within 1 80 l" "len_within 1 120 (oc_order_id c)" "len_within 1 80 (oc_current_fulfilment_location c)"
    using valid_order_meta(1,3,8) [OF assms(2)] l by (auto simp: len_within_def Suc_le_eq)
  then have ref: "len_within 1 240 ?ref" by (simp add: len_within_def)
  have req: "valid_request_meta \<lparr>rm_idempotency_key = k @ '':change-location'', rm_tenant_id = oc_tenant_id c\<rparr>"
    using valid_order_meta(2) [OF assms(2)] suffixed_key [OF assms(3), of "'':change-location''"]
    by (simp add: valid_request_meta_def)
  have eff: "plain_effect ?eff" by (simp add: plain_effect_def)
  have key: "sb_failure_modes s = Map.empty" "free_key s (k @ '':change-location'') (claimed_for ''change_location'' c)"
    using assms(1) by (simp_all add: sandbox_ready_def)
  show ?thesis
    using adapter_call_ready [OF key eff ref, of "''change_location''"] req len l(1)
    by (simp add: change_location_def request_meta_def bind_app checked_app valid_oms_change_def
        change_fulfilment_location_def claimed_for_def)
qed

lemma ready_upgrade:
  assumes "sandbox_ready c k s" "valid_order_context c" "command_key k"
  shows "\<exists>r s'. upgrade_carrier c (k @ '':carrier'') s = (Inr r, s')"
proof -
  let ?eff = "\<lambda>s. s\<lparr>sb_carrier_services := (sb_carrier_services s)(oc_order_id c \<mapsto> oc_upgraded_carrier_service c)\<rparr>"
  let ?ref = "''carrier-service:'' @ oc_order_id c @ '':'' @ oc_upgraded_carrier_service c"
  note len = valid_order_meta(1,5,6) [OF assms(2)]
  then have ref: "len_within 1 240 ?ref" by (simp add: len_within_def)
  have req: "valid_request_meta \<lparr>rm_idempotency_key = k @ '':carrier'', rm_tenant_id = oc_tenant_id c\<rparr>"
    using valid_order_meta(2) [OF assms(2)] suffixed_key [OF assms(3), of "'':carrier''"]
    by (simp add: valid_request_meta_def)
  have eff: "plain_effect ?eff" by (simp add: plain_effect_def)
  have key: "sb_failure_modes s = Map.empty" "free_key s (k @ '':carrier'') (claimed_for ''upgrade_carrier'' c)"
    using assms(1) by (simp_all add: sandbox_ready_def)
  show ?thesis
    using adapter_call_ready [OF key eff ref, of "''upgrade_carrier''"] req len
    by (simp add: upgrade_carrier_def upgrade_request_def request_meta_def bind_app checked_app
        valid_carrier_upgrade_def upgrade_service_def claimed_for_def)
qed

lemma ready_split:
  assumes "sandbox_ready c k s" "valid_order_context c" "command_key k" "can_carry c SPLIT_SHIPMENT"
  shows "\<exists>r s'. create_split c (k @ '':split'') s = (Inr r, s')"
proof -
  let ?eff = "\<lambda>s. s\<lparr>sb_split_shipments := insert (oc_order_id c) (sb_split_shipments s)\<rparr>"
  let ?ref = "''split-shipment:'' @ oc_order_id c"
  note len = valid_order_meta(1,4) [OF assms(2)]
  then have ref: "len_within 1 240 ?ref" by (simp add: len_within_def)
  have req: "valid_request_meta \<lparr>rm_idempotency_key = k @ '':split'', rm_tenant_id = oc_tenant_id c\<rparr>"
    using valid_order_meta(2) [OF assms(2)] suffixed_key [OF assms(3), of "'':split''"]
    by (simp add: valid_request_meta_def)
  have eff: "plain_effect ?eff" by (simp add: plain_effect_def)
  have key: "sb_failure_modes s = Map.empty" "free_key s (k @ '':split'') (claimed_for ''create_split'' c)"
    using assms(1) by (simp_all add: sandbox_ready_def)
  show ?thesis
    using adapter_call_ready [OF key eff ref, of "''create_split''"] req len assms(4)
    by (simp add: create_split_def split_request_def request_meta_def bind_app checked_app
        valid_oms_split_def create_split_shipment_def claimed_for_def can_carry_def)
qed

interpretation sandbox: responsive_port sandbox_port postcondition sandbox_reserved sandbox_ready
proof unfold_locales
  show "sandbox_ready c k w \<Longrightarrow> p_seed sandbox_port c w = (Inr (), w') \<Longrightarrow> sandbox_ready c k w'" for c k w w'
    by (auto simp: sandbox_port_def seed_order_def modify_def sandbox_ready_def free_key_def)
  show "sandbox_ready c k w \<Longrightarrow> valid_order_context c \<Longrightarrow> command_key k \<Longrightarrow> can_carry c REROUTE \<Longrightarrow>
      \<exists>r w'. p_reserve sandbox_port c (k @ '':reserve'') w = (Inr r, w') \<and> sandbox_ready c k w'" for c k w
    unfolding sandbox_port_def operations_port.simps by (rule ready_reserve)
  show "sandbox_ready c k w \<Longrightarrow> valid_order_context c \<Longrightarrow> command_key k \<Longrightarrow> can_carry c REROUTE \<Longrightarrow>
      \<exists>r w'. p_change sandbox_port c (k @ '':change-location'') w = (Inr r, w')" for c k w
    unfolding sandbox_port_def operations_port.simps by (rule ready_change)
  show "sandbox_ready c k w \<Longrightarrow> valid_order_context c \<Longrightarrow> command_key k \<Longrightarrow>
      \<exists>r w'. p_upgrade sandbox_port c (k @ '':carrier'') w = (Inr r, w')" for c k w
    unfolding sandbox_port_def operations_port.simps by (rule ready_upgrade)
  show "sandbox_ready c k w \<Longrightarrow> valid_order_context c \<Longrightarrow> command_key k \<Longrightarrow> can_carry c SPLIT_SHIPMENT \<Longrightarrow>
      \<exists>r w'. p_split sandbox_port c (k @ '':split'') w = (Inr r, w')" for c k w
    unfolding sandbox_port_def operations_port.simps by (rule ready_split)
qed

section \<open>An execution succeeds\<close>

text \<open>No recorded action has the decision, the key or the identifier of the command.\<close>

definition unclaimed :: "lib \<Rightarrow> action_command \<Rightarrow> database \<Rightarrow> bool" where
  "unclaimed L c db \<longleftrightarrow>
     (\<forall>r\<in>set (tb_actions db). acr_decision_id r \<noteq> cmd_decision_id c \<and>
        acr_idempotency_key r \<noteq> cmd_idempotency_key c \<and> acr_action_id r \<noteq> action_id_of L c)"

lemma unclaimed_claim:
  assumes "actions_good L db" "distinguishes_decisions L" "unclaimed L c db"
  shows "claim_execution L c t db =
    (Inr (Inr (executing_of L c t)), db\<lparr>tb_actions := tb_actions db @ [executing_row L c t]\<rparr>)"
proof -
  have "\<not> claimed (cmd_decision_id c) db" using assms(3) by (auto simp: unclaimed_def claimed_def)
  moreover have "List.find (\<lambda>r. acr_idempotency_key r = cmd_idempotency_key c) (tb_actions db) = None"
    using assms(3) by (auto simp: unclaimed_def find_None_iff)
  moreover have "row_get acr_action_id (action_id_of L c) (tb_actions db) = None"
    using assms(3) by (auto simp: unclaimed_def row_get_None)
  ultimately show ?thesis
    by (simp add: claim_execution_def get_by_decision_None [THEN iffD2] session_def Let_def bind_def
        action_record_def row_insert_def executing_row_def executing_of_def command_fingerprint_def)
qed

lemma execution_succeeds:
  fixes w :: "sandbox world"
  assumes g: "actions_good L (w_db w)" and cg: "controls_good (w_db w)" and fp: "distinguishes_decisions L"
    and k: "row_get rcr_control_key kill_switch_key (tb_controls (w_db w)) = Some r" "\<not> rcr_enabled r"
    and new: "unclaimed L command (w_db w)"
    and c: "valid_order_context c" "can_carry c (cmd_action command)" "command_key (cmd_idempotency_key command)"
    and ready: "sandbox_ready c (cmd_idempotency_key command) (w_ops w)"
  shows "\<exists>y w'. execute_action L governed sandbox_port wall command c now w = (Inr y, w') \<and>
    ae_status y = AC_SUCCEEDED \<and> ae_command y = command \<and> postcondition c (cmd_action command) (w_ops w') \<and>
    claimed (cmd_decision_id command) (w_db w') \<and>
    (\<exists>row. row_get acr_action_id (action_id_of L command) (tb_actions (w_db w')) = Some row \<and>
       acr_status row = AC_SUCCEEDED)"
proof -
  let ?t = "now_or now (wall 0)"
  let ?x = "executing_of L command ?t"
  let ?w = "w\<lparr>w_db := (w_db w)\<lparr>tb_actions := tb_actions (w_db w) @ [executing_row L command ?t]\<rparr>\<rparr>"
  obtain ks where ks: "read_kill_switch (w_db w) = (Inr ks, w_db w)" using cg by (rule read_kill_switch_app)
  then have off: "\<not> ks_active ks" using k by (auto simp: read_kill_switch_def kill_switch_model_def split: if_splits)
  note claim = unclaimed_claim [OF g fp new, of ?t]
  have app: "execute_action L governed sandbox_port wall command c now w =
      run_claimed governed sandbox_port wall ?x c ?t ?w"
    using off by (simp add: execute_action_app [of w ks L command now wall, OF ks claim])
  obtain res w' where run: "run_claimed governed sandbox_port wall ?x c ?t ?w = (res, w')" by fastforce
  obtain os where os: "p_seed sandbox_port c (w_ops w) = (Inr (), os)" using sandbox.seed_total by blast
  have "sandbox_ready c (cmd_idempotency_key command) os" using sandbox.seed_ready [OF ready os] .
  then obtain y v where y: "execute_steps sandbox_port wall ?x c ?t os = (Inr y, v)" "ae_status y = AC_SUCCEEDED"
    "ae_command y = command" "postcondition c (cmd_action command) v"
    using sandbox.steps_succeed [of c ?x os wall ?t] c by (auto simp: executing_of_def)
  have fresh: "row_get acr_action_id (action_id_of L command) (tb_actions (w_db w)) = None"
    "\<not> claimed (cmd_decision_id command) (w_db w)"
    "cmd_idempotency_key command \<notin> acr_idempotency_key ` set (tb_actions (w_db w))"
    using new by (auto simp: unclaimed_def row_get_None claimed_def)
  have good: "actions_good L (w_db ?w)" using claim_good [OF g fresh(2,1,3)] by simp
  have row: "row_get acr_action_id (ae_action_id ?x) (tb_actions (w_db ?w)) = Some (executing_row L command ?t)"
    using fresh(1) by (simp add: row_get_append executing_of_def executing_row_def)
  have a: "executable (cmd_action (ae_command ?x))"
    using c(2) by (auto simp: executing_of_def executable_def can_carry_def split: recovery_action.splits)
  have "claimed (cmd_decision_id command) (w_db ?w)" by (simp add: claimed_def executing_row_def)
  then have "res = Inr y \<and> w_ops w' = v \<and> claimed (cmd_decision_id command) (w_db w') \<and>
      (\<exists>row. row_get acr_action_id (action_id_of L command) (tb_actions (w_db w')) = Some row \<and>
         acr_status row = AC_SUCCEEDED)"
    using run_claimed_outcome [OF good _ row a _ run, of os] cg os y(1,2)
    by (auto simp: written_back_def executing_of_def)
  then show ?thesis using app run y(2-4) by auto
qed

section \<open>A granted approval is carried out\<close>

text \<open>The command that \<open>command_for_decision\<close> builds.\<close>

definition decided_command ::
  "lib \<Rightarrow> decision_trace \<Rightarrow> recovery_option \<Rightarrow> evaluation_request \<Rightarrow> string \<Rightarrow> string option \<Rightarrow> action_command"
where
  "decided_command L t selected q actor_id approved_by =
     \<lparr>cmd_decision_id = dt_decision_id t, cmd_order_id = oc_order_id (er_order q),
      cmd_action = dr_selected_action (dt_recommendation t),
      cmd_idempotency_key = digest_id L ''pg:'' 32 (idempotency_material t), cmd_requested_by = actor_id,
      cmd_approved_by = approved_by, cmd_expected_intervention_cost = ro_intervention_cost selected,
      cmd_parameters = the (command_parameters (dr_selected_action (dt_recommendation t)) (er_order q))\<rparr>"

lemma decided_command_key:
  assumes "5 \<le> length (sha256_hex L (idempotency_material t))"
  shows "command_key (cmd_idempotency_key (decided_command L t s q actor by))"
  using assms by (simp add: decided_command_def command_key_def len_within_def digest_id_def)

lemma command_for_decision_app:
  assumes "sql_get (dt_decision_id t) (w_db w) = Some t" "selected_option t = Inr s" "valid_recovery_option s"
    and "can_carry (er_order q) (dr_selected_action (dt_recommendation t))"
    and "5 \<le> length (sha256_hex L (idempotency_material t))"
  shows "command_for_decision L (dt_decision_id t) q actor by w = (Inr (decided_command L t s q actor by), w)"
proof -
  have "\<exists>ps. command_parameters (dr_selected_action (dt_recommendation t)) (er_order q) = Some ps"
    using assms(4) by (cases "dr_selected_action (dt_recommendation t)") (simp_all add: can_carry_def)
  then obtain ps where ps: "command_parameters (dr_selected_action (dt_recommendation t)) (er_order q) = Some ps" by blast
  have "valid_action_command (decided_command L t s q actor by)"
    using assms(3,5) by (simp add: valid_action_command_def decided_command_def valid_recovery_option_def
        len_within_def digest_id_def)
  then show ?thesis
    using assms(1,2) ps
    by (simp add: command_for_decision_def workflow_decision_def bind_def Let_def checked_app decided_command_def)
qed

lemma granted_executes:
  fixes w :: "sandbox world"
  assumes "workflow_good L (w_db w)" "distinguishes_decisions L"
    and "row_get rcr_control_key kill_switch_key (tb_controls (w_db w)) = Some r" "\<not> rcr_enabled r"
    and "approval_get k (w_db w) = Some pending" "sql_get (ar_decision_id pending) (w_db w) = Some t"
      "ar_requested_action pending = dr_selected_action (dt_recommendation t)"
    and "get_request_payload (dt_event_id t) (w_db w) = Some q" "valid_evaluation_request q"
    and "assert_approval_authority inp t q = Inr ()"
    and "approve env k inp now (wall 0) (w_db w) = (Inr rec, db1)"
    and "selected_option t = Inr s" "valid_recovery_option s"
      "can_carry (er_order q) (dr_selected_action (dt_recommendation t))"
    and "5 \<le> length (sha256_hex L (idempotency_material t))"
    and "unclaimed L (decided_command L t s q (ar_requested_by rec) (ar_decided_by rec)) (w_db w)"
    and "sandbox_ready (er_order q) (digest_id L ''pg:'' 32 (idempotency_material t)) (w_ops w)"
  shows "\<exists>x w'. approve_and_execute L env governed sandbox_port wall k inp now w =
      (Inr (workflow_state_of t (Some rec) (Some x) None), w') \<and>
    ae_status x = AC_SUCCEEDED \<and> cmd_approved_by (ae_command x) = Some (ad_actor_id inp) \<and>
    postcondition (er_order q) (dr_selected_action (dt_recommendation t)) (w_ops w') \<and>
    claimed (dt_decision_id t) (w_db w') \<and>
    world_frame (decided_command L t s q (ar_requested_by rec) (ar_decided_by rec)) (w\<lparr>w_db := db1\<rparr>) w' \<and>
    (\<exists>row\<in>set (tb_actions (w_db w')). acr_status row = AC_SUCCEEDED)"
proof -
  let ?c = "decided_command L t s q (ar_requested_by rec) (ar_decided_by rec)"
  let ?w = "w\<lparr>w_db := db1\<rparr>" and ?wall = "\<lambda>n. wall (Suc n)"
  have ag: "approvals_good (w_db w)" and dg: "decisions_good L (w_db w)" and cg: "controls_good (w_db w)"
    and g: "actions_good L (w_db w)"
    using assms(1) by (simp_all add: workflow_good_def)
  have id: "dt_decision_id t = ar_decision_id pending" using sql.look_id [OF dg assms(6)] .
  have st: "ar_status rec = AP_APPROVED" "ar_decided_by rec = Some (ad_actor_id inp)"
    using approve_InrD [OF ag assms(11)] by auto
  obtain rows where db1: "db1 = w_db w \<or> db1 = (w_db w)\<lparr>tb_approvals := rows\<rparr>"
    using approve_changed [OF ag assms(11)] by auto
  then have same: "tb_decisions db1 = tb_decisions (w_db w)" "tb_actions db1 = tb_actions (w_db w)"
    "tb_controls db1 = tb_controls (w_db w)" "controls_good db1"
    using cg by (auto simp: controls_good_def)
  have t1: "sql_get (dt_decision_id t) (w_db ?w) = Some t"
    using assms(6) id sql_get_cong [OF same(1)] by simp
  have c: "cmd_action ?c = dr_selected_action (dt_recommendation t)" "cmd_decision_id ?c = dt_decision_id t"
    "cmd_idempotency_key ?c = digest_id L ''pg:'' 32 (idempotency_material t)" "cmd_approved_by ?c = ar_decided_by rec"
    by (simp_all add: decided_command_def)
  have "\<exists>x w'. execute_action L governed sandbox_port ?wall ?c (er_order q) now ?w = (Inr x, w') \<and>
      ae_status x = AC_SUCCEEDED \<and> ae_command x = ?c \<and> postcondition (er_order q) (cmd_action ?c) (w_ops w') \<and>
      claimed (cmd_decision_id ?c) (w_db w') \<and>
      (\<exists>row. row_get acr_action_id (action_id_of L ?c) (tb_actions (w_db w')) = Some row \<and> acr_status row = AC_SUCCEEDED)"
  proof (rule execution_succeeds [OF _ _ assms(2) _ assms(4)])
    show "actions_good L (w_db ?w)" using g actions_good_cong [OF same(2)] by simp
    show "controls_good (w_db ?w)" using same(4) by simp
    show "row_get rcr_control_key kill_switch_key (tb_controls (w_db ?w)) = Some r" using assms(3) same(3) by simp
    show "unclaimed L ?c (w_db ?w)" using assms(16) same(2) by (simp add: unclaimed_def)
    show "valid_order_context (er_order q)" using assms(9) by (simp add: valid_evaluation_request_def)
    show "can_carry (er_order q) (cmd_action ?c)" using assms(14) c(1) by simp
    show "command_key (cmd_idempotency_key ?c)" by (rule decided_command_key [OF assms(15)])
    show "sandbox_ready (er_order q) (cmd_idempotency_key ?c) (w_ops ?w)" using assms(17) c(3) by simp
  qed
  then obtain x w' where x: "execute_action L governed sandbox_port ?wall ?c (er_order q) now ?w = (Inr x, w')"
    "ae_status x = AC_SUCCEEDED" "ae_command x = ?c" "postcondition (er_order q) (cmd_action ?c) (w_ops w')"
    "claimed (cmd_decision_id ?c) (w_db w')" "\<exists>row\<in>set (tb_actions (w_db w')). acr_status row = AC_SUCCEEDED"
    using row_get_SomeD by metis
  have "execute_for L governed sandbox_port ?wall (dt_decision_id t) t q (ar_requested_by rec) (ar_decided_by rec)
      (Some rec) now ?w = (Inr (workflow_state_of t (Some rec) (Some x) None), w')"
    using x(1) command_for_decision_app [OF t1 assms(12-15)] by (simp add: execute_for_def bind_def)
  then have "approve_and_execute L env governed sandbox_port wall k inp now w =
      (Inr (workflow_state_of t (Some rec) (Some x) None), w')"
    using assms(5-11) st(1) id
    by (simp add: approve_and_execute_def approve_pending_def decide_and_execute_def bind_def on_db_app
        approval_service_get_def workflow_decision_def workflow_request_def checked_app)
  then show ?thesis using x(2-6) c st(2) keepsD [OF keeps_execute_action x(1)] by auto
qed

text \<open>C3: an approval that is granted is carried out, unless something stands in its way: the decision
  and its request are stored, the approver has the authority and the approval succeeds, the kill switch is
  off, the decision has no action yet, the order has what the action needs and the systems are ready.
  Then the call returns the successful execution, the external systems hold its postcondition, and the
  decision has its one action, on the authority of the approver.\<close>

theorem granted_approval_is_carried_out:
  fixes w :: "sandbox world"
  assumes "workflow_good L (w_db w)" "distinguishes_decisions L"
    and "row_get rcr_control_key kill_switch_key (tb_controls (w_db w)) = Some r" "\<not> rcr_enabled r"
    and "approval_get k (w_db w) = Some pending" "sql_get (ar_decision_id pending) (w_db w) = Some t"
      "ar_requested_action pending = dr_selected_action (dt_recommendation t)"
    and "get_request_payload (dt_event_id t) (w_db w) = Some q" "valid_evaluation_request q"
    and "assert_approval_authority inp t q = Inr ()"
    and "approve env k inp now (wall 0) (w_db w) = (Inr rec, db1)"
    and "selected_option t = Inr s" "valid_recovery_option s"
      "can_carry (er_order q) (dr_selected_action (dt_recommendation t))"
    and "5 \<le> length (sha256_hex L (idempotency_material t))"
    and "unclaimed L (decided_command L t s q (ar_requested_by rec) (ar_decided_by rec)) (w_db w)"
    and "sandbox_ready (er_order q) (digest_id L ''pg:'' 32 (idempotency_material t)) (w_ops w)"
  shows "\<exists>x w'. approve_and_execute L env governed sandbox_port wall k inp now w =
      (Inr (workflow_state_of t (Some rec) (Some x) None), w') \<and>
    ae_status x = AC_SUCCEEDED \<and> cmd_approved_by (ae_command x) = Some (ad_actor_id inp) \<and>
    postcondition (er_order q) (dr_selected_action (dt_recommendation t)) (w_ops w') \<and>
    claimed (dt_decision_id t) (w_db w')"
  using granted_executes [OF assms(1-10), where wall = wall and now = now, OF assms(11-17), of governed] by blast

section \<open>The sample approval\<close>

text \<open>What the theorem asks of the tables, as one check.\<close>

definition nothing_in_the_way :: "lib \<Rightarrow> environ \<Rightarrow> string \<Rightarrow> approval_decision_input \<Rightarrow> datetime \<Rightarrow> database \<Rightarrow> bool" where
  "nothing_in_the_way L env k inp t0 db \<longleftrightarrow>
     (case (row_get rcr_control_key kill_switch_key (tb_controls db), approval_get k db) of
        (Some r, Some pending) \<Rightarrow>
          (case (sql_get (ar_decision_id pending) db, fst (approve env k inp None t0 db)) of
             (Some t, Inr rec) \<Rightarrow>
               (case (get_request_payload (dt_event_id t) db, selected_option t) of
                  (Some q, Inr s) \<Rightarrow>
                    \<not> rcr_enabled r \<and> ar_requested_action pending = dr_selected_action (dt_recommendation t) \<and>
                    valid_evaluation_request q \<and> assert_approval_authority inp t q = Inr () \<and>
                    valid_recovery_option s \<and> can_carry (er_order q) (dr_selected_action (dt_recommendation t)) \<and>
                    5 \<le> length (sha256_hex L (idempotency_material t)) \<and>
                    list_all (\<lambda>a. acr_decision_id a \<noteq> dt_decision_id t \<and>
                      acr_idempotency_key a \<noteq> digest_id L ''pg:'' 32 (idempotency_material t) \<and>
                      acr_action_id a \<noteq> digest_id L ''act_'' 24 (digest_id L ''pg:'' 32 (idempotency_material t)))
                      (tb_actions db)
                | _ \<Rightarrow> False)
           | _ \<Rightarrow> False)
      | _ \<Rightarrow> False)"

lemma sample_nothing_in_the_way:
  "nothing_in_the_way sample_execution_lib [] ''apr_dec_1|REROUTE|policy-v2'' sample_manager (utc 10)
     (w_db sample_submitted)"
  by code_simp

lemma nothing_in_the_wayE:
  assumes "nothing_in_the_way L env k inp t0 db"
  obtains r pending t q s rec where
    "row_get rcr_control_key kill_switch_key (tb_controls db) = Some r" "\<not> rcr_enabled r"
    "approval_get k db = Some pending" "sql_get (ar_decision_id pending) db = Some t"
    "ar_requested_action pending = dr_selected_action (dt_recommendation t)"
    "get_request_payload (dt_event_id t) db = Some q" "valid_evaluation_request q"
    "assert_approval_authority inp t q = Inr ()" "fst (approve env k inp None t0 db) = Inr rec"
    "selected_option t = Inr s" "valid_recovery_option s"
    "can_carry (er_order q) (dr_selected_action (dt_recommendation t))"
    "5 \<le> length (sha256_hex L (idempotency_material t))"
    "\<And>actor by. unclaimed L (decided_command L t s q actor by) db"
proof -
  from assms obtain r pending where 1: "row_get rcr_control_key kill_switch_key (tb_controls db) = Some r"
    "approval_get k db = Some pending"
    by (auto simp: nothing_in_the_way_def split: option.splits)
  with assms obtain t rec where 2: "sql_get (ar_decision_id pending) db = Some t"
    "fst (approve env k inp None t0 db) = Inr rec"
    by (auto simp: nothing_in_the_way_def split: option.splits sum.splits)
  with assms 1 obtain q s where 3: "get_request_payload (dt_event_id t) db = Some q" "selected_option t = Inr s"
    by (auto simp: nothing_in_the_way_def split: option.splits sum.splits)
  show thesis
    by (rule that [OF 1(1) _ 1(2) 2(1) _ 3(1) _ _ 2(2) 3(2)])
      (use assms 1 2 3 in \<open>simp_all add: nothing_in_the_way_def unclaimed_def decided_command_def
        action_id_of_def list_all_iff\<close>)
qed

lemma sample_ops: "w_ops sample_submitted = empty_sandbox"
proof -
  have "case sql_get ''dec_1'' (w_db (sample_workflow REQUEST_APPROVAL)) of
      Some t \<Rightarrow> pe_disposition (dt_policy t) \<noteq> AUTO_EXECUTE | None \<Rightarrow> True" by code_simp
  then have "w_ops sample_submitted = w_ops (sample_workflow REQUEST_APPROVAL)"
    using conjunct1 [OF submit_routes_by_disposition [OF prod.collapse [symmetric], of sample_execution_lib default_ttl
        True sandbox_port "\<lambda>_. utc 9" "''dec_1''" "''eval-runner''" None "sample_workflow REQUEST_APPROVAL"]]
    unfolding sample_submitted_def by (auto split: option.splits)
  also have "\<dots> = empty_sandbox" by (simp add: sample_workflow_def sample_world_def empty_sandbox_def)
  finally show ?thesis .
qed

theorem granted_approval_is_carried_out_witness:
  "\<exists>s w'. approve_and_execute sample_execution_lib [] True sandbox_port (\<lambda>_. utc 10)
      ''apr_dec_1|REROUTE|policy-v2'' sample_manager None sample_submitted = (Inr s, w') \<and>
    map_option ae_status (ws_execution s) = Some AC_SUCCEEDED"
proof -
  let ?db = "w_db sample_submitted"
  have good: "workflow_good sample_execution_lib ?db"
    by (rule workflow_step_good [OF sample_submit_step sample_workflow_good sample_distinguishes])
  obtain r pending t q s rec where h:
    "row_get rcr_control_key kill_switch_key (tb_controls ?db) = Some r" "\<not> rcr_enabled r"
    "approval_get ''apr_dec_1|REROUTE|policy-v2'' ?db = Some pending" "sql_get (ar_decision_id pending) ?db = Some t"
    "ar_requested_action pending = dr_selected_action (dt_recommendation t)"
    "get_request_payload (dt_event_id t) ?db = Some q" "valid_evaluation_request q"
    "assert_approval_authority sample_manager t q = Inr ()"
    "fst (approve [] ''apr_dec_1|REROUTE|policy-v2'' sample_manager None (utc 10) ?db) = Inr rec"
    "selected_option t = Inr s" "valid_recovery_option s"
    "can_carry (er_order q) (dr_selected_action (dt_recommendation t))"
    "5 \<le> length (sha256_hex sample_execution_lib (idempotency_material t))"
    "\<And>actor by. unclaimed sample_execution_lib (decided_command sample_execution_lib t s q actor by) ?db"
    by (rule nothing_in_the_wayE [OF sample_nothing_in_the_way]) (rule that, assumption+)
  have ap: "approve [] ''apr_dec_1|REROUTE|policy-v2'' sample_manager None ((\<lambda>_. utc 10) 0) ?db =
      (Inr rec, snd (approve [] ''apr_dec_1|REROUTE|policy-v2'' sample_manager None (utc 10) ?db))"
    using h(9) by (metis prod.collapse)
  have ready: "sandbox_ready (er_order q) (digest_id sample_execution_lib ''pg:'' 32 (idempotency_material t))
      (w_ops sample_submitted)"
    by (simp add: sample_ops sandbox_ready_def free_key_def empty_sandbox_def)
  from granted_approval_is_carried_out [OF good sample_distinguishes h(1-8) ap h(10-14) ready, of True]
  show ?thesis by (auto simp: workflow_state_of_def)
qed

end
