(* ===== verification/Adapter_Responses.thy ===== *)
theory Adapter_Responses
  imports Contracts Observability
begin

text \<open>
  \<^verbatim>\<open>src/src/promiseguard/adapters/sandbox.py\<close> and \<^verbatim>\<open>contracts.py\<close>, the typed calls: what the three
  sandbox adapters answer in full and what they log, on the runtime they share with its context
  variable, its supply of identifiers and its timer. \<open>Adapters\<close> keeps of a call the provider reference
  and the systems of record; the typed calls refine it, call by call and as a port, so that what is
  proved of the port holds of the typed adapters.
\<close>

section \<open>The runtime\<close>

text \<open>A line of the log of the adapters.\<close>

record adapter_log_line =
  al_correlation_id :: string
  al_system :: string
  al_operation :: string
  al_error_class :: adapter_error_class
  al_provider_reference :: string
  al_duration_seconds :: rat

text \<open>The systems of record with what the process has around them: the bound correlation identifier,
  the hex texts that \<open>uuid4\<close> draws, the readings of \<open>perf_counter\<close> and the log.\<close>

record sandbox_runtime =
  rt_state :: sandbox
  rt_context :: string
  rt_uuids :: "nat \<Rightarrow> string"
  rt_drawn :: nat
  rt_timer :: "nat \<Rightarrow> rat"
  rt_ticks :: nat
  rt_log :: "adapter_log_line list"

definition on_state :: "(sandbox, 'a) prog \<Rightarrow> (sandbox_runtime, 'a) prog" where
  "on_state m = on_part rt_state (\<lambda>s r. r\<lparr>rt_state := s\<rparr>) m"

definition perf_counter :: "(sandbox_runtime, rat) prog" where
  "perf_counter = (\<lambda>r. (Inr (rt_timer r (rt_ticks r)), r\<lparr>rt_ticks := Suc (rt_ticks r)\<rparr>))"

definition log_call :: "string \<Rightarrow> string \<Rightarrow> string \<Rightarrow> rat \<Rightarrow> (sandbox_runtime, unit) prog" where
  "log_call system operation reference started =
     bind perf_counter (\<lambda>now. modify (\<lambda>r. r\<lparr>rt_log := rt_log r @
       [\<lparr>al_correlation_id = rt_context r, al_system = system, al_operation = operation,
         al_error_class = AE_SUCCESS, al_provider_reference = reference,
         al_duration_seconds = now - started\<rparr>]\<rparr>))"

section \<open>Requests\<close>

text \<open>The metadata of a request beside the key and the tenant.\<close>

record call_meta =
  cm_correlation_id :: string
  cm_actor_id :: "string option"
  cm_contract_version :: string

definition valid_call_meta :: "call_meta \<Rightarrow> bool" where
  "valid_call_meta m \<longleftrightarrow> len_within 8 128 (cm_correlation_id m) \<and>
     (case cm_actor_id m of None \<Rightarrow> True | Some a \<Rightarrow> len_within 0 120 a)"

text \<open>The identifier that is bound, or a new one outside a request.\<close>

definition call_correlation :: "(sandbox_runtime, string) prog" where
  "call_correlation = (\<lambda>r.
     if rt_context r \<noteq> unbound_correlation_id then (Inr (rt_context r), r)
     else (Inr (''corr_'' @ rt_uuids r (rt_drawn r)), r\<lparr>rt_drawn := Suc (rt_drawn r)\<rparr>))"

definition full_request_meta ::
  "string \<Rightarrow> string \<Rightarrow> string option \<Rightarrow> (sandbox_runtime, call_meta \<times> adapter_request_meta) prog"
where
  "full_request_meta key tenant_id actor_id =
     bind call_correlation (\<lambda>correlation_id.
     checked (\<lambda>(m, a). valid_call_meta m \<and> valid_request_meta a)
       (\<lparr>cm_correlation_id = correlation_id, cm_actor_id = actor_id,
         cm_contract_version = ADAPTER_CONTRACT_VERSION\<rparr>,
        \<lparr>rm_idempotency_key = key, rm_tenant_id = tenant_id\<rparr>))"

section \<open>Responses\<close>

record adapter_response_meta =
  pm_correlation_id :: string
  pm_provider_reference :: string
  pm_contract_version :: string
  pm_error_class :: adapter_error_class
  pm_retryable :: bool
  pm_ambiguous :: bool

definition valid_response_meta :: "adapter_response_meta \<Rightarrow> bool" where
  "valid_response_meta m \<longleftrightarrow>
     len_within 8 128 (pm_correlation_id m) \<and> len_within 1 240 (pm_provider_reference m)"

definition response_meta :: "call_meta \<Rightarrow> string \<Rightarrow> (sandbox_runtime, adapter_response_meta) prog" where
  "response_meta m reference =
     checked valid_response_meta
       \<lparr>pm_correlation_id = cm_correlation_id m, pm_provider_reference = reference,
        pm_contract_version = ADAPTER_CONTRACT_VERSION, pm_error_class = AE_SUCCESS,
        pm_retryable = False, pm_ambiguous = False\<rparr>"

record wms_reserve_response =
  wp_meta :: adapter_response_meta
  wp_reservation_id :: string
  wp_location_id :: string
  wp_sku :: string
  wp_quantity :: int

record wms_release_response =
  wl_meta :: adapter_response_meta
  wl_released :: bool

record oms_change_response =
  op_meta :: adapter_response_meta
  op_order_id :: string
  op_location_id :: string

record oms_split_response =
  ot_meta :: adapter_response_meta
  ot_order_id :: string
  ot_split :: bool

record carrier_upgrade_response =
  cp_meta :: adapter_response_meta
  cp_order_id :: string
  cp_service :: string

record delivery_outcome_response =
  dp_meta :: adapter_response_meta
  dp_order_id :: string
  dp_delivered_on_time :: bool

section \<open>The typed calls\<close>

text \<open>The shape the four mutating calls share, up to their response.\<close>

definition typed_call ::
  "call_meta \<Rightarrow> string \<Rightarrow> string \<Rightarrow> string \<Rightarrow> string \<Rightarrow> (sandbox \<Rightarrow> sandbox) \<Rightarrow> string
   \<Rightarrow> (sandbox_runtime, adapter_response_meta) prog"
where
  "typed_call m system step key operation effect reference =
     bind perf_counter (\<lambda>started.
     bind (on_state (before_step step)) (\<lambda>_.
     bind (on_state (claim_key key operation)) (\<lambda>_.
     bind (on_state (modify effect)) (\<lambda>_.
     bind (on_state (after_step step)) (\<lambda>_.
     bind (log_call system step reference started) (\<lambda>_.
     response_meta m reference))))))"

definition typed_reserve_inventory ::
  "call_meta \<Rightarrow> wms_reserve_request \<Rightarrow> (sandbox_runtime, wms_reserve_response) prog"
where
  "typed_reserve_inventory m q =
     bind (typed_call m ''wms'' ''reserve_alternative'' (rm_idempotency_key (wq_meta q))
       (''reserve:'' @ wq_order_id q @ '':'' @ wq_location_id q)
       (\<lambda>s. s\<lparr>sb_reservations := insert (wq_order_id q, wq_location_id q) (sb_reservations s)\<rparr>)
       (''reservation:'' @ wq_order_id q @ '':'' @ wq_location_id q)) (\<lambda>meta.
     ret \<lparr>wp_meta = meta, wp_reservation_id = ''reservation:'' @ wq_order_id q @ '':'' @ wq_location_id q,
          wp_location_id = wq_location_id q, wp_sku = wq_sku q, wp_quantity = wq_quantity q\<rparr>)"

definition typed_release_inventory ::
  "call_meta \<Rightarrow> wms_release_request \<Rightarrow> (sandbox_runtime, wms_release_response) prog"
where
  "typed_release_inventory m q =
     bind (on_state (modify (\<lambda>s. case wr_location_id q of None \<Rightarrow> s
             | Some l \<Rightarrow> s\<lparr>sb_reservations := sb_reservations s - {(wr_order_id q, l)}\<rparr>))) (\<lambda>_.
     bind (response_meta m (''released:'' @ wr_order_id q)) (\<lambda>meta.
     ret \<lparr>wl_meta = meta, wl_released = True\<rparr>))"

definition typed_change_location ::
  "call_meta \<Rightarrow> oms_change_request \<Rightarrow> (sandbox_runtime, oms_change_response) prog"
where
  "typed_change_location m q =
     bind (typed_call m ''oms'' ''change_location'' (rm_idempotency_key (oq_meta q))
       (''reroute:'' @ oq_order_id q @ '':'' @ oq_to_location q)
       (\<lambda>s. s\<lparr>sb_order_locations := (sb_order_locations s)(oq_order_id q \<mapsto> oq_to_location q)\<rparr>)
       (''order-location:'' @ oq_order_id q @ '':'' @ oq_to_location q)) (\<lambda>meta.
     ret \<lparr>op_meta = meta, op_order_id = oq_order_id q, op_location_id = oq_to_location q\<rparr>)"

definition typed_restore_location ::
  "call_meta \<Rightarrow> oms_change_request \<Rightarrow> (sandbox_runtime, oms_change_response) prog"
where
  "typed_restore_location m q =
     bind (on_state (modify (\<lambda>s. s\<lparr>sb_order_locations :=
             (sb_order_locations s)(oq_order_id q \<mapsto> oq_from_location q)\<rparr>))) (\<lambda>_.
     bind (response_meta m (''restored-location:'' @ oq_order_id q @ '':'' @ oq_from_location q)) (\<lambda>meta.
     ret \<lparr>op_meta = meta, op_order_id = oq_order_id q, op_location_id = oq_from_location q\<rparr>))"

definition typed_create_split ::
  "call_meta \<Rightarrow> oms_split_request \<Rightarrow> (sandbox_runtime, oms_split_response) prog"
where
  "typed_create_split m q =
     bind (typed_call m ''oms'' ''create_split'' (rm_idempotency_key (os_meta q)) (''split:'' @ os_order_id q)
       (\<lambda>s. s\<lparr>sb_split_shipments := insert (os_order_id q) (sb_split_shipments s)\<rparr>)
       (''split-shipment:'' @ os_order_id q)) (\<lambda>meta.
     ret \<lparr>ot_meta = meta, ot_order_id = os_order_id q, ot_split = True\<rparr>)"

definition typed_cancel_split ::
  "call_meta \<Rightarrow> oms_split_request \<Rightarrow> (sandbox_runtime, oms_split_response) prog"
where
  "typed_cancel_split m q =
     bind (on_state (modify (\<lambda>s. s\<lparr>sb_split_shipments := sb_split_shipments s - {os_order_id q}\<rparr>))) (\<lambda>_.
     bind (response_meta m (''cancelled-split:'' @ os_order_id q)) (\<lambda>meta.
     ret \<lparr>ot_meta = meta, ot_order_id = os_order_id q, ot_split = False\<rparr>))"

definition typed_upgrade_service ::
  "call_meta \<Rightarrow> carrier_upgrade_request \<Rightarrow> (sandbox_runtime, carrier_upgrade_response) prog"
where
  "typed_upgrade_service m q =
     bind (typed_call m ''carrier'' ''upgrade_carrier'' (rm_idempotency_key (cq_meta q))
       (''carrier:'' @ cq_order_id q @ '':'' @ cq_to_service q)
       (\<lambda>s. s\<lparr>sb_carrier_services := (sb_carrier_services s)(cq_order_id q \<mapsto> cq_to_service q)\<rparr>)
       (''carrier-service:'' @ cq_order_id q @ '':'' @ cq_to_service q)) (\<lambda>meta.
     ret \<lparr>cp_meta = meta, cp_order_id = cq_order_id q, cp_service = cq_to_service q\<rparr>)"

definition typed_restore_service ::
  "call_meta \<Rightarrow> carrier_upgrade_request \<Rightarrow> (sandbox_runtime, carrier_upgrade_response) prog"
where
  "typed_restore_service m q =
     bind (on_state (modify (\<lambda>s. s\<lparr>sb_carrier_services :=
             (sb_carrier_services s)(cq_order_id q \<mapsto> cq_from_service q)\<rparr>))) (\<lambda>_.
     bind (response_meta m (''restored-carrier:'' @ cq_order_id q @ '':'' @ cq_from_service q)) (\<lambda>meta.
     ret \<lparr>cp_meta = meta, cp_order_id = cq_order_id q, cp_service = cq_from_service q\<rparr>))"

definition typed_record_delivery ::
  "call_meta \<Rightarrow> delivery_outcome_request \<Rightarrow> (sandbox_runtime, delivery_outcome_response) prog"
where
  "typed_record_delivery m q =
     bind (on_state (modify (\<lambda>s. s\<lparr>sb_delivery_outcomes :=
             (sb_delivery_outcomes s)(dq_order_id q \<mapsto> dq_delivered_on_time q)\<rparr>))) (\<lambda>_.
     bind (response_meta m (''delivery:'' @ dq_order_id q @ '':'' @ str_bool (dq_delivered_on_time q))) (\<lambda>meta.
     ret \<lparr>dp_meta = meta, dp_order_id = dq_order_id q, dp_delivered_on_time = dq_delivered_on_time q\<rparr>))"

text \<open>The adapters as the protocols of \<^verbatim>\<open>contracts.py\<close>, and the three of the sandbox over one runtime.\<close>

record 's wms_adapter =
  wa_reserve_inventory :: "call_meta \<Rightarrow> wms_reserve_request \<Rightarrow> ('s, wms_reserve_response) prog"
  wa_release_inventory :: "call_meta \<Rightarrow> wms_release_request \<Rightarrow> ('s, wms_release_response) prog"

record 's oms_adapter =
  oa_change_location :: "call_meta \<Rightarrow> oms_change_request \<Rightarrow> ('s, oms_change_response) prog"
  oa_restore_location :: "call_meta \<Rightarrow> oms_change_request \<Rightarrow> ('s, oms_change_response) prog"
  oa_create_split :: "call_meta \<Rightarrow> oms_split_request \<Rightarrow> ('s, oms_split_response) prog"
  oa_cancel_split :: "call_meta \<Rightarrow> oms_split_request \<Rightarrow> ('s, oms_split_response) prog"

record 's carrier_adapter =
  ca_upgrade_service :: "call_meta \<Rightarrow> carrier_upgrade_request \<Rightarrow> ('s, carrier_upgrade_response) prog"
  ca_restore_service :: "call_meta \<Rightarrow> carrier_upgrade_request \<Rightarrow> ('s, carrier_upgrade_response) prog"
  ca_record_delivery :: "call_meta \<Rightarrow> delivery_outcome_request \<Rightarrow> ('s, delivery_outcome_response) prog"

definition sandbox_wms :: "sandbox_runtime wms_adapter" where
  "sandbox_wms = \<lparr>wa_reserve_inventory = typed_reserve_inventory, wa_release_inventory = typed_release_inventory\<rparr>"

definition sandbox_oms :: "sandbox_runtime oms_adapter" where
  "sandbox_oms = \<lparr>oa_change_location = typed_change_location, oa_restore_location = typed_restore_location,
     oa_create_split = typed_create_split, oa_cancel_split = typed_cancel_split\<rparr>"

definition sandbox_carrier :: "sandbox_runtime carrier_adapter" where
  "sandbox_carrier = \<lparr>ca_upgrade_service = typed_upgrade_service, ca_restore_service = typed_restore_service,
     ca_record_delivery = typed_record_delivery\<rparr>"

section \<open>The composite\<close>

text \<open>A call of the composite: the metadata, the validated request, the typed call, the reference.\<close>

definition composed ::
  "string \<Rightarrow> string \<Rightarrow> ('q \<Rightarrow> bool) \<Rightarrow> (adapter_request_meta \<Rightarrow> 'q) \<Rightarrow>
   (call_meta \<Rightarrow> 'q \<Rightarrow> (sandbox_runtime, 'p) prog) \<Rightarrow> ('p \<Rightarrow> 'a) \<Rightarrow> (sandbox_runtime, 'a) prog"
where
  "composed key tenant_id valid request call answer =
     bind (full_request_meta key tenant_id None) (\<lambda>(m, a).
     bind (checked valid (request a)) (\<lambda>q.
     bind (call m q) (\<lambda>p. ret (answer p))))"

definition composite_port ::
  "sandbox_runtime wms_adapter \<Rightarrow> sandbox_runtime oms_adapter \<Rightarrow> sandbox_runtime carrier_adapter
   \<Rightarrow> sandbox_runtime operations_port"
where
  "composite_port wms oms carrier =
     \<lparr>p_seed = (\<lambda>c. on_state (seed_order c)),
      p_record_delivery = (\<lambda>order_id on_time.
        composed (''delivery:'' @ order_id) DEFAULT_TENANT_ID valid_delivery_request
          (\<lambda>a. \<lparr>dq_meta = a, dq_order_id = order_id, dq_delivered_on_time = on_time\<rparr>)
          (ca_record_delivery carrier) (\<lambda>_. ())),
      p_reserve = (\<lambda>c key. case oc_alternative_location_id c of
          None \<Rightarrow> raise (err ActionExecutionError ''alternative location is not available'')
        | Some l \<Rightarrow> composed key (oc_tenant_id c) valid_wms_reserve
            (\<lambda>a. \<lparr>wq_meta = a, wq_order_id = oc_order_id c, wq_sku = oc_sku c, wq_quantity = oc_quantity c,
                  wq_location_id = l\<rparr>)
            (wa_reserve_inventory wms) (\<lambda>p. pm_provider_reference (wp_meta p))),
      p_release = (\<lambda>c. composed (''release:'' @ oc_order_id c) (oc_tenant_id c) valid_wms_release
          (\<lambda>a. \<lparr>wr_meta = a, wr_order_id = oc_order_id c, wr_location_id = oc_alternative_location_id c\<rparr>)
          (wa_release_inventory wms) (\<lambda>p. pm_provider_reference (wl_meta p))),
      p_change = (\<lambda>c key. case oc_alternative_location_id c of
          None \<Rightarrow> raise (err ActionExecutionError ''alternative location is not available'')
        | Some l \<Rightarrow> composed key (oc_tenant_id c) valid_oms_change
            (\<lambda>a. \<lparr>oq_meta = a, oq_order_id = oc_order_id c,
                  oq_from_location = oc_current_fulfilment_location c, oq_to_location = l\<rparr>)
            (oa_change_location oms) (\<lambda>p. pm_provider_reference (op_meta p))),
      p_restore_location = (\<lambda>c. composed (''restore-location:'' @ oc_order_id c) (oc_tenant_id c) valid_oms_change
          (\<lambda>a. \<lparr>oq_meta = a, oq_order_id = oc_order_id c,
                oq_from_location = oc_current_fulfilment_location c, oq_to_location = alternative_or_current c\<rparr>)
          (oa_restore_location oms) (\<lambda>p. pm_provider_reference (op_meta p))),
      p_upgrade = (\<lambda>c key. composed key (oc_tenant_id c) valid_carrier_upgrade
          (\<lambda>a. \<lparr>cq_meta = a, cq_order_id = oc_order_id c, cq_from_service = oc_current_carrier_service c,
                cq_to_service = oc_upgraded_carrier_service c\<rparr>)
          (ca_upgrade_service carrier) (\<lambda>p. pm_provider_reference (cp_meta p))),
      p_restore_carrier = (\<lambda>c. composed (''restore-carrier:'' @ oc_order_id c) (oc_tenant_id c) valid_carrier_upgrade
          (\<lambda>a. \<lparr>cq_meta = a, cq_order_id = oc_order_id c, cq_from_service = oc_current_carrier_service c,
                cq_to_service = oc_upgraded_carrier_service c\<rparr>)
          (ca_restore_service carrier) (\<lambda>p. pm_provider_reference (cp_meta p))),
      p_split = (\<lambda>c key.
        if \<not> oc_split_shipment_possible c
        then raise (err ActionExecutionError ''split shipment is not feasible'')
        else composed key (oc_tenant_id c) valid_oms_split
          (\<lambda>a. \<lparr>os_meta = a, os_order_id = oc_order_id c, os_quantity = oc_quantity c\<rparr>)
          (oa_create_split oms) (\<lambda>p. pm_provider_reference (ot_meta p))),
      p_cancel_split = (\<lambda>c. composed (''cancel-split:'' @ oc_order_id c) (oc_tenant_id c) valid_oms_split
          (\<lambda>a. \<lparr>os_meta = a, os_order_id = oc_order_id c, os_quantity = oc_quantity c\<rparr>)
          (oa_cancel_split oms) (\<lambda>p. pm_provider_reference (ot_meta p))),
      p_holds = (\<lambda>c a. on_state (action_postcondition_holds c a)),
      p_hydrate = (\<lambda>c x. on_state (hydrate_from_durable_action c x))\<rparr>"

definition typed_port :: "sandbox_runtime operations_port" where
  "typed_port = composite_port sandbox_wms sandbox_oms sandbox_carrier"

lemmas typed_port_defs = typed_port_def composite_port_def sandbox_wms_def sandbox_oms_def sandbox_carrier_def

section \<open>Simulation\<close>

text \<open>A concrete program simulates an abstract one: where the invariant of the concrete state holds, both
  give the same result, up to \<open>h\<close>, and the same state, up to the abstraction.\<close>

definition simulates ::
  "('c \<Rightarrow> 's) \<Rightarrow> ('c \<Rightarrow> bool) \<Rightarrow> ('a \<Rightarrow> 'b) \<Rightarrow> ('c, 'a) prog \<Rightarrow> ('s, 'b) prog \<Rightarrow> bool"
where
  "simulates view ok h m m' \<longleftrightarrow>
     (\<forall>r. ok r \<longrightarrow> m' (view r) = (map_sum id h (fst (m r)), view (snd (m r))) \<and> ok (snd (m r)))"

lemma simulatesI:
  "(\<And>r q u. ok r \<Longrightarrow> m r = (q, u) \<Longrightarrow> m' (view r) = (map_sum id h q, view u) \<and> ok u) \<Longrightarrow>
   simulates view ok h m m'"
  by (simp add: simulates_def) (metis prod.collapse)

lemma simulatesD:
  "simulates view ok h m m' \<Longrightarrow> ok r \<Longrightarrow> m r = (q, u) \<Longrightarrow> m' (view r) = (map_sum id h q, view u) \<and> ok u"
  by (auto simp: simulates_def)

text \<open>A call and what follows its error and its answer.\<close>

definition branch ::
  "('s, 'a) prog \<Rightarrow> (exn \<Rightarrow> ('s, 'b) prog) \<Rightarrow> ('a \<Rightarrow> ('s, 'b) prog) \<Rightarrow> ('s, 'b) prog"
where
  "branch m f k = (\<lambda>s. case m s of (Inl e, u) \<Rightarrow> f e u | (Inr x, u) \<Rightarrow> k x u)"

lemma bind_branch: "bind m k = branch m raise k"
  by (simp add: bind_def branch_def fun_eq_iff split: prod.split sum.split)

lemma catch_branch: "catch m f = branch m f ret"
  by (simp add: catch_def branch_def fun_eq_iff split: prod.split sum.split)

lemma simulates_branch:
  assumes "simulates view ok h m m'" and "\<And>e. simulates view ok g (f e) (f' e)"
    and "\<And>x. simulates view ok g (k x) (k' (h x))"
  shows "simulates view ok g (branch m f k) (branch m' f' k')"
proof (rule simulatesI)
  fix r q u assume ok: "ok r" and run: "branch m f k r = (q, u)"
  obtain a v where a: "m r = (a, v)" by fastforce
  note s = simulatesD [OF assms(1) ok a]
  show "branch m' f' k' (view r) = (map_sum id g q, view u) \<and> ok u"
  proof (cases a)
    case (Inl e)
    then have "f e v = (q, u)" using run a by (simp add: branch_def)
    from simulatesD [OF assms(2) conjunct2 [OF s] this] show ?thesis using s Inl by (simp add: branch_def)
  next
    case (Inr x)
    then have "k x v = (q, u)" using run a by (simp add: branch_def)
    from simulatesD [OF assms(3) conjunct2 [OF s] this] show ?thesis using s Inr by (simp add: branch_def)
  qed
qed

lemma simulates_raise: "simulates view ok g (raise e) (raise e)"
  by (simp add: simulates_def)

lemma simulates_ret: "h x = y \<Longrightarrow> simulates view ok h (ret x) (ret y)"
  by (simp add: simulates_def)

lemma simulates_bind:
  assumes "simulates view ok h m m'" and "\<And>x. simulates view ok g (k x) (k' (h x))"
  shows "simulates view ok g (bind m k) (bind m' k')"
  unfolding bind_branch by (rule simulates_branch [of view ok h m m' g raise raise k k']) (rule assms simulates_raise)+

lemma simulates_catch:
  assumes "simulates view ok g m m'" and "\<And>e. simulates view ok g (f e) (f' e)"
  shows "simulates view ok g (catch m f) (catch m' f')"
  unfolding catch_branch by (rule simulates_branch [OF assms]) (rule simulates_ret [OF refl])

lemma simulates_checked:
  "h x = y \<Longrightarrow> p x = p' y \<Longrightarrow> simulates view ok h (checked p x) (checked p' y)"
  by (simp add: simulates_def checked_app)

lemma simulates_if:
  "(b \<Longrightarrow> simulates view ok h m m') \<Longrightarrow> (\<not> b \<Longrightarrow> simulates view ok h k k') \<Longrightarrow>
   simulates view ok h (if b then m else k) (if b then m' else k')"
  by simp

text \<open>A step that the abstract program does not have.\<close>

lemma simulates_silent:
  assumes "\<And>r. ok r \<Longrightarrow> \<exists>x u. m r = (Inr x, u) \<and> view u = view r \<and> ok u"
    and "\<And>x. simulates view ok g (k x) m'"
  shows "simulates view ok g (bind m k) m'"
proof (rule simulatesI)
  fix r q u assume ok: "ok r" and run: "bind m k r = (q, u)"
  from assms(1) [OF ok] obtain x v where v: "m r = (Inr x, v)" "view v = view r" "ok v" by blast
  then have "k x v = (q, u)" using run by simp
  from simulatesD [OF assms(2) v(3) this] v(2) show "m' (view r) = (map_sum id g q, view u) \<and> ok u" by simp
qed

text \<open>Where both calls return the same value.\<close>

lemma simulates_bind_same:
  "simulates view ok id m m' \<Longrightarrow> (\<And>x. simulates view ok g (k x) (k' x)) \<Longrightarrow>
   simulates view ok g (bind m k) (bind m' k')"
  by (rule simulates_bind [of view ok id]) simp_all

lemma simulates_branch_same:
  "simulates view ok id m m' \<Longrightarrow> (\<And>e. simulates view ok g (f e) (f' e)) \<Longrightarrow>
   (\<And>x. simulates view ok g (k x) (k' x)) \<Longrightarrow>
   simulates view ok g (branch m f k) (branch m' f' k')"
  by (rule simulates_branch [of view ok id]) simp_all

lemmas simulates_intros = simulates_raise simulates_ret simulates_if simulates_catch
  simulates_bind_same simulates_branch_same

text \<open>The two shapes of an execution as branches.\<close>

lemma reroute_branch:
  "reroute port wall x c now =
     branch (p_reserve port c (cmd_idempotency_key (ae_command x) @ '':reserve'')) raise (\<lambda>ref1.
       branch (verified_call port c REROUTE (p_change port c (cmd_idempotency_key (ae_command x) @ '':change-location'')))
         (\<lambda>e. if isa (exn_cls e) AdapterRateLimited then raise e
           else bind (p_restore_location port c) (\<lambda>restore_ref.
                bind (p_release port c) (\<lambda>release_ref.
                ret (compensated x
                  [success_step 1 ''reserve_alternative'' now (wall 1) ref1,
                   compensation_step 2 ''compensate_reroute'' now (wall 2) restore_ref
                     [(''release_reference'', PyStr release_ref)] e] (wall 3) e))))
         (\<lambda>ref2. ret (succeeded x [success_step 1 ''reserve_alternative'' now (wall 1) ref1,
            success_step 2 ''change_location'' now (wall 2) ref2] (wall 3))))"
  by (simp add: reroute_def branch_def Let_def fun_eq_iff split: prod.split sum.split)

lemma single_step_branch:
  "single_step port wall x c now action call undo name undo_name =
     branch call
       (\<lambda>e. if is_ambiguous e
         then bind (p_holds port c action) (\<lambda>h.
           if h then ret (succeeded x [success_step 1 name now (wall 1)
                            (''verified-after-timeout:'' @ oc_order_id c)] (wall 2))
           else raise e)
         else if isa (exn_cls e) AdapterError
         then bind (p_holds port c action) (\<lambda>h.
           if h then bind undo (\<lambda>ref.
             ret (compensated x [compensation_step 1 undo_name now (wall 1) ref [] e] (wall 2) e))
           else raise e)
         else raise e)
       (\<lambda>ref. ret (succeeded x [success_step 1 name now (wall 1) ref] (wall 2)))"
  by (simp add: single_step_def branch_def fun_eq_iff split: prod.split sum.split)

section \<open>Ports that simulate ports\<close>

locale port_simulation =
  fixes view :: "'c \<Rightarrow> 's" and ok :: "'c \<Rightarrow> bool"
    and port :: "'c operations_port" and port' :: "'s operations_port"
  assumes seed: "simulates view ok id (p_seed port c) (p_seed port' c)"
    and deliver: "simulates view ok id (p_record_delivery port k b) (p_record_delivery port' k b)"
    and reserve: "simulates view ok id (p_reserve port c k) (p_reserve port' c k)"
    and release: "simulates view ok id (p_release port c) (p_release port' c)"
    and change: "simulates view ok id (p_change port c k) (p_change port' c k)"
    and restore_location: "simulates view ok id (p_restore_location port c) (p_restore_location port' c)"
    and upgrade: "simulates view ok id (p_upgrade port c k) (p_upgrade port' c k)"
    and restore_carrier: "simulates view ok id (p_restore_carrier port c) (p_restore_carrier port' c)"
    and split: "simulates view ok id (p_split port c k) (p_split port' c k)"
    and cancel_split: "simulates view ok id (p_cancel_split port c) (p_cancel_split port' c)"
    and holds: "simulates view ok id (p_holds port c a) (p_holds port' c a)"
    and hydrate: "simulates view ok id (p_hydrate port c x) (p_hydrate port' c x)"
begin

lemma verified_call_simulated:
  assumes "simulates view ok id m m'"
  shows "simulates view ok id (verified_call port c a m) (verified_call port' c a m')"
  unfolding verified_call_def by (intro simulates_intros assms holds) simp_all

lemma reroute_simulated: "simulates view ok id (reroute port wall x c now) (reroute port' wall x c now)"
  unfolding reroute_branch
  by (intro simulates_intros verified_call_simulated reserve change restore_location release) simp_all

lemma single_step_simulated:
  assumes "simulates view ok id m m'" "simulates view ok id u u'"
  shows "simulates view ok id (single_step port wall x c now a m u n un) (single_step port' wall x c now a m' u' n un)"
  unfolding single_step_branch by (intro simulates_intros holds assms) simp_all

lemma execute_steps_simulated:
  "simulates view ok id (execute_steps port wall x c now) (execute_steps port' wall x c now)"
  by (cases "cmd_action (ae_command x)")
    (auto simp: execute_steps_def carrier_upgrade_def split_shipment_def simulates_raise
      intro: reroute_simulated single_step_simulated upgrade restore_carrier split cancel_split)

text \<open>The gateway on either port: the same answer and the same tables.\<close>

lemma on_ops_simulated:
  "simulates view ok h m m' \<Longrightarrow>
   simulates (\<lambda>w. \<lparr>w_db = w_db w, w_ops = view (w_ops w)\<rparr>) (\<lambda>w. ok (w_ops w)) h (on_ops m) (on_ops m')"
  by (rule simulatesI) (auto simp: on_ops_app split: prod.splits dest: simulatesD)

lemma on_db_simulated:
  "simulates (\<lambda>w. \<lparr>w_db = w_db w, w_ops = view (w_ops w)\<rparr>) (\<lambda>w. ok (w_ops w)) id (on_db m) (on_db m)"
  by (rule simulatesI) (auto simp: on_db_app sum.map_id split: prod.splits)

lemma note_execution_simulated:
  "simulates (\<lambda>w. \<lparr>w_db = w_db w, w_ops = view (w_ops w)\<rparr>) (\<lambda>w. ok (w_ops w)) id
     (note_execution governed t x) (note_execution governed t x)"
  unfolding note_execution_def by (intro simulates_intros on_db_simulated) simp_all

lemma run_claimed_simulated:
  "simulates (\<lambda>w. \<lparr>w_db = w_db w, w_ops = view (w_ops w)\<rparr>) (\<lambda>w. ok (w_ops w)) id
     (run_claimed governed port wall x c t) (run_claimed governed port' wall x c t)"
  unfolding run_claimed_def
  by (intro simulates_intros on_db_simulated on_ops_simulated note_execution_simulated seed
      execute_steps_simulated) simp_all

lemma execute_action_simulated:
  "simulates (\<lambda>w. \<lparr>w_db = w_db w, w_ops = view (w_ops w)\<rparr>) (\<lambda>w. ok (w_ops w)) id
     (execute_action L governed port wall command c now) (execute_action L governed port' wall command c now)"
proof -
  have "simulates (\<lambda>w. \<lparr>w_db = w_db w, w_ops = view (w_ops w)\<rparr>) (\<lambda>w. ok (w_ops w)) id
      (case claim of Inl existing \<Rightarrow> ret existing | Inr executing \<Rightarrow> run_claimed governed port wall executing c t)
      (case claim of Inl existing \<Rightarrow> ret existing | Inr executing \<Rightarrow> run_claimed governed port' wall executing c t)"
    for claim t by (cases claim) (simp_all add: simulates_ret run_claimed_simulated)
  then show ?thesis
    unfolding execute_action_def Let_def
    by (intro simulates_intros on_db_simulated) simp_all
qed

end

section \<open>The typed calls simulate the calls of the port\<close>

text \<open>What surrounds the runtime: an identifier is bound that the middleware could have bound, or none
  is; and \<open>uuid4\<close> gives 32 hex digits.\<close>

definition well_bound :: "sandbox_runtime \<Rightarrow> bool" where
  "well_bound r \<longleftrightarrow>
     (rt_context r = unbound_correlation_id \<or> len_within 8 128 (rt_context r)) \<and>
     (\<forall>n. length (rt_uuids r n) = 32)"

abbreviation runs_as :: "('a \<Rightarrow> 'b) \<Rightarrow> (sandbox_runtime, 'a) prog \<Rightarrow> (sandbox, 'b) prog \<Rightarrow> bool" where
  "runs_as \<equiv> simulates rt_state well_bound"

lemma on_state_runs: "runs_as id (on_state m) m"
  by (rule simulatesI) (auto simp: on_state_def on_part_def Let_def well_bound_def sum.map_id split: prod.splits)

lemma perf_counter_silent: "well_bound r \<Longrightarrow>
    \<exists>x u. perf_counter r = (Inr x, u) \<and> rt_state u = rt_state r \<and> well_bound u"
  by (simp add: perf_counter_def well_bound_def)

lemma log_call_silent: "well_bound r \<Longrightarrow>
    \<exists>x u. log_call sy op rf t r = (Inr x, u) \<and> rt_state u = rt_state r \<and> well_bound u"
  by (simp add: log_call_def perf_counter_def well_bound_def bind_def)

lemma response_meta_runs:
  assumes "valid_call_meta m"
  shows "runs_as pm_provider_reference (response_meta m reference) (respond reference)"
  unfolding response_meta_def respond_def
  by (rule simulates_checked) (use assms in \<open>simp_all add: valid_response_meta_def valid_call_meta_def\<close>)

lemma typed_call_runs:
  assumes "valid_call_meta m"
  shows "runs_as pm_provider_reference (typed_call m system step key operation effect reference)
    (adapter_call step key operation effect reference)"
  unfolding typed_call_def adapter_call_def
  by (rule simulates_silent [OF perf_counter_silent], assumption)
    (intro simulates_bind_same on_state_runs simulates_silent [OF log_call_silent] response_meta_runs [OF assms])

text \<open>A typed response answers with the reference of its metadata.\<close>

lemma runs_bind_ret:
  assumes "runs_as h m m'" and "\<And>x. g (f x) = h x"
  shows "runs_as g (bind m (\<lambda>x. ret (f x))) m'"
proof (rule simulatesI)
  fix r q u assume ok: "well_bound r" and run: "bind m (\<lambda>x. ret (f x)) r = (q, u)"
  obtain a v where a: "m r = (a, v)" by fastforce
  from simulatesD [OF assms(1) ok a] show "m' (rt_state r) = (map_sum id g q, rt_state u) \<and> well_bound u"
    using run a assms(2) by (cases a) auto
qed

lemma written_runs:
  assumes "valid_call_meta m" and "\<And>x. g (f x) = pm_provider_reference x"
  shows "runs_as g (bind (on_state (modify e)) (\<lambda>_. bind (response_meta m reference) (\<lambda>x. ret (f x))))
    (bind (modify e) (\<lambda>_. respond reference))"
  by (intro simulates_bind_same on_state_runs runs_bind_ret [OF response_meta_runs] assms)

lemma typed_calls_run:
  assumes "valid_call_meta m"
  shows "runs_as (\<lambda>p. pm_provider_reference (wp_meta p)) (typed_reserve_inventory m q1) (reserve_inventory q1)"
    "runs_as (\<lambda>p. pm_provider_reference (wl_meta p)) (typed_release_inventory m q2) (release_inventory q2)"
    "runs_as (\<lambda>p. pm_provider_reference (op_meta p)) (typed_change_location m q3) (change_fulfilment_location q3)"
    "runs_as (\<lambda>p. pm_provider_reference (op_meta p)) (typed_restore_location m q3) (restore_fulfilment_location q3)"
    "runs_as (\<lambda>p. pm_provider_reference (ot_meta p)) (typed_create_split m q4) (create_split_shipment q4)"
    "runs_as (\<lambda>p. pm_provider_reference (ot_meta p)) (typed_cancel_split m q4) (cancel_split_shipment q4)"
    "runs_as (\<lambda>p. pm_provider_reference (cp_meta p)) (typed_upgrade_service m q5) (upgrade_service q5)"
    "runs_as (\<lambda>p. pm_provider_reference (cp_meta p)) (typed_restore_service m q5) (restore_service q5)"
    "runs_as (\<lambda>p. pm_provider_reference (dp_meta p)) (typed_record_delivery m q6) (record_delivery q6)"
  unfolding typed_reserve_inventory_def reserve_inventory_def typed_release_inventory_def release_inventory_def
    typed_change_location_def change_fulfilment_location_def typed_restore_location_def
    restore_fulfilment_location_def typed_create_split_def create_split_shipment_def typed_cancel_split_def
    cancel_split_shipment_def typed_upgrade_service_def upgrade_service_def typed_restore_service_def
    restore_service_def typed_record_delivery_def record_delivery_def
  by (auto intro!: runs_bind_ret [OF typed_call_runs [OF assms]] written_runs [OF assms])

section \<open>The port of the typed adapters\<close>

lemma call_correlation_app:
  assumes "well_bound r"
  obtains i u where "call_correlation r = (Inr i, u)" "rt_state u = rt_state r" "well_bound u"
    "len_within 8 128 i" "rt_log u = rt_log r" "rt_context u = rt_context r"
proof (cases "rt_context r = unbound_correlation_id")
  case True
  then show thesis
    using assms by (intro that [of "''corr_'' @ rt_uuids r (rt_drawn r)" "r\<lparr>rt_drawn := Suc (rt_drawn r)\<rparr>"])
      (simp_all add: call_correlation_def well_bound_def len_within_def)
next
  case False
  then show thesis
    using assms by (intro that [of "rt_context r" r]) (simp_all add: call_correlation_def well_bound_def)
qed

lemma full_request_meta_app:
  assumes "well_bound r"
  obtains m u where "valid_call_meta m" "rt_state u = rt_state r" "well_bound u" "rt_log u = rt_log r"
    "rt_context u = rt_context r"
    "full_request_meta key tenant None r =
      (if valid_request_meta \<lparr>rm_idempotency_key = key, rm_tenant_id = tenant\<rparr>
       then Inr (m, \<lparr>rm_idempotency_key = key, rm_tenant_id = tenant\<rparr>)
       else Inl (err ValidationError ''validation error''), u)"
proof (rule call_correlation_app [OF assms])
  fix i u assume u: "call_correlation r = (Inr i, u)" "rt_state u = rt_state r" "well_bound u" "len_within 8 128 i"
    "rt_log u = rt_log r" "rt_context u = rt_context r"
  show thesis
    by (rule that [of "\<lparr>cm_correlation_id = i, cm_actor_id = None, cm_contract_version = ADAPTER_CONTRACT_VERSION\<rparr>" u])
      (use u in \<open>simp_all add: full_request_meta_def checked_app valid_call_meta_def\<close>)
qed

lemma composed_runs:
  assumes "\<And>m q. valid_call_meta m \<Longrightarrow> runs_as h (call m q) (call' q)" and "\<And>p. answer p = h p"
  shows "runs_as id (composed key tenant valid request call answer)
    (bind (request_meta key tenant) (\<lambda>a. bind (checked valid (request a)) call'))"
proof (rule simulatesI)
  fix r q u assume ok: "well_bound r" and run: "composed key tenant valid request call answer r = (q, u)"
  let ?a = "\<lparr>rm_idempotency_key = key, rm_tenant_id = tenant\<rparr>"
  show "bind (request_meta key tenant) (\<lambda>a. bind (checked valid (request a)) call') (rt_state r) =
      (map_sum id id q, rt_state u) \<and> well_bound u"
  proof (rule full_request_meta_app [OF ok, of key tenant])
    fix m v assume v: "valid_call_meta m" "rt_state v = rt_state r" "well_bound v"
      "full_request_meta key tenant None r =
        (if valid_request_meta ?a then Inr (m, ?a) else Inl (err ValidationError ''validation error''), v)"
    have "simulates rt_state well_bound id (bind (call m (request ?a)) (\<lambda>p. ret (answer p))) (call' (request ?a))"
      by (rule runs_bind_ret [OF assms(1) [OF v(1)]]) (simp add: assms(2))
    then show ?thesis
      using run v(2-4) simulatesD [of rt_state well_bound id _ "call' (request ?a)" v]
      by (cases "valid_request_meta ?a"; cases "valid (request ?a)")
        (auto simp: composed_def request_meta_def bind_app checked_app sum.map_id)
  qed
qed

lemma delivery_runs:
  assumes "valid_call_meta m"
  shows "runs_as (\<lambda>_. ()) (typed_record_delivery m q) (bind (record_delivery q) (\<lambda>_. ret ()))"
proof (rule simulatesI)
  fix r a u assume "well_bound r" "typed_record_delivery m q r = (a, u)"
  from simulatesD [OF typed_calls_run(9) [OF assms] this]
  show "bind (record_delivery q) (\<lambda>_. ret ()) (rt_state r) = (map_sum id (\<lambda>_. ()) a, rt_state u) \<and> well_bound u"
    by (cases a) auto
qed

lemmas composed_ops = record_delivery_outcome_def reserve_alternative_def release_alternative_def change_location_def
  restore_location_def upgrade_carrier_def restore_carrier_def create_split_def cancel_split_def
  upgrade_request_def split_request_def prog_bind_assoc

interpretation typed: port_simulation rt_state well_bound typed_port sandbox_port
proof unfold_locales
  fix c :: order_context and k a x b
  show "runs_as id (p_seed typed_port c) (p_seed sandbox_port c)"
    "runs_as id (p_holds typed_port c a) (p_holds sandbox_port c a)"
    "runs_as id (p_hydrate typed_port c x) (p_hydrate sandbox_port c x)"
    by (simp_all add: typed_port_defs sandbox_port_def on_state_runs)
  show "runs_as id (p_record_delivery typed_port k b) (p_record_delivery sandbox_port k b)"
    by (simp add: typed_port_defs sandbox_port_def composed_ops composed_runs [OF delivery_runs])
  show "runs_as id (p_reserve typed_port c k) (p_reserve sandbox_port c k)"
    by (cases "oc_alternative_location_id c")
      (simp_all add: typed_port_defs sandbox_port_def composed_ops simulates_raise composed_runs [OF typed_calls_run(1)])
  show "runs_as id (p_change typed_port c k) (p_change sandbox_port c k)"
    by (cases "oc_alternative_location_id c")
      (simp_all add: typed_port_defs sandbox_port_def composed_ops simulates_raise composed_runs [OF typed_calls_run(3)])
  show "runs_as id (p_split typed_port c k) (p_split sandbox_port c k)"
    by (simp add: typed_port_defs sandbox_port_def composed_ops simulates_raise composed_runs [OF typed_calls_run(5)])
  show "runs_as id (p_release typed_port c) (p_release sandbox_port c)"
    "runs_as id (p_restore_location typed_port c) (p_restore_location sandbox_port c)"
    "runs_as id (p_cancel_split typed_port c) (p_cancel_split sandbox_port c)"
    "runs_as id (p_upgrade typed_port c k) (p_upgrade sandbox_port c k)"
    "runs_as id (p_restore_carrier typed_port c) (p_restore_carrier sandbox_port c)"
    by (simp_all add: typed_port_defs sandbox_port_def composed_ops composed_runs [OF typed_calls_run(2)]
        composed_runs [OF typed_calls_run(4)] composed_runs [OF typed_calls_run(6)]
        composed_runs [OF typed_calls_run(7)] composed_runs [OF typed_calls_run(8)])
qed

section \<open>What is answered and logged\<close>

text \<open>A keyed call that is acknowledged answers with its reference under the identifier of its request,
  as a success of contract v1, and adds its one line to the log; any other call adds none.\<close>

definition log_line :: "sandbox_runtime \<Rightarrow> string \<Rightarrow> string \<Rightarrow> string \<Rightarrow> rat \<Rightarrow> adapter_log_line" where
  "log_line r system operation reference duration =
     \<lparr>al_correlation_id = rt_context r, al_system = system, al_operation = operation,
      al_error_class = AE_SUCCESS, al_provider_reference = reference, al_duration_seconds = duration\<rparr>"

lemma typed_call_result:
  assumes "typed_call m system step key operation effect reference r = (res, r')" and "valid_call_meta m"
    and "len_within 1 240 reference"
  shows "(\<forall>p. res = Inr p \<longrightarrow> p = \<lparr>pm_correlation_id = cm_correlation_id m, pm_provider_reference = reference,
        pm_contract_version = ADAPTER_CONTRACT_VERSION, pm_error_class = AE_SUCCESS, pm_retryable = False,
        pm_ambiguous = False\<rparr> \<and>
      rt_log r' = rt_log r @ [log_line r system step reference
        (rt_timer r (Suc (rt_ticks r)) - rt_timer r (rt_ticks r))]) \<and>
    (\<forall>e. res = Inl e \<longrightarrow> rt_log r' = rt_log r)"
proof -
  have ok: "response_meta m reference u = (Inr \<lparr>pm_correlation_id = cm_correlation_id m,
      pm_provider_reference = reference, pm_contract_version = ADAPTER_CONTRACT_VERSION,
      pm_error_class = AE_SUCCESS, pm_retryable = False, pm_ambiguous = False\<rparr>, u)" for u
    using assms(2,3) by (simp add: response_meta_def checked_app valid_response_meta_def valid_call_meta_def)
  show ?thesis
    using assms(1)
    by (auto simp: typed_call_def bind_def perf_counter_def on_state_def on_part_def Let_def log_call_def ok log_line_def
        split: prod.splits sum.splits dest!: before_step_state after_step_state)
qed

text \<open>The keyed calls of an order with the system that logs them.\<close>

definition logged_calls ::
  "order_context \<Rightarrow> (string \<times> string \<times> (string \<Rightarrow> (sandbox_runtime, string) prog)) list" where
  "logged_calls c =
     [(''wms'', ''reserve_alternative'', p_reserve typed_port c),
      (''oms'', ''change_location'', p_change typed_port c),
      (''oms'', ''create_split'', p_split typed_port c),
      (''carrier'', ''upgrade_carrier'', p_upgrade typed_port c)]"

lemma logs_map: "bind m (\<lambda>x. ret (f x)) r = (res, r') \<Longrightarrow>
    \<exists>q. m r = (q, r') \<and> res = map_sum id f q"
  by (auto simp: bind_def split: prod.splits sum.splits)

lemma composed_logs:
  assumes "composed key tenant valid request call answer r = (res, r')" and "well_bound r"
    and "\<And>m q u res u'. valid_call_meta m \<Longrightarrow> valid q \<Longrightarrow> call m q u = (res, u') \<Longrightarrow>
      (\<forall>p. res = Inr p \<longrightarrow> (\<exists>d. rt_log u' = rt_log u @ [log_line u system step (answer p) d])) \<and>
      (\<forall>e. res = Inl e \<longrightarrow> rt_log u' = rt_log u)"
  shows "(\<forall>x. res = Inr x \<longrightarrow> (\<exists>d. rt_log r' = rt_log r @ [log_line r system step x d])) \<and>
    (\<forall>e. res = Inl e \<longrightarrow> rt_log r' = rt_log r)"
proof (rule full_request_meta_app [OF assms(2), of key tenant])
  let ?a = "\<lparr>rm_idempotency_key = key, rm_tenant_id = tenant\<rparr>"
  fix m v assume v: "valid_call_meta m" "rt_log v = rt_log r" "rt_context v = rt_context r"
    "full_request_meta key tenant None r =
      (if valid_request_meta ?a then Inr (m, ?a) else Inl (err ValidationError ''validation error''), v)"
  show ?thesis
  proof (cases "valid_request_meta ?a \<and> valid (request ?a)")
    case True
    then have "bind (call m (request ?a)) (\<lambda>p. ret (answer p)) v = (res, r')"
      using assms(1) v(4) by (simp add: composed_def bind_app checked_app)
    then obtain q where q: "call m (request ?a) v = (q, r')" "res = map_sum id answer q"
      by (blast dest: logs_map)
    have "valid (request ?a)" using True by simp
    from assms(3) [OF v(1) this q(1)] q(2) show ?thesis using v(2,3) by (cases q) (auto simp: log_line_def)
  next
    case False
    then show ?thesis
      using assms(1) v by (cases "valid_request_meta ?a") (auto simp: composed_def bind_app checked_app)
  qed
qed

lemma typed_call_logs:
  assumes "bind (typed_call m system step key operation effect reference) (\<lambda>x. ret (f x)) u = (res, u')"
    and "valid_call_meta m" and "len_within 1 240 reference" and "\<And>x. g (f x) = pm_provider_reference x"
  shows "(\<forall>p. res = Inr p \<longrightarrow> (\<exists>d. rt_log u' = rt_log u @ [log_line u system step (g p) d])) \<and>
    (\<forall>e. res = Inl e \<longrightarrow> rt_log u' = rt_log u)"
proof -
  from logs_map [OF assms(1)] obtain q where
    q: "typed_call m system step key operation effect reference u = (q, u')" "res = map_sum id f q" by blast
  from typed_call_result [OF q(1) assms(2,3)] q(2) assms(4) show ?thesis by (cases q) auto
qed

abbreviation logs_answer ::
  "string \<Rightarrow> string \<Rightarrow> ('p \<Rightarrow> string) \<Rightarrow> sandbox_runtime \<Rightarrow> 'p res \<Rightarrow> sandbox_runtime \<Rightarrow> bool" where
  "logs_answer system step g u res u' \<equiv>
     (\<forall>p. res = Inr p \<longrightarrow> (\<exists>d. rt_log u' = rt_log u @ [log_line u system step (g p) d])) \<and>
     (\<forall>e. res = Inl e \<longrightarrow> rt_log u' = rt_log u)"

lemma typed_reserve_logs:
  assumes "valid_call_meta m" and "valid_wms_reserve q" and "typed_reserve_inventory m q u = (res, u')"
  shows "logs_answer ''wms'' ''reserve_alternative'' (\<lambda>p. pm_provider_reference (wp_meta p)) u res u'"
  by (rule typed_call_logs [OF assms(3) [unfolded typed_reserve_inventory_def] assms(1)])
    (use assms(2) in \<open>simp_all add: valid_wms_reserve_def len_within_def\<close>)

lemma typed_change_logs:
  assumes "valid_call_meta m" and "valid_oms_change q" and "typed_change_location m q u = (res, u')"
  shows "logs_answer ''oms'' ''change_location'' (\<lambda>p. pm_provider_reference (op_meta p)) u res u'"
  by (rule typed_call_logs [OF assms(3) [unfolded typed_change_location_def] assms(1)])
    (use assms(2) in \<open>simp_all add: valid_oms_change_def len_within_def\<close>)

lemma typed_split_logs:
  assumes "valid_call_meta m" and "valid_oms_split q" and "typed_create_split m q u = (res, u')"
  shows "logs_answer ''oms'' ''create_split'' (\<lambda>p. pm_provider_reference (ot_meta p)) u res u'"
  by (rule typed_call_logs [OF assms(3) [unfolded typed_create_split_def] assms(1)])
    (use assms(2) in \<open>simp_all add: valid_oms_split_def len_within_def\<close>)

lemma typed_upgrade_logs:
  assumes "valid_call_meta m" and "valid_carrier_upgrade q" and "typed_upgrade_service m q u = (res, u')"
  shows "logs_answer ''carrier'' ''upgrade_carrier'' (\<lambda>p. pm_provider_reference (cp_meta p)) u res u'"
  by (rule typed_call_logs [OF assms(3) [unfolded typed_upgrade_service_def] assms(1)])
    (use assms(2) in \<open>simp_all add: valid_carrier_upgrade_def len_within_def\<close>)

definition logs_when_acknowledged :: "string \<Rightarrow> string \<Rightarrow> (sandbox_runtime, string) prog \<Rightarrow> bool" where
  "logs_when_acknowledged system step m \<longleftrightarrow>
     (\<forall>r res r'. well_bound r \<and> m r = (res, r') \<longrightarrow> logs_answer system step id r res r')"

lemma raise_logs: "logs_when_acknowledged system step (raise e)"
  by (auto simp: logs_when_acknowledged_def)

lemma composed_call_logs:
  assumes "\<And>m q u res u'. valid_call_meta m \<Longrightarrow> valid q \<Longrightarrow> call m q u = (res, u') \<Longrightarrow>
      logs_answer system step answer u res u'"
  shows "logs_when_acknowledged system step (composed key tenant valid request call answer)"
  unfolding logs_when_acknowledged_def id_apply
proof (intro allI impI)
  fix r res r' assume "well_bound r \<and> composed key tenant valid request call answer r = (res, r')"
  then have run: "composed key tenant valid request call answer r = (res, r')" "well_bound r" by simp_all
  show "logs_answer system step (\<lambda>x. x) r res r'" by (rule composed_logs [OF run]) (rule assms)
qed

lemma typed_port_logs:
  "logs_when_acknowledged ''wms'' ''reserve_alternative'' (p_reserve typed_port c k)"
  "logs_when_acknowledged ''oms'' ''change_location'' (p_change typed_port c k)"
  "logs_when_acknowledged ''oms'' ''create_split'' (p_split typed_port c k)"
  "logs_when_acknowledged ''carrier'' ''upgrade_carrier'' (p_upgrade typed_port c k)"
  unfolding typed_port_defs operations_port.simps wms_adapter.simps oms_adapter.simps carrier_adapter.simps
     apply (cases "oc_alternative_location_id c"; simp only: option.case)
      apply (rule raise_logs)
     apply (rule composed_call_logs, rule typed_reserve_logs, assumption+)
    apply (cases "oc_alternative_location_id c"; simp only: option.case)
     apply (rule raise_logs)
    apply (rule composed_call_logs, rule typed_change_logs, assumption+)
   apply (cases "oc_split_shipment_possible c"; simp only: if_True if_False not_True_eq_False not_False_eq_True)
    apply (rule composed_call_logs, rule typed_split_logs, assumption+)
   apply (rule raise_logs)
  apply (rule composed_call_logs, rule typed_upgrade_logs, assumption+)
  done

section \<open>Properties\<close>

text \<open>C37: The gateway runs on the typed adapters as it runs on the port of the model: with an identifier
  bound as the middleware binds them, executing any command through the typed requests and responses gives
  the same answer, the same tables and the same systems of record, errors included. What is proved of
  executions on the port therefore holds of the typed adapters.\<close>

theorem typed_execution_refines:
  assumes "well_bound (w_ops w)"
    and "execute_action L governed typed_port wall command c now w = (res, w')"
  shows "execute_action L governed sandbox_port wall command c now \<lparr>w_db = w_db w, w_ops = rt_state (w_ops w)\<rparr> =
      (res, \<lparr>w_db = w_db w', w_ops = rt_state (w_ops w')\<rparr>) \<and> well_bound (w_ops w')"
  using simulatesD [OF typed.execute_action_simulated assms] by (simp add: sum.map_id)

text \<open>Every keyed call that an adapter acknowledges is logged, once, by its system under its
  operation, with the provider reference that it answered and the identifier that is bound; a call that is
  refused, that times out, or whose answer is malformed is not logged at all.\<close>

theorem acknowledged_calls_are_logged:
  "list_all (\<lambda>(system, step, call). logs_when_acknowledged system step (call k)) (logged_calls c)"
  by (simp add: logged_calls_def typed_port_logs)

section \<open>A sample runtime\<close>

definition sample_runtime :: sandbox_runtime where
  "sample_runtime = \<lparr>rt_state = empty_sandbox, rt_context = ''corr-sample-1'', rt_uuids = \<lambda>_. replicate 32 CHR ''0'',
     rt_drawn = 0, rt_timer = rat_of_nat, rt_ticks = 0, rt_log = []\<rparr>"

definition sample_typed_run :: "action_execution res \<times> sandbox_runtime world" where
  "sample_typed_run =
     execute_action sample_execution_lib True typed_port (\<lambda>_. utc 9) (sample_command REROUTE) sample_order None
       \<lparr>w_db = w_db (sample_world Map.empty), w_ops = sample_runtime\<rparr>"

text \<open>The reroute of the sample order on the typed adapters: it succeeds like the one on the port.\<close>

lemma typed_execution_refines_witness:
  "status_of (fst sample_typed_run) = Some AC_SUCCEEDED \<and>
   rt_state (w_ops (snd sample_typed_run)) = w_ops (snd (sample_run Map.empty))"
proof -
  have start: "\<lparr>w_db = w_db (sample_world Map.empty), w_ops = rt_state sample_runtime\<rparr> = sample_world Map.empty"
    by (simp add: sample_world_def sample_runtime_def empty_sandbox_def)
  have "well_bound (w_ops \<lparr>w_db = w_db (sample_world Map.empty), w_ops = sample_runtime\<rparr>)"
    by (simp add: sample_runtime_def well_bound_def len_within_def)
  from typed_execution_refines [OF this surjective_pairing]
  have "sample_run Map.empty = (fst sample_typed_run,
      \<lparr>w_db = w_db (snd sample_typed_run), w_ops = rt_state (w_ops (snd sample_typed_run))\<rparr>)"
    unfolding sample_typed_run_def sample_run_def by (simp add: start)
  then have "fst sample_typed_run = fst (sample_run Map.empty)"
    "rt_state (w_ops (snd sample_typed_run)) = w_ops (snd (sample_run Map.empty))" by simp_all
  then show ?thesis using sample_run_status by simp
qed

end
