(* ===== verification/Metrics.thy ===== *)
theory Metrics
  imports Api_Properties
begin

text \<open>
  \<^verbatim>\<open>src/src/promiseguard/metrics.py\<close>: the families of the registry with their labels, the series that
  the increments of \<^verbatim>\<open>src/apps/api/main.py\<close> fall into, and what a counter refuses. The client library
  behind the registry is modelled by its documented behaviour: \<open>labels\<close> raises on a wrong number of
  values, \<open>inc\<close> on a negative amount. The latencies are not observed.
\<close>

section \<open>The registry\<close>

datatype instrument = Counter | Histogram

record family =
  fm_name :: string
  fm_help :: string
  fm_instrument :: instrument
  fm_labels :: "string list"

definition decisions_family :: family where
  "decisions_family = \<lparr>fm_name = ''promiseguard_decisions_total'',
     fm_help = ''Decision evaluations by policy disposition.'', fm_instrument = Counter,
     fm_labels = [''disposition'', ''mode'']\<rparr>"

definition approvals_family :: family where
  "approvals_family = \<lparr>fm_name = ''promiseguard_approvals_total'', fm_help = ''Approval transitions.'',
     fm_instrument = Counter, fm_labels = [''status'']\<rparr>"

definition actions_family :: family where
  "actions_family = \<lparr>fm_name = ''promiseguard_actions_total'',
     fm_help = ''Governed actions by type and final status.'', fm_instrument = Counter,
     fm_labels = [''action'', ''status'']\<rparr>"

definition verifications_family :: family where
  "verifications_family = \<lparr>fm_name = ''promiseguard_verifications_total'',
     fm_help = ''Outcome verifications by status.'', fm_instrument = Counter, fm_labels = [''status'']\<rparr>"

definition decision_latency_family :: family where
  "decision_latency_family = \<lparr>fm_name = ''promiseguard_decision_latency_seconds'',
     fm_help = ''End-to-end deterministic decision latency.'', fm_instrument = Histogram, fm_labels = []\<rparr>"

definition openai_runs_family :: family where
  "openai_runs_family = \<lparr>fm_name = ''promiseguard_openai_runs_total'',
     fm_help = ''Bounded OpenAI review runs by final status and model.'', fm_instrument = Counter,
     fm_labels = [''status'', ''model'']\<rparr>"

definition openai_budget_blocks_family :: family where
  "openai_budget_blocks_family = \<lparr>fm_name = ''promiseguard_openai_budget_blocks_total'',
     fm_help = ''OpenAI requests blocked locally before provider invocation.'', fm_instrument = Counter,
     fm_labels = [''reason'']\<rparr>"

definition openai_cost_usd_family :: family where
  "openai_cost_usd_family = \<lparr>fm_name = ''promiseguard_openai_cost_usd_total'',
     fm_help = ''Application-accounted OpenAI cost in US dollars.'', fm_instrument = Counter,
     fm_labels = [''model'']\<rparr>"

definition openai_latency_family :: family where
  "openai_latency_family = \<lparr>fm_name = ''promiseguard_openai_review_latency_seconds'',
     fm_help = ''Bounded OpenAI structured-review latency.'', fm_instrument = Histogram,
     fm_labels = [''model'']\<rparr>"

definition registry :: "family list" where
  "registry =
     [decisions_family, approvals_family, actions_family, verifications_family, decision_latency_family,
      openai_runs_family, openai_budget_blocks_family, openai_cost_usd_family, openai_latency_family]"

section \<open>Increments\<close>

fun approval_status_value :: "approval_status \<Rightarrow> string" where
  "approval_status_value AP_PENDING = ''PENDING''"
| "approval_status_value AP_APPROVED = ''APPROVED''"
| "approval_status_value AP_REJECTED = ''REJECTED''"
| "approval_status_value AP_EXPIRED = ''EXPIRED''"

fun verification_status_value :: "verification_status \<Rightarrow> string" where
  "verification_status_value VS_VERIFIED = ''VERIFIED''"
| "verification_status_value VS_FAILED = ''FAILED''"
| "verification_status_value VS_MANUAL_REVIEW_REQUIRED = ''MANUAL_REVIEW_REQUIRED''"

fun agent_run_status_value :: "agent_run_status \<Rightarrow> string" where
  "agent_run_status_value RUN_RESERVED = ''RESERVED''"
| "agent_run_status_value RUN_COMPLETED = ''COMPLETED''"
| "agent_run_status_value RUN_REJECTED = ''REJECTED''"
| "agent_run_status_value RUN_FAILED = ''FAILED''"
| "agent_run_status_value RUN_BUDGET_BLOCKED = ''BUDGET_BLOCKED''"

text \<open>The family, the values of \<open>labels\<close> and the amount of \<open>inc\<close> for each increment of the routes.\<close>

fun increment :: "metric \<Rightarrow> family \<times> string list \<times> rat" where
  "increment (Decision_Count d m) = (decisions_family, [policy_disposition_value d, operating_mode_value m], 1)"
| "increment (Approval_Count s) = (approvals_family, [approval_status_value s], 1)"
| "increment (Action_Count a s) = (actions_family, [recovery_action_value a, action_status_value s], 1)"
| "increment (Verification_Count s) = (verifications_family, [verification_status_value s], 1)"
| "increment (Run_Count s model) = (openai_runs_family, [agent_run_status_value s, model], 1)"
| "increment (Cost_Count model c) = (openai_cost_usd_family, [model], c)"
| "increment (Budget_Block reason) = (openai_budget_blocks_family, [reason], 1)"

text \<open>The series of the counters, with float sums.\<close>

type_synonym series = "string \<times> string list \<Rightarrow> rat"

definition increase :: "family \<Rightarrow> string list \<Rightarrow> rat \<Rightarrow> (series, unit) prog" where
  "increase f vs x = (\<lambda>t.
     if length vs \<noteq> length (fm_labels f) then (Inl (err ValueError ''Incorrect label count''), t)
     else if x < 0 then (Inl (err ValueError ''Counters can only be incremented by non-negative amounts.''), t)
     else (Inr (), t((fm_name f, vs) := fadd (t (fm_name f, vs)) x)))"

fun count_series :: "metric list \<Rightarrow> (series, unit) prog" where
  "count_series [] = ret ()"
| "count_series (m # ms) = (case increment m of (f, vs, x) \<Rightarrow> bind (increase f vs x) (\<lambda>_. count_series ms))"

section \<open>What a response was counted as\<close>

text \<open>The increments that belong to a request and its answer, whatever the service did for it.\<close>

definition state_metrics :: "(workflow_state \<Rightarrow> metric list) \<Rightarrow> api_body \<Rightarrow> metric list" where
  "state_metrics f b = (case b of BState x \<Rightarrow> f x | _ \<Rightarrow> [])"

definition trace_metrics :: "api_body \<Rightarrow> metric list" where
  "trace_metrics b = (case b of BTrace t \<Rightarrow> [Decision_Count (pe_disposition (dt_policy t)) (dt_mode t)] | _ \<Rightarrow> [])"

definition answer_metrics :: "api_request \<Rightarrow> api_body \<Rightarrow> metric list" where
  "answer_metrics q b =
     (case q of
        Post_Evaluate _ \<Rightarrow> trace_metrics b
      | Post_Shadow _ \<Rightarrow> trace_metrics b
      | Post_Submit _ _ \<Rightarrow> state_metrics (\<lambda>x. approval_metrics x @ action_metrics x) b
      | Post_Approve _ _ \<Rightarrow> state_metrics (\<lambda>x. approval_metrics x @ action_metrics x) b
      | Post_Reject _ _ \<Rightarrow> state_metrics approval_metrics b
      | Post_Verify _ _ \<Rightarrow> state_metrics outcome_metrics b
      | Post_Agent_Run _ \<Rightarrow> (case b of BAgent x \<Rightarrow> run_metrics (rs_run x) | _ \<Rightarrow> [])
      | _ \<Rightarrow> [])"

definition response_metrics :: "api_request \<Rightarrow> http_response \<Rightarrow> metric list" where
  "response_metrics q resp =
     (case hr_body resp of
        Content b \<Rightarrow> answer_metrics q b
      | Detail code _ _ \<Rightarrow>
          if code = ''OPENAI_BUDGET_EXCEEDED'' then [Budget_Block ''PROJECT_BUDGET'']
          else if code = ''OPENAI_PER_RUN_LIMIT'' then [Budget_Block ''PER_RUN_LIMIT''] else []
      | _ \<Rightarrow> [])"

lemma on_world_metrics: "on_world m s = (r, s') \<Longrightarrow> app_metrics s' = app_metrics s"
  by (auto simp: on_world_app split: prod.splits)

lemma on_tables_metrics: "on_tables m s = (r, s') \<Longrightarrow> app_metrics s' = app_metrics s"
  unfolding on_tables_def by (rule on_world_metrics)

lemma counted_cases:
  assumes "counted metrics body m s = (r, s')" and "\<And>q u. m s = (q, u) \<Longrightarrow> app_metrics u = app_metrics s"
  obtains (error) e where "r = Inl e" "app_metrics s' = app_metrics s" "m s = (Inl e, s')"
  | (answer) x u where "r = Inr (body x)" "app_metrics s' = app_metrics s @ metrics x" "m s = (Inr x, u)"
      "app_world s' = app_world u"
  using assms
  by (cases "m s"; cases "fst (m s)") (auto simp: counted_def bind_app)

lemma found_metrics:
  assumes "found e m s = (r, s')" and "\<And>q u. m s = (q, u) \<Longrightarrow> app_metrics u = app_metrics s"
  shows "app_metrics s' = app_metrics s"
  using assms by (cases "m s"; cases "fst (m s)") (auto simp: found_def bind_app split: option.splits)

text \<open>A route counts its answer; one that raises counts nothing.\<close>

lemma route_metrics:
  assumes "api_route D V clock wall q s = (r, s')"
  shows "app_metrics s' = app_metrics s @ (case r of Inl e \<Rightarrow> [] | Inr b \<Rightarrow> answer_metrics q b)"
  using assms
  unfolding answer_metrics_def
  by (cases q)
    (auto simp: state_metrics_def trace_metrics_def evaluate_route_def list_decisions_route_def agent_route_def Let_def split: if_splits
      elim!: counted_cases intro: on_world_metrics on_tables_metrics found_metrics)

section \<open>What the counters accept\<close>

text \<open>A run record shows no negative cost: its constructor refuses one.\<close>

lemma run_to_model_cost: "run_to_model r = Inr x \<Longrightarrow> 0 \<le> rr_actual_cost_usd x"
  by (auto simp: run_to_model_def bind_res_Inr split: if_splits)

lemma reserved_cost:
  assumes "budget_reserve L M wall k model version fp cost now db = (Inr (x, reused), db')"
  shows "0 \<le> rr_actual_cost_usd x"
  using assms
  by (auto simp: budget_reserve_def reserve_admit_def reserve_locked_def Let_def session_Inr bind_app run_to_model_cost
      split: option.splits if_splits prod.splits sum.splits)

lemma finalised_cost:
  "budget_finalise M wall k st now db = (Inr x, db') \<Longrightarrow> 0 \<le> rr_actual_cost_usd x"
  by (erule budget_finalise_cases) (auto dest: run_to_model_cost simp: eq_commute [of "Inr x"])

lemma settled_cost:
  "settle_response S clock d cx run p db = (Inr x, db') \<Longrightarrow> 0 \<le> rr_actual_cost_usd x"
  by (auto simp: settle_response_def Let_def bind_app budget_complete_def budget_reject_def
      split: if_splits prod.splits sum.splits dest: finalised_cost)

lemma called_cost:
  assumes "agent_call L ttl governed port clock wall S q state cx text run client w = (Inr x, w')"
  shows "0 \<le> rr_actual_cost_usd (rs_run x)"
  using assms
  by (auto simp: agent_call_def record_failure_def bind_app on_db_app split: sum.splits prod.splits
      dest!: settled_cost run_result_run)

lemma agent_run_cost:
  assumes "agent_run L A json env c ttl governed port clock wall S q w = (Inr x, w')"
  shows "0 \<le> rr_actual_cost_usd (rs_run x)"
  using assms
  by (auto simp: agent_run_def bind_app on_db_app Let_def split: if_splits sum.splits prod.splits option.splits
      dest!: called_cost reserved_cost run_result_run)

definition accepted :: "metric \<Rightarrow> bool" where
  "accepted m = (case increment m of (f, vs, x) \<Rightarrow>
     f \<in> set registry \<and> fm_instrument f = Counter \<and> length vs = length (fm_labels f) \<and> 0 \<le> x)"

lemmas family_defs = decisions_family_def approvals_family_def actions_family_def verifications_family_def
  decision_latency_family_def openai_runs_family_def openai_budget_blocks_family_def openai_cost_usd_family_def
  openai_latency_family_def

lemma registered [simp]:
  "{decisions_family, approvals_family, actions_family, verifications_family, openai_runs_family,
    openai_budget_blocks_family, openai_cost_usd_family} \<subseteq> set registry"
  by (auto simp: registry_def)

lemma accepted_simps [simp]:
  "accepted (Decision_Count d m)" "accepted (Approval_Count a)" "accepted (Action_Count r ac)"
  "accepted (Verification_Count v)" "accepted (Run_Count st model)" "accepted (Budget_Block reason)"
  "accepted (Cost_Count model c) \<longleftrightarrow> 0 \<le> c"
  by (simp_all add: accepted_def registry_def) (simp_all add: family_defs)

lemma run_metrics_accepted: "0 \<le> rr_actual_cost_usd x \<Longrightarrow> list_all accepted (run_metrics x)"
  by (simp add: run_metrics_def float.rnd_nonneg)

lemma state_metrics_accepted:
  "list_all accepted (approval_metrics x)" "list_all accepted (action_metrics x)" "list_all accepted (outcome_metrics x)"
  by (simp_all add: approval_metrics_def action_metrics_def outcome_metrics_def split: option.split)

lemma answer_metrics_accepted:
  assumes "\<And>p x. q = Post_Agent_Run p \<Longrightarrow> b = BAgent x \<Longrightarrow> 0 \<le> rr_actual_cost_usd (rs_run x)"
  shows "list_all accepted (answer_metrics q b)"
proof (cases "\<exists>p. q = Post_Agent_Run p")
  case True
  then obtain p where q: "q = Post_Agent_Run p" by blast
  then show ?thesis
    using assms [OF q] run_metrics_accepted by (cases b) (simp_all add: answer_metrics_def)
next
  case False
  then show ?thesis
    by (cases q; cases b) (simp_all add: answer_metrics_def trace_metrics_def state_metrics_def state_metrics_accepted)
qed

lemma count_series_accepted:
  assumes "list_all accepted ms" and "\<And>k. is_float (t k)"
  shows "\<exists>t'. count_series ms t = (Inr (), t') \<and> (\<forall>k. is_float (t' k) \<and> t k \<le> t' k)"
  using assms
proof (induction ms arbitrary: t)
  case (Cons m ms)
  obtain f vs x where i: "increment m = (f, vs, x)" by (cases "increment m")
  then have ok: "length vs = length (fm_labels f)" "0 \<le> x" using Cons.prems(1) by (simp_all add: accepted_def)
  let ?u = "t((fm_name f, vs) := fadd (t (fm_name f, vs)) x)"
  have u: "is_float (?u k)" "t k \<le> ?u k" for k
    using Cons.prems(2) ok(2) by (auto simp: fadd_def intro: float.rnd_ge_rep)
  have "\<exists>t'. count_series ms ?u = (Inr (), t') \<and> (\<forall>k. is_float (t' k) \<and> ?u k \<le> t' k)"
    by (rule Cons.IH) (use Cons.prems(1) u(1) in simp_all)
  then obtain t' where t': "count_series ms ?u = (Inr (), t')" "\<forall>k. is_float (t' k) \<and> ?u k \<le> t' k" by blast
  have "count_series (m # ms) t = count_series ms ?u" using i ok by (simp add: increase_def bind_app)
  then show ?case using t' u(2) order_trans by metis
qed simp

section \<open>The error responses\<close>

lemma error_metrics:
  "response_metrics q (error_response correlation e) = block_metrics e"
  by (cases "exn_cls e")
    (simp_all add: response_metrics_def error_response_def handler_for_def block_metrics_def)

lemma serve_metrics:
  assumes "serve D V clock wall fresh header q s = (resp, s')"
  shows "app_metrics s' = app_metrics s @ response_metrics q resp"
proof (cases "request_valid q")
  case False
  then show ?thesis using assms by (auto simp: serve_def Let_def response_metrics_def)
next
  case True
  obtain r u where r: "api_route D V clock wall q s = (r, u)" by fastforce
  show ?thesis
    using assms True r route_metrics [OF r] error_metrics
    by (cases r) (auto simp: serve_def Let_def response_metrics_def)
qed

lemma serve_answer:
  assumes "serve D V clock wall fresh header q s = (resp, s')" and "hr_body resp = Content b"
  shows "api_route D V clock wall q s = (Inr b, s')"
  using assms
  by (auto simp: serve_def Let_def error_response_def split: if_splits prod.splits sum.splits option.splits)

lemma answered_run:
  assumes "serve D V clock wall fresh header (Post_Agent_Run q) s = (resp, s')" and "hr_body resp = Content (BAgent x)"
  obtains w where "app_world s' = w"
    "agent_run (dp_lib D) (dp_isoformat D) (dp_json D) (dp_env D) (dp_default_client D) default_ttl True
       sandbox_port clock wall (sv_agent V) q (app_world s) = (Inr x, w)"
  using serve_answer [OF assms] that
  by (auto simp: agent_route_def counted_def bind_app on_world_app split: prod.splits sum.splits)

section \<open>Properties\<close>

text \<open>C39: The counters are what the answers say: a served request increments them by what its response
  shows, the disposition and mode of the returned decision, the states of the returned approval, action,
  outcome or run, the reason a budget blocked the call, and by nothing else; no such increment is refused,
  each is of a registered counter with all of its labels, and no series ever falls.\<close>

theorem answers_are_counted:
  assumes "serve D V clock wall fresh header q s = (resp, s')" and "\<And>k. is_float (t k)"
  shows "app_metrics s' = app_metrics s @ response_metrics q resp \<and>
    list_all accepted (response_metrics q resp) \<and>
    (\<exists>t'. count_series (response_metrics q resp) t = (Inr (), t') \<and> (\<forall>k. is_float (t' k) \<and> t k \<le> t' k))"
proof -
  have "list_all accepted (response_metrics q resp)"
  proof (cases "hr_body resp")
    case (Content b)
    have "0 \<le> rr_actual_cost_usd (rs_run x)" if "q = Post_Agent_Run p" "b = BAgent x" for p x
      using assms(1) Content that by (metis answered_run agent_run_cost)
    then show ?thesis using answer_metrics_accepted [of q b] Content by (simp add: response_metrics_def)
  qed (simp_all add: response_metrics_def)
  then show ?thesis using serve_metrics [OF assms(1)] count_series_accepted assms(2) by blast
qed

text \<open>The rows of completed runs stay when stale reservations are reclaimed.\<close>

lemma budget_state_keeps_completed:
  assumes "budget_state M wall now db = (r, db')" and "row \<in> set (tb_runs db)" "orr_status row = RUN_COMPLETED"
  shows "row \<in> set (tb_runs db')"
proof (cases r)
  case (Inl e)
  then show ?thesis using assms by (auto simp: budget_state_def Let_def dest!: session_InlD)
next
  case (Inr x)
  have "row = (if is_stale (now_or now wall) row then stale_run (now_or now wall) row else row)"
    using assms(3) by (simp add: is_stale_def)
  then show ?thesis
    using assms Inr
    by (auto simp: budget_state_def Let_def session_Inr bind_app reclaim_stale_def image_iff
        split: prod.splits sum.splits if_splits dest!: locked_budget_runs)
qed

lemma reused_run_row:
  assumes "budget_reserve L M wall k model version fp cost now db = (Inr (x, True), db')"
  shows "db' = db \<and> (\<exists>row\<in>set (tb_runs db). orr_status row = RUN_COMPLETED \<and> run_to_model row = Inr x)"
proof (cases "completed_run (request_key L k model version fp) db")
  case None
  then show ?thesis
    using assms
    by (auto simp: budget_reserve_def reserve_admit_def reserve_locked_def Let_def session_Inr bind_app
        split: option.splits if_splits prod.splits sum.splits)
next
  case (Some row)
  then have "row \<in> set (tb_runs db)" "orr_status row = RUN_COMPLETED"
    using first_desc_SomeD by (fastforce simp: completed_run_def)+
  then show ?thesis
    using assms Some by (auto simp: budget_reserve_def Let_def session_Inr bind_app split: sum.splits)
qed

lemma reused_agent_run:
  assumes "agent_run L A json env c ttl governed port clock wall S q w = (Inr x, w')" and "rs_reused_existing_run x"
  shows "\<exists>row\<in>set (tb_runs (w_db w)). orr_status row = RUN_COMPLETED \<and> run_to_model row = Inr (rs_run x) \<and>
    row \<in> set (tb_runs (w_db w'))"
proof -
  have not_fresh: "\<not> rs_reused_existing_run y"
    if "agent_call L ttl governed port clock wall S q st cx input run client u = (Inr y, v)" for st cx input run client u y v
    using that by (auto simp: agent_call_def record_failure_def run_result_def bind_app on_db_app split: sum.splits prod.splits)
  obtain st cost run db1 flow v where r:
    "budget_reserve L (as_budget S) (clock 0) (rq_decision_id q) (as_model S) PROMPT_VERSION
       (sha256_hex L (json (agent_context_of A (ws_decision st)))) cost None (w_db w) = (Inr (run, True), db1)"
    "advance_if_requested L ttl governed port clock wall q (the (rr_review run)) st (w\<lparr>w_db := db1\<rparr>) = (Inr flow, v)"
    "run_result S clock run flow True v = (Inr x, w')"
    using assms not_fresh workflow_get_state_state
    by (fastforce simp: agent_run_def bind_app on_db_app Let_def split: if_splits sum.splits prod.splits option.splits)
  obtain row where row: "row \<in> set (tb_runs (w_db w))" "orr_status row = RUN_COMPLETED" "run_to_model row = Inr run"
    and same: "db1 = w_db w" using reused_run_row [OF r(1)] by blast
  have "tb_runs (w_db v) = tb_runs (w_db w)"
    using r(2) same by (auto simp: advance_if_requested_def split: if_splits dest!: submit_runs)
  then have "row \<in> set (tb_runs (w_db w'))"
    using r(3) row by (auto simp: run_result_def bind_app on_db_app split: prod.splits sum.splits
      intro: budget_state_keeps_completed)
  then show ?thesis using row run_result_run [OF r(3)] by auto
qed

text \<open>C40: The cost counter counts reuse as spending: a review that is answered from an earlier run
  increments the counter of accounted cost by the cost of that run again, although the run was completed
  and charged before and its row stays as it is.\<close>

theorem reused_run_is_counted_again:
  assumes "serve D V clock wall fresh header (Post_Agent_Run q) s = (resp, s')"
    and "hr_body resp = Content (BAgent x)" and "rs_reused_existing_run x" and "rr_actual_cost_usd (rs_run x) \<noteq> 0"
  shows "app_metrics s' = app_metrics s @
      [Run_Count (rr_status (rs_run x)) (rr_model (rs_run x)),
       Cost_Count (rr_model (rs_run x)) (fl (rr_actual_cost_usd (rs_run x)))] \<and>
    (\<exists>row\<in>set (tb_runs (w_db (app_world s))). orr_status row = RUN_COMPLETED \<and> run_to_model row = Inr (rs_run x) \<and>
       row \<in> set (tb_runs (w_db (app_world s'))))"
proof -
  obtain w where w: "app_world s' = w"
    "agent_run (dp_lib D) (dp_isoformat D) (dp_json D) (dp_env D) (dp_default_client D) default_ttl True
       sandbox_port clock wall (sv_agent V) q (app_world s) = (Inr x, w)"
    by (rule answered_run [OF assms(1,2)])
  have "\<exists>row\<in>set (tb_runs (w_db (app_world s))). orr_status row = RUN_COMPLETED \<and> run_to_model row = Inr (rs_run x) \<and>
      row \<in> set (tb_runs (w_db w))"
    using w(2) assms(3) reused_agent_run by blast
  then show ?thesis
    using serve_metrics [OF assms(1)] assms(2,4) w(1) by (simp add: response_metrics_def answer_metrics_def run_metrics_def)
qed

section \<open>Samples\<close>

lemma answered_evaluation:
  assumes "serve D V clock wall fresh header (Post_Evaluate q) s = (resp, s')" and "hr_status resp = 200"
  shows "\<exists>t. hr_body resp = Content (BTrace t)"
proof -
  have failed: "hr_status (error_response c e) \<noteq> 200" for c e
    by (auto simp: error_response_def handler_for_def split: option.splits dest!: registered_status)
  show ?thesis
    using assms failed
    by (auto simp: serve_def Let_def evaluate_route_def counted_def bind_app split: if_splits prod.splits sum.splits)
qed

lemma answers_are_counted_witness:
  "\<exists>V db (t :: decision_trace). sample_build = (Inr V, db) \<and>
     app_metrics (snd (sample_evaluate V)) = [Decision_Count (pe_disposition (dt_policy t)) (dt_mode t)] \<and>
     returns (count_series (app_metrics (snd (sample_evaluate V))) (\<lambda>_. 0))"
proof -
  obtain V db where V: "sample_build = (Inr V, db)" using sample_build_ok by blast
  from answered_evaluation [OF surjective_pairing sample_evaluated [OF V, unfolded sample_evaluate_def]]
  obtain t where t: "hr_body (fst (sample_evaluate V)) = Content (BTrace t)" unfolding sample_evaluate_def by blast
  then have m: "response_metrics (Post_Evaluate (sample_request RECOMMENDATION)) (fst (sample_evaluate V)) =
      [Decision_Count (pe_disposition (dt_policy t)) (dt_mode t)]"
    by (simp add: response_metrics_def answer_metrics_def trace_metrics_def)
  have none: "app_metrics sample_app = []" by (simp add: sample_app_def)
  obtain resp s' where e: "sample_evaluate V = (resp, s')" by fastforce
  from answers_are_counted [OF e [unfolded sample_evaluate_def], of "\<lambda>_. 0"]
  have "app_metrics (snd (sample_evaluate V)) = [Decision_Count (pe_disposition (dt_policy t)) (dt_mode t)]"
    "\<exists>t'. count_series (app_metrics (snd (sample_evaluate V))) (\<lambda>_. 0) = (Inr (), t')"
    using m none e by auto
  moreover from this(2) have "returns (count_series (app_metrics (snd (sample_evaluate V))) (\<lambda>_. 0))"
    by (auto simp only: returns_def prod.case sum.case)
  ultimately show ?thesis using V by (intro exI conjI)
qed

text \<open>A completed review of the sample decision, and the same review asked for again.\<close>

definition sample_review :: agent_decision_review where
  "sample_review =
     \<lparr>rv_decision_id = ''dec_1'', rv_selected_action = REROUTE, rv_policy_disposition = REQUEST_APPROVAL,
      rv_next_step = SUBMIT_DECISION, rv_rationale_codes = [APPROVAL_REQUIRED], rv_evidence_ids = [''oms:order:t''],
      rv_requires_human_attention = True, rv_uncertainty = 0, rv_summary = ''The reroute waits for an approval.''\<rparr>"

definition sample_completed :: openai_run_row where
  "sample_completed =
     \<lparr>orr_run_id = ''llm_1'',
      orr_request_key = request_key sample_execution_lib ''dec_1'' ''gpt-5-nano'' PROMPT_VERSION
        (sha256_hex sample_execution_lib ''{}''),
      orr_decision_id = ''dec_1'', orr_model = ''gpt-5-nano'', orr_prompt_version = PROMPT_VERSION,
      orr_status = RUN_COMPLETED, orr_context_fingerprint = sha256_hex sample_execution_lib ''{}'',
      orr_reserved_cost_usd = 1/100, orr_actual_cost_usd = 1/200, orr_usage = None, orr_response_id = Some ''resp_1'',
      orr_review = Some sample_review, orr_created_at = utc 0, orr_completed_at = Some (utc 1),
      orr_reservation_expires_at = utc 60, orr_error_code = None, orr_validation_errors = []\<rparr>"

definition sample_reviewed :: app where
  "sample_reviewed =
     \<lparr>app_world = (sample_workflow REQUEST_APPROVAL)\<lparr>w_db :=
        (w_db (sample_workflow REQUEST_APPROVAL))\<lparr>tb_runs := [sample_completed]\<rparr>\<rparr>, app_metrics = []\<rparr>"

definition sample_reuse :: "services \<Rightarrow> http_response \<times> app" where
  "sample_reuse V = serve sample_deployment V (\<lambda>_. utc 5) (\<lambda>_. utc 5) ''c'' None
     (Post_Agent_Run \<lparr>rq_decision_id = ''dec_1'', rq_actor_id = ''agent'', rq_advance_workflow = False\<rparr>) sample_reviewed"

definition sample_reviewer :: services where
  "sample_reviewer =
     \<lparr>sv_settings =
        \<lparr>cf_database_url = DEFAULT_DATABASE_URL, cf_environment = DEFAULT_ENVIRONMENT, cf_auto_create_schema = True,
         cf_metrics_enabled = True, cf_openai_enabled = True, cf_openai_model = DEFAULT_OPENAI_MODEL,
         cf_openai_budget_usd = 1, cf_openai_per_run_limit_usd = 1/2, cf_openai_max_output_tokens = 50,
         cf_openai_timeout_seconds = Some 20, cf_openai_reservation_ttl_seconds = 900,
         cf_strict_local_identity = False\<rparr>,
      sv_score = deterministic_score, sv_scorer_version = deterministic_model_version, sv_agent = sample_service\<rparr>"

lemma sample_reviewed_db:
  "tb_runs (w_db (app_world sample_reviewed)) = [sample_completed]"
  by (simp add: sample_reviewed_def)

lemma sample_reused_run:
  "\<exists>run. budget_reserve sample_execution_lib sample_budget t ''dec_1'' ''gpt-5-nano'' PROMPT_VERSION
      (sha256_hex sample_execution_lib ''{}'') cost None (w_db (app_world sample_reviewed)) =
      (Inr (run, True), w_db (app_world sample_reviewed)) \<and>
     rr_actual_cost_usd run = 1/200 \<and> rr_model run = ''gpt-5-nano'' \<and> rr_review run \<noteq> None"
proof -
  have "new_agent_review sample_review = Inr sample_review" by code_simp
  then have "\<exists>run. run_to_model sample_completed = Inr run \<and> rr_actual_cost_usd run = 1/200 \<and>
      rr_model run = ''gpt-5-nano'' \<and> rr_review run \<noteq> None"
    by (simp add: run_to_model_def sample_completed_def)
  then show ?thesis
    by (auto simp: budget_reserve_def Let_def session_Inr bind_app completed_run_def sample_reviewed_db
        sample_completed_def first_desc_def sorted_desc_def)
qed

lemma sample_reused_answer:
  "\<exists>x. hr_body (fst (sample_reuse sample_reviewer)) = Content (BAgent x) \<and> rs_reused_existing_run x \<and>
     rr_actual_cost_usd (rs_run x) = 1/200 \<and> rr_model (rs_run x) = ''gpt-5-nano''"
proof -
  let ?w = "app_world sample_reviewed"
  have "case workflow_get_state ''dec_1'' ?w of (Inl e, w) \<Rightarrow> False | (Inr st, w) \<Rightarrow> True" by code_simp
  then obtain st where st: "workflow_get_state ''dec_1'' ?w = (Inr st, ?w)"
    using workflow_get_state_state by (fastforce split: prod.splits sum.splits)
  have n: "1 \<le> conservative_token_estimate (INSTRUCTIONS @ [CHR 0x0A] @ ''{}'')"
    by (simp add: conservative_token_estimate_def)
  let ?u = "\<lparr>tu_input_tokens = conservative_token_estimate (INSTRUCTIONS @ [CHR 0x0A] @ ''{}''),
      tu_cached_input_tokens = 0, tu_output_tokens = 50,
      tu_total_tokens = conservative_token_estimate (INSTRUCTIONS @ [CHR 0x0A] @ ''{}'') + 50\<rparr>"
  have "pricing_for_model ''gpt-5-nano'' = Inr \<lparr>input_per_million_usd = 5/100,
      cached_input_per_million_usd = 5/1000, output_per_million_usd = 40/100\<rparr>"
    by (simp add: pricing_for_model_def MODEL_PRICING_def startswith_def)
  moreover have "bounded_usage ?u" using n sample_estimate by (simp add: bounded_usage_def valid_agent_token_usage_def)
  ultimately obtain c where "cost_for_usage ''gpt-5-nano'' ?u = Inr c" using cost_for_usage_ceiling by blast
  then have est: "estimated_run_cost ''gpt-5-nano'' (INSTRUCTIONS @ [CHR 0x0A] @ ''{}'') 50 =
      Inr (conservative_token_estimate (INSTRUCTIONS @ [CHR 0x0A] @ ''{}''), c)"
    using n by (simp add: estimated_run_cost_def Let_def new_agent_token_usage_def valid_agent_token_usage_def)
  obtain run where run: "budget_reserve sample_execution_lib sample_budget (utc 5) ''dec_1'' ''gpt-5-nano'' PROMPT_VERSION
      (sha256_hex sample_execution_lib ''{}'') c None (w_db ?w) = (Inr (run, True), w_db ?w)"
    "rr_actual_cost_usd run = 1/200" "rr_model run = ''gpt-5-nano''" "rr_review run \<noteq> None"
    using sample_reused_run by blast
  have "case budget_state sample_budget (utc 5) None (w_db ?w) of (Inl e, d) \<Rightarrow> False | (Inr b, d) \<Rightarrow> True" by code_simp
  then obtain b d where b: "budget_state sample_budget (utc 5) None (w_db ?w) = (Inr b, d)"
    by (auto split: prod.splits sum.splits)
  show ?thesis
    using st est run b
    by (auto simp: sample_reuse_def serve_def Let_def agent_route_def counted_def bind_app on_world_app agent_run_def
        sample_reviewer_def sample_service_def sample_deployment_def on_db_app advance_if_requested_def run_result_def
        agent_available_def actor_text_def len_within_def)
qed

lemma reused_run_is_counted_again_witness:
  "Cost_Count ''gpt-5-nano'' (fl (1/200)) \<in> set (app_metrics (snd (sample_reuse sample_reviewer)))"
proof -
  obtain x where x: "hr_body (fst (sample_reuse sample_reviewer)) = Content (BAgent x)" "rs_reused_existing_run x"
    "rr_actual_cost_usd (rs_run x) = 1/200" "rr_model (rs_run x) = ''gpt-5-nano''"
    using sample_reused_answer by blast
  from reused_run_is_counted_again [OF surjective_pairing x(1,2) [unfolded sample_reuse_def]] x(3,4)
  show ?thesis unfolding sample_reuse_def by simp
qed

end
