(* ===== verification/Client.thy ===== *)
theory Client
  imports Metrics Evals
begin

text \<open>
  The HTTP clients of the service as the console and the scripts use it (\<^verbatim>\<open>httpx\<close>, \<^verbatim>\<open>urllib\<close>): a
  request is served, answered or lost on the way, and the client reads a status and a body. A site is
  the served application with the number of calls made so far, by which clocks, identifiers and the
  fate of a call on the network are looked up. Identifiers in paths have no character with a meaning
  in a URL.
\<close>

section \<open>Calls over the network\<close>

datatype delivery = Delivered | Unreachable | Answer_Lost

record client_env =
  ce_deployment :: deployment
  ce_services :: services
  ce_clock :: "nat \<Rightarrow> wall"
  ce_wall :: "nat \<Rightarrow> wall"
  ce_fresh :: "nat \<Rightarrow> string"
  ce_delivery :: "nat \<Rightarrow> delivery"

record site =
  st_app :: app
  st_calls :: nat

definition send :: "client_env \<Rightarrow> api_request \<Rightarrow> (site, http_response) prog" where
  "send env q = (\<lambda>s.
     let n = st_calls s;
         (resp, a) = serve (ce_deployment env) (ce_services env) (ce_clock env n) (ce_wall env n) (ce_fresh env n)
           None q (st_app s)
     in case ce_delivery env n of
          Unreachable \<Rightarrow> (Inl (err TransportError []), s\<lparr>st_calls := Suc n\<rparr>)
        | Answer_Lost \<Rightarrow> (Inl (err TransportError []), \<lparr>st_app = a, st_calls = Suc n\<rparr>)
        | Delivered \<Rightarrow> (Inr resp, \<lparr>st_app = a, st_calls = Suc n\<rparr>))"

section \<open>Reading an answer\<close>

text \<open>\<open>response.json()\<close> of a response with content; the subscripts of the clients read it by its kind.\<close>

definition json_body :: "http_response \<Rightarrow> api_body res" where
  "json_body r = (case hr_body r of Content b \<Rightarrow> Inr b | _ \<Rightarrow> Inl (err ValueError ''Expecting value''))"

definition missing :: "'a res" where
  "missing = Inl (err KeyError [])"

definition status_field :: "string \<Rightarrow> api_body \<Rightarrow> string res" where
  "status_field k b =
     (case b of BStatus kvs \<Rightarrow> (case map_of kvs k of Some v \<Rightarrow> Inr v | None \<Rightarrow> missing) | _ \<Rightarrow> missing)"

definition as_kill :: "api_body \<Rightarrow> kill_switch_state res" where
  "as_kill b = (case b of BKill k \<Rightarrow> Inr k | _ \<Rightarrow> missing)"

definition as_budget_state :: "api_body \<Rightarrow> agent_budget_state res" where
  "as_budget_state b = (case b of BBudget x \<Rightarrow> Inr x | _ \<Rightarrow> missing)"

definition as_traces :: "api_body \<Rightarrow> decision_trace list res" where
  "as_traces b = (case b of BTraces ts \<Rightarrow> Inr ts | _ \<Rightarrow> missing)"

definition as_trace :: "api_body \<Rightarrow> decision_trace res" where
  "as_trace b = (case b of BTrace t \<Rightarrow> Inr t | _ \<Rightarrow> missing)"

definition as_approvals :: "api_body \<Rightarrow> approval_record list res" where
  "as_approvals b = (case b of BApprovals xs \<Rightarrow> Inr xs | _ \<Rightarrow> missing)"

definition as_state :: "api_body \<Rightarrow> workflow_state res" where
  "as_state b = (case b of BState x \<Rightarrow> Inr x | _ \<Rightarrow> missing)"

definition as_feedback :: "api_body \<Rightarrow> operator_feedback res" where
  "as_feedback b = (case b of BFeedback x \<Rightarrow> Inr x | _ \<Rightarrow> missing)"

definition as_agent :: "api_body \<Rightarrow> agent_run_result res" where
  "as_agent b = (case b of BAgent x \<Rightarrow> Inr x | _ \<Rightarrow> missing)"

text \<open>A subscript of \<open>None\<close>.\<close>

definition present :: "'a option \<Rightarrow> 'a res" where
  "present x = (case x of Some y \<Rightarrow> Inr y | None \<Rightarrow> missing)"

lemmas body_defs = json_body_def missing_def status_field_def as_kill_def as_budget_state_def as_traces_def
  as_trace_def as_approvals_def as_state_def as_feedback_def as_agent_def present_def

section \<open>What a call may do\<close>

text \<open>A call leaves the site as it is, up to its number, or as serving its request leaves it.\<close>

lemma send_cases:
  assumes "send env q s = (r, s')"
  obtains (lost) e where "r = Inl e" "st_app s' = st_app s"
  | (served) resp a where
      "serve (ce_deployment env) (ce_services env) (ce_clock env (st_calls s)) (ce_wall env (st_calls s))
         (ce_fresh env (st_calls s)) None q (st_app s) = (resp, a)"
      "st_app s' = a" "r = Inr resp \<or> (\<exists>e. r = Inl e)"
  using assms
  by (auto simp: send_def Let_def split: prod.splits delivery.splits)

lemma send_delivered:
  assumes "ce_delivery env (st_calls s) = Delivered"
    and "serve (ce_deployment env) (ce_services env) (ce_clock env (st_calls s)) (ce_wall env (st_calls s))
         (ce_fresh env (st_calls s)) None q (st_app s) = (resp, a)"
  shows "send env q s = (Inr resp, \<lparr>st_app = a, st_calls = Suc (st_calls s)\<rparr>)"
  using assms by (simp add: send_def)

text \<open>The tables and systems a review without advancement may change: none that record governance.\<close>

definition quiet :: "site \<Rightarrow> site \<Rightarrow> bool" where
  "quiet s s' \<longleftrightarrow> evidence_frame (app_world (st_app s)) (app_world (st_app s'))"

interpretation quiet: frame_relation quiet
  by unfold_locales (auto simp: quiet_def evidence_frame.refl intro: evidence_frame.trans)

end
