(* ===== verification/Operations_Console.thy ===== *)
theory Operations_Console
  imports Client
begin

text \<open>
  \<^verbatim>\<open>src/apps/operations_console/app.py\<close>: one run of the console's script, from the values of its
  widgets to the calls it makes and the items it shows. Streamlit runs the script again after every
  interaction; a button is true in the one run after its click, and never while it is disabled. The
  lemmas show that a run changes nothing that matters unless a button was clicked, and then makes the
  one call of that button.
\<close>

section \<open>Widgets and items\<close>

datatype page = Decisions_Page | Approvals_Page | Detail_Page | Budget_Page | Safety_Page

datatype button =
    Approve_Button string
  | Reject_Button string
  | Feedback_Button string
  | Review_Button
  | Activate_Button
  | Deactivate_Button

record console_input =
  ci_page :: page
  ci_clicked :: "button option"
  ci_rationale :: "string \<Rightarrow> string"
  ci_decision_id :: string
  ci_feedback_comment :: string
  ci_useful :: bool
  ci_agent_decision :: string
  ci_actor_id :: string
  ci_advance :: bool
  ci_run_id :: string
  ci_control_reason :: string

record decision_row =
  dw_decision_id :: string
  dw_order_id :: string
  dw_risk :: rat
  dw_selected_action :: recovery_action
  dw_incremental_value :: rat
  dw_policy :: policy_disposition
  dw_control_version :: string
  dw_mode :: operating_mode
  dw_created_at :: datetime

datatype item =
    Error_Item string exn
  | Success_Item string
  | Warning_Item string
  | Info_Item string
  | Caption_Item string
  | Metric_Item string nat rat
  | Rows_Item "decision_row list"
  | Approval_Item approval_record
  | Options_Item "recovery_option list"
  | Policy_Item policy_evaluation
  | Governance_Item "approval_record option" "action_execution option" "outcome_verification option"
  | Json_Item api_body

definition new_console_input :: console_input where
  "new_console_input =
     \<lparr>ci_page = Decisions_Page, ci_clicked = None,
      ci_rationale = \<lambda>_. ''Reviewed order evidence and recovery economics'',
      ci_decision_id = [],
      ci_feedback_comment = ''Shadow recommendation matches the evidence I would have used.'',
      ci_useful = True, ci_agent_decision = [], ci_actor_id = ''operations-analyst-ui'', ci_advance = False,
      ci_run_id = [], ci_control_reason = ''Operations manager safety decision''\<rparr>"

section \<open>Calls\<close>

text \<open>\<open>raise_for_status\<close> and \<open>json\<close>.\<close>

definition api_call :: "client_env \<Rightarrow> api_request \<Rightarrow> (site, api_body) prog" where
  "api_call env q =
     bind (send env q) (\<lambda>r.
     if hr_status r < 200 \<or> 300 \<le> hr_status r then raise (err HTTPStatusError (str_int (hr_status r)))
     else of_res (json_body r))"

abbreviation api_get :: "client_env \<Rightarrow> api_request \<Rightarrow> (site, api_body) prog" where "api_get \<equiv> api_call"
abbreviation api_post :: "client_env \<Rightarrow> api_request \<Rightarrow> (site, api_body) prog" where "api_post \<equiv> api_call"

text \<open>The roles the console binds.\<close>

definition manager_decision :: "string \<Rightarrow> approval_decision_input" where
  "manager_decision reason =
     \<lparr>ad_actor_id = ''operations-manager-ui'', ad_actor_role = OPERATIONS_MANAGER, ad_reason = reason\<rparr>"

definition manager_switch :: "bool \<Rightarrow> string \<Rightarrow> kill_switch_update_input" where
  "manager_switch active reason =
     \<lparr>ku_active = active, ku_actor_id = ''operations-manager-ui'', ku_actor_role = OPERATIONS_MANAGER,
      ku_reason = reason\<rparr>"

definition analyst_feedback :: "bool \<Rightarrow> string \<Rightarrow> operator_feedback_input" where
  "analyst_feedback useful comment =
     \<lparr>fi_actor_id = ''operations-analyst-ui'', fi_actor_role = OPERATIONS_ANALYST, fi_useful = useful,
      fi_expected_outcome_matched = None, fi_comment = comment\<rparr>"

section \<open>The sidebar\<close>

definition identity_mode_of :: "api_body \<Rightarrow> string" where
  "identity_mode_of ready =
     (case status_field ''identity_mode'' ready of Inr m \<Rightarrow> m | Inl _ \<Rightarrow> ''local-permissive'')"

definition sidebar :: "api_body \<Rightarrow> kill_switch_state \<Rightarrow> agent_budget_state \<Rightarrow> item list res" where
  "sidebar ready kill budget =
     bind_res (status_field ''scorer'' ready) (\<lambda>scorer.
     bind_res (status_field ''openai_agent'' ready) (\<lambda>agent.
     bind_res (status_field ''openai_model'' ready) (\<lambda>model.
     Inr [Success_Item (''API ready - scorer '' @ scorer),
          Caption_Item (''OpenAI: '' @ agent @ '' - model '' @ model),
          Caption_Item (''Identity: '' @ identity_mode_of ready),
          Caption_Item ''Local roles are bound in the console; federation is a pilot-phase concern.'',
          Metric_Item ''OpenAI budget remaining'' 4 (bs_remaining_usd budget),
          if ks_active kill then Warning_Item ''Global action kill switch: ACTIVE''
          else Info_Item ''Global action kill switch: inactive''])))"

section \<open>The pages\<close>

text \<open>A page ends with its items and whether it asks for another run.\<close>

definition decision_row_of :: "decision_trace \<Rightarrow> decision_row" where
  "decision_row_of t =
     \<lparr>dw_decision_id = dt_decision_id t, dw_order_id = dt_order_id t,
      dw_risk = ra_failure_probability (dt_risk t),
      dw_selected_action = dr_selected_action (dt_recommendation t),
      dw_incremental_value = dr_expected_incremental_value_vs_no_action (dt_recommendation t),
      dw_policy = pe_disposition (dt_policy t), dw_control_version = pe_control_version (dt_policy t),
      dw_mode = dt_mode t, dw_created_at = dt_created_at t\<rparr>"

definition decisions_page :: "client_env \<Rightarrow> (site, item list \<times> bool) prog" where
  "decisions_page env =
     bind (api_get env (Get_Decisions 100 None None)) (\<lambda>b.
     bind (of_res (as_traces b)) (\<lambda>ts.
     ret ([Rows_Item (map decision_row_of ts)], False)))"

fun approval_cards :: "client_env \<Rightarrow> console_input \<Rightarrow> approval_record list \<Rightarrow> (site, item list \<times> bool) prog" where
  "approval_cards env inp [] = ret ([], False)"
| "approval_cards env inp (a # as) =
     (let k = ar_approval_id a; decision = manager_decision (ci_rationale inp k)
      in if ci_clicked inp = Some (Approve_Button k)
         then bind (api_post env (Post_Approve k decision)) (\<lambda>b.
              bind (of_res (bind_res (as_state b) (\<lambda>s. present (ws_execution s)))) (\<lambda>x.
              ret ([Approval_Item a, Success_Item (action_status_value (ae_status x))], True)))
         else if ci_clicked inp = Some (Reject_Button k)
         then bind (api_post env (Post_Reject k decision)) (\<lambda>_.
              ret ([Approval_Item a, Warning_Item ''Rejected''], True))
         else bind (approval_cards env inp as) (\<lambda>(items, again). ret (Approval_Item a # items, again)))"

definition approvals_page :: "client_env \<Rightarrow> console_input \<Rightarrow> (site, item list \<times> bool) prog" where
  "approvals_page env inp =
     bind (api_get env Get_Approvals) (\<lambda>b.
     bind (of_res (as_approvals b)) (\<lambda>as.
     bind (approval_cards env inp as) (\<lambda>(items, again).
     ret ((if as = [] then [Info_Item ''No pending approvals.''] else []) @ items, again))))"

definition feedback_if_clicked :: "client_env \<Rightarrow> console_input \<Rightarrow> (site, item list) prog" where
  "feedback_if_clicked env inp =
     (if ci_clicked inp = Some (Feedback_Button (ci_decision_id inp))
      then bind (api_post env (Post_Feedback (ci_decision_id inp)
                (analyst_feedback (ci_useful inp) (ci_feedback_comment inp)))) (\<lambda>b.
           bind (of_res (as_feedback b)) (\<lambda>recorded.
           ret [Success_Item (fb_feedback_id recorded)]))
      else ret [])"

definition detail_items :: "workflow_state \<Rightarrow> item list" where
  "detail_items state =
     (let t = ws_decision state in
      [Metric_Item ''Promise-failure risk'' 4 (ra_failure_probability (dt_risk t)),
       Metric_Item ''Expected incremental value'' 2
         (dr_expected_incremental_value_vs_no_action (dt_recommendation t)),
       Options_Item (dr_ranked_options (dt_recommendation t)),
       Policy_Item (dt_policy t),
       Governance_Item (ws_approval state) (ws_execution state) (ws_outcome state)])"

definition detail_page :: "client_env \<Rightarrow> console_input \<Rightarrow> (site, item list \<times> bool) prog" where
  "detail_page env inp =
     (if ci_decision_id inp = [] then ret ([], False)
      else bind (api_get env (Get_Decision (ci_decision_id inp))) (\<lambda>b.
        bind (of_res (as_state b)) (\<lambda>state.
        bind (feedback_if_clicked env inp) (\<lambda>recorded.
        bind (api_get env (Get_Feedback (ci_decision_id inp))) (\<lambda>all.
        ret (detail_items state @ recorded @ [Json_Item all], False))))))"

definition run_lookup :: "client_env \<Rightarrow> console_input \<Rightarrow> (site, item list) prog" where
  "run_lookup env inp =
     (if ci_run_id inp = [] then ret []
      else catch (bind (api_get env (Get_Run (ci_run_id inp))) (\<lambda>b. ret [Json_Item b]))
        (\<lambda>e. ret [Error_Item ''Run unavailable: '' e]))"

definition budget_page :: "client_env \<Rightarrow> console_input \<Rightarrow> agent_budget_state \<Rightarrow> (site, item list \<times> bool) prog" where
  "budget_page env inp budget =
     (let shown = [Metric_Item ''Configured limit'' 4 (bs_limit_usd budget),
                   Metric_Item ''Accounted spend'' 6 (bs_spent_usd budget),
                   Metric_Item ''Reserved'' 6 (bs_reserved_usd budget),
                   Json_Item (BBudget budget)];
          review = Post_Agent_Run \<lparr>rq_decision_id = ci_agent_decision inp, rq_actor_id = ci_actor_id inp,
                     rq_advance_workflow = ci_advance inp\<rparr>
      in if ci_agent_decision inp \<noteq> [] \<and> ci_clicked inp = Some Review_Button
         then bind (catch (bind (api_post env review) (\<lambda>b. ret (Inr b))) (\<lambda>e. ret (Inl e))) (\<lambda>posted.
              case posted of
                Inl e \<Rightarrow> bind (run_lookup env inp) (\<lambda>more.
                  ret (shown @ [Error_Item ''Review failed safely: '' e] @ more, False))
              | Inr b \<Rightarrow> bind (of_res (as_agent b)) (\<lambda>result.
                  ret (shown @ [Success_Item (agent_run_status_value (rr_status (rs_run result))), Json_Item b], True)))
         else bind (run_lookup env inp) (\<lambda>more. ret (shown @ more, False)))"

definition safety_page :: "client_env \<Rightarrow> console_input \<Rightarrow> kill_switch_state \<Rightarrow> (site, item list \<times> bool) prog" where
  "safety_page env inp kill =
     (let shown = [Json_Item (BKill kill)];
          switch = (\<lambda>active. bind (api_post env (Post_Kill_Switch (manager_switch active (ci_control_reason inp))))
                     (\<lambda>_. ret (shown, True)))
      in if \<not> ks_active kill \<and> ci_clicked inp = Some Activate_Button then switch True
         else if ks_active kill \<and> ci_clicked inp = Some Deactivate_Button then switch False
         else bind (api_get env Get_Autonomy) (\<lambda>b. ret (shown @ [Json_Item b], False)))"

section \<open>One run\<close>

definition load_status :: "client_env \<Rightarrow> (site, api_body \<times> api_body \<times> api_body) prog" where
  "load_status env =
     bind (api_get env Get_Ready) (\<lambda>ready.
     bind (api_get env Get_Kill_Switch) (\<lambda>kill.
     bind (api_get env Get_Budget) (\<lambda>budget.
     ret (ready, kill, budget))))"

definition show_page ::
  "client_env \<Rightarrow> console_input \<Rightarrow> kill_switch_state \<Rightarrow> agent_budget_state \<Rightarrow> (site, item list \<times> bool) prog" where
  "show_page env inp kill budget =
     (case ci_page inp of
        Decisions_Page \<Rightarrow> decisions_page env
      | Approvals_Page \<Rightarrow> approvals_page env inp
      | Detail_Page \<Rightarrow> detail_page env inp
      | Budget_Page \<Rightarrow> budget_page env inp budget
      | Safety_Page \<Rightarrow> safety_page env inp kill)"

definition console_run :: "client_env \<Rightarrow> console_input \<Rightarrow> (site, item list \<times> bool) prog" where
  "console_run env inp =
     bind (catch (bind (load_status env) (\<lambda>x. ret (Inr x))) (\<lambda>e. ret (Inl e))) (\<lambda>loaded.
     case loaded of
       Inl e \<Rightarrow> ret ([Error_Item ''API unavailable: '' e], False)
     | Inr (ready, kill_body, budget_body) \<Rightarrow>
         bind (of_res (as_kill kill_body)) (\<lambda>kill.
         bind (of_res (as_budget_state budget_body)) (\<lambda>budget.
         bind (of_res (sidebar ready kill budget)) (\<lambda>side.
         bind (show_page env inp kill budget) (\<lambda>(items, again). ret (side @ items, again))))))"

section \<open>What a run may change\<close>

text \<open>The request of the clicked button, on the page that shows it.\<close>

definition button_request :: "console_input \<Rightarrow> api_request option" where
  "button_request inp =
     (case (ci_page inp, ci_clicked inp) of
        (Approvals_Page, Some (Approve_Button k)) \<Rightarrow> Some (Post_Approve k (manager_decision (ci_rationale inp k)))
      | (Approvals_Page, Some (Reject_Button k)) \<Rightarrow> Some (Post_Reject k (manager_decision (ci_rationale inp k)))
      | (Detail_Page, Some (Feedback_Button k)) \<Rightarrow>
          Some (Post_Feedback k (analyst_feedback (ci_useful inp) (ci_feedback_comment inp)))
      | (Budget_Page, Some Review_Button) \<Rightarrow>
          Some (Post_Agent_Run \<lparr>rq_decision_id = ci_agent_decision inp, rq_actor_id = ci_actor_id inp,
            rq_advance_workflow = ci_advance inp\<rparr>)
      | (Safety_Page, Some Activate_Button) \<Rightarrow> Some (Post_Kill_Switch (manager_switch True (ci_control_reason inp)))
      | (Safety_Page, Some Deactivate_Button) \<Rightarrow> Some (Post_Kill_Switch (manager_switch False (ci_control_reason inp)))
      | _ \<Rightarrow> None)"

text \<open>What the tables say about the clicked button: an approval is offered while it is pending, the
  switch only the other way, a review of some decision, feedback on the decision that is shown.\<close>

definition pending_ids :: "database \<Rightarrow> string list" where
  "pending_ids db =
     (case fst (approval_service_list_pending db) of Inr as \<Rightarrow> map ar_approval_id as | Inl _ \<Rightarrow> [])"

definition switch_state :: "database \<Rightarrow> bool option" where
  "switch_state db = (case fst (read_kill_switch db) of Inr k \<Rightarrow> Some (ks_active k) | Inl _ \<Rightarrow> None)"

fun offered :: "console_input \<Rightarrow> button \<Rightarrow> database \<Rightarrow> bool" where
  "offered inp (Approve_Button k) db = (k \<in> set (pending_ids db))"
| "offered inp (Reject_Button k) db = (k \<in> set (pending_ids db))"
| "offered inp (Feedback_Button k) db = (k = ci_decision_id inp \<and> k \<noteq> [])"
| "offered inp Review_Button db = (ci_agent_decision inp \<noteq> [])"
| "offered inp Activate_Button db = (switch_state db = Some False)"
| "offered inp Deactivate_Button db = (switch_state db = Some True)"

definition tables :: "site \<Rightarrow> database" where
  "tables s = w_db (app_world (st_app s))"

lemma offered_cong:
  "tb_approvals db' = tb_approvals db \<Longrightarrow> pending_ids db' = pending_ids db"
  "tb_controls db' = tb_controls db \<Longrightarrow> switch_state db' = switch_state db"
  by (simp_all add: pending_ids_def switch_state_def approval_service_list_pending_def approval_list_pending_def
      read_kill_switch_def split: option.split)

lemma quiet_offered: "quiet s t \<Longrightarrow> offered inp b (tables t) = offered inp b (tables s)"
proof -
  assume "quiet s t"
  then have "tb_approvals (tables t) = tb_approvals (tables s)" "tb_controls (tables t) = tb_controls (tables s)"
    by (simp_all add: quiet_def evidence_frame_def kept_tables_def tables_def)
  then have "pending_ids (tables t) = pending_ids (tables s)" "switch_state (tables t) = switch_state (tables s)"
    using offered_cong by blast+
  then show ?thesis by (cases b) simp_all
qed

definition served :: "client_env \<Rightarrow> api_request \<Rightarrow> site \<Rightarrow> site \<Rightarrow> bool" where
  "served env p s s' \<longleftrightarrow> (\<exists>n resp. serve (ce_deployment env) (ce_services env) (ce_clock env n) (ce_wall env n)
     (ce_fresh env n) None p (st_app s) = (resp, st_app s'))"

definition one_post :: "client_env \<Rightarrow> console_input \<Rightarrow> site \<Rightarrow> site \<Rightarrow> bool" where
  "one_post env inp s s' \<longleftrightarrow> quiet s s' \<or>
     (\<exists>b p t u. ci_clicked inp = Some b \<and> button_request inp = Some p \<and> offered inp b (tables s) \<and>
        quiet s t \<and> served env p t u \<and> quiet u s')"

lemma one_post_before: "quiet s t \<Longrightarrow> one_post env inp t u \<Longrightarrow> one_post env inp s u"
  unfolding one_post_def using quiet_offered quiet.trans by blast

lemma one_post_after: "one_post env inp s t \<Longrightarrow> quiet t u \<Longrightarrow> one_post env inp s u"
  unfolding one_post_def using quiet.trans by blast

text \<open>A program that posts at most the request of the clicked button.\<close>

definition posts :: "client_env \<Rightarrow> console_input \<Rightarrow> (site, 'a) prog \<Rightarrow> site \<Rightarrow> bool" where
  "posts env inp m s \<longleftrightarrow> one_post env inp s (snd (m s))"

lemma posts_first:
  assumes "keeps quiet m" and "\<And>x t. m s = (Inr x, t) \<Longrightarrow> posts env inp (f x) t"
  shows "posts env inp (bind m f) s"
proof -
  obtain r t where m: "m s = (r, t)" by fastforce
  show ?thesis
  proof (cases r)
    case (Inl e)
    then show ?thesis using keepsD [OF assms(1) m] m by (simp add: posts_def one_post_def)
  next
    case (Inr x)
    then have "one_post env inp t (snd (f x t))" using assms(2) m by (simp add: posts_def)
    then show ?thesis using one_post_before [OF keepsD [OF assms(1) m]] m Inr by (simp add: posts_def)
  qed
qed

lemma posts_last:
  assumes "posts env inp m s" and "\<And>x. keeps quiet (f x)"
  shows "posts env inp (bind m f) s"
proof -
  obtain r t where m: "m s = (r, t)" by fastforce
  have st: "one_post env inp s t" using assms(1) m by (simp add: posts_def)
  show ?thesis
  proof (cases r)
    case (Inr x)
    have "quiet t (snd (f x t))" by (rule keepsD [OF assms(2) surjective_pairing])
    then show ?thesis using one_post_after [OF st] m Inr by (simp add: posts_def)
  qed (use st m in \<open>simp add: posts_def\<close>)
qed

lemma posts_catch:
  assumes "posts env inp m s" and "\<And>e. keeps quiet (f e)"
  shows "posts env inp (catch m f) s"
proof -
  obtain r t where m: "m s = (r, t)" by fastforce
  have st: "one_post env inp s t" using assms(1) m by (simp add: posts_def)
  show ?thesis
  proof (cases r)
    case (Inl e)
    have "quiet t (snd (f e t))" by (rule keepsD [OF assms(2) surjective_pairing])
    then show ?thesis using one_post_after [OF st] m Inl by (simp add: posts_def)
  qed (use st m in \<open>simp add: posts_def\<close>)
qed

lemma posts_quiet: "keeps quiet m \<Longrightarrow> posts env inp m s"
  by (simp add: posts_def one_post_def keeps_def)

section \<open>The calls\<close>

lemma evidence_budget: "budget_frame (w_db w) d \<Longrightarrow> evidence_frame w (w\<lparr>w_db := d\<rparr>)"
  by (simp add: evidence_frame_def budget_frame_kept)

lemma serve_quiet:
  assumes "serve D V clock wall fresh header p a = (resp, a')" and "reads p \<or> p = Get_Budget"
  shows "evidence_frame (app_world a) (app_world a')"
  using serve_world [OF assms(1)]
proof
  assume "request_valid p \<and> app_world a' = app_world (snd (api_route D V clock wall p a))"
  moreover have "budget_frame (w_db (app_world a))
      (snd (budget_state (as_budget (sv_agent V)) (clock 0) None (w_db (app_world a))))"
    by (rule budget_state_frame [OF surjective_pairing])
  ultimately show ?thesis
    using assms(2) by (auto simp: reads_route route_world evidence_frame.refl evidence_budget)
qed (simp add: evidence_frame.refl)

lemma keeps_get: "reads p \<or> p = Get_Budget \<Longrightarrow> keeps quiet (api_call env p)"
  unfolding api_call_def
  by (intro quiet.keeps_bind keepsI)
    (auto simp: quiet_def evidence_frame.refl elim!: send_cases dest: serve_quiet split: if_splits)

lemma api_call_served: "api_call env p s = (r, s') \<Longrightarrow> quiet s s' \<or> served env p s s'"
  unfolding api_call_def
  by (erule bind_cases; erule send_cases) (auto simp: quiet_def evidence_frame.refl served_def split: if_splits)

lemma posted:
  assumes "ci_clicked inp = Some b" "button_request inp = Some p" "offered inp b (tables s)"
  shows "posts env inp (api_call env p) s"
  using api_call_served [of env p s, OF surjective_pairing] assms quiet.refl unfolding posts_def one_post_def by blast

lemma keeps_of: "keeps quiet (of_res x)" "keeps quiet (ret y)" "keeps quiet (raise e)"
  by auto

text \<open>What the loaded status says is what the tables say.\<close>

lemma api_call_Inr:
  assumes "api_call env p s = (Inr b, s')"
  obtains resp where
    "serve (ce_deployment env) (ce_services env) (ce_clock env (st_calls s)) (ce_wall env (st_calls s))
       (ce_fresh env (st_calls s)) None p (st_app s) = (resp, st_app s')"
    "hr_status resp = 200 \<or> hr_status resp \<noteq> 200 \<and> 200 \<le> hr_status resp \<and> hr_status resp < 300"
    "hr_body resp = Content b"
  using assms unfolding api_call_def
  by (elim bind_InrE) (auto simp: json_body_def elim!: send_cases split: if_splits http_body.splits)

lemma error_not_content: "hr_body (error_response c e) \<noteq> Content b"
  by (auto simp: error_response_def split: option.splits)

lemma serve_content:
  assumes "serve D V clock wall fresh header p a = (resp, a')" and "hr_body resp = Content b"
  shows "fst (api_route D V clock wall p a) = Inr b"
  using assms error_not_content by (auto simp: serve_def Let_def split: if_splits prod.splits sum.splits)

lemma counted_Inr: "fst (counted metrics body m a) = Inr b \<Longrightarrow> \<exists>x. fst (m a) = Inr x \<and> b = body x"
  by (auto simp: counted_def bind_app split: prod.splits sum.splits)

lemma on_tables_fst: "fst (on_tables m a) = fst (m (w_db (app_world a)))"
  by (simp add: on_tables_app split: prod.split)

lemma got_kill_switch:
  assumes "api_call env Get_Kill_Switch s = (Inr b, s')" and "as_kill b = Inr k"
  shows "switch_state (tables s) = Some (ks_active k)"
proof -
  obtain resp where r: "serve (ce_deployment env) (ce_services env) (ce_clock env (st_calls s)) (ce_wall env (st_calls s))
       (ce_fresh env (st_calls s)) None Get_Kill_Switch (st_app s) = (resp, st_app s')" "hr_body resp = Content b"
    using assms(1) by (rule api_call_Inr)
  have "\<exists>x. fst (read_kill_switch (w_db (app_world (st_app s)))) = Inr x \<and> b = BKill x"
    using counted_Inr [OF serve_content [OF r, unfolded api_route.simps]] by (simp add: on_tables_fst)
  then show ?thesis using assms(2) by (auto simp: switch_state_def tables_def as_kill_def)
qed

lemma got_approvals:
  assumes "api_call env Get_Approvals s = (Inr b, s')" and "as_approvals b = Inr as"
  shows "pending_ids (tables s) = map ar_approval_id as"
proof -
  obtain resp where r: "serve (ce_deployment env) (ce_services env) (ce_clock env (st_calls s)) (ce_wall env (st_calls s))
       (ce_fresh env (st_calls s)) None Get_Approvals (st_app s) = (resp, st_app s')" "hr_body resp = Content b"
    using assms(1) by (rule api_call_Inr)
  have "\<exists>x. fst (approval_service_list_pending (w_db (app_world (st_app s)))) = Inr x \<and> b = BApprovals x"
    using counted_Inr [OF serve_content [OF r, unfolded api_route.simps]] by (simp add: on_tables_fst)
  then show ?thesis using assms(2) by (auto simp: pending_ids_def tables_def as_approvals_def)
qed

section \<open>The pages\<close>

lemma keeps_pages:
  "keeps quiet (load_status env)" "keeps quiet (decisions_page env)" "keeps quiet (run_lookup env inp)"
  unfolding load_status_def decisions_page_def run_lookup_def
  by (auto intro!: quiet.keeps_bind quiet.keeps_catch keeps_get)

lemma cards_post:
  assumes "ci_page inp = Approvals_Page" and "set (map ar_approval_id as) \<subseteq> set (pending_ids (tables s))"
  shows "posts env inp (approval_cards env inp as) s"
  using assms(2)
proof (induction as)
  case (Cons a as)
  let ?k = "ar_approval_id a"
  have k: "?k \<in> set (pending_ids (tables s))" using Cons.prems by simp
  consider (approve) "ci_clicked inp = Some (Approve_Button ?k)" | (reject) "ci_clicked inp = Some (Reject_Button ?k)"
    | (other) "ci_clicked inp \<noteq> Some (Approve_Button ?k)" "ci_clicked inp \<noteq> Some (Reject_Button ?k)" by blast
  then show ?case
  proof cases
    case approve
    then have "posts env inp (api_call env (Post_Approve ?k (manager_decision (ci_rationale inp ?k)))) s"
      by (rule posted) (use assms(1) approve k in \<open>simp_all add: button_request_def\<close>)
    then show ?thesis using approve by (auto simp: Let_def intro!: posts_last)
  next
    case reject
    then have "posts env inp (api_call env (Post_Reject ?k (manager_decision (ci_rationale inp ?k)))) s"
      by (rule posted) (use assms(1) reject k in \<open>simp_all add: button_request_def\<close>)
    then show ?thesis using reject by (auto simp: Let_def intro!: posts_last)
  next
    case other
    have "posts env inp (approval_cards env inp as) s" using Cons by simp
    then show ?thesis using other by (auto simp: Let_def intro!: posts_last)
  qed
qed (simp add: posts_quiet)

lemma approvals_post:
  assumes "ci_page inp = Approvals_Page"
  shows "posts env inp (approvals_page env inp) s"
  unfolding approvals_page_def
proof (rule posts_first)
  fix b t assume b: "api_call env Get_Approvals s = (Inr b, t)"
  have st: "quiet s t" by (rule keepsD [OF keeps_get b]) simp
  show "posts env inp (bind (of_res (as_approvals b)) (\<lambda>as. bind (approval_cards env inp as) (\<lambda>(items, again).
      ret ((if as = [] then [Info_Item ''No pending approvals.''] else []) @ items, again)))) t"
  proof (rule posts_first)
    fix as u assume "of_res (as_approvals b) t = (Inr as, u)"
    then have as: "as_approvals b = Inr as" "u = t" by simp_all
    have "tb_approvals (tables t) = tb_approvals (tables s)"
      using st by (simp add: quiet_def evidence_frame_def kept_tables_def tables_def)
    then have "pending_ids (tables u) = map ar_approval_id as"
      using got_approvals [OF b as(1)] as(2) offered_cong(1) by metis
    then show "posts env inp (bind (approval_cards env inp as) (\<lambda>(items, again).
      ret ((if as = [] then [Info_Item ''No pending approvals.''] else []) @ items, again))) u"
      by (intro posts_last cards_post [OF assms]) (auto)
  qed auto
qed (simp add: keeps_get)

lemma detail_post:
  assumes "ci_page inp = Detail_Page"
  shows "posts env inp (detail_page env inp) s"
proof (cases "ci_decision_id inp = []")
  case False
  have "posts env inp (feedback_if_clicked env inp) t" for t
  proof (cases "ci_clicked inp = Some (Feedback_Button (ci_decision_id inp))")
    case True
    then have "posts env inp (api_call env (Post_Feedback (ci_decision_id inp)
        (analyst_feedback (ci_useful inp) (ci_feedback_comment inp)))) t"
      by (rule posted) (use True False in \<open>simp_all add: button_request_def assms\<close>)
    then show ?thesis using True by (auto simp: feedback_if_clicked_def intro!: posts_last)
  qed (simp add: feedback_if_clicked_def posts_quiet)
  moreover have "keeps quiet (bind (api_call env (Get_Feedback (ci_decision_id inp))) f)"
    if "\<And>x. keeps quiet (f x)" for f :: "api_body \<Rightarrow> (site, item list \<times> bool) prog"
    by (intro quiet.keeps_bind keeps_get that) simp
  moreover have "keeps quiet (api_call env (Get_Decision (ci_decision_id inp)))" by (rule keeps_get) simp
  ultimately show ?thesis
    using False by (simp add: detail_page_def posts_first posts_last)
qed (simp add: detail_page_def posts_quiet)

lemma budget_post:
  assumes "ci_page inp = Budget_Page"
  shows "posts env inp (budget_page env inp budget) s"
proof (cases "ci_agent_decision inp \<noteq> [] \<and> ci_clicked inp = Some Review_Button")
  case True
  then have "posts env inp (api_call env (Post_Agent_Run \<lparr>rq_decision_id = ci_agent_decision inp,
      rq_actor_id = ci_actor_id inp, rq_advance_workflow = ci_advance inp\<rparr>)) s"
    by (intro posted [where b = Review_Button]) (simp_all add: button_request_def assms)
  then show ?thesis
    using True unfolding budget_page_def Let_def
    by (auto intro!: posts_last posts_catch quiet.keeps_bind keeps_pages split: sum.split)
next
  case False
  then show ?thesis
    unfolding budget_page_def Let_def by (auto intro!: posts_quiet quiet.keeps_bind keeps_pages)
qed

lemma safety_post:
  assumes "ci_page inp = Safety_Page" and "switch_state (tables s) = Some (ks_active kill)"
  shows "posts env inp (safety_page env inp kill) s"
proof -
  have switch: "posts env inp (bind (api_call env (Post_Kill_Switch (manager_switch (\<not> ks_active kill)
      (ci_control_reason inp)))) (\<lambda>_. ret x)) s"
    if "ci_clicked inp = Some (if ks_active kill then Deactivate_Button else Activate_Button)" for x :: "item list \<times> bool"
    by (rule posts_last, rule posted [OF that])
      (use assms that in \<open>simp_all add: button_request_def split: if_splits\<close>)
  have autonomy: "keeps quiet (bind (api_call env Get_Autonomy) (\<lambda>b. ret ([x, Json_Item b], False)))" for x
    by (intro quiet.keeps_bind keeps_get) auto
  show ?thesis
  proof (cases "ks_active kill")
    case True
    then show ?thesis using switch posts_quiet [OF autonomy]
      by (cases "ci_clicked inp = Some Deactivate_Button") (simp_all add: safety_page_def Let_def)
  next
    case False
    then show ?thesis using switch posts_quiet [OF autonomy]
      by (cases "ci_clicked inp = Some Activate_Button") (simp_all add: safety_page_def Let_def)
  qed
qed

lemma page_post:
  assumes "switch_state (tables s) = Some (ks_active kill)"
  shows "posts env inp (show_page env inp kill budget) s"
  unfolding show_page_def
  by (cases "ci_page inp")
    (simp_all add: approvals_post detail_post budget_post safety_post [OF _ assms] keeps_pages posts_quiet)

lemma loaded_switch:
  assumes "load_status env s = (Inr (ready, kill_body, budget_body), t)" and "as_kill kill_body = Inr kill"
  shows "switch_state (tables t) = Some (ks_active kill)"
proof -
  obtain u v where g: "api_call env Get_Ready s = (Inr ready, u)" "api_call env Get_Kill_Switch u = (Inr kill_body, v)"
    "api_call env Get_Budget v = (Inr budget_body, t)"
    using assms(1) unfolding load_status_def by (elim bind_InrE) auto
  have "quiet u v" by (rule keepsD [OF keeps_get g(2)]) simp
  moreover have "quiet v t" by (rule keepsD [OF keeps_get g(3)]) simp
  ultimately have "tb_controls (tables t) = tb_controls (tables u)"
    by (simp add: quiet_def evidence_frame_def kept_tables_def tables_def)
  then show ?thesis
    using got_kill_switch [OF g(2) assms(2)] offered_cong(2) by metis
qed

lemma console_posts: "posts env inp (console_run env inp) s"
  unfolding console_run_def
proof (rule posts_first)
  show "keeps quiet (catch (bind (load_status env) (\<lambda>x. ret (Inr x))) (\<lambda>e. ret (Inl e)))"
    by (intro quiet.keeps_catch quiet.keeps_bind keeps_pages) auto
  fix loaded t
  assume l: "catch (bind (load_status env) (\<lambda>x. ret (Inr x))) (\<lambda>e. ret (Inl e)) s = (Inr loaded, t)"
  show "posts env inp (case loaded of
       Inl e \<Rightarrow> ret ([Error_Item ''API unavailable: '' e], False)
     | Inr (ready, kill_body, budget_body) \<Rightarrow>
         bind (of_res (as_kill kill_body)) (\<lambda>kill.
         bind (of_res (as_budget_state budget_body)) (\<lambda>budget.
         bind (of_res (sidebar ready kill budget)) (\<lambda>side.
         bind (show_page env inp kill budget) (\<lambda>(items, again). ret (side @ items, again)))))) t"
  proof (cases loaded)
    case (Inr x)
    obtain ready kb bb where x: "x = (ready, kb, bb)" by (cases x)
    have st: "load_status env s = (Inr (ready, kb, bb), t)"
      using l Inr x by (auto simp: catch_def bind_def split: prod.splits sum.splits)
    have page: "posts env inp (bind (show_page env inp k b) (\<lambda>(items, again). ret (side @ items, again))) t"
      if "as_kill kb = Inr k" for k b side
      by (intro posts_last page_post loaded_switch [OF st that]) auto
    show ?thesis unfolding Inr x sum.case prod.case
      by (rule posts_first, simp, rule posts_first, simp, rule posts_first, simp, simp add: page)
  qed (simp add: posts_quiet)
qed

text \<open>Serving the request of a button takes an action only where an approval is granted, or where a
  review was asked to advance the workflow.\<close>

lemma served_quietly:
  assumes "served env p s s'" and "\<And>k i. p \<noteq> Post_Approve k i" "\<And>k a. p \<noteq> Post_Submit k a" "\<And>k ob. p \<noteq> Post_Verify k ob"
    and "\<And>q. p = Post_Agent_Run q \<Longrightarrow> \<not> rq_advance_workflow q"
  shows "w_ops (app_world (st_app s')) = w_ops (app_world (st_app s)) \<and> tb_actions (tables s') = tb_actions (tables s)"
proof -
  obtain n resp where n: "serve (ce_deployment env) (ce_services env) (ce_clock env n) (ce_wall env n) (ce_fresh env n)
      None p (st_app s) = (resp, st_app s')" using assms(1) by (auto simp: served_def)
  show ?thesis
  proof (cases "\<exists>q. p = Post_Agent_Run q")
    case True
    then obtain q where q: "p = Post_Agent_Run q" "\<not> rq_advance_workflow q" using assms(5) by blast
    have "evidence_frame w (snd (agent_run L A json e c0 ttl governed port clock wall S q w))"
      for L A json e c0 ttl governed port clock wall S w
      by (rule keepsD [OF keeps_agent_run [OF q(2)] surjective_pairing])
    then show ?thesis
      using serve_world [OF n]
      by (auto simp: q(1) agent_route_def route_world tables_def evidence_frame_def kept_tables_def)
  next
    case False
    then have "\<not> may_act p" using assms(2-4) by (cases p) auto
    then show ?thesis using serve_world [OF n] passive_route by (auto simp: tables_def)
  qed
qed

section \<open>Properties\<close>

text \<open>C38: The console does what was clicked and nothing else: a run of its script, on a network that may
  lose any call or any answer, leaves the systems and every table of governance, evidence and feedback as
  they are, except that it has at most one request served, the one of the clicked button, and only where the
  tables offer that button: an approval that is pending, the kill switch in the other direction, feedback on
  the shown decision. Actions and external systems change only under a click on the approval of a pending
  record, or on a review that was told to advance the workflow.\<close>

theorem console_acts_only_as_clicked:
  assumes "console_run env inp s = (r, s')"
  shows "(quiet s s' \<or>
      (\<exists>b p t u. ci_clicked inp = Some b \<and> button_request inp = Some p \<and> offered inp b (tables s) \<and>
         quiet s t \<and> served env p t u \<and> quiet u s')) \<and>
    (w_ops (app_world (st_app s')) \<noteq> w_ops (app_world (st_app s)) \<or> tb_actions (tables s') \<noteq> tb_actions (tables s) \<longrightarrow>
      (\<exists>k. ci_clicked inp = Some (Approve_Button k) \<and> k \<in> set (pending_ids (tables s))) \<or>
      ci_clicked inp = Some Review_Button \<and> ci_advance inp)"
proof -
  have one: "one_post env inp s s'" using console_posts [of env inp s] assms by (simp add: posts_def)
  have "w_ops (app_world (st_app s')) = w_ops (app_world (st_app s)) \<and> tb_actions (tables s') = tb_actions (tables s)"
    if "\<not> (\<exists>k. ci_clicked inp = Some (Approve_Button k) \<and> k \<in> set (pending_ids (tables s)))"
      "\<not> (ci_clicked inp = Some Review_Button \<and> ci_advance inp)"
    using one unfolding one_post_def
  proof (elim disjE exE conjE)
    assume "quiet s s'"
    then show ?thesis by (simp add: quiet_def evidence_frame_def kept_tables_def tables_def)
  next
    fix b p t u assume c: "ci_clicked inp = Some b" "button_request inp = Some p" "offered inp b (tables s)"
      "quiet s t" "served env p t u" "quiet u s'"
    have "w_ops (app_world (st_app u)) = w_ops (app_world (st_app t)) \<and> tb_actions (tables u) = tb_actions (tables t)"
      by (rule served_quietly [OF c(5)])
        (use c that in \<open>auto simp: button_request_def split: page.splits button.splits\<close>)
    then show ?thesis using c(4,6) by (simp add: quiet_def evidence_frame_def kept_tables_def tables_def)
  qed
  with one show ?thesis unfolding one_post_def by blast
qed

section \<open>A sample click\<close>

definition sample_console_env :: "services \<Rightarrow> client_env" where
  "sample_console_env V =
     \<lparr>ce_deployment = sample_deployment, ce_services = V, ce_clock = \<lambda>n m. utc (int (10 + n)),
      ce_wall = \<lambda>n m. utc (int (10 + n)), ce_fresh = \<lambda>n. ''c'', ce_delivery = \<lambda>n. Delivered\<rparr>"

definition sample_services :: services where
  "sample_services =
     \<lparr>sv_settings =
        \<lparr>cf_database_url = DEFAULT_DATABASE_URL, cf_environment = DEFAULT_ENVIRONMENT, cf_auto_create_schema = True,
         cf_metrics_enabled = True, cf_openai_enabled = False, cf_openai_model = DEFAULT_OPENAI_MODEL,
         cf_openai_budget_usd = 3, cf_openai_per_run_limit_usd = 1, cf_openai_max_output_tokens = 700,
         cf_openai_timeout_seconds = Some 20, cf_openai_reservation_ttl_seconds = 900,
         cf_strict_local_identity = False\<rparr>,
      sv_score = deterministic_score, sv_scorer_version = deterministic_model_version,
      sv_agent = sample_service\<rparr>"

definition sample_click :: console_input where
  "sample_click = new_console_input\<lparr>ci_page := Approvals_Page,
     ci_clicked := Some (Approve_Button ''apr_dec_1|REROUTE|policy-v2'')\<rparr>"

definition sample_click_run :: "(item list \<times> bool) res \<times> site" where
  "sample_click_run =
     console_run (sample_console_env sample_services) sample_click \<lparr>st_app = sample_restarted, st_calls = 0\<rparr>"

lemma sample_click_acts:
  "map acr_status (tb_actions (tables (snd sample_click_run))) = [AC_SUCCEEDED]"
  by code_simp

text \<open>The click carries the action out, so its approval was pending.\<close>

lemma console_acts_only_as_clicked_witness:
  "''apr_dec_1|REROUTE|policy-v2'' \<in> set (pending_ids (tables \<lparr>st_app = sample_restarted, st_calls = 0\<rparr>)) \<and>
   map acr_status (tb_actions (tables (snd sample_click_run))) = [AC_SUCCEEDED]"
proof -
  have "tb_actions (tables \<lparr>st_app = sample_restarted, st_calls = 0\<rparr>) = []" by code_simp
  then have "tb_actions (tables (snd sample_click_run)) \<noteq> tb_actions (tables \<lparr>st_app = sample_restarted, st_calls = 0\<rparr>)"
    using sample_click_acts by auto
  then show ?thesis
    using console_acts_only_as_clicked [of "sample_console_env sample_services" sample_click
        "\<lparr>st_app = sample_restarted, st_calls = 0\<rparr>", OF surjective_pairing] sample_click_acts
    unfolding sample_click_run_def by (simp add: sample_click_def)
qed

end
