(* ===== verification/Stack_Probe.thy ===== *)
theory Stack_Probe
  imports Client Synthetic_Data
begin

text \<open>
  \<^verbatim>\<open>src/scripts/local_e2e.py\<close>: the end-to-end probe of a running stack. The machine of the probe has its
  own clock (microseconds), a supply of hex texts (\<open>uuid4\<close>), the file it leaves its evidence in, and the
  console it looks for; requests to the API go through \<open>send\<close>. Requests take the time the environment
  says, a sleep of two seconds takes that long, so both waits end. The text of the metrics is library
  output, a parameter of the counted increments.
\<close>

section \<open>The machine of the probe\<close>

record evidence =
  en_decision_id :: string
  en_order_id :: string
  en_action :: string
  en_execution_status :: string
  en_verification_status :: string
  en_console_reachable :: bool
  en_tenant_id :: string

record probe_env =
  pe_client :: client_env
  pe_took :: "nat \<Rightarrow> nat"
  pe_console :: "nat \<Rightarrow> int option"
  pe_look_took :: "nat \<Rightarrow> nat"
  pe_uuid :: "nat \<Rightarrow> string"
  pe_exposition :: "metric list \<Rightarrow> string"
  pe_metrics_lost :: bool

record probe =
  pb_site :: site
  pb_now :: nat
  pb_looks :: nat
  pb_drawn :: nat
  pb_file :: "evidence option"

definition new_suffix :: "probe_env \<Rightarrow> (probe, string) prog" where
  "new_suffix env = (\<lambda>p. (Inr (take 12 (pe_uuid env (pb_drawn p))), p\<lparr>pb_drawn := Suc (pb_drawn p)\<rparr>))"

definition utc_now :: "(probe, datetime) prog" where
  "utc_now = (\<lambda>p. (Inr (utc (int (pb_now p))), p))"

definition sleep_two_seconds :: "probe \<Rightarrow> probe" where
  "sleep_two_seconds p = p\<lparr>pb_now := pb_now p + 2000000\<rparr>"

section \<open>Requests\<close>

text \<open>The status and the parsed body, of an error response too. Of an empty or unreadable body a
  mapping is made, so every body but a list is one.\<close>

definition probe_request :: "probe_env \<Rightarrow> api_request \<Rightarrow> (probe, int \<times> http_body) prog" where
  "probe_request env q = (\<lambda>p.
     let (r, s) = send (pe_client env) q (pb_site p)
     in (map_sum id (\<lambda>resp. (hr_status resp, hr_body resp)) r,
         p\<lparr>pb_site := s, pb_now := pb_now p + pe_took env (st_calls (pb_site p))\<rparr>))"

definition is_list :: "http_body \<Rightarrow> bool" where
  "is_list b =
     (case b of Content c \<Rightarrow>
        (case c of BTraces _ \<Rightarrow> True | BApprovals _ \<Rightarrow> True | BProfiles _ \<Rightarrow> True | BFeedbacks _ \<Rightarrow> True
         | BDesigns _ \<Rightarrow> True | _ \<Rightarrow> False)
      | _ \<Rightarrow> False)"

definition is_dict :: "http_body \<Rightarrow> bool" where
  "is_dict b \<longleftrightarrow> \<not> is_list b"

text \<open>A subscript of the parsed body.\<close>

definition body_of :: "(api_body \<Rightarrow> 'a res) \<Rightarrow> http_body \<Rightarrow> (probe, 'a) prog" where
  "body_of f b = of_res (case b of Content c \<Rightarrow> f c | _ \<Rightarrow> missing)"

definition require :: "bool \<Rightarrow> string \<Rightarrow> (probe, unit) prog" where
  "require ok message = (if ok then ret () else raise (err SystemExit message))"

definition expect_dict :: "int \<times> http_body \<Rightarrow> string \<Rightarrow> (probe, unit) prog" where
  "expect_dict r message = require (fst r = 200 \<and> is_dict (snd r)) message"

section \<open>Waiting\<close>

definition ready_answer :: "int \<times> http_body \<Rightarrow> bool" where
  "ready_answer r \<longleftrightarrow> fst r = 200 \<and>
     (case snd r of Content c \<Rightarrow> status_field ''status'' c = Inr ''ready'' | _ \<Rightarrow> False)"

text \<open>The loop until the deadline: an answer that is not ready and any exception are followed by a sleep.\<close>

lemma probe_request_now: "(r, u) = probe_request env q p \<Longrightarrow> pb_now u = pb_now p + pe_took env (st_calls (pb_site p))"
  by (simp add: probe_request_def split: prod.splits)

function wait_until_ready :: "probe_env \<Rightarrow> nat \<Rightarrow> (probe, http_body) prog" where
  "wait_until_ready env deadline p =
     (if pb_now p < deadline
      then case probe_request env Get_Ready p of
          (Inr r, u) \<Rightarrow> if ready_answer r then (Inr (snd r), u)
                        else wait_until_ready env deadline (sleep_two_seconds u)
        | (Inl e, u) \<Rightarrow> wait_until_ready env deadline (sleep_two_seconds u)
      else (Inl (err SystemExit ''API was not ready''), p))"
  by pat_completeness auto
termination
proof (relation "measure (\<lambda>(env, deadline, p). deadline - pb_now p)", goal_cases)
  case (2 env deadline p x u r)
  then show ?case using probe_request_now by (fastforce simp: sleep_two_seconds_def)
next
  case (3 env deadline p x u e)
  then show ?case using probe_request_now by (fastforce simp: sleep_two_seconds_def)
qed simp

declare wait_until_ready.simps [simp del]

definition wait_for_api :: "probe_env \<Rightarrow> nat \<Rightarrow> (probe, http_body) prog" where
  "wait_for_api env wait_seconds = (\<lambda>p. wait_until_ready env (pb_now p + wait_seconds * 1000000) p)"

text \<open>One look at a path of the console, and at the two of them.\<close>

definition look :: "probe_env \<Rightarrow> (probe, bool) prog" where
  "look env = (\<lambda>p.
     (Inr (case pe_console env (pb_looks p) of None \<Rightarrow> False | Some status \<Rightarrow> 200 \<le> status \<and> status < 400),
      p\<lparr>pb_looks := Suc (pb_looks p), pb_now := pb_now p + pe_look_took env (pb_looks p)\<rparr>))"

definition console_reachable :: "probe_env \<Rightarrow> (probe, bool) prog" where
  "console_reachable env = bind (look env) (\<lambda>first. if first then ret True else look env)"

lemma console_reachable_now: "(r, u) = console_reachable env p \<Longrightarrow> pb_now p \<le> pb_now u"
  by (simp add: console_reachable_def bind_app look_def split: if_splits)

function wait_until_reachable :: "probe_env \<Rightarrow> nat \<Rightarrow> (probe, unit) prog" where
  "wait_until_reachable env deadline p =
     (if pb_now p < deadline
      then case console_reachable env p of
          (Inr True, u) \<Rightarrow> (Inr (), u)
        | (_, u) \<Rightarrow> wait_until_reachable env deadline (sleep_two_seconds u)
      else (Inl (err SystemExit ''Streamlit console was not reachable''), p))"
  by pat_completeness auto
termination
proof (relation "measure (\<lambda>(env, deadline, p). deadline - pb_now p)", goal_cases)
  case (2 env deadline p x u e)
  then show ?case using console_reachable_now by (fastforce simp: sleep_two_seconds_def)
next
  case (3 env deadline p x u e)
  then show ?case using console_reachable_now by (fastforce simp: sleep_two_seconds_def)
qed simp

declare wait_until_reachable.simps [simp del]

definition wait_for_console :: "probe_env \<Rightarrow> nat \<Rightarrow> (probe, unit) prog" where
  "wait_for_console env wait_seconds = (\<lambda>p. wait_until_reachable env (pb_now p + wait_seconds * 1000000) p)"

section \<open>The order of a run\<close>

definition TENANT :: string where "TENANT = ''local-default''"

definition probe_event :: "string \<Rightarrow> datetime \<Rightarrow> operational_event" where
  "probe_event suffix now =
     \<lparr>ev_source_system = ''oms'', ev_event_id = ''evt-e2e-'' @ suffix, ev_event_version = 1,
      ev_event_type = ''ORDER_RISK_EVALUATION_REQUESTED'', ev_event_time = plus_us now (- minutes_us 2),
      ev_ingestion_time = plus_us now (- minutes_us 1), ev_schema_version = ''v1'',
      ev_deduplication_key = ''oms:evt-e2e-'' @ suffix @ '':v1''\<rparr>"

definition probe_order :: "string \<Rightarrow> string \<Rightarrow> datetime \<Rightarrow> order_context" where
  "probe_order suffix tenant_id now =
     \<lparr>oc_order_id = ''order-e2e-'' @ suffix, oc_evaluation_time = now,
      oc_promised_delivery_at = plus_us now (hours_us 18), oc_gross_margin = 72, oc_cancellation_cost = 20,
      oc_support_cost = 8, oc_inventory_reserved = True, oc_inventory_available = False,
      oc_inventory_confidence = fl (95/100), oc_carrier_on_time_probability = fl (58/100),
      oc_hours_since_expected_scan = fl (35/10), oc_alternative_location_available = True,
      oc_reroute_on_time_probability = fl (92/100), oc_carrier_upgrade_on_time_probability = fl (84/100),
      oc_reroute_cost = 8, oc_carrier_upgrade_cost = 17, oc_data_freshness_minutes = 3,
      oc_source_references = [\<lparr>sr_system = ''oms'', sr_record_id = ''order-e2e-'' @ suffix, sr_observed_at = now\<rparr>],
      oc_external_notes = None, oc_customer_id = ''customer-unknown'', oc_customer_segment = ''STANDARD'',
      oc_currency = ''AUD'', oc_sku = ''SKU-00001'', oc_quantity = 1, oc_current_fulfilment_location = ''FC-MEL'',
      oc_alternative_location_id = Some ''FC-SYD'', oc_current_carrier_service = ''STANDARD'',
      oc_upgraded_carrier_service = ''EXPRESS'', oc_split_shipment_possible = False,
      oc_split_shipment_on_time_probability = 0, oc_split_shipment_cost = 0, oc_restricted_product = False,
      oc_tenant_id = tenant_id\<rparr>"

definition order_payload :: "string \<Rightarrow> string \<Rightarrow> datetime \<Rightarrow> evaluation_request" where
  "order_payload suffix tenant_id now =
     \<lparr>er_event = probe_event suffix now, er_order = probe_order suffix tenant_id now, er_mode = APPROVAL\<rparr>"

section \<open>The calls of a run\<close>

definition evaluate_order :: "probe_env \<Rightarrow> string \<Rightarrow> string \<Rightarrow> (probe, decision_trace) prog" where
  "evaluate_order env suffix message =
     bind utc_now (\<lambda>now.
     bind (probe_request env (Post_Evaluate (order_payload suffix TENANT now))) (\<lambda>r.
     bind (expect_dict r message) (\<lambda>_.
     body_of as_trace (snd r))))"

definition submit_decision :: "probe_env \<Rightarrow> string \<Rightarrow> string \<Rightarrow> (probe, approval_record) prog" where
  "submit_decision env decision_id message =
     bind (probe_request env (Post_Submit decision_id ''operations-analyst-ui'')) (\<lambda>r.
     bind (expect_dict r message) (\<lambda>_.
     body_of (\<lambda>b. bind_res (as_state b) (\<lambda>s. present (ws_approval s))) (snd r)))"

definition approve_as_manager :: "probe_env \<Rightarrow> string \<Rightarrow> string \<Rightarrow> (probe, int \<times> http_body) prog" where
  "approve_as_manager env approval_id reason =
     probe_request env (Post_Approve approval_id
       \<lparr>ad_actor_id = ''operations-manager-ui'', ad_actor_role = OPERATIONS_MANAGER, ad_reason = reason\<rparr>)"

definition switch :: "probe_env \<Rightarrow> bool \<Rightarrow> string \<Rightarrow> string \<Rightarrow> (probe, unit) prog" where
  "switch env active reason message =
     bind (probe_request env (Post_Kill_Switch
       \<lparr>ku_active = active, ku_actor_id = ''operations-manager-ui'', ku_actor_role = OPERATIONS_MANAGER,
        ku_reason = reason\<rparr>)) (\<lambda>r.
     bind (expect_dict r message) (\<lambda>_.
     bind (body_of as_kill (snd r)) (\<lambda>k.
     require (ks_active k = active) message)))"

definition evaluated :: "probe_env \<Rightarrow> string \<Rightarrow> (probe, decision_trace) prog" where
  "evaluated env suffix =
     bind (evaluate_order env suffix ''evaluate failed'') (\<lambda>decision.
     bind (require (dr_selected_action (dt_recommendation decision) \<in> {REROUTE, CARRIER_UPGRADE, SPLIT_SHIPMENT})
        ''expected an executable action'') (\<lambda>_.
     bind (probe_request env (Get_Decisions 20 (Some TENANT) None)) (\<lambda>r.
     bind (require (fst r = 200 \<and> is_list (snd r)) ''decision list failed'') (\<lambda>_.
     bind (body_of as_traces (snd r)) (\<lambda>listed.
     bind (require (list_ex (\<lambda>t. dt_decision_id t = dt_decision_id decision) listed) ''decision not persisted'') (\<lambda>_.
     ret decision))))))"

definition submitted :: "probe_env \<Rightarrow> string \<Rightarrow> (probe, approval_record) prog" where
  "submitted env decision_id =
     bind (submit_decision env decision_id ''submit failed'') (\<lambda>approval.
     bind (require (ar_status approval = AP_PENDING) ''approval was not pending'') (\<lambda>_.
     bind (submit_decision env decision_id ''idempotent submit failed'') (\<lambda>again.
     bind (require (ar_approval_id again = ar_approval_id approval) ''submit was not idempotent'') (\<lambda>_.
     ret approval))))"

definition approved :: "probe_env \<Rightarrow> string \<Rightarrow> (probe, action_execution) prog" where
  "approved env approval_id =
     bind (approve_as_manager env approval_id ''Local stack end-to-end validation'') (\<lambda>r.
     bind (expect_dict r ''approve failed'') (\<lambda>_.
     bind (body_of (\<lambda>b. bind_res (as_state b) (\<lambda>s. present (ws_execution s))) (snd r)) (\<lambda>execution.
     bind (require (ae_status execution = AC_SUCCEEDED) ''execution did not succeed'') (\<lambda>_.
     ret execution))))"

definition delivered :: "string \<Rightarrow> datetime \<Rightarrow> delivery_observation" where
  "delivered suffix observed_at =
     \<lparr>do_order_id = ''order-e2e-'' @ suffix, do_delivered_on_time = True, do_observed_at = observed_at,
      do_source_reference = \<lparr>sr_system = ''carrier'', sr_record_id = ''delivered:order-e2e-'' @ suffix,
        sr_observed_at = observed_at\<rparr>\<rparr>"

definition verified :: "probe_env \<Rightarrow> string \<Rightarrow> string \<Rightarrow> (probe, outcome_verification) prog" where
  "verified env suffix decision_id =
     bind utc_now (\<lambda>now.
     bind (probe_request env (Post_Verify decision_id (delivered suffix (plus_us now (hours_us 24))))) (\<lambda>r.
     bind (expect_dict r ''verify failed'') (\<lambda>_.
     bind (body_of (\<lambda>b. bind_res (as_state b) (\<lambda>s. present (ws_outcome s))) (snd r)) (\<lambda>outcome.
     bind (require (ov_status outcome = VS_VERIFIED) ''outcome was not independently verified'') (\<lambda>_.
     bind (require (ov_estimated_incremental_value outcome \<noteq> 0 \<or> ov_on_time_delivery_observed outcome = Some True)
        ''value evidence missing from outcome'') (\<lambda>_.
     ret outcome))))))"

definition reviewed :: "probe_env \<Rightarrow> string \<Rightarrow> (probe, unit) prog" where
  "reviewed env decision_id =
     bind (probe_request env (Post_Feedback decision_id
       \<lparr>fi_actor_id = ''operations-analyst-ui'', fi_actor_role = OPERATIONS_ANALYST, fi_useful = True,
        fi_expected_outcome_matched = None,
        fi_comment = ''Local E2E operator review of the governed recovery.''\<rparr>)) (\<lambda>r.
     require (fst r = 200) ''feedback failed'')"

definition metrics_exposed :: "probe_env \<Rightarrow> (probe, unit) prog" where
  "metrics_exposed env =
     (if pe_metrics_lost env then raise (err TransportError [])
      else bind get_state (\<lambda>p.
        let metrics_body = pe_exposition env (app_metrics (st_app (pb_site p))) in
        bind (require (contains_word ''promiseguard_decisions_total'' metrics_body) ''decision metrics missing'') (\<lambda>_.
        require (contains_word ''promiseguard_actions_total'' metrics_body) ''action metrics missing'')))"

definition blocked :: "probe_env \<Rightarrow> (probe, unit) prog" where
  "blocked env =
     bind (switch env True ''E2E kill-switch probe'' ''kill switch on failed'') (\<lambda>_.
     bind (new_suffix env) (\<lambda>blocked_suffix.
     bind (evaluate_order env blocked_suffix ''blocked evaluate failed'') (\<lambda>blocked_decision.
     bind (submit_decision env (dt_decision_id blocked_decision) ''blocked submit failed'') (\<lambda>blocked_approval.
     bind (approve_as_manager env (ar_approval_id blocked_approval) ''Should be blocked by kill switch'') (\<lambda>r.
     bind (require (fst r = 409) ''kill switch did not block execution'') (\<lambda>_.
     switch env False ''Restore after E2E kill-switch probe'' ''kill switch off failed''))))))"

section \<open>A run and its replay\<close>

definition write_evidence :: "evidence \<Rightarrow> (probe, unit) prog" where
  "write_evidence e = modify (\<lambda>p. p\<lparr>pb_file := Some e\<rparr>)"

definition run_evidence ::
  "string \<Rightarrow> decision_trace \<Rightarrow> action_execution \<Rightarrow> outcome_verification \<Rightarrow> evidence" where
  "run_evidence suffix decision execution outcome =
     \<lparr>en_decision_id = dt_decision_id decision, en_order_id = ''order-e2e-'' @ suffix,
      en_action = recovery_action_value (dr_selected_action (dt_recommendation decision)),
      en_execution_status = action_status_value (ae_status execution),
      en_verification_status = verification_status_value (ov_status outcome), en_console_reachable = True,
      en_tenant_id = TENANT\<rparr>"

definition run_fresh :: "probe_env \<Rightarrow> nat \<Rightarrow> (probe, evidence) prog" where
  "run_fresh env wait_seconds =
     bind (new_suffix env) (\<lambda>suffix.
     bind (evaluated env suffix) (\<lambda>decision.
     bind (submitted env (dt_decision_id decision)) (\<lambda>approval.
     bind (approved env (ar_approval_id approval)) (\<lambda>execution.
     bind (verified env suffix (dt_decision_id decision)) (\<lambda>outcome.
     bind (reviewed env (dt_decision_id decision)) (\<lambda>_.
     bind (metrics_exposed env) (\<lambda>_.
     bind (blocked env) (\<lambda>_.
     bind (wait_for_console env wait_seconds) (\<lambda>_.
     bind (write_evidence (run_evidence suffix decision execution outcome)) (\<lambda>_.
     ret (run_evidence suffix decision execution outcome)))))))))))"

definition run_replay :: "probe_env \<Rightarrow> (probe, string) prog" where
  "run_replay env =
     bind get_state (\<lambda>p.
     case pb_file p of
       None \<Rightarrow> raise (err SystemExit ''missing replay state'')
     | Some e \<Rightarrow>
         bind (probe_request env (Get_Decision (en_decision_id e))) (\<lambda>r.
         bind (expect_dict r ''replay fetch failed'') (\<lambda>_.
         bind (body_of as_state (snd r)) (\<lambda>state.
         bind (require (dt_decision_id (ws_decision state) = en_decision_id e) ''decision lost after restart'') (\<lambda>_.
         bind (of_res (present (ws_execution state))) (\<lambda>execution.
         bind (require (ae_status execution = AC_SUCCEEDED) ''execution evidence lost after restart'') (\<lambda>_.
         bind (of_res (present (ws_outcome state))) (\<lambda>outcome.
         bind (require (ov_status outcome = VS_VERIFIED) ''outcome evidence lost after restart'') (\<lambda>_.
         ret (en_decision_id e))))))))))"

datatype report = Passed evidence | Replay_Passed string

definition probe_main :: "probe_env \<Rightarrow> nat \<Rightarrow> bool \<Rightarrow> (probe, report) prog" where
  "probe_main env wait_seconds replay =
     bind (wait_for_api env wait_seconds) (\<lambda>_.
     if replay then bind (run_replay env) (\<lambda>k. ret (Replay_Passed k))
     else bind (run_fresh env wait_seconds) (\<lambda>e. ret (Passed e)))"

end
