(* ===== verification/Probe_Decision.thy ===== *)
theory Probe_Decision
  imports Stack_Probe Healthy_Path
begin

text \<open>
  The decision on the order that the probe of \<^verbatim>\<open>src/scripts/local_e2e.py\<close> makes up, whatever its suffix
  and its time: the request is valid, the rule-based scorer sees a failure coming, the recovery is worth
  more than doing nothing, and the policy asks for an approval of an action the systems can carry out.
\<close>

section \<open>The decision on the order of the probe\<close>

lemma probe_probability:
  "clamp_probability (fadd (fadd (fadd (fsub 1 (fl (58/100))) (fl (45/100)))
     (min (fl (25/100)) (fdiv (fl (35/10)) 48))) (fl (8/100))) = fl (99/100)"
  by code_simp

lemma probe_numbers:
  "fl (80/100) < fl (95/100)" "2 \<le> fl (35/10)" "fdiv (fdiv (of_int (hours_us 18)) 1000000) 3600 \<le> 24"
  "py_round 4 (fsub 1 (fl (99/100))) = fl (1/100)"
  by code_simp+

lemma probe_money:
  "decimal_of_float (fl (92/100)) = 92/100 \<and> money (dmul 72 (92/100)) = Inr (6624/100) \<and>
   money (dmul (dadd 20 8) (dsub 1 (92/100))) = Inr (224/100) \<and> money (dsub (dsub (6624/100) (224/100)) 8) = Inr 56"
  "decimal_of_float (fl (1/100)) = 1/100 \<and> money (dmul 72 (1/100)) = Inr (72/100) \<and>
   money (dmul (dadd 20 8) (dsub 1 (1/100))) = Inr (2772/100) \<and> money (dsub (dsub (72/100) (2772/100)) 0) = Inr (- 27)"
  by code_simp+

lemma probe_order_sel [simp]:
  "oc_order_id (probe_order suffix tenant now) = ''order-e2e-'' @ suffix"
  "oc_evaluation_time (probe_order suffix tenant now) = now"
  "oc_promised_delivery_at (probe_order suffix tenant now) = plus_us now (hours_us 18)"
  "oc_gross_margin (probe_order suffix tenant now) = 72"
  "oc_cancellation_cost (probe_order suffix tenant now) = 20"
  "oc_support_cost (probe_order suffix tenant now) = 8"
  "oc_inventory_reserved (probe_order suffix tenant now)"
  "\<not> oc_inventory_available (probe_order suffix tenant now)"
  "oc_inventory_confidence (probe_order suffix tenant now) = fl (95/100)"
  "oc_carrier_on_time_probability (probe_order suffix tenant now) = fl (58/100)"
  "oc_hours_since_expected_scan (probe_order suffix tenant now) = fl (35/10)"
  "oc_alternative_location_available (probe_order suffix tenant now)"
  "oc_reroute_on_time_probability (probe_order suffix tenant now) = fl (92/100)"
  "oc_reroute_cost (probe_order suffix tenant now) = 8"
  "oc_carrier_upgrade_cost (probe_order suffix tenant now) = 17"
  "oc_data_freshness_minutes (probe_order suffix tenant now) = 3"
  "oc_source_references (probe_order suffix tenant now) \<noteq> []"
  "oc_alternative_location_id (probe_order suffix tenant now) = Some ''FC-SYD''"
  "\<not> oc_split_shipment_possible (probe_order suffix tenant now)"
  "\<not> oc_restricted_product (probe_order suffix tenant now)"
  "oc_tenant_id (probe_order suffix tenant now) = tenant"
  by (simp_all add: probe_order_def)

lemma probe_risk:
  "ra_failure_probability (deterministic_score (probe_order suffix tenant (utc n))) = fl (99/100) \<and>
   ra_data_quality_warnings (deterministic_score (probe_order suffix tenant (utc n))) = []"
proof -
  let ?c = "probe_order suffix tenant (utc n)"
  have h: "hours_to_promise ?c \<le> 24" using probe_numbers(3) by (simp add: hours_to_promise_def)
  have "fst (accumulated_risk ?c) =
      fadd (fadd (fadd (fsub 1 (fl (58/100))) (fl (45/100))) (min (fl (25/100)) (fdiv (fl (35/10)) 48))) (fl (8/100))"
    using h probe_numbers(1,2)
    by (simp add: accumulated_risk_def carrier_baseline_def missing_scan_contribution_def Let_def)
  then have "clamp_probability (fst (accumulated_risk ?c)) = fl (99/100)" by (simp only: probe_probability)
  then show ?thesis by (auto simp: deterministic_score_def deterministic_warnings_def split: prod.split)
qed

lemma build_option_value:
  assumes "build_option a c p cost fe rv conf cs = Inr r"
    and "money (dmul (oc_gross_margin c) (decimal_of_float p)) = Inr margin"
    and "money (dmul (dadd (oc_cancellation_cost c) (oc_support_cost c)) (dsub 1 (decimal_of_float p))) = Inr fcost"
    and "money (dsub (dsub margin fcost) cost) = Inr net" and "fe"
  shows "ro_expected_net_value r = net \<and> ro_action r = a \<and> ro_feasible r"
  using assms(1) by (rule build_option_InrE) (use assms in auto)

text \<open>Doing nothing is worth -27, the reroute 56: the greatest value is not that of doing nothing.\<close>

lemma probe_selection:
  assumes "simulate (probe_order suffix tenant (utc n)) (deterministic_score (probe_order suffix tenant (utc n))) = Inr options"
    and "select options = Inr rec"
  shows "dr_selected_action rec \<in> {REROUTE, CARRIER_UPGRADE} \<and>
    (\<forall>r\<in>set (dr_ranked_options rec). valid_recovery_option r \<and> ro_intervention_cost r \<le> 18)"
proof -
  let ?c = "probe_order suffix tenant (utc n)" and ?k = "deterministic_score (probe_order suffix tenant (utc n))"
  obtain none reroute upgrade split where o: "no_action_option ?c ?k = Inr none" "reroute_option ?c ?k = Inr reroute"
    "carrier_upgrade_option ?c ?k = Inr upgrade" "split_shipment_option ?c ?k = Inr split"
    "options = [none, reroute, upgrade, split]"
    using assms(1) by (auto simp: simulate_def bind_res_Inr)
  have risk: "ra_failure_probability ?k = fl (99/100)" using probe_risk by blast
  have none: "ro_expected_net_value none = - 27 \<and> ro_action none = TAKE_NO_ACTION \<and> ro_feasible none"
    by (rule build_option_value [OF o(1) [unfolded no_action_option_def], where margin = "72/100" and fcost = "2772/100"])
      (simp_all only: risk probe_numbers(4) probe_order_sel probe_money(2))
  have "reroute_feasible ?c" by (simp add: reroute_feasible_def)
  then have reroute: "ro_expected_net_value reroute = 56 \<and> ro_action reroute = REROUTE \<and> ro_feasible reroute"
    by (intro build_option_value [OF o(2) [unfolded reroute_option_def], where margin = "6624/100" and fcost = "224/100"])
      (simp_all only: if_True probe_order_sel probe_money(1))
  have upgrade: "ro_action upgrade = CARRIER_UPGRADE"
    using o(3) by (auto simp: carrier_upgrade_option_def elim!: build_option_InrE)
  have split: "\<not> ro_feasible split"
    using o(4) by (auto simp: split_shipment_option_def elim!: build_option_InrE)
  have cheap: "ro_intervention_cost r \<le> 18" if "money x = Inr (ro_intervention_cost r)" "x \<le> 17" for x and r :: recovery_option
    using abs_le_D1 [OF money_error [OF that(1)]] that(2) by linarith
  have "\<forall>r\<in>set options. ro_feasible r \<longrightarrow> ro_intervention_cost r \<le> 18"
    using o split
    by (auto simp: no_action_option_def reroute_option_def carrier_upgrade_option_def elim!: build_option_InrE intro: cheap)
  then have ranked: "\<forall>r\<in>set (dr_ranked_options rec). valid_recovery_option r \<and> ro_intervention_cost r \<le> 18"
    using select_ranked_set [OF assms(2)] simulate_actions(3) [OF assms(1)] by auto
  from assms(2) show ?thesis
  proof (cases rule: select_InrE)
    case (1 selected rest no_action)
    have "rank_key reroute \<le> rank_key selected" using 1(10) o(5) reroute by auto
    then have "selected \<noteq> none" using none reroute by (auto simp: rank_key_def)
    then show ?thesis using 1(2,3,5) o(5) reroute upgrade split ranked by auto
  qed
qed

lemma probe_request_valid:
  "valid_evaluation_request (order_payload (take 12 u) TENANT (utc n)) \<and>
   order_money_fits (er_order (order_payload (take 12 u) TENANT (utc n)))"
proof -
  have l: "length (take 12 u) \<le> 12" by simp
  have numbers: "list_all (\<lambda>p. unit_float p) [fl (95/100), fl (58/100), fl (92/100), fl (84/100)]"
    "fl (35/10) \<le> 240" "0 \<le> fl (35/10)" "is_digit (CHR ''1'')" "currency_pattern ''AUD''" by code_simp+
  have "valid_operational_event (probe_event (take 12 u) (utc n))"
    using l numbers(4) by (simp add: valid_operational_event_def probe_event_def min_le_iff_disj len_within_def tz_aware_def plus_us_def instant_def
      minutes_us_def)
  moreover have "valid_order_context (probe_order (take 12 u) TENANT (utc n))"
    using l numbers by (simp add: valid_order_context_def probe_order_def min_le_iff_disj len_within_def tz_aware_def plus_us_def
      non_negative_money_def valid_source_reference_def positive_quantity_def TENANT_def hours_us_def minutes_us_def instant_def)
  moreover have "order_money_fits (probe_order (take 12 u) TENANT (utc n))"
    by (simp add: order_money_fits_def money_fits_def probe_order_def)
  ultimately show ?thesis
    by (simp add: valid_evaluation_request_def order_payload_def probe_event_def probe_order_def plus_us_def instant_def
      minutes_us_def)
qed

text \<open>What is used of the decision: it asks for an approval of an action the systems can carry out.\<close>

definition recoverable :: "evaluation_request \<Rightarrow> decision_trace \<Rightarrow> bool" where
  "recoverable q t \<longleftrightarrow>
     pe_disposition (dt_policy t) = REQUEST_APPROVAL \<and>
     dr_selected_action (dt_recommendation t) \<in> {REROUTE, CARRIER_UPGRADE} \<and>
     can_carry (er_order q) (dr_selected_action (dt_recommendation t)) \<and>
     dt_event_id t = ev_event_id (er_event q) \<and> dt_tenant_id t = oc_tenant_id (er_order q) \<and>
     (\<exists>s. selected_option t = Inr s \<and> valid_recovery_option s \<and> ro_intervention_cost s \<le> 18)"

lemma py_next_total: "\<exists>x\<in>set xs. p x \<Longrightarrow> \<exists>y. py_next p xs = Inr y \<and> y \<in> set xs"
  by (induction xs) (auto simp: py_next_def)

lemma probe_decided:
  assumes "decide L ob db (order_payload suffix TENANT (utc n)) = Inr t" and "orc_score ob = deterministic_score"
  shows "recoverable (order_payload suffix TENANT (utc n)) t"
proof -
  let ?q = "order_payload suffix TENANT (utc n)" and ?c = "probe_order suffix TENANT (utc n)"
  obtain risk options rec policy where d: "risk = deterministic_score ?c" "simulate ?c risk = Inr options"
    "select options = Inr rec" "policy_evaluate (orc_policy ob db) ?c risk rec APPROVAL = Inr policy"
    "t = build_trace L ob ?q risk rec policy"
    using assms by (auto simp: order_payload_def elim!: decide_InrE)
  note sel = probe_selection [OF d(2) [unfolded d(1)] d(3)]
  have "\<exists>r\<in>set (dr_ranked_options rec). ro_action r = dr_selected_action rec"
    using select_feasible_action [OF d(3)] by blast
  from py_next_total [OF this] obtain s where s: "selected_option t = Inr s" "s \<in> set (dr_ranked_options rec)"
    by (auto simp: selected_option_def d(5))
  have "pe_disposition policy = REQUEST_APPROVAL"
    using d(4) sel probe_risk [of suffix TENANT n]
    by (auto simp: policy_evaluate_def Let_def bind_res_Inr d(1) max_context_age_minutes_def split: if_splits)
  then show ?thesis
    using sel s d(5) by (auto simp: recoverable_def can_carry_def build_trace_def order_payload_def)
qed

end
