(* ===== verification/Acceptance_Steps.thy ===== *)
theory Acceptance_Steps
  imports Probe_Decision
begin

text \<open>
  What the services do for each request of the probe of \<^verbatim>\<open>src/scripts/local_e2e.py\<close> on tables that have
  room for it: the order is decided, the decision submitted, its approval carried out or stopped by the kill
  switch, the delivery verified, the feedback and the switch recorded.
\<close>

section \<open>The operations on tables that have room\<close>

lemma evaluation_new:
  fixes L :: lib and score :: "order_context \<Rightarrow> risk_assessment" and version :: string
  defines "ob \<equiv> sql_orchestrator L score version autonomy_gateway"
  assumes "controls_good db" "valid_evaluation_request q" "order_money_fits (er_order q)"
    and "valid_risk_assessment (score (er_order q))"
    and "event_storable (db_dialect L) (er_event q)"
    and "\<forall>row\<in>set (tb_events db). evr_event_id row \<noteq> ev_event_id (er_event q)"
    and "\<And>t. decide L ob db q = Inr t \<Longrightarrow> dt_decision_id t \<notin> dcr_decision_id ` set (tb_decisions db)"
  shows "\<exists>t er dr. evaluation_service L ob now q db =
      (Inr t, db\<lparr>tb_events := tb_events db @ [er], tb_decisions := tb_decisions db @ [dr]\<rparr>) \<and>
    decide L ob db q = Inr t \<and> evr_event_id er = ev_event_id (er_event q) \<and> evr_payload er = q \<and>
    dcr_decision_id dr = dt_decision_id t \<and> dcr_trace dr = t \<and> dcr_tenant_id dr = dt_tenant_id t"
proof -
  have "orc_policy ob = autonomy_gateway" "orc_score ob = score" by (simp_all add: ob_def sql_orchestrator_def)
  then obtain t where t: "decide L ob db q = Inr t"
    using autonomy.controlled_decide_total [OF assms(2), of ob q L] assms(3-5) by auto
  have none: "List.find (same_event (er_event q)) (tb_events db) = None"
    using assms(7) by (auto simp: find_None_iff same_event_def)
  obtain er where e: "session (event_ingest L (er_event q) q now) db = (Inr er, db\<lparr>tb_events := tb_events db @ [er]\<rparr>)"
    "evr_event_id er = ev_event_id (er_event q)" "evr_payload er = q"
    using none assms(6) by (simp add: session_def event_ingest_def event_storable_def Let_def)
  have t1: "decide L ob (db\<lparr>tb_events := tb_events db @ [er]\<rparr>) q = Inr t"
    using t autonomy_gateway_cong [of "db\<lparr>tb_events := tb_events db @ [er]\<rparr>" db]
    by (simp add: decide_def ob_def sql_orchestrator_def)
  have "row_get dcr_decision_id (dt_decision_id t) (tb_decisions db) = None"
    using assms(8) [OF t] by (simp add: row_get_None)
  then obtain dr where "sql_record L t (db\<lparr>tb_events := tb_events db @ [er]\<rparr>) =
      (Inr t, db\<lparr>tb_events := tb_events db @ [er], tb_decisions := tb_decisions db @ [dr]\<rparr>)"
    "dcr_decision_id dr = dt_decision_id t" "dcr_trace dr = t" "dcr_tenant_id dr = dt_tenant_id t"
    by (simp add: sql_record_app)
  then have "evaluation_service L ob now q db =
      (Inr t, db\<lparr>tb_events := tb_events db @ [er], tb_decisions := tb_decisions db @ [dr]\<rparr>)"
    using e(1) t1 by (simp add: evaluation_service_def orchestrate_app) (simp add: ob_def sql_orchestrator_def)
  then show ?thesis using e(2,3) t \<open>dcr_decision_id dr = _\<close> \<open>dcr_trace dr = t\<close> \<open>dcr_tenant_id dr = _\<close> by blast
qed

definition pending_row :: "lib \<Rightarrow> decision_trace \<Rightarrow> string \<Rightarrow> datetime \<Rightarrow> approval_row" where
  "pending_row L t actor at_time =
     \<lparr>apr_approval_id = approval_id_of L t, apr_decision_id = dt_decision_id t,
      apr_requested_action = dr_selected_action (dt_recommendation t), apr_status = AP_PENDING,
      apr_requested_by = actor, apr_requested_at = to_utc at_time, apr_expires_at = plus_us (to_utc at_time) default_ttl,
      apr_decided_by = None, apr_decided_by_role = None, apr_decision_reason = None, apr_decided_at = None\<rparr>"

lemma submit_new:
  fixes w :: "'w world"
  assumes "sql_get k (w_db w) = Some t" "recoverable q t"
    and "row_get apr_approval_id (approval_id_of L t) (tb_approvals (w_db w)) = None"
  shows "\<exists>a. submit L default_ttl governed port wall k actor None w =
      (Inr (workflow_state_of t (Some a) None None),
       w\<lparr>w_db := (w_db w)\<lparr>tb_approvals := tb_approvals (w_db w) @ [pending_row L t actor (wall 0)]\<rparr>\<rparr>) \<and>
    ar_status a = AP_PENDING \<and> ar_approval_id a = approval_id_of L t"
  using assms
  by (auto simp: submit_def workflow_decision_def bind_app recoverable_def on_db_app approval_request_def Let_def
      session_def approval_get_def approval_create_def pending_row_def now_or_def)

lemma submit_again:
  fixes w :: "'w world"
  assumes "sql_get k (w_db w) = Some t" "recoverable q t"
    and "row_get apr_approval_id (approval_id_of L t) (tb_approvals (w_db w)) = Some row"
  shows "submit L default_ttl governed port wall k actor None w =
    (Inr (workflow_state_of t (Some (approval_to_model row)) None None), w)"
  using assms
  by (auto simp: submit_def workflow_decision_def bind_app recoverable_def on_db_app approval_request_def Let_def
      session_def approval_get_def)


lemma approve_pending_row:
  fixes reason :: string
  defines "inp \<equiv> \<lparr>ad_actor_id = ''operations-manager-ui'', ad_actor_role = OPERATIONS_MANAGER, ad_reason = reason\<rparr>"
  assumes "approvals_good db"
    and "row_get apr_approval_id k (tb_approvals db) = Some (pending_row L t ''operations-analyst-ui'' t0)"
    and "instant wl \<le> instant t0 + default_ttl"
  shows "\<exists>rec row. approve env k inp None wl db =
      (Inr rec, db\<lparr>tb_approvals := row_put apr_approval_id row (tb_approvals db)\<rparr>)"
proof -
  have kd: "keys_distinct apr_approval_id (tb_approvals db)" using assms(2) by (simp add: approvals_good_def)
  have "bind_claimed_role env ''operations-manager-ui'' OPERATIONS_MANAGER None = Inr OPERATIONS_MANAGER"
    by (simp add: bind_claimed_role_Inr LOCAL_IDENTITY_DIRECTORY_def)
  moreover have "\<not> instant (plus_us (to_utc t0) default_ttl) < instant (to_utc wl)"
    using assms(4) by simp
  ultimately show ?thesis
    using assms(3) by (simp add: inp_def approve_def approval_decide_app [OF kd] pending_row_def Let_def now_or_def) blast
qed


text \<open>What an execution, a verification and the rest leave of the feedback.\<close>

definition same_feedback :: "'w world \<Rightarrow> 'w world \<Rightarrow> bool" where
  "same_feedback w w' \<longleftrightarrow> tb_feedback (w_db w') = tb_feedback (w_db w)"

interpretation same_feedback: frame_relation same_feedback
  by unfold_locales (simp_all add: same_feedback_def)

lemma feedback_on_db: "(\<And>db. tb_feedback (snd (m db)) = tb_feedback db) \<Longrightarrow> keeps same_feedback (on_db m)"
  by (rule keepsI) (auto simp: on_db_app same_feedback_def split: prod.splits, metis snd_conv)

lemma feedback_on_ops: "keeps same_feedback (on_ops m)"
  by (rule keepsI) (auto simp: on_ops_app same_feedback_def split: prod.splits)

lemma feedback_tables:
  "tb_feedback (snd (read_kill_switch db)) = tb_feedback db"
  "tb_feedback (snd (read_profile a db)) = tb_feedback db"
  "tb_feedback (snd (record_evidence t k a kind ok cp db)) = tb_feedback db"
  "tb_feedback (snd (session (action_update x) db)) = tb_feedback db"
  "tb_feedback (snd (session (outcome_record L y) db)) = tb_feedback db"
  "tb_feedback (snd (claim_execution L c t db)) = tb_feedback db"
  by (simp add: world_reads, simp add: world_reads,
      auto simp: record_evidence_def session_def action_update_def outcome_record_def claim_execution_def Let_def bind_app
        action_record_def split: option.splits sum.splits prod.splits)

lemma feedback_executed: "keeps same_feedback (execute_action L governed port wall c order now)"
proof -
  have noted: "keeps same_feedback (on_db (record_execution t x))" for t x
    by (rule feedback_on_db) (simp add: record_execution_def feedback_tables)
  have "keeps same_feedback (run_claimed governed port wall x order t)" for x t
    unfolding run_claimed_def note_execution_def
    by (auto intro!: same_feedback.keeps_bind same_feedback.keeps_catch feedback_on_ops feedback_on_db noted
        simp: feedback_tables)
  then have "keeps same_feedback (case r of Inl y \<Rightarrow> ret y | Inr x \<Rightarrow> run_claimed governed port wall x order t)" for r t
    by (cases r) auto
  then show ?thesis
    unfolding execute_action_def Let_def
    by (intro same_feedback.keeps_bind)
      (auto intro!: same_feedback.keeps_bind feedback_on_db simp: feedback_tables)
qed

lemma feedback_verified: "keeps same_feedback (verify_outcome L governed wall decision x c obs now)"
proof -
  have "tb_feedback (snd (record_outcome t y a db)) = tb_feedback db" for t y a db
    by (simp add: record_outcome_def feedback_tables)
  moreover have "keeps same_feedback (observe c obs)"
    by (auto simp: observe_def record_delivery_observation_def intro: feedback_on_ops split: option.split)
  ultimately show ?thesis
    unfolding verify_outcome_def
    by (auto intro!: same_feedback.keeps_bind feedback_on_ops feedback_on_db simp: feedback_tables)
qed


lemma feedback_approved:
  fixes port :: "'w operations_port"
  shows "keeps same_feedback (approve_and_execute L env governed port wall k inp now)"
proof -
  have still: "keeps same_feedback m" if "\<And>w r w'. m w = (r, w') \<Longrightarrow> w' = w" for m :: "('w world, 'b) prog"
    using that by (fastforce intro: keepsI simp: same_feedback_def)
  have "tb_feedback (snd (approval_decide env k inp target now wl db)) = tb_feedback db" for target wl db
    by (auto simp: approval_decide_def decide_read_def decide_write_def approval_update_if_pending_def Let_def bind_app catch_def
        session_def split: sum.splits option.splits prod.splits)
  then have "keeps same_feedback (on_db (approve env k inp now wl))" for wl
    by (auto simp: approve_def intro: feedback_on_db)
  moreover have "keeps same_feedback (execute_for L governed port wl d t q who by ap now)" for wl d t q who "by" ap
    unfolding execute_for_def
    by (intro same_feedback.keeps_bind feedback_executed still) (auto dest: command_for_decision_state)
  moreover have reads: "keeps same_feedback (workflow_decision d :: ('w world, decision_trace) prog)"
    "keeps same_feedback (workflow_request d :: ('w world, evaluation_request) prog)" for d
    by (rule still, erule workflow_decision_state, rule still, erule workflow_request_state)
  ultimately have "keeps same_feedback (decide_and_execute L env governed port wall k inp now t q)" for t q
    unfolding decide_and_execute_def by (auto intro!: same_feedback.keeps_bind)
  then have "keeps same_feedback (approve_pending L env governed port wall k inp now pending)" for pending
    unfolding approve_pending_def
    by (auto intro!: same_feedback.keeps_bind reads)
  then have "keeps same_feedback (case found of None \<Rightarrow> raise e
      | Some pending \<Rightarrow> approve_pending L env governed port wall k inp now pending)" for found e
    by (cases found) auto
  then show ?thesis
    unfolding approve_and_execute_def
    by (intro same_feedback.keeps_bind feedback_on_db) (simp_all add: approval_service_get_def)
qed

text \<open>The decision on the order of a run stands in the tables, with its request.\<close>

definition standing :: "evaluation_request \<Rightarrow> decision_trace \<Rightarrow> database \<Rightarrow> bool" where
  "standing q t db \<longleftrightarrow>
     valid_evaluation_request q \<and> recoverable q t \<and> sql_get (dt_decision_id t) db = Some t \<and>
     get_request_payload (dt_event_id t) db = Some q"

text \<open>The one action of a decision, carried out.\<close>

definition carried_out :: "decision_trace \<Rightarrow> action_execution \<Rightarrow> bool" where
  "carried_out t x \<longleftrightarrow>
     ae_status x = AC_SUCCEEDED \<and> cmd_action (ae_command x) = dr_selected_action (dt_recommendation t) \<and>
     (\<exists>s. selected_option t = Inr s \<and> cmd_expected_intervention_cost (ae_command x) = ro_intervention_cost s)"

text \<open>What a carried-out approval changes.\<close>

definition executed :: "decision_trace \<Rightarrow> database \<Rightarrow> database \<Rightarrow> bool" where
  "executed t db db' \<longleftrightarrow>
     (\<exists>y. action_get_by_decision (dt_decision_id t) db' = Some y \<and> carried_out t y) \<and>
     acr_decision_id ` set (tb_actions db') = {dt_decision_id t} \<and>
     tb_events db' = tb_events db \<and> tb_decisions db' = tb_decisions db \<and>
     map apr_approval_id (tb_approvals db') = map apr_approval_id (tb_approvals db) \<and>
     tb_outcomes db' = tb_outcomes db \<and> tb_feedback db' = tb_feedback db"

lemma approval_executes:
  fixes reason :: string
  defines "inp \<equiv> \<lparr>ad_actor_id = ''operations-manager-ui'', ad_actor_role = OPERATIONS_MANAGER, ad_reason = reason\<rparr>"
  assumes g: "workflow_good L db" and fp: "distinguishes_decisions L" and len: "\<forall>x. 5 \<le> length (sha256_hex L x)"
    and off: "row_get rcr_control_key kill_switch_key (tb_controls db) = Some r" "\<not> rcr_enabled r"
    and st: "standing q t db" and none: "tb_actions db = []"
    and row: "row_get apr_approval_id k (tb_approvals db) = Some (pending_row L t ''operations-analyst-ui'' t0)"
    and soon: "instant (wall 0) \<le> instant t0 + default_ttl"
  shows "\<exists>rec x db' os. approve_and_execute L env True sandbox_port wall k inp None
      \<lparr>w_db = db, w_ops = empty_sandbox\<rparr> =
      (Inr (workflow_state_of t (Some rec) (Some x) None), \<lparr>w_db = db', w_ops = os\<rparr>) \<and>
    ae_status x = AC_SUCCEEDED \<and> executed t db db'"
proof -
  let ?w = "\<lparr>w_db = db, w_ops = empty_sandbox\<rparr>"
  have ag: "approvals_good db" using g by (simp add: workflow_good_def)
  obtain rec arow where ap: "approve env k inp None (wall 0) db =
      (Inr rec, db\<lparr>tb_approvals := row_put apr_approval_id arow (tb_approvals db)\<rparr>)"
    using approve_pending_row [OF ag row soon] unfolding inp_def by blast
  obtain s where s: "selected_option t = Inr s" "valid_recovery_option s"
    using st by (auto simp: standing_def recoverable_def)
  let ?c = "decided_command L t s q (ar_requested_by rec) (ar_decided_by rec)"
  have payload: "get_request_payload (ev_event_id (er_event q)) db = Some q"
    using st unfolding standing_def recoverable_def by metis
  have pend: "approval_get k (w_db ?w) = Some (approval_to_model (pending_row L t ''operations-analyst-ui'' t0))"
    using row by (simp add: approval_get_def)
  have "\<exists>x w'. approve_and_execute L env True sandbox_port wall k inp None ?w =
        (Inr (workflow_state_of t (Some rec) (Some x) None), w') \<and>
      ae_status x = AC_SUCCEEDED \<and> cmd_approved_by (ae_command x) = Some (ad_actor_id inp) \<and>
      postcondition (er_order q) (dr_selected_action (dt_recommendation t)) (w_ops w') \<and>
      claimed (dt_decision_id t) (w_db w') \<and>
      world_frame ?c (?w\<lparr>w_db := db\<lparr>tb_approvals := row_put apr_approval_id arow (tb_approvals db)\<rparr>\<rparr>) w' \<and>
      (\<exists>row\<in>set (tb_actions (w_db w')). acr_status row = AC_SUCCEEDED)"
    by (rule granted_executes [OF _ fp _ off(2) pend])
      (use g off(1) st payload ap s none len in \<open>simp_all add: standing_def recoverable_def pending_row_def approval_to_model_def
        inp_def assert_approval_authority_def unclaimed_def sandbox_ready_def free_key_def empty_sandbox_def\<close>)
  then obtain x w' where x: "approve_and_execute L env True sandbox_port wall k inp None ?w =
        (Inr (workflow_state_of t (Some rec) (Some x) None), w')" "ae_status x = AC_SUCCEEDED"
      "world_frame ?c (?w\<lparr>w_db := db\<lparr>tb_approvals := row_put apr_approval_id arow (tb_approvals db)\<rparr>\<rparr>) w'"
    "\<exists>row\<in>set (tb_actions (w_db w')). acr_status row = AC_SUCCEEDED" by blast
  obtain db' os where w': "w' = \<lparr>w_db = db', w_ops = os\<rparr>" by (cases w') simp
  have "workflow_good L db'" using workflow_good_approve [OF _ fp x(1)] g w' by simp
  then have ag': "actions_good L db'" by (simp add: workflow_good_def)
  obtain row where ar: "row \<in> set (tb_actions db')" "acr_status row = AC_SUCCEEDED" using x(4) w' by auto
  have cmds: "acr_command ` set (tb_actions db') \<subseteq> {?c}"
    using x(3) none w' by (simp add: world_frame_def action_frame_def)
  have c: "cmd_decision_id ?c = dt_decision_id t" "cmd_action ?c = dr_selected_action (dt_recommendation t)"
    "cmd_expected_intervention_cost ?c = ro_intervention_cost s" by (simp_all add: decided_command_def)
  have ids: "acr_decision_id a = dt_decision_id t" if "a \<in> set (tb_actions db')" for a
    using that cmds c(1) ag' by (fastforce simp: actions_good_def action_row_good_def list_all_iff)
  have "action_get_by_decision (dt_decision_id t) db' = Some (action_to_model row)"
    using get_by_decision_unique [of db' row] ag' ar(1) ids [OF ar(1)] by (simp add: actions_good_def)
  moreover have "carried_out t (action_to_model row)"
    using ar cmds c s(1) by (auto simp: carried_out_def action_to_model_def)
  moreover have "acr_decision_id ` set (tb_actions db') = {dt_decision_id t}" using ids ar(1) by auto
  moreover have "tb_feedback db' = tb_feedback db"
    using keepsD [OF feedback_approved x(1)] w' by (simp add: same_feedback_def)
  ultimately show ?thesis
    using x(1-3) w' by (auto simp: executed_def world_frame_def action_frame_def)
qed


lemma delivery_recorded:
  "\<exists>os'. observe (probe_order (take 12 u) TENANT now) (Some (delivered (take 12 u) t)) w =
      (Inr (), w\<lparr>w_ops := os'\<rparr>) \<and> sb_delivery_outcomes os' (''order-e2e-'' @ take 12 u) = Some True"
proof -
  have "length (take 12 u) \<le> 12" by simp
  then show ?thesis
    by (auto simp: observe_def delivered_def record_delivery_observation_def on_ops_app record_delivery_outcome_def
        bind_app checked_app request_meta_def record_delivery_def respond_def valid_request_meta_def valid_delivery_request_def
        len_within_def DEFAULT_TENANT_ID_def str_bool_def)
qed

lemma recovery_assessed:
  assumes "recoverable q t" "carried_out t x" "oc_gross_margin (er_order q) = 72"
    and "sb_delivery_outcomes os (oc_order_id (er_order q)) = Some True"
    and "postcondition (er_order q) (cmd_action (ae_command x)) os"
  shows "\<exists>y. assess_outcome L t x (er_order q) obs at_time os = Inr y \<and> ov_status y = VS_VERIFIED \<and>
    ov_on_time_delivery_observed y = Some True \<and> ov_decision_id y = dt_decision_id t"
proof -
  obtain s where s: "selected_option t = Inr s" "valid_recovery_option s" "ro_intervention_cost s \<le> 18"
    using assms(1) by (auto simp: recoverable_def)
  have x: "cmd_expected_intervention_cost (ae_command x) = ro_intervention_cost s"
    "cmd_action (ae_command x) = dr_selected_action (dt_recommendation t)" "ae_status x = AC_SUCCEEDED"
    using assms(2) s(1) by (auto simp: carried_out_def)
  have "0 \<le> ro_intervention_cost s" using s(2) by (simp add: valid_recovery_option_def non_negative_money_def)
  then have "\<bar>dsub 72 (ro_intervention_cost s)\<bar> \<le> of_int 72"
    unfolding dsub_def by (intro dec_abs_bound) (use s(3) in simp_all)
  then obtain margin where "money (dsub 72 (ro_intervention_cost s)) = Inr margin"
    using money_total [of "dsub 72 (ro_intervention_cost s)"] by auto
  then have "\<exists>m. realised_margin (er_order q) (ro_intervention_cost s) (Some True) = Inr m"
    using assms(3) by (simp add: realised_margin_def)
  then show ?thesis
    using s x assms(4,5)
    by (auto simp: assess_outcome_def Let_def selected_option_def valid_recovery_option_def new_outcome_def outcome_status_def)
qed

definition outcome_kept :: "decision_trace \<Rightarrow> database \<Rightarrow> database \<Rightarrow> bool" where
  "outcome_kept t db db' \<longleftrightarrow>
     (\<exists>z. outcome_get_by_decision (dt_decision_id t) db' = Some z \<and> ov_status z = VS_VERIFIED) \<and>
     tb_events db' = tb_events db \<and> tb_decisions db' = tb_decisions db \<and> tb_approvals db' = tb_approvals db \<and>
     tb_actions db' = tb_actions db \<and> tb_feedback db' = tb_feedback db"

lemma delivery_verified:
  assumes g: "workflow_good L db" and st: "standing q t db" and q: "q = order_payload (take 12 u) TENANT n"
    and act: "action_get_by_decision (dt_decision_id t) db = Some x" "carried_out t x"
    and none: "tb_outcomes db = []"
  shows "\<exists>y db' os'. verify_decision L True wall (dt_decision_id t) (Some (delivered (take 12 u) m)) None
      \<lparr>w_db = db, w_ops = os\<rparr> = (Inr (workflow_state_of t None (Some x) (Some y)), \<lparr>w_db = db', w_ops = os'\<rparr>) \<and>
    ov_status y = VS_VERIFIED \<and> ov_on_time_delivery_observed y = Some True \<and> outcome_kept t db db'"
proof -
  let ?w = "\<lparr>w_db = db, w_ops = os\<rparr>" and ?obs = "Some (delivered (take 12 u) m)"
  have cg: "controls_good db" using g by (simp add: workflow_good_def)
  have rec: "recoverable q t" "sql_get (dt_decision_id t) db = Some t" "get_request_payload (dt_event_id t) db = Some q"
    "valid_evaluation_request q" using st by (simp_all add: standing_def)
  have c: "er_order q = probe_order (take 12 u) TENANT n" using q by (simp add: order_payload_def)
  have a: "executable (cmd_action (ae_command x))" "cmd_action (ae_command x) = REROUTE \<longrightarrow> oc_alternative_location_id (er_order q) \<noteq> None"
    "ae_status x \<in> {AC_SUCCEEDED, AC_VERIFIED}"
    using act(2) rec(1) by (auto simp: carried_out_def recoverable_def can_carry_def executable_def split: option.splits)
  obtain os1 where o1: "observe (er_order q) ?obs ?w = (Inr (), ?w\<lparr>w_ops := os1\<rparr>)"
    "sb_delivery_outcomes os1 (''order-e2e-'' @ take 12 u) = Some True"
    using delivery_recorded [of u n m ?w] unfolding c by blast
  obtain os2 where o2: "hydrate_from_durable_action (er_order q) x os1 = (Inr (), os2)"
    "sb_delivery_outcomes os2 = sb_delivery_outcomes os1" using hydrate_app by blast
  have "postcondition (er_order q) (cmd_action (ae_command x)) os2"
    by (rule hydrate_postcondition [OF o2(1) a(3,1,2)])
  then obtain y where y: "assess_outcome L t x (er_order q) ?obs (wall 0) os2 = Inr y" "ov_status y = VS_VERIFIED"
    "ov_on_time_delivery_observed y = Some True" "ov_decision_id y = dt_decision_id t"
    using recovery_assessed [OF rec(1) act(2), of os2 L ?obs "wall 0"] o1(2) o2(2) c by auto
  let ?row = "\<lparr>ocr_outcome = y, ocr_fingerprint = outcome_fingerprint L y\<rparr>"
  let ?db1 = "db\<lparr>tb_outcomes := tb_outcomes db @ [?row]\<rparr>"
  have new: "session (outcome_record L y) db = (Inr y, ?db1)"
    using none by (simp add: session_def outcome_record_def Let_def row_insert_def row_get_def outcome_fingerprint_def)
  have cg1: "controls_good ?db1" using cg by (simp add: controls_good_def)
  obtain p db' where noted: "record_outcome (wall 1) y (cmd_action (ae_command x)) ?db1 = (Inr p, db')"
    using note_outcome_app [OF cg1 a(1)] by blast
  note same = record_outcome_tables [OF cg1 noted]
  have run: "verify_outcome L True wall t x (er_order q) ?obs None ?w = (Inr y, \<lparr>w_db = db', w_ops = os2\<rparr>)"
    using o1(1) o2(1) y(1) new noted by (simp add: verify_outcome_def bind_app on_ops_app on_db_app now_or_def)
  then have "verify_decision L True wall (dt_decision_id t) ?obs None ?w =
      (Inr (workflow_state_of t None (Some x) (Some y)), \<lparr>w_db = db', w_ops = os2\<rparr>)"
    using rec act(1) by (simp add: verify_decision_def bind_app workflow_decision_def gateway_get_by_decision_def on_db_app
        workflow_request_def checked_app)
  moreover have "outcome_row_of (dt_decision_id t) db' = Some ?row"
    using same none y(4) by (simp add: outcome_row_of_def)
  then have "\<exists>z. outcome_get_by_decision (dt_decision_id t) db' = Some z \<and> ov_status z = VS_VERIFIED"
    using y(2) by (simp add: outcome_get_by_decision_row outcome_to_model_def)
  moreover have "tb_feedback db' = tb_feedback db"
    using keepsD [OF feedback_verified run] by (simp add: same_feedback_def)
  ultimately show ?thesis using y(2,3) same by (auto simp: outcome_kept_def)
qed


lemma switched:
  assumes "controls_good db"
  shows "\<exists>k db' r. set_kill_switch env now \<lparr>ku_active = b, ku_actor_id = ''operations-manager-ui'',
      ku_actor_role = OPERATIONS_MANAGER, ku_reason = reason\<rparr> db = (Inr k, db') \<and>
    ks_active k = b \<and> row_get rcr_control_key kill_switch_key (tb_controls db') = Some r \<and> rcr_enabled r = b \<and>
    db' = db\<lparr>tb_controls := tb_controls db'\<rparr>"
proof -
  obtain r where r: "row_get rcr_control_key kill_switch_key (tb_controls db) = Some r"
    using assms by (auto simp: controls_good_def)
  have "bind_claimed_role env ''operations-manager-ui'' OPERATIONS_MANAGER None = Inr OPERATIONS_MANAGER"
    by (simp add: bind_claimed_role_Inr LOCAL_IDENTITY_DIRECTORY_def)
  moreover have "rcr_control_key r = kill_switch_key" using row_get_SomeD [OF r] by simp
  ultimately show ?thesis using r by (simp add: set_kill_switch_app [OF assms r] row_get_put)
qed

lemma feedback_accepted:
  assumes "sql_get k db = Some t" and "tb_feedback db = []"
  shows "\<exists>f db'. feedback_service_record L fmt env now k \<lparr>fi_actor_id = ''operations-analyst-ui'',
      fi_actor_role = OPERATIONS_ANALYST, fi_useful = True, fi_expected_outcome_matched = None, fi_comment = comment\<rparr> db =
      (Inr f, db') \<and> db' = db\<lparr>tb_feedback := tb_feedback db'\<rparr>"
proof -
  have "bind_claimed_role env ''operations-analyst-ui'' OPERATIONS_ANALYST None = Inr OPERATIONS_ANALYST"
    by (simp add: bind_claimed_role_Inr LOCAL_IDENTITY_DIRECTORY_def)
  then show ?thesis
    using assms
    by (simp add: feedback_service_record_def Let_def session_def feedback_record_def row_insert_def row_get_def)
qed

text \<open>An approval under the active switch raises, and leaves all but the approvals as they were.\<close>

lemma approval_blocked:
  fixes reason :: string
  defines "inp \<equiv> \<lparr>ad_actor_id = ''operations-manager-ui'', ad_actor_role = OPERATIONS_MANAGER, ad_reason = reason\<rparr>"
  assumes g: "workflow_good L db" and len: "\<forall>x. 5 \<le> length (sha256_hex L x)"
    and active: "row_get rcr_control_key kill_switch_key (tb_controls db) = Some r" "rcr_enabled r"
    and st: "standing q t db"
    and row: "row_get apr_approval_id k (tb_approvals db) = Some (pending_row L t ''operations-analyst-ui'' t0)"
    and soon: "instant (wall 0) \<le> instant t0 + default_ttl"
  shows "\<exists>db'. approve_and_execute L env True sandbox_port wall k inp None \<lparr>w_db = db, w_ops = os\<rparr> =
      (Inl (err ActionExecutionError ''global action kill switch is active''),
       \<lparr>w_db = db', w_ops = os\<rparr>) \<and> db' = db\<lparr>tb_approvals := tb_approvals db'\<rparr>"
proof -
  have ag: "approvals_good db" and cg: "controls_good db" and dg: "decisions_good L db"
    using g by (simp_all add: workflow_good_def)
  obtain rec arow where ap: "approve env k inp None (wall 0) db =
      (Inr rec, db\<lparr>tb_approvals := row_put apr_approval_id arow (tb_approvals db)\<rparr>)"
    using approve_pending_row [OF ag row soon] unfolding inp_def by blast
  let ?db1 = "db\<lparr>tb_approvals := row_put apr_approval_id arow (tb_approvals db)\<rparr>"
  have rec: "ar_status rec = AP_APPROVED" using approve_InrD [OF ag ap] by blast
  obtain s where s: "selected_option t = Inr s" "valid_recovery_option s" "sql_get (dt_decision_id t) db = Some t"
    "get_request_payload (dt_event_id t) db = Some q" "valid_evaluation_request q"
    "can_carry (er_order q) (dr_selected_action (dt_recommendation t))"
    using st unfolding standing_def recoverable_def by blast
  have "1 \<le> rcr_version r"
    using cg active(1) by (auto simp: controls_good_def list_all_iff dest: row_get_SomeD)
  then have kill: "\<exists>ks. read_kill_switch ?db1 = (Inr ks, ?db1) \<and> ks_active ks"
    using active by (simp add: read_kill_switch_def kill_switch_model_def)
  have cmd: "\<exists>c. command_for_decision L (dt_decision_id t) q who by \<lparr>w_db = ?db1, w_ops = os\<rparr> =
      (Inr c, \<lparr>w_db = ?db1, w_ops = os\<rparr>)" for who "by"
    using command_for_decision_app [of t "\<lparr>w_db = ?db1, w_ops = os\<rparr>", OF _ s(1,2) s(6) len [rule_format]] s(3)
    by (simp add: sql_get_def decision_get_def)
  have stopped: "execute_action L True sandbox_port wl c order now \<lparr>w_db = ?db1, w_ops = os\<rparr> =
      (Inl (err ActionExecutionError ''global action kill switch is active''), \<lparr>w_db = ?db1, w_ops = os\<rparr>)" for wl c order now
    using kill by (auto simp: execute_action_def Let_def bind_app on_db_app)
  have "execute_for L True sandbox_port wl (dt_decision_id t) t q who by ap now \<lparr>w_db = ?db1, w_ops = os\<rparr> =
      (Inl (err ActionExecutionError ''global action kill switch is active''), \<lparr>w_db = ?db1, w_ops = os\<rparr>)" for wl who "by" ap now
    using cmd [of who "by"] stopped by (auto simp: execute_for_def bind_app)
  then show ?thesis
    using s ap rec row
    by (auto simp: approve_and_execute_def approve_pending_def decide_and_execute_def bind_app on_db_app
        approval_service_get_def approval_get_def workflow_decision_def workflow_request_def checked_app pending_row_def
        inp_def assert_approval_authority_def)
qed


section \<open>The decision on a new order\<close>

text \<open>The identifiers that the digests can give the decisions on the orders of a suffix, and that two
  runs do not collide in them.\<close>

definition identified :: "lib \<Rightarrow> string \<Rightarrow> decision_trace \<Rightarrow> bool" where
  "identified L u t \<longleftrightarrow>
     (\<exists>(ob :: database orchestrator) n policy. dt_decision_id t = decision_id_of L ob (order_payload u TENANT (utc n)) policy)"

definition distinct_runs :: "lib \<Rightarrow> string \<Rightarrow> string \<Rightarrow> bool" where
  "distinct_runs L u v \<longleftrightarrow> u \<noteq> v \<and>
     (\<forall>t t'. identified L u t \<and> identified L v t' \<longrightarrow>
        dt_decision_id t \<noteq> dt_decision_id t' \<and> approval_id_of L t \<noteq> approval_id_of L t')"

definition room_for :: "lib \<Rightarrow> string \<Rightarrow> database \<Rightarrow> bool" where
  "room_for L u db \<longleftrightarrow>
     ''evt-e2e-'' @ u \<notin> evr_event_id ` set (tb_events db) \<and>
     (\<forall>t. identified L u t \<longrightarrow> dt_decision_id t \<notin> dcr_decision_id ` set (tb_decisions db) \<and>
        approval_id_of L t \<notin> apr_approval_id ` set (tb_approvals db))"

text \<open>The tables with one event and one decision more.\<close>

definition decided_on :: "string \<Rightarrow> datetime \<Rightarrow> decision_trace \<Rightarrow> database \<Rightarrow> database \<Rightarrow> bool" where
  "decided_on u now t db db' \<longleftrightarrow>
     (\<exists>er dr. db' = db\<lparr>tb_events := tb_events db @ [er], tb_decisions := tb_decisions db @ [dr]\<rparr> \<and>
        evr_event_id er = ''evt-e2e-'' @ u \<and> dcr_decision_id dr = dt_decision_id t \<and> dcr_trace dr = t \<and>
        dcr_tenant_id dr = TENANT) \<and>
     standing (order_payload u TENANT now) t db'"

lemma order_decided:
  fixes L :: lib and version :: string
  defines "ob \<equiv> sql_orchestrator L deterministic_score version autonomy_gateway"
  assumes g: "workflow_good L db" and room: "room_for L (take 12 u) db"
  shows "\<exists>t db'. evaluation_service L ob now (order_payload (take 12 u) TENANT (utc n)) db = (Inr t, db') \<and>
    decided_on (take 12 u) (utc n) t db db' \<and> identified L (take 12 u) t"
proof -
  let ?q = "order_payload (take 12 u) TENANT (utc n)"
  have cg: "controls_good db" using g by (simp add: workflow_good_def)
  have q: "valid_evaluation_request ?q" "order_money_fits (er_order ?q)"
    using probe_request_valid by blast+
  have id: "ev_event_id (er_event ?q) = ''evt-e2e-'' @ take 12 u" "oc_tenant_id (er_order ?q) = TENANT"
    by (simp_all add: order_payload_def probe_event_def)
  have score: "valid_risk_assessment (deterministic_score (er_order ?q))"
    using rules.score_valid q(1) by (simp add: valid_evaluation_request_def)
  have storable: "event_storable (db_dialect L) (er_event ?q)"
    using q(1) by (simp add: valid_event_storable valid_evaluation_request_def)
      (simp add: order_payload_def probe_event_def integer_error_def column_holds_def split: sql_dialect.split)
  have ident: "identified L (take 12 u) t" if "decide L ob db ?q = Inr t" for t
    using that unfolding identified_def by (rule decide_InrE) (metis build_trace_sel(1))
  have fresh: "dt_decision_id t \<notin> dcr_decision_id ` set (tb_decisions db)" if "decide L ob db ?q = Inr t" for t
    using room ident [OF that] by (simp add: room_for_def)
  have events: "\<forall>row\<in>set (tb_events db). evr_event_id row \<noteq> ev_event_id (er_event ?q)"
    using room id(1) unfolding room_for_def by (metis imageI)
  from evaluation_new [where score = deterministic_score and L = L and version = version and now = now,
      folded ob_def, OF cg q score storable events fresh]
  obtain t er dr where e: "evaluation_service L ob now ?q db =
      (Inr t, db\<lparr>tb_events := tb_events db @ [er], tb_decisions := tb_decisions db @ [dr]\<rparr>)"
    "decide L ob db ?q = Inr t" "evr_event_id er = ev_event_id (er_event ?q)" "evr_payload er = ?q"
    "dcr_decision_id dr = dt_decision_id t" "dcr_trace dr = t" "dcr_tenant_id dr = dt_tenant_id t" by blast
  let ?db = "db\<lparr>tb_events := tb_events db @ [er], tb_decisions := tb_decisions db @ [dr]\<rparr>"
  have rec: "recoverable ?q t" by (rule probe_decided [OF e(2)]) (simp add: ob_def sql_orchestrator_def)
  have "row_get dcr_decision_id (dt_decision_id t) (tb_decisions db) = None"
    using fresh [OF e(2)] by (auto simp: row_get_None)
  then have got: "sql_get (dt_decision_id t) ?db = Some t"
    using e(5,6) by (simp add: sql_get_def decision_get_def row_get_def find_snoc)
  have "filter (\<lambda>r. evr_event_id r = dt_event_id t) (tb_events ?db) = [er]"
    using events e(3) rec by (auto simp: recoverable_def filter_empty_conv)
  then have "get_request_payload (dt_event_id t) ?db = Some ?q"
    using e(4) by (simp add: get_request_payload_def first_desc_def sorted_desc_def)
  then have "standing ?q t ?db" using q(1) rec got by (simp add: standing_def)
  then have "decided_on (take 12 u) (utc n) t db ?db"
    unfolding decided_on_def using e(3,5,6,7) id rec by (auto simp: recoverable_def)
  then show ?thesis using e(1) ident [OF e(2)] by blast
qed

end
