(* ===== verification/Stack_Acceptance.thy ===== *)
theory Stack_Acceptance
  imports Acceptance_Steps
begin

text \<open>
  That the probe of \<^verbatim>\<open>src/scripts/local_e2e.py\<close> passes on a stack that works: on a service built on an
  empty database, with a network that delivers, a console that answers and a scorer by rules, every call
  of the run does what the probe asks of it, and the replay after a restart finds the evidence. The
  proof carries the tables from call to call by total-correctness triples.
\<close>

section \<open>Total correctness\<close>

definition achieves :: "('s \<Rightarrow> bool) \<Rightarrow> ('s, 'a) prog \<Rightarrow> ('a \<Rightarrow> 's \<Rightarrow> bool) \<Rightarrow> bool" where
  "achieves P m Q \<longleftrightarrow> (\<forall>s. P s \<longrightarrow> (\<exists>x s'. m s = (Inr x, s') \<and> Q x s'))"

lemma achievesI: "(\<And>s. P s \<Longrightarrow> \<exists>x s'. m s = (Inr x, s') \<and> Q x s') \<Longrightarrow> achieves P m Q"
  by (simp add: achieves_def)

lemma achievesD: "achieves P m Q \<Longrightarrow> P s \<Longrightarrow> \<exists>x s'. m s = (Inr x, s') \<and> Q x s'"
  by (simp add: achieves_def)

lemma achieves_bind:
  assumes "achieves P m Q" and "\<And>x. achieves (Q x) (f x) R"
  shows "achieves P (bind m f) R"
  using assms by (fastforce simp: achieves_def bind_app)

lemma achieves_ret [simp]:
  "achieves P (ret x) Q \<longleftrightarrow> (\<forall>s. P s \<longrightarrow> Q x s)"
  "achieves P (Pair (Inr x)) Q \<longleftrightarrow> (\<forall>s. P s \<longrightarrow> Q x s)"
  by (simp_all add: achieves_def)

lemma achieves_require: "ok \<Longrightarrow> achieves P (f ()) Q \<Longrightarrow> achieves P (bind (require ok message) f) Q"
  by (simp add: achieves_def require_def bind_app)

lemma achieves_weaken: "achieves P m Q \<Longrightarrow> (\<And>x s. Q x s \<Longrightarrow> R x s) \<Longrightarrow> achieves P m R"
  by (fastforce simp: achieves_def)

text \<open>What is known of an answer, and of values that only the proof knows, is a fact about the rest.\<close>

lemma achieves_given: "(\<And>y. F y \<Longrightarrow> achieves (P y) m Q) \<Longrightarrow> achieves (\<lambda>s. \<exists>y. F y \<and> P y s) m Q"
  by (auto simp: achieves_def)

lemma achieves_then:
  assumes "achieves P m (\<lambda>x s. \<exists>y. F x y \<and> S y s)" and "\<And>x y. F x y \<Longrightarrow> achieves (S y) (f x) R"
  shows "achieves P (bind m f) R"
  by (rule achieves_bind [OF assms(1)]) (rule achieves_given [OF assms(2)])

section \<open>Requests on a stack that works\<close>

definition healthy_stack :: "probe_env \<Rightarrow> bool" where
  "healthy_stack env \<longleftrightarrow>
     (let C = pe_client env; L = dp_lib (ce_deployment C)
      in (\<forall>n. ce_delivery C n = Delivered) \<and>
         sv_score (ce_services C) = deterministic_score \<and>
         (\<forall>n. \<forall>m\<in>{Suc n, Suc (Suc n)}. instant (ce_wall C m 0) \<le> instant (ce_wall C n 0) + default_ttl) \<and>
         distinguishes_decisions L \<and> (\<forall>x. 5 \<le> length (sha256_hex L x)) \<and>
         \<not> pe_metrics_lost env \<and> (\<forall>ms. \<forall>f\<in>set registry. contains_word (fm_name f) (pe_exposition env ms)) \<and>
         (\<forall>n. \<exists>status. pe_console env n = Some status \<and> 200 \<le> status \<and> status < 400))"

definition stage :: "database \<Rightarrow> sandbox \<Rightarrow> nat \<Rightarrow> nat \<Rightarrow> probe \<Rightarrow> bool" where
  "stage db os n k p \<longleftrightarrow>
     app_world (st_app (pb_site p)) = \<lparr>w_db = db, w_ops = os\<rparr> \<and> st_calls (pb_site p) = n \<and> pb_drawn p = k"

lemma counted_app:
  "counted f body (on_world m) s =
     (case m (app_world s) of
        (Inr x, w) \<Rightarrow> (Inr (body x), s\<lparr>app_world := w, app_metrics := app_metrics s @ f x\<rparr>)
      | (Inl e, w) \<Rightarrow> (Inl e, s\<lparr>app_world := w\<rparr>))"
  by (cases "m (app_world s)"; cases "fst (m (app_world s))") (simp_all add: counted_def bind_app on_world_app)

text \<open>A request that its route answers, and one that its route refuses.\<close>

lemma asked:
  fixes env :: probe_env
  defines "C \<equiv> pe_client env"
  assumes h: "healthy_stack env" and g: "workflow_good (dp_lib (ce_deployment C)) db" and v: "request_valid q"
    and route: "api_route (ce_deployment C) (ce_services C) (ce_clock C n) (ce_wall C n) q = counted f body (on_world m)"
    and run: "m \<lparr>w_db = db, w_ops = os\<rparr> = (Inr x, \<lparr>w_db = db', w_ops = os'\<rparr>)"
  shows "achieves (stage db os n k) (probe_request env q) (\<lambda>r p. r = (200, Content (body x)) \<and> stage db' os' (Suc n) k p)"
    and "workflow_good (dp_lib (ce_deployment C)) db'"
proof -
  have d: "ce_delivery C n = Delivered" using h by (simp add: healthy_stack_def C_def Let_def)
  have "api_route (ce_deployment C) (ce_services C) (ce_clock C n) (ce_wall C n) q s =
      (Inr (body x), s\<lparr>app_world := \<lparr>w_db = db', w_ops = os'\<rparr>, app_metrics := app_metrics s @ f x\<rparr>)"
    if "app_world s = \<lparr>w_db = db, w_ops = os\<rparr>" for s
    using run that by (simp add: route counted_app)
  note app = this
  show "achieves (stage db os n k) (probe_request env q) (\<lambda>r p. r = (200, Content (body x)) \<and> stage db' os' (Suc n) k p)"
    using d v app by (auto simp: achieves_def stage_def probe_request_def send_def serve_def Let_def C_def)
  have "distinguishes_decisions (dp_lib (ce_deployment C))" using h by (simp add: healthy_stack_def C_def Let_def)
  from api_route_good [OF this, of "\<lparr>app_world = \<lparr>w_db = db, w_ops = os\<rparr>, app_metrics = []\<rparr>" "ce_services C" "ce_clock C n"
      "ce_wall C n" q] app [of "\<lparr>app_world = \<lparr>w_db = db, w_ops = os\<rparr>, app_metrics = []\<rparr>"] g
  show "workflow_good (dp_lib (ce_deployment C)) db'" by simp
qed


abbreviation lib_of :: "probe_env \<Rightarrow> lib" where
  "lib_of env \<equiv> dp_lib (ce_deployment (pe_client env))"

abbreviation wall_of :: "probe_env \<Rightarrow> nat \<Rightarrow> wall" where
  "wall_of env \<equiv> ce_wall (pe_client env)"

lemma healthyD:
  assumes "healthy_stack env"
  shows "sv_score (ce_services (pe_client env)) = deterministic_score" "distinguishes_decisions (lib_of env)"
    "\<forall>x. 5 \<le> length (sha256_hex (lib_of env) x)"
    "instant (wall_of env (Suc n) 0) \<le> instant (wall_of env n 0) + default_ttl"
    "instant (wall_of env (Suc (Suc n)) 0) \<le> instant (wall_of env n 0) + default_ttl"
  using assms by (simp_all add: healthy_stack_def Let_def)

lemma achieves_answer:
  assumes "achieves P m (\<lambda>r s. r = c \<and> S s)" and "achieves S (f c) R"
  shows "achieves P (bind m f) R"
  by (rule achieves_bind [OF assms(1)]) (use assms(2) in \<open>auto simp: achieves_def\<close>)

lemma probe_steps [simp]:
  "bind (ret x) f = f x"
  "require True message = ret ()"
  "ok \<Longrightarrow> bind (require ok message) g = g ()"
  "is_dict b \<Longrightarrow> bind (expect_dict (200, b) message) g = g ()"
  "h c = Inr x \<Longrightarrow> bind (body_of h (Content c)) f = f x"
  "h c = Inr x \<Longrightarrow> body_of h (Content c) = ret x"
  by (simp_all add: fun_eq_iff bind_app require_def expect_dict_def body_of_def)

lemma dict_simps [simp]:
  "is_dict (Content (BTrace t))" "is_dict (Content (BState x))" "is_dict (Content (BKill ks))"
  "\<not> is_dict (Content (BTraces ts))"
  by (simp_all add: is_dict_def is_list_def)

lemma order_evaluated:
  assumes h: "healthy_stack env" and g: "workflow_good (lib_of env) db" and room: "room_for (lib_of env) (take 12 u) db"
  shows "achieves (stage db os n k) (evaluate_order env (take 12 u) message)
    (\<lambda>t p. \<exists>db'. ((\<exists>m. decided_on (take 12 u) (utc m) t db db') \<and> identified (lib_of env) (take 12 u) t \<and>
       workflow_good (lib_of env) db') \<and> stage db' os (Suc n) k p)"
  unfolding evaluate_order_def
proof (rule achieves_then [of _ _ "\<lambda>x m. x = utc m" "\<lambda>_. stage db os n k"])
  show "achieves (stage db os n k) utc_now (\<lambda>x s. \<exists>y. x = utc y \<and> stage db os n k s)"
    by (auto simp: achieves_def utc_now_def)
  fix now m assume "now = utc m"
  let ?q = "order_payload (take 12 u) TENANT (utc m)" and ?C = "pe_client env"
  obtain t db' where t: "evaluation_service (lib_of env) (service_orchestrator (ce_deployment ?C) (ce_services ?C))
        (ce_clock ?C n 0) ?q db = (Inr t, db')"
    "decided_on (take 12 u) (utc m) t db db'" "identified (lib_of env) (take 12 u) t"
    using order_decided [OF g room] healthyD(1) [OF h] unfolding service_orchestrator_def by metis
  have v: "request_valid (Post_Evaluate ?q)" using probe_request_valid by simp
  note a = asked [OF h g v, where m = "on_db (evaluation_service (lib_of env) (service_orchestrator (ce_deployment ?C)
      (ce_services ?C)) (ce_clock ?C n 0) ?q)" and n = n, unfolded api_route.simps evaluate_route_def on_tables_def, OF refl]
  note b = a [where os = os and os' = os and db' = db' and x = t]
  show "achieves (stage db os n k) (bind (probe_request env (Post_Evaluate (order_payload (take 12 u) TENANT now)))
     (\<lambda>r. bind (expect_dict r message) (\<lambda>_. body_of as_trace (snd r))))
     (\<lambda>t p. \<exists>db'. ((\<exists>m. decided_on (take 12 u) (utc m) t db db') \<and> identified (lib_of env) (take 12 u) t \<and>
       workflow_good (lib_of env) db') \<and> stage db' os (Suc n) k p)"
    unfolding \<open>now = utc m\<close>
    by (rule achieves_answer [OF b(1)]) (use t b(2) in \<open>auto simp: on_db_app as_trace_def\<close>)
qed


section \<open>The calls of a run\<close>

lemma decision_submitted:
  fixes env :: probe_env and n :: nat
  defines "row t \<equiv> pending_row (lib_of env) t ''operations-analyst-ui'' (wall_of env n 0)"
  assumes h: "healthy_stack env" and g: "workflow_good (lib_of env) db" and st: "standing q t db"
    and none: "approval_id_of (lib_of env) t \<notin> apr_approval_id ` set (tb_approvals db)"
  shows "achieves (stage db os n k) (submit_decision env (dt_decision_id t) message)
    (\<lambda>a p. \<exists>db'. (ar_status a = AP_PENDING \<and> ar_approval_id a = approval_id_of (lib_of env) t \<and>
       db' = db\<lparr>tb_approvals := tb_approvals db @ [row t]\<rparr> \<and> workflow_good (lib_of env) db') \<and> stage db' os (Suc n) k p)"
proof -
  let ?w = "\<lparr>w_db = db, w_ops = os\<rparr>" and ?db = "db\<lparr>tb_approvals := tb_approvals db @ [row t]\<rparr>"
  have "sql_get (dt_decision_id t) (w_db ?w) = Some t" "recoverable q t" using st by (simp_all add: standing_def)
  moreover have "row_get apr_approval_id (approval_id_of (lib_of env) t) (tb_approvals (w_db ?w)) = None"
    using none by (auto simp: row_get_None)
  ultimately obtain a where a: "submit (lib_of env) default_ttl True sandbox_port (wall_of env n) (dt_decision_id t)
      ''operations-analyst-ui'' None ?w = (Inr (workflow_state_of t (Some a) None None), \<lparr>w_db = ?db, w_ops = os\<rparr>)"
    "ar_status a = AP_PENDING" "ar_approval_id a = approval_id_of (lib_of env) t"
    using submit_new [of "dt_decision_id t" ?w t q "lib_of env"] unfolding row_def by fastforce
  have v: "request_valid (Post_Submit (dt_decision_id t) ''operations-analyst-ui'')" by (simp add: actor_text_def len_within_def)
  note c = asked [OF h g v api_route.simps(12) a(1)]
  show ?thesis
    unfolding submit_decision_def
    by (rule achieves_answer [OF c(1)]) (use a(2,3) c(2) in \<open>simp add: as_state_def workflow_state_of_def present_def\<close>)
qed

lemma decision_submitted_again:
  assumes h: "healthy_stack env" and g: "workflow_good (lib_of env) db" and st: "standing q t db"
    and row: "row_get apr_approval_id (approval_id_of (lib_of env) t) (tb_approvals db) = Some row"
  shows "achieves (stage db os n k) (submit_decision env (dt_decision_id t) message)
    (\<lambda>a p. ar_approval_id a = approval_id_of (lib_of env) t \<and> stage db os (Suc n) k p)"
proof -
  let ?w = "\<lparr>w_db = db, w_ops = os\<rparr>"
  have "sql_get (dt_decision_id t) (w_db ?w) = Some t" "recoverable q t" using st by (simp_all add: standing_def)
  from submit_again [OF this, of "lib_of env" row] row
  have a: "submit (lib_of env) default_ttl True sandbox_port (wall_of env n) (dt_decision_id t)
      ''operations-analyst-ui'' None ?w = (Inr (workflow_state_of t (Some (approval_to_model row)) None None), ?w)" by simp
  have v: "request_valid (Post_Submit (dt_decision_id t) ''operations-analyst-ui'')" by (simp add: actor_text_def len_within_def)
  have "apr_approval_id row = approval_id_of (lib_of env) t" using row_get_SomeD [OF row] by simp
  then show ?thesis
    unfolding submit_decision_def
    by (intro achieves_answer [OF asked(1) [OF h g v api_route.simps(12) a]])
      (simp add: as_state_def workflow_state_of_def present_def)
qed


lemma approval_carried_out:
  assumes h: "healthy_stack env" and g: "workflow_good (lib_of env) db" and st: "standing q t db"
    and off: "row_get rcr_control_key kill_switch_key (tb_controls db) = Some r" "\<not> rcr_enabled r"
    and none: "tb_actions db = []"
    and row: "row_get apr_approval_id a (tb_approvals db) = Some (pending_row (lib_of env) t ''operations-analyst-ui'' t0)"
    and soon: "instant (wall_of env n 0) \<le> instant t0 + default_ttl"
  shows "achieves (stage db empty_sandbox n k) (approved env a)
    (\<lambda>x p. \<exists>d. (ae_status x = AC_SUCCEEDED \<and> executed t db (fst d) \<and> workflow_good (lib_of env) (fst d)) \<and>
       stage (fst d) (snd d) (Suc n) k p)"
proof -
  let ?env = "dp_env (ce_deployment (pe_client env))" and ?reason = "''Local stack end-to-end validation''"
  obtain rec x db' os where x: "approve_and_execute (lib_of env) ?env True sandbox_port (wall_of env n) a
      \<lparr>ad_actor_id = ''operations-manager-ui'', ad_actor_role = OPERATIONS_MANAGER, ad_reason = ?reason\<rparr> None
      \<lparr>w_db = db, w_ops = empty_sandbox\<rparr> =
      (Inr (workflow_state_of t (Some rec) (Some x) None), \<lparr>w_db = db', w_ops = os\<rparr>)" "ae_status x = AC_SUCCEEDED"
    "executed t db db'"
    using approval_executes [OF g healthyD(2,3) [OF h] off st none row, where wall = "wall_of env n" and env = ?env
        and reason = ?reason, OF soon] by (elim exE conjE) (rule that)
  have v: "request_valid (Post_Approve a \<lparr>ad_actor_id = ''operations-manager-ui'', ad_actor_role = OPERATIONS_MANAGER,
      ad_reason = ?reason\<rparr>)" by (simp add: actor_text_def len_within_def)
  note c = asked [OF h g v api_route.simps(14) x(1)]
  show ?thesis
    unfolding approved_def approve_as_manager_def
    by (intro achieves_answer [OF c(1)])
      (use x(2,3) c(2) in \<open>auto simp: as_state_def workflow_state_of_def present_def intro!: exI [of _ "(db', os)"]\<close>)
qed


lemma outcome_verified:
  assumes h: "healthy_stack env" and g: "workflow_good (lib_of env) db"
    and st: "standing (order_payload (take 12 u) TENANT i) t db"
    and act: "action_get_by_decision (dt_decision_id t) db = Some x" "carried_out t x" and none: "tb_outcomes db = []"
  shows "achieves (stage db os n k) (verified env (take 12 u) (dt_decision_id t))
    (\<lambda>y p. \<exists>d. (ov_status y = VS_VERIFIED \<and> outcome_kept t db (fst d) \<and> workflow_good (lib_of env) (fst d)) \<and>
       stage (fst d) (snd d) (Suc n) k p)"
  unfolding verified_def
proof (rule achieves_then [of _ _ "\<lambda>x m. x = utc m" "\<lambda>_. stage db os n k"])
  show "achieves (stage db os n k) utc_now (\<lambda>x s. \<exists>y. x = utc y \<and> stage db os n k s)"
    by (auto simp: achieves_def utc_now_def)
  fix now m assume "now = utc m"
  let ?seen = "delivered (take 12 u) (plus_us now (hours_us 24))"
  obtain y db' os' where y: "verify_decision (lib_of env) True (wall_of env n) (dt_decision_id t) (Some ?seen) None
      \<lparr>w_db = db, w_ops = os\<rparr> = (Inr (workflow_state_of t None (Some x) (Some y)), \<lparr>w_db = db', w_ops = os'\<rparr>)"
    "ov_status y = VS_VERIFIED" "ov_on_time_delivery_observed y = Some True" "outcome_kept t db db'"
    using delivery_verified [OF g st refl act none, where wall = "wall_of env n" and os = os and m = "plus_us now (hours_us 24)"]
    by (elim exE conjE) (rule that)
  have v: "request_valid (Post_Verify (dt_decision_id t) ?seen)"
    by (simp add: valid_delivery_observation_def delivered_def len_within_def valid_source_reference_def tz_aware_def
        \<open>now = utc m\<close> plus_us_def min_le_iff_disj)
  note c = asked [OF h g v api_route.simps(20) y(1)]
  show "achieves (stage db os n k) (bind (probe_request env (Post_Verify (dt_decision_id t) ?seen)) (\<lambda>r.
      bind (expect_dict r ''verify failed'') (\<lambda>_.
      bind (body_of (\<lambda>b. bind_res (as_state b) (\<lambda>s. present (ws_outcome s))) (snd r)) (\<lambda>outcome.
      bind (require (ov_status outcome = VS_VERIFIED) ''outcome was not independently verified'') (\<lambda>_.
      bind (require (ov_estimated_incremental_value outcome \<noteq> 0 \<or> ov_on_time_delivery_observed outcome = Some True)
         ''value evidence missing from outcome'') (\<lambda>_. ret outcome))))))
    (\<lambda>y p. \<exists>d. (ov_status y = VS_VERIFIED \<and> outcome_kept t db (fst d) \<and> workflow_good (lib_of env) (fst d)) \<and>
       stage (fst d) (snd d) (Suc n) k p)"
    by (rule achieves_answer [OF c(1)])
      (use y(2-4) c(2) in \<open>auto simp: as_state_def workflow_state_of_def present_def intro!: exI [of _ "(db', os')"]\<close>)
qed

lemma review_recorded:
  assumes h: "healthy_stack env" and g: "workflow_good (lib_of env) db" and st: "sql_get d db = Some t"
    and none: "tb_feedback db = []"
  shows "achieves (stage db os n k) (reviewed env d)
    (\<lambda>_ p. \<exists>db'. ((\<exists>rows. db' = db\<lparr>tb_feedback := rows\<rparr>) \<and> workflow_good (lib_of env) db') \<and> stage db' os (Suc n) k p)"
proof -
  let ?D = "ce_deployment (pe_client env)"
  let ?inp = "\<lparr>fi_actor_id = ''operations-analyst-ui'', fi_actor_role = OPERATIONS_ANALYST, fi_useful = True,
        fi_expected_outcome_matched = None,
        fi_comment = ''Local E2E operator review of the governed recovery.''\<rparr>"
  let ?m = "feedback_service_record (lib_of env) (dp_isoformat ?D) (dp_env ?D) (ce_clock (pe_client env) n 0) d ?inp"
  obtain f db' where m: "?m db = (Inr f, db')" and f2: "db' = db\<lparr>tb_feedback := tb_feedback db'\<rparr>"
    using feedback_accepted [OF st none, of "lib_of env" "dp_isoformat ?D" "dp_env ?D" "ce_clock (pe_client env) n 0"
        "''Local E2E operator review of the governed recovery.''"] by (elim exE conjE) (rule that)
  have f: "on_db ?m \<lparr>w_db = db, w_ops = os\<rparr> = (Inr f, \<lparr>w_db = db', w_ops = os\<rparr>)" by (simp add: on_db_app m)
  have v: "request_valid (Post_Feedback d ?inp)" by (simp add: actor_text_def len_within_def)
  note c = asked [OF h g v api_route.simps(16) [unfolded on_tables_def] f]
  show ?thesis
    unfolding reviewed_def
    by (rule achieves_answer [OF c(1)]) (use f2 c(2) in \<open>auto simp: require_def\<close>)
qed


lemma switch_set:
  assumes h: "healthy_stack env" and g: "workflow_good (lib_of env) db" and v: "len_within 3 500 reason"
  shows "achieves (stage db os n k) (switch env b reason message)
    (\<lambda>_ p. \<exists>db'. ((\<exists>r. row_get rcr_control_key kill_switch_key (tb_controls db') = Some r \<and> rcr_enabled r = b) \<and>
       (\<exists>rows. db' = db\<lparr>tb_controls := rows\<rparr>) \<and> workflow_good (lib_of env) db') \<and> stage db' os (Suc n) k p)"
proof -
  let ?u = "\<lparr>ku_active = b, ku_actor_id = ''operations-manager-ui'', ku_actor_role = OPERATIONS_MANAGER, ku_reason = reason\<rparr>"
  let ?m = "set_kill_switch (dp_env (ce_deployment (pe_client env))) (ce_clock (pe_client env) n 0) ?u"
  have cg: "controls_good db" using g by (simp add: workflow_good_def)
  obtain ks db' r where m: "?m db = (Inr ks, db')" and r: "ks_active ks = b"
    "row_get rcr_control_key kill_switch_key (tb_controls db') = Some r" "rcr_enabled r = b"
    "db' = db\<lparr>tb_controls := tb_controls db'\<rparr>"
    using switched [OF cg, of "dp_env (ce_deployment (pe_client env))" "ce_clock (pe_client env) n 0" b reason]
    by (elim exE conjE) (rule that)
  have f: "on_db ?m \<lparr>w_db = db, w_ops = os\<rparr> = (Inr ks, \<lparr>w_db = db', w_ops = os\<rparr>)" by (simp add: on_db_app m)
  have v: "request_valid (Post_Kill_Switch ?u)" using v by (simp add: actor_text_def len_within_def)
  note c = asked [OF h g v api_route.simps(4) [unfolded on_tables_def] f]
  show ?thesis
    unfolding switch_def
    by (rule achieves_answer [OF c(1)]) (use r c(2) in \<open>auto simp: as_kill_def intro!: exI [of _ db']\<close>)
qed

lemma approval_refused:
  assumes h: "healthy_stack env" and g: "workflow_good (lib_of env) db" and st: "standing q t db"
    and active: "row_get rcr_control_key kill_switch_key (tb_controls db) = Some r" "rcr_enabled r"
    and row: "row_get apr_approval_id a (tb_approvals db) = Some (pending_row (lib_of env) t ''operations-analyst-ui'' t0)"
    and soon: "instant (wall_of env n 0) \<le> instant t0 + default_ttl" and v: "len_within 3 500 reason"
  shows "achieves (stage db os n k) (approve_as_manager env a reason)
    (\<lambda>r p. \<exists>db'. (fst r = 409 \<and> (\<exists>rows. db' = db\<lparr>tb_approvals := rows\<rparr>) \<and> workflow_good (lib_of env) db') \<and>
       stage db' os (Suc n) k p)"
proof -
  let ?C = "pe_client env" and ?e = "err ActionExecutionError ''global action kill switch is active''"
  let ?i = "\<lparr>ad_actor_id = ''operations-manager-ui'', ad_actor_role = OPERATIONS_MANAGER, ad_reason = reason\<rparr>"
  obtain db' where run: "approve_and_execute (lib_of env) (dp_env (ce_deployment ?C)) True sandbox_port (wall_of env n) a ?i None
      \<lparr>w_db = db, w_ops = os\<rparr> = (Inl ?e, \<lparr>w_db = db', w_ops = os\<rparr>)" and db': "db' = db\<lparr>tb_approvals := tb_approvals db'\<rparr>"
    using approval_blocked [OF g healthyD(3) [OF h] active st row, where wall = "wall_of env n" and reason = reason
        and env = "dp_env (ce_deployment ?C)" and os = os, OF soon] by (elim exE conjE) (rule that)
  have good: "workflow_good (lib_of env) db'"
    using workflow_good_approve [OF _ healthyD(2) [OF h] run] g by simp
  have d: "ce_delivery ?C n = Delivered" using h by (simp add: healthy_stack_def Let_def)
  have v: "request_valid (Post_Approve a ?i)" using v by (simp add: actor_text_def len_within_def)
  have "hr_status (error_response x ?e) = 409" for x by (simp add: error_response_def handler_for_def)
  then have "achieves (stage db os n k) (probe_request env (Post_Approve a ?i))
      (\<lambda>r p. fst r = 409 \<and> stage db' os (Suc n) k p)"
    using d v run by (auto simp: achieves_def stage_def probe_request_def send_def serve_def Let_def counted_app)
  then show ?thesis
    unfolding approve_as_manager_def using good db' by (fastforce simp: achieves_def)
qed

lemma metrics_seen:
  assumes "healthy_stack env"
  shows "achieves P (metrics_exposed env) (\<lambda>_. P)"
proof -
  have "\<forall>ms. \<forall>f\<in>set registry. contains_word (fm_name f) (pe_exposition env ms)" "\<not> pe_metrics_lost env"
    using assms by (simp_all add: healthy_stack_def Let_def)
  then have "contains_word ''promiseguard_decisions_total'' (pe_exposition env ms)"
    "contains_word ''promiseguard_actions_total'' (pe_exposition env ms)" for ms
    by (force simp: registry_def family_defs)+
  then show ?thesis
    using \<open>\<not> pe_metrics_lost env\<close> by (simp add: metrics_exposed_def achieves_def bind_app require_def)
qed

lemma console_found:
  assumes "healthy_stack env" and "0 < wait_seconds"
  shows "achieves (stage db os n k) (wait_for_console env wait_seconds) (\<lambda>_. stage db os n k)"
proof -
  have up: "\<exists>status. pe_console env i = Some status \<and> 200 \<le> status \<and> status < 400" for i
    using assms(1) by (simp add: healthy_stack_def Let_def)
  have "console_reachable env p = (Inr True, p\<lparr>pb_looks := Suc (pb_looks p), pb_now := pb_now p + pe_look_took env (pb_looks p)\<rparr>)" for p
    using up [of "pb_looks p"] by (auto simp: console_reachable_def bind_app look_def)
  then show ?thesis
    using assms(2) by (simp add: achieves_def wait_for_console_def wait_until_reachable.simps stage_def)
qed

lemma api_found:
  assumes h: "healthy_stack env" and g: "workflow_good (lib_of env) db" and "0 < wait_seconds"
  shows "achieves (stage db os n k) (wait_for_api env wait_seconds) (\<lambda>_. stage db os (Suc n) k)"
proof -
  have "controls_good db" using g by (simp add: workflow_good_def)
  then obtain r where "row_get rcr_control_key kill_switch_key (tb_controls db) = Some r" "1 \<le> rcr_version r"
    by (rule controls_good_kill_switch)
  then obtain ks where "read_kill_switch db = (Inr ks, db)" by (simp add: read_kill_switch_def kill_switch_model_def)
  then have f: "on_db read_kill_switch \<lparr>w_db = db, w_ops = os\<rparr> = (Inr ks, \<lparr>w_db = db, w_ops = os\<rparr>)" by (simp add: on_db_app)
  have v: "request_valid Get_Ready" by simp
  note c = asked(1) [OF h g v api_route.simps(2) [unfolded on_tables_def] f]
  have "ready_answer (200, Content (BStatus (readiness V e ks)))" for V e
    by (simp add: ready_answer_def status_field_def readiness_def)
  then show ?thesis
    using assms(3) achievesD [OF c]
    by (force simp: achieves_def wait_for_api_def wait_until_ready.simps)
qed


section \<open>The run\<close>

text \<open>What the tables show of the recovered order.\<close>

definition evidenced :: "decision_trace \<Rightarrow> database \<Rightarrow> bool" where
  "evidenced t db \<longleftrightarrow>
     sql_get (dt_decision_id t) db = Some t \<and>
     (\<exists>x. action_get_by_decision (dt_decision_id t) db = Some x \<and> ae_status x = AC_SUCCEEDED) \<and>
     (\<exists>y. outcome_get_by_decision (dt_decision_id t) db = Some y \<and> ov_status y = VS_VERIFIED) \<and>
     acr_decision_id ` set (tb_actions db) = {dt_decision_id t}"

text \<open>The tables hold one order, of the suffix, and its decision and approval.\<close>

definition one_order :: "lib \<Rightarrow> string \<Rightarrow> decision_trace \<Rightarrow> database \<Rightarrow> bool" where
  "one_order L u t db \<longleftrightarrow>
     identified L u t \<and> map evr_event_id (tb_events db) = [''evt-e2e-'' @ u] \<and>
     map dcr_decision_id (tb_decisions db) = [dt_decision_id t] \<and>
     map apr_approval_id (tb_approvals db) = [approval_id_of L t]"

lemma room_beside:
  assumes "one_order L u t db" and "distinct_runs L u v"
  shows "room_for L v db"
proof -
  have "set (map evr_event_id (tb_events db)) = {''evt-e2e-'' @ u}" "set (map dcr_decision_id (tb_decisions db)) = {dt_decision_id t}"
    "set (map apr_approval_id (tb_approvals db)) = {approval_id_of L t}"
    using assms(1) unfolding one_order_def by simp_all
  then have "evr_event_id ` set (tb_events db) = {''evt-e2e-'' @ u}" "dcr_decision_id ` set (tb_decisions db) = {dt_decision_id t}"
    "apr_approval_id ` set (tb_approvals db) = {approval_id_of L t}" by simp_all
  then show ?thesis using assms by (simp add: room_for_def distinct_runs_def one_order_def) metis
qed

lemma standing_cong:
  "tb_decisions db' = tb_decisions db \<Longrightarrow> tb_events db' = tb_events db \<Longrightarrow> standing q t db' = standing q t db"
  by (simp add: standing_def sql_get_def decision_get_def get_request_payload_def)

lemma sql_get_grown:
  assumes "sql_get k db = Some t" and "tb_decisions db' = tb_decisions db @ [dr]"
  shows "sql_get k db' = Some t"
proof -
  have "row_get dcr_decision_id k (rows @ [dr]) = Some x" if "row_get dcr_decision_id k rows = Some x" for rows x
    using that by (induction rows) (auto simp: row_get_def split: if_splits)
  then show ?thesis using assms by (auto simp: sql_get_def decision_get_def)
qed

lemma evidenced_grown:
  assumes "evidenced t db" and "tb_decisions db' = tb_decisions db \<or> (\<exists>dr. tb_decisions db' = tb_decisions db @ [dr])"
    and "tb_actions db' = tb_actions db" "tb_outcomes db' = tb_outcomes db"
  shows "evidenced t db'"
proof -
  have "sql_get (dt_decision_id t) db' = Some t"
    using assms(1,2) sql_get_grown sql_get_cong unfolding evidenced_def by metis
  then show ?thesis
    using assms by (simp add: evidenced_def action_get_by_decision_def outcome_get_by_decision_def)
qed

definition fresh_tables :: "lib \<Rightarrow> database \<Rightarrow> bool" where
  "fresh_tables L db \<longleftrightarrow>
     workflow_good L db \<and> tb_events db = [] \<and> tb_decisions db = [] \<and> tb_approvals db = [] \<and> tb_actions db = [] \<and>
     tb_outcomes db = [] \<and> tb_feedback db = [] \<and>
     (\<exists>r. row_get rcr_control_key kill_switch_key (tb_controls db) = Some r \<and> \<not> rcr_enabled r)"

lemma order_listed:
  assumes h: "healthy_stack env" and fresh: "fresh_tables (lib_of env) db"
  shows "achieves (stage db os n k) (evaluated env (take 12 u))
    (\<lambda>t p. \<exists>db'. ((\<exists>m. decided_on (take 12 u) (utc m) t db db') \<and> identified (lib_of env) (take 12 u) t \<and>
       workflow_good (lib_of env) db') \<and> stage db' os (Suc (Suc n)) k p)"
  unfolding evaluated_def
proof (rule achieves_then [OF order_evaluated [OF h]])
  show "workflow_good (lib_of env) db" using fresh by (simp add: fresh_tables_def)
  show "room_for (lib_of env) (take 12 u) db" using fresh by (simp add: fresh_tables_def room_for_def)
  fix t db'
  assume F: "(\<exists>m. decided_on (take 12 u) (utc m) t db db') \<and> identified (lib_of env) (take 12 u) t \<and> workflow_good (lib_of env) db'"
  then obtain m dr where m: "decided_on (take 12 u) (utc m) t db db'"
    "tb_decisions db' = [dr]" "dcr_trace dr = t" "dcr_tenant_id dr = TENANT"
    using fresh by (auto simp: decided_on_def fresh_tables_def)
  then have sel: "dr_selected_action (dt_recommendation t) \<in> {REROUTE, CARRIER_UPGRADE, SPLIT_SHIPMENT}"
    by (auto simp: decided_on_def standing_def recoverable_def)
  have list: "sql_list_recent 20 (Some TENANT) db' = [t]"
    using m by (simp add: sql_list_recent_def decision_list_recent_def sorted_desc_def)
  let ?m = "\<lambda>db. (Inr (sql_list_recent 20 (Some TENANT) db), db)"
  have f: "on_db ?m \<lparr>w_db = db', w_ops = os\<rparr> = (Inr [t], \<lparr>w_db = db', w_ops = os\<rparr>)" by (simp add: on_db_app list)
  have route: "api_route D V c w (Get_Decisions 20 (Some TENANT) None) = counted (\<lambda>_. []) BTraces (on_world (on_db ?m))" for D V c w
    by (simp add: list_decisions_route_def TENANT_def on_tables_def)
  note c = asked [OF h _ _ route f]
  show "achieves (stage db' os (Suc n) k)
     (bind (require (dr_selected_action (dt_recommendation t) \<in> {REROUTE, CARRIER_UPGRADE, SPLIT_SHIPMENT})
        ''expected an executable action'') (\<lambda>_.
      bind (probe_request env (Get_Decisions 20 (Some TENANT) None)) (\<lambda>r.
      bind (require (fst r = 200 \<and> is_list (snd r)) ''decision list failed'') (\<lambda>_.
      bind (body_of as_traces (snd r)) (\<lambda>listed.
      bind (require (list_ex (\<lambda>x. dt_decision_id x = dt_decision_id t) listed) ''decision not persisted'') (\<lambda>_.
      ret t))))))
     (\<lambda>t p. \<exists>db'. ((\<exists>m. decided_on (take 12 u) (utc m) t db db') \<and> identified (lib_of env) (take 12 u) t \<and>
       workflow_good (lib_of env) db') \<and> stage db' os (Suc (Suc n)) k p)"
    unfolding probe_steps(3) [OF sel]
    by (rule achieves_answer [OF c(1)]) (use F in \<open>auto simp: is_list_def as_traces_def\<close>)
qed


lemma approval_requested:
  fixes env :: probe_env and n :: nat
  defines "row t \<equiv> pending_row (lib_of env) t ''operations-analyst-ui'' (wall_of env n 0)"
  assumes h: "healthy_stack env" and g: "workflow_good (lib_of env) db" and st: "standing q t db"
    and none: "tb_approvals db = []"
  shows "achieves (stage db os n k) (submitted env (dt_decision_id t))
    (\<lambda>a p. \<exists>db'. (ar_approval_id a = approval_id_of (lib_of env) t \<and> db' = db\<lparr>tb_approvals := [row t]\<rparr> \<and>
       workflow_good (lib_of env) db') \<and> stage db' os (Suc (Suc n)) k p)"
  unfolding submitted_def
proof (rule achieves_then [OF decision_submitted [OF h g st]])
  show "approval_id_of (lib_of env) t \<notin> apr_approval_id ` set (tb_approvals db)" using none by simp
  fix a :: approval_record and db'
  assume F: "ar_status a = AP_PENDING \<and> ar_approval_id a = approval_id_of (lib_of env) t \<and>
    db' = db\<lparr>tb_approvals := tb_approvals db @ [pending_row (lib_of env) t ''operations-analyst-ui'' (wall_of env n 0)]\<rparr> \<and>
    workflow_good (lib_of env) db'"
  then have db': "db' = db\<lparr>tb_approvals := [row t]\<rparr>" using none by (simp add: row_def)
  have g': "workflow_good (lib_of env) db'" using F by blast
  have st': "standing q t db'" using st db' standing_cong [of db' db q t] by simp
  have got: "row_get apr_approval_id (approval_id_of (lib_of env) t) (tb_approvals db') = Some (row t)"
    using db' by (simp add: row_get_def row_def pending_row_def)
  show "achieves (stage db' os (Suc n) k)
      (bind (require (ar_status a = AP_PENDING) ''approval was not pending'') (\<lambda>_.
       bind (submit_decision env (dt_decision_id t) ''idempotent submit failed'') (\<lambda>again.
       bind (require (ar_approval_id again = ar_approval_id a) ''submit was not idempotent'') (\<lambda>_. ret a))))
      (\<lambda>a p. \<exists>db'. (ar_approval_id a = approval_id_of (lib_of env) t \<and> db' = db\<lparr>tb_approvals := [row t]\<rparr> \<and>
       workflow_good (lib_of env) db') \<and> stage db' os (Suc (Suc n)) k p)"
    unfolding probe_steps(3) [OF F [THEN conjunct1]]
    by (rule achieves_bind [OF decision_submitted_again [OF h g' st' got]])
      (use F db' g' in \<open>auto simp: achieves_def require_def bind_app\<close>)
qed


text \<open>The second order of a run is decided and submitted, and its approval is refused.\<close>

lemma second_refused:
  assumes h: "healthy_stack env" and g: "workflow_good (lib_of env) db" and st: "standing q t db"
    and none: "approval_id_of (lib_of env) t \<notin> apr_approval_id ` set (tb_approvals db)"
    and active: "row_get rcr_control_key kill_switch_key (tb_controls db) = Some r" "rcr_enabled r"
  shows "achieves (stage db os n k)
    (bind (submit_decision env (dt_decision_id t) ''blocked submit failed'') (\<lambda>blocked_approval.
     bind (approve_as_manager env (ar_approval_id blocked_approval) ''Should be blocked by kill switch'') (\<lambda>r.
     bind (require (fst r = 409) ''kill switch did not block execution'') (\<lambda>_.
     switch env False ''Restore after E2E kill-switch probe'' ''kill switch off failed''))))
    (\<lambda>_ p. \<exists>db'. ((\<exists>r. row_get rcr_control_key kill_switch_key (tb_controls db') = Some r \<and> \<not> rcr_enabled r) \<and>
       tb_decisions db' = tb_decisions db \<and> tb_actions db' = tb_actions db \<and> tb_outcomes db' = tb_outcomes db \<and>
       workflow_good (lib_of env) db') \<and> stage db' os (Suc (Suc (Suc n))) k p)"
proof (rule achieves_then [OF decision_submitted [OF h g st none]])
  fix a :: approval_record and db1
  let ?row = "pending_row (lib_of env) t ''operations-analyst-ui'' (wall_of env n 0)"
  assume F: "ar_status a = AP_PENDING \<and> ar_approval_id a = approval_id_of (lib_of env) t \<and>
    db1 = db\<lparr>tb_approvals := tb_approvals db @ [?row]\<rparr> \<and> workflow_good (lib_of env) db1"
  then have db1: "db1 = db\<lparr>tb_approvals := tb_approvals db @ [?row]\<rparr>" and g1: "workflow_good (lib_of env) db1" by blast+
  have st1: "standing q t db1" using st db1 standing_cong [of db1 db q t] by simp
  have ag: "approvals_good db1" using g1 by (simp add: workflow_good_def)
  have "?row \<in> set (tb_approvals db1)" using db1 by simp
  then have row: "row_get apr_approval_id (ar_approval_id a) (tb_approvals db1) = Some ?row"
    using row_get_in [of apr_approval_id "tb_approvals db1" ?row] ag F by (simp add: approvals_good_def pending_row_def)
  have on: "row_get rcr_control_key kill_switch_key (tb_controls db1) = Some r" using active(1) db1 by simp
  have long: "len_within 3 500 ''Should be blocked by kill switch''"
    "len_within 3 500 ''Restore after E2E kill-switch probe''" by (simp_all add: len_within_def)
  show "achieves (stage db1 os (Suc n) k)
    (bind (approve_as_manager env (ar_approval_id a) ''Should be blocked by kill switch'') (\<lambda>r.
     bind (require (fst r = 409) ''kill switch did not block execution'') (\<lambda>_.
     switch env False ''Restore after E2E kill-switch probe'' ''kill switch off failed'')))
    (\<lambda>_ p. \<exists>db'. ((\<exists>r. row_get rcr_control_key kill_switch_key (tb_controls db') = Some r \<and> \<not> rcr_enabled r) \<and>
       tb_decisions db' = tb_decisions db \<and> tb_actions db' = tb_actions db \<and> tb_outcomes db' = tb_outcomes db \<and>
       workflow_good (lib_of env) db') \<and> stage db' os (Suc (Suc (Suc n))) k p)"
  proof (rule achieves_then [OF approval_refused [OF h g1 st1 on active(2) row healthyD(4) [OF h] long(1)]])
    fix x :: "int \<times> http_body" and db2
    assume G: "fst x = 409 \<and> (\<exists>rows. db2 = db1\<lparr>tb_approvals := rows\<rparr>) \<and> workflow_good (lib_of env) db2"
    then have g2: "workflow_good (lib_of env) db2" by blast
    have same: "tb_decisions db2 = tb_decisions db" "tb_actions db2 = tb_actions db" "tb_outcomes db2 = tb_outcomes db"
      using G db1 by auto
    show "achieves (stage db2 os (Suc (Suc n)) k)
      (bind (require (fst x = 409) ''kill switch did not block execution'') (\<lambda>_.
       switch env False ''Restore after E2E kill-switch probe'' ''kill switch off failed''))
      (\<lambda>_ p. \<exists>db'. ((\<exists>r. row_get rcr_control_key kill_switch_key (tb_controls db') = Some r \<and> \<not> rcr_enabled r) \<and>
       tb_decisions db' = tb_decisions db \<and> tb_actions db' = tb_actions db \<and> tb_outcomes db' = tb_outcomes db \<and>
       workflow_good (lib_of env) db') \<and> stage db' os (Suc (Suc (Suc n))) k p)"
      unfolding probe_steps(3) [OF G [THEN conjunct1]]
      by (rule achieves_weaken [OF switch_set [OF h g2 long(2), of os "Suc (Suc n)" k False]]) (use same in auto)
  qed
qed


definition switched_off :: "database \<Rightarrow> bool" where
  "switched_off db \<longleftrightarrow> (\<exists>r. row_get rcr_control_key kill_switch_key (tb_controls db) = Some r \<and> \<not> rcr_enabled r)"

lemma second_order_blocked:
  assumes h: "healthy_stack env" and g: "workflow_good (lib_of env) db" and ev: "evidenced t db"
    and one: "one_order (lib_of env) u t db" and distinct: "distinct_runs (lib_of env) u (take 12 (pe_uuid env k))"
  shows "achieves (stage db os n k) (blocked env)
    (\<lambda>_ p. \<exists>db'. (evidenced t db' \<and> switched_off db' \<and> workflow_good (lib_of env) db') \<and> stage db' os (Suc (Suc (Suc (Suc (Suc n))))) (Suc k) p)"
  unfolding blocked_def
proof (rule achieves_then [OF switch_set [OF h g]])
  let ?v = "take 12 (pe_uuid env k)"
  show "len_within 3 500 ''E2E kill-switch probe''" by (simp add: len_within_def)
  fix x :: unit and db1
  assume F: "(\<exists>r. row_get rcr_control_key kill_switch_key (tb_controls db1) = Some r \<and> rcr_enabled r = True) \<and>
    (\<exists>rows. db1 = db\<lparr>tb_controls := rows\<rparr>) \<and> workflow_good (lib_of env) db1"
  then obtain r where r: "row_get rcr_control_key kill_switch_key (tb_controls db1) = Some r" "rcr_enabled r" by blast
  have g1: "workflow_good (lib_of env) db1" and ev1: "evidenced t db1" and one1: "one_order (lib_of env) u t db1"
    using F one evidenced_grown [OF ev, of db1] by (auto simp: one_order_def)
  have room: "room_for (lib_of env) ?v db1" by (rule room_beside [OF one1 distinct])
  have suffix: "achieves (stage db1 os (Suc n) k) (new_suffix env) (\<lambda>x p. x = ?v \<and> stage db1 os (Suc n) (Suc k) p)"
    by (simp add: achieves_def new_suffix_def stage_def)
  show "achieves (stage db1 os (Suc n) k)
     (bind (new_suffix env) (\<lambda>blocked_suffix.
      bind (evaluate_order env blocked_suffix ''blocked evaluate failed'') (\<lambda>blocked_decision.
      bind (submit_decision env (dt_decision_id blocked_decision) ''blocked submit failed'') (\<lambda>blocked_approval.
      bind (approve_as_manager env (ar_approval_id blocked_approval) ''Should be blocked by kill switch'') (\<lambda>r.
      bind (require (fst r = 409) ''kill switch did not block execution'') (\<lambda>_.
      switch env False ''Restore after E2E kill-switch probe'' ''kill switch off failed''))))))
     (\<lambda>_ p. \<exists>db'. (evidenced t db' \<and> switched_off db' \<and> workflow_good (lib_of env) db') \<and> stage db' os (Suc (Suc (Suc (Suc (Suc n))))) (Suc k) p)"
  proof (rule achieves_answer [OF suffix], rule achieves_then [OF order_evaluated [OF h g1 room]])
    fix t2 :: decision_trace and db2
    assume G: "(\<exists>m. decided_on ?v (utc m) t2 db1 db2) \<and> identified (lib_of env) ?v t2 \<and> workflow_good (lib_of env) db2"
    then obtain q where d: "tb_controls db2 = tb_controls db1" "tb_actions db2 = tb_actions db1" "tb_outcomes db2 = tb_outcomes db1"
      "tb_approvals db2 = tb_approvals db1" "\<exists>dr. tb_decisions db2 = tb_decisions db1 @ [dr]" "standing q t2 db2"
      by (auto simp: decided_on_def)
    have ev2: "evidenced t db2" using evidenced_grown [OF ev1] d by blast
    have none: "approval_id_of (lib_of env) t2 \<notin> apr_approval_id ` set (tb_approvals db2)"
      using room G d(4) by (simp add: room_for_def)
    have r2: "row_get rcr_control_key kill_switch_key (tb_controls db2) = Some r" using r(1) d(1) by simp
    show "achieves (stage db2 os (Suc (Suc n)) (Suc k))
      (bind (submit_decision env (dt_decision_id t2) ''blocked submit failed'') (\<lambda>blocked_approval.
       bind (approve_as_manager env (ar_approval_id blocked_approval) ''Should be blocked by kill switch'') (\<lambda>r.
       bind (require (fst r = 409) ''kill switch did not block execution'') (\<lambda>_.
       switch env False ''Restore after E2E kill-switch probe'' ''kill switch off failed''))))
      (\<lambda>_ p. \<exists>db'. (evidenced t db' \<and> switched_off db' \<and> workflow_good (lib_of env) db') \<and> stage db' os (Suc (Suc (Suc (Suc (Suc n))))) (Suc k) p)"
      by (rule achieves_weaken [OF second_refused [OF h _ d(6) none r2 r(2)]])
        (use G evidenced_grown [OF ev2] in \<open>auto simp: switched_off_def\<close>)
  qed
qed


lemma first_order:
  assumes "fresh_tables L db" and "decided_on u now t db db1"
  shows "standing (order_payload u TENANT now) t db1" "switched_off db1"
    "map evr_event_id (tb_events db1) = [''evt-e2e-'' @ u]" "map dcr_decision_id (tb_decisions db1) = [dt_decision_id t]"
    "tb_approvals db1 = []" "tb_actions db1 = []" "tb_outcomes db1 = []" "tb_feedback db1 = []"
  using assms by (auto simp: fresh_tables_def decided_on_def switched_off_def)

text \<open>From the submission of the first order to its review.\<close>

lemma first_order_recovered:
  assumes h: "healthy_stack env" and g: "workflow_good (lib_of env) db" and fresh: "fresh_tables (lib_of env) db0"
    and d: "decided_on (take 12 u) (utc m) t db0 db" and id: "identified (lib_of env) (take 12 u) t"
    and rest: "\<And>execution outcome db' os'. ae_status execution = AC_SUCCEEDED \<Longrightarrow> ov_status outcome = VS_VERIFIED \<Longrightarrow>
       evidenced t db' \<Longrightarrow> one_order (lib_of env) (take 12 u) t db' \<Longrightarrow> workflow_good (lib_of env) db' \<Longrightarrow>
       achieves (stage db' os' (n + 5) k) (f execution outcome) Q"
  shows "achieves (stage db empty_sandbox n k)
    (bind (submitted env (dt_decision_id t)) (\<lambda>approval.
     bind (approved env (ar_approval_id approval)) (\<lambda>execution.
     bind (verified env (take 12 u) (dt_decision_id t)) (\<lambda>outcome.
     bind (reviewed env (dt_decision_id t)) (\<lambda>_. f execution outcome))))) Q"
proof -
  note first = first_order [OF fresh d]
  let ?q = "order_payload (take 12 u) TENANT (utc m)"
  show ?thesis
  proof (rule achieves_then [OF approval_requested [OF h g first(1,5)]], goal_cases)
    case (1 a db1)
    then have db1: "db1 = db\<lparr>tb_approvals := [pending_row (lib_of env) t ''operations-analyst-ui'' (wall_of env n 0)]\<rparr>"
      and a: "ar_approval_id a = approval_id_of (lib_of env) t" and g1: "workflow_good (lib_of env) db1" by blast+
    have st1: "standing ?q t db1" using first(1) db1 standing_cong [of db1 db] by simp
    obtain r where off: "row_get rcr_control_key kill_switch_key (tb_controls db1) = Some r" "\<not> rcr_enabled r"
      using first(2) db1 by (auto simp: switched_off_def)
    have none1: "tb_actions db1 = []" using first(6) db1 by simp
    have row: "row_get apr_approval_id (ar_approval_id a) (tb_approvals db1) =
        Some (pending_row (lib_of env) t ''operations-analyst-ui'' (wall_of env n 0))"
      using a db1 by (simp add: row_get_def pending_row_def)
    show ?case
    proof (rule achieves_then [OF approval_carried_out [OF h g1 st1 off none1 row healthyD(5) [OF h]]], goal_cases)
      case (1 x dw)
      then have x: "ae_status x = AC_SUCCEEDED" and ex: "executed t db1 (fst dw)" and g2: "workflow_good (lib_of env) (fst dw)"
        by blast+
      obtain y where y: "action_get_by_decision (dt_decision_id t) (fst dw) = Some y" "carried_out t y"
        using ex by (auto simp: executed_def)
      have st2: "standing ?q t (fst dw)" using ex st1 standing_cong [of "fst dw" db1] by (simp add: executed_def)
      have none2: "tb_outcomes (fst dw) = []" using ex first(7) db1 by (simp add: executed_def)
      show ?case
      proof (rule achieves_then [OF outcome_verified [OF h g2 st2 y none2]], goal_cases)
        case (1 z ew)
        then have z: "ov_status z = VS_VERIFIED" and kept: "outcome_kept t (fst dw) (fst ew)"
          and g3: "workflow_good (lib_of env) (fst ew)" by blast+
        have got: "sql_get (dt_decision_id t) (fst ew) = Some t"
          using st2 kept sql_get_cong [of "fst ew" "fst dw"] by (simp add: standing_def outcome_kept_def)
        have none3: "tb_feedback (fst ew) = []" using kept ex first(8) db1 by (simp add: executed_def outcome_kept_def)
        have ev3: "evidenced t (fst ew)"
          using got y kept ex
          by (auto simp: evidenced_def executed_def outcome_kept_def carried_out_def action_get_by_decision_def)
        have one3: "one_order (lib_of env) (take 12 u) t (fst ew)"
          using kept ex first(3,4) db1 id by (simp add: one_order_def executed_def outcome_kept_def pending_row_def)
        show ?case
        proof (rule achieves_then [OF review_recorded [OF h g3 got none3]], goal_cases)
          case (1 u4 db4)
          then have g4: "workflow_good (lib_of env) db4" and "evidenced t db4" "one_order (lib_of env) (take 12 u) t db4"
            using one3 evidenced_grown [OF ev3, of db4] by (auto simp: one_order_def)
          then show ?case using rest [OF x z, of db4 "snd ew"] by (simp add: numeral_eq_Suc)
        qed
      qed
    qed
  qed
qed


abbreviation tables_of :: "probe \<Rightarrow> database" where
  "tables_of p \<equiv> w_db (app_world (st_app (pb_site p)))"

lemma run_passes:
  assumes h: "healthy_stack env" and fresh: "fresh_tables (lib_of env) db" and w: "0 < wait_seconds"
    and distinct: "distinct_runs (lib_of env) (take 12 (pe_uuid env k)) (take 12 (pe_uuid env (Suc k)))"
  shows "achieves (stage db empty_sandbox n k) (run_fresh env wait_seconds)
    (\<lambda>e p. \<exists>t. evidenced t (tables_of p) \<and> switched_off (tables_of p) \<and> workflow_good (lib_of env) (tables_of p) \<and>
       en_decision_id e = dt_decision_id t \<and> en_execution_status e = ''SUCCEEDED'' \<and>
       en_verification_status e = ''VERIFIED'' \<and> pb_file p = Some e)"
proof -
  let ?u = "take 12 (pe_uuid env k)"
  have suffix: "achieves (stage db empty_sandbox n k) (new_suffix env) (\<lambda>x p. x = ?u \<and> stage db empty_sandbox n (Suc k) p)"
    by (simp add: achieves_def new_suffix_def stage_def)
  show ?thesis
    unfolding run_fresh_def
  proof (rule achieves_answer [OF suffix], rule achieves_then [OF order_listed [OF h fresh]], goal_cases)
    case (1 t db1)
    then obtain m where d: "decided_on ?u (utc m) t db db1" and id: "identified (lib_of env) ?u t"
      and g1: "workflow_good (lib_of env) db1" by blast
    show ?case
    proof (rule first_order_recovered [OF h g1 fresh d id], goal_cases)
      case (1 x y db2 os)
      show ?case
      proof (rule achieves_bind [OF metrics_seen [OF h]],
          rule achieves_then [OF second_order_blocked [OF h 1(5,3,4) distinct]], goal_cases)
        case (1 _ _ db3)
        note stood = 1
        show ?case
          by (rule achieves_bind [OF console_found [OF h w]])
            (use stood \<open>ae_status x = AC_SUCCEEDED\<close> \<open>ov_status y = VS_VERIFIED\<close> in
              \<open>auto simp: achieves_def bind_app write_evidence_def stage_def run_evidence_def\<close>)
      qed
    qed
  qed
qed


section \<open>The process started again\<close>

text \<open>The container built again on the tables; the external systems and the counters are lost.\<close>

definition restart :: "client_env \<Rightarrow> wall \<Rightarrow> settings option \<Rightarrow> review_client option \<Rightarrow> probe \<Rightarrow> probe" where
  "restart C clock given client p =
     p\<lparr>pb_site := \<lparr>st_app = \<lparr>app_world = \<lparr>w_db = snd (build_services (ce_deployment C) clock given client (tables_of p)),
          w_ops = empty_sandbox\<rparr>, app_metrics = []\<rparr>, st_calls = st_calls (pb_site p)\<rparr>\<rparr>"

lemma build_services_tables:
  assumes "build_services D clock given client db = (r, db')"
  shows "tb_events db' = tb_events db \<and> tb_decisions db' = tb_decisions db \<and> tb_approvals db' = tb_approvals db \<and>
    tb_actions db' = tb_actions db \<and> tb_outcomes db' = tb_outcomes db \<and> tb_feedback db' = tb_feedback db \<and>
    (tb_controls db' = tb_controls db \<or> tb_controls db' = add_missing rcr_control_key (initial_control (clock 0)) (tb_controls db))"
  using assms
  by (auto simp: build_services_def bind_app bootstrap_def session_def budget_frame_def
      dest!: budget_state_frame split: prod.splits sum.splits)

lemma built_fresh:
  assumes "build_services D clock given client empty_database = (Inr V, db)"
  shows "fresh_tables L db"
proof -
  have good: "workflow_good L db" using build_services_good [OF disjI2 [OF refl] assms] by simp
  have "tb_controls db = [initial_control (clock 0)]"
    using assms
    by (auto simp: build_services_def bind_app bootstrap_def session_def budget_frame_def add_missing_def empty_database_def
        row_get_def dest!: budget_state_frame split: prod.splits sum.splits)
  then have "\<exists>r. row_get rcr_control_key kill_switch_key (tb_controls db) = Some r \<and> \<not> rcr_enabled r"
    by (simp add: row_get_def initial_control_def)
  then show ?thesis
    using good build_services_tables [OF assms] by (simp add: fresh_tables_def empty_database_def)
qed

lemma waiting_keeps_file: "wait_until_ready env deadline p = (r, u) \<Longrightarrow> pb_file u = pb_file p"
proof (induction env deadline p arbitrary: r u rule: wait_until_ready.induct)
  case (1 env deadline p)
  have "probe_request env q p = (x, v) \<Longrightarrow> pb_file v = pb_file p" for q x v
    by (auto simp: probe_request_def split: prod.splits)
  then have asked: "pb_file (sleep_two_seconds (snd (probe_request env Get_Ready p))) = pb_file p"
    "pb_file (snd (probe_request env Get_Ready p)) = pb_file p"
    by (simp_all add: sleep_two_seconds_def prod_eq_iff)
  show ?case
  proof (cases "pb_now p < deadline")
    case False
    then show ?thesis using "1.prems" by (simp add: wait_until_ready.simps [of env deadline p])
  next
    case True
    obtain x v where x: "probe_request env Get_Ready p = (x, v)" by fastforce
    show ?thesis
    proof (cases "\<exists>b. x = Inr b \<and> ready_answer b")
      case True
      then show ?thesis
        using "1.prems" \<open>pb_now p < deadline\<close> x asked(2) by (auto simp: wait_until_ready.simps [of env deadline p])
    next
      case False
      then have "wait_until_ready env deadline (sleep_two_seconds v) = (r, u)"
        using "1.prems" \<open>pb_now p < deadline\<close> x
        by (cases x) (auto simp: wait_until_ready.simps [of env deadline p])
      then have "pb_file u = pb_file (sleep_two_seconds v)"
        using "1.IH" [OF \<open>pb_now p < deadline\<close> x [symmetric]] False by (cases x) auto
      then show ?thesis using asked(1) x by simp
    qed
  qed
qed

lemma decision_replayed:
  assumes h: "healthy_stack env" and g: "workflow_good (lib_of env) db" and ev: "evidenced t db"
    and w: "0 < wait_seconds" and s: "stage db os n k p" and e: "pb_file p = Some e" "en_decision_id e = dt_decision_id t"
  shows "\<exists>q. probe_main env wait_seconds True p = (Inr (Replay_Passed (en_decision_id e)), q)"
proof -
  obtain b p1 where up: "wait_for_api env wait_seconds p = (Inr b, p1)" "stage db os (Suc n) k p1"
    using achievesD [OF api_found [OF h g w] s] by blast
  then have kept: "pb_file p1 = Some e" using waiting_keeps_file e(1) by (auto simp: wait_for_api_def)
  obtain x y where xy: "action_get_by_decision (dt_decision_id t) db = Some x" "ae_status x = AC_SUCCEEDED"
    "outcome_get_by_decision (dt_decision_id t) db = Some y" "ov_status y = VS_VERIFIED"
    "sql_get (dt_decision_id t) db = Some t"
    using ev by (auto simp: evidenced_def)
  let ?ap = "approval_get_by_decision (dt_decision_id t) db"
  have got: "workflow_get_state (dt_decision_id t) \<lparr>w_db = db, w_ops = os\<rparr> =
      (Inr (workflow_state_of t ?ap (Some x) (Some y)), \<lparr>w_db = db, w_ops = os\<rparr>)"
    using xy by (simp add: workflow_get_state_def bind_app workflow_decision_def on_db_app gateway_get_by_decision_def
        outcome_of_decision_def)
  have v: "request_valid (Get_Decision (dt_decision_id t))" by simp
  note c = asked(1) [OF h g v api_route.simps(11) got]
  then obtain p2 where "probe_request env (Get_Decision (dt_decision_id t)) p1 =
      (Inr (200, Content (BState (workflow_state_of t ?ap (Some x) (Some y)))), p2)"
    using achievesD [OF c up(2)] by auto
  then have "run_replay env p1 = (Inr (en_decision_id e), p2)"
    using kept e(2) xy by (simp add: run_replay_def bind_app as_state_def workflow_state_of_def present_def require_def
        expect_dict_def body_of_def)
  then show ?thesis using up(1) by (simp add: probe_main_def bind_app)
qed

section \<open>The probe passes\<close>

text \<open>C4: On a stack that works the end-to-end probe passes: with a network that delivers, a console that
  answers, a clock that moves less than the life of an approval between neighbouring calls, and services
  built on an empty database, the run writes its evidence, the order was recovered and its delivery
  verified in the tables, no action was carried out but that of its decision (the order under the kill
  switch has none), and the switch is off again. When the process is started again on these tables, the
  external systems and counters lost, the replay finds the evidence.\<close>

theorem probe_passes:
  assumes healthy: "healthy_stack env" and wait: "0 < wait_seconds"
    and built: "build_services (ce_deployment (pe_client env)) clock given client empty_database =
      (Inr (ce_services (pe_client env)), db)"
    and start: "app_world (st_app (pb_site p)) = \<lparr>w_db = db, w_ops = empty_sandbox\<rparr>"
    and ids: "distinct_runs (lib_of env) (take 12 (pe_uuid env (pb_drawn p))) (take 12 (pe_uuid env (Suc (pb_drawn p))))"
  shows "\<exists>e t p' q. probe_main env wait_seconds False p = (Inr (Passed e), p') \<and> pb_file p' = Some e \<and>
    en_decision_id e = dt_decision_id t \<and> en_execution_status e = ''SUCCEEDED'' \<and>
    en_verification_status e = ''VERIFIED'' \<and> evidenced t (tables_of p') \<and> switched_off (tables_of p') \<and>
    probe_main env wait_seconds True (restart (pe_client env) clock' given' client' p') =
      (Inr (Replay_Passed (en_decision_id e)), q)"
proof -
  have fresh: "fresh_tables (lib_of env) db" by (rule built_fresh [OF built])
  then have good: "workflow_good (lib_of env) db" by (simp add: fresh_tables_def)
  let ?n = "st_calls (pb_site p)" and ?k = "pb_drawn p"
  have "stage db empty_sandbox ?n ?k p" using start by (simp add: stage_def)
  then obtain b p1 where up: "wait_for_api env wait_seconds p = (Inr b, p1)" "stage db empty_sandbox (Suc ?n) ?k p1"
    using achievesD [OF api_found [OF healthy good wait]] by blast
  obtain e p' t where run: "run_fresh env wait_seconds p1 = (Inr e, p')" "evidenced t (tables_of p')"
    "switched_off (tables_of p')" "workflow_good (lib_of env) (tables_of p')" "en_decision_id e = dt_decision_id t"
    "en_execution_status e = ''SUCCEEDED''" "en_verification_status e = ''VERIFIED''" "pb_file p' = Some e"
    using achievesD [OF run_passes [OF healthy fresh wait ids] up(2)] by blast
  obtain r db' where again: "build_services (ce_deployment (pe_client env)) clock' given' client' (tables_of p') = (r, db')"
    by fastforce
  let ?q = "restart (pe_client env) clock' given' client' p'"
  have g: "workflow_good (lib_of env) db'" using build_services_good [OF disjI1 [OF run(4)] again] run(4) by auto
  have ev: "evidenced t db'" using evidenced_grown [OF run(2)] build_services_tables [OF again] by blast
  have "stage db' empty_sandbox (st_calls (pb_site ?q)) (pb_drawn ?q) ?q" "pb_file ?q = Some e"
    using again run(8) by (simp_all add: stage_def restart_def)
  from decision_replayed [OF healthy g ev wait this run(5)]
  show ?thesis using up(1) run by (auto simp: probe_main_def bind_app)
qed

section \<open>A sample stack\<close>

text \<open>Identifiers by a digest that keeps its text and is long enough, suffixes that differ early, a clock
  that stands, a network that delivers.\<close>

definition probe_lib :: lib where
  "probe_lib = sample_execution_lib\<lparr>sha256_hex := \<lambda>x. x @ ''00000''\<rparr>"

definition probe_deployment :: deployment where
  "probe_deployment = sample_deployment\<lparr>dp_lib := probe_lib\<rparr>"

definition probe_build :: "services res \<times> database" where
  "probe_build = build_services probe_deployment (\<lambda>_. utc 1) None None empty_database"

definition probe_stack :: "services \<Rightarrow> probe_env" where
  "probe_stack V =
     \<lparr>pe_client = \<lparr>ce_deployment = probe_deployment, ce_services = V, ce_clock = \<lambda>_ _. utc 5, ce_wall = \<lambda>_ _. utc 5,
        ce_fresh = \<lambda>_. ''c'', ce_delivery = \<lambda>_. Delivered\<rparr>,
      pe_took = \<lambda>_. 1000, pe_console = \<lambda>_. Some 200, pe_look_took = \<lambda>_. 1000,
      pe_uuid = (\<lambda>n. if n = 0 then ''aaaaaaaaaaaaaaaa'' else ''bbbbbbbbbbbbbbbb''),
      pe_exposition = \<lambda>_. concat (map fm_name registry), pe_metrics_lost = False\<rparr>"

definition probe_start :: probe where
  "probe_start = \<lparr>pb_site = \<lparr>st_app = \<lparr>app_world = \<lparr>w_db = snd probe_build, w_ops = empty_sandbox\<rparr>, app_metrics = []\<rparr>,
     st_calls = 0\<rparr>, pb_now = 7, pb_looks = 0, pb_drawn = 0, pb_file = None\<rparr>"

lemma probe_build_ok: "\<exists>V db. probe_build = (Inr V, db) \<and> sv_score V = deterministic_score"
proof -
  have "case probe_build of (Inl e, d) \<Rightarrow> False | (Inr V, d) \<Rightarrow> True" by code_simp
  then obtain V db where V: "probe_build = (Inr V, db)" by (auto split: prod.splits sum.splits)
  moreover have "scorer_from_environment probe_deployment = Inr (deterministic_score, deterministic_model_version)"
    by (simp add: scorer_from_environment_def probe_deployment_def sample_deployment_def getenv_def)
  ultimately show ?thesis
    by (auto simp: probe_build_def build_services_def bind_app split: prod.splits sum.splits)
qed

lemma contains_word_between: "contains_word w (xs @ w @ ys)"
proof (induction xs)
  case Nil
  have "startswith w (w @ ys)" by (simp add: startswith_def)
  then show ?case by (cases "w @ ys") auto
qed simp

lemma contains_word_concat:
  assumes "x \<in> set xs"
  shows "contains_word x (concat xs)"
proof -
  obtain ys zs where "xs = ys @ x # zs" using assms by (meson split_list)
  then show ?thesis by (simp add: contains_word_between)
qed

lemma registry_exposed: "\<forall>f\<in>set registry. contains_word (fm_name f) (concat (map fm_name registry))"
  by (intro ballI contains_word_concat) simp

lemma probe_stack_healthy:
  assumes "sv_score V = deterministic_score"
  shows "healthy_stack (probe_stack V)"
proof -
  have "distinguishes_decisions probe_lib"
    using sample_distinguishes
    by (simp add: distinguishes_decisions_def command_fingerprint_def canonical_fingerprint_def probe_lib_def
        sample_execution_lib_def sample_lib_def)
  then show ?thesis
    using assms registry_exposed
    by (simp add: healthy_stack_def probe_stack_def probe_deployment_def probe_lib_def default_ttl_def Let_def)
qed

lemma probe_ids: "distinct_runs probe_lib ''aaaaaaaaaaaa'' ''bbbbbbbbbbbb''"
  by (auto simp: distinct_runs_def identified_def decision_id_of_def digest_id_def decision_identity_def approval_id_of_def
      approval_identity_def probe_lib_def order_payload_def probe_event_def probe_order_def)

lemma probe_passes_witness:
  "\<exists>V db e p'. probe_build = (Inr V, db) \<and> probe_main (probe_stack V) 90 False probe_start = (Inr (Passed e), p') \<and>
    en_verification_status e = ''VERIFIED''"
proof -
  obtain V db where V: "probe_build = (Inr V, db)" "sv_score V = deterministic_score" using probe_build_ok by blast
  have "\<exists>e t p' q. probe_main (probe_stack V) 90 False probe_start = (Inr (Passed e), p') \<and> pb_file p' = Some e \<and>
    en_decision_id e = dt_decision_id t \<and> en_execution_status e = ''SUCCEEDED'' \<and>
    en_verification_status e = ''VERIFIED'' \<and> evidenced t (tables_of p') \<and> switched_off (tables_of p') \<and>
    probe_main (probe_stack V) 90 True (restart (pe_client (probe_stack V)) (\<lambda>_. utc 9) None None p') =
      (Inr (Replay_Passed (en_decision_id e)), q)"
    by (rule probe_passes [OF probe_stack_healthy [OF V(2)], where clock = "\<lambda>_. utc 1" and given = None and client = None
        and db = db])
      (use V(1) probe_ids in \<open>simp_all add: probe_stack_def probe_start_def probe_build_def probe_deployment_def\<close>)
  then show ?thesis using V(1) by blast
qed

end
