(* ===== verification/Spec2Isabelle.thy ===== *)
theory Spec2Isabelle
  imports Api_Properties Value_Backtest Synthetic_Events Schema Evals Training Healthy_Path
    Adapter_Responses Metrics Operations_Console Stack_Acceptance
begin

text \<open>
  A verification library for PromiseGuard (\<^verbatim>\<open>src/src/promiseguard\<close>): a service that
  scores the risk that an order misses its delivery promise, simulates recovery options,
  recommends the best one, passes it through a policy gateway, has it approved or executes it
  autonomously, and verifies the outcome. A bounded review agent comments on decisions under a
  budget, an HTTP interface serves all of it, and an offline part makes synthetic orders, trains
  a risk model on them and measures the value of the decisions.

  \<^bold>\<open>Runtime.\<close> \<open>Py_Numbers\<close> models the values of Python floats (binary64, rounded to nearest,
  ties to even) and of decimals in the default context (28 digits, half even) as rationals with
  the rounding written out. \<open>Py_Runtime\<close> has exceptions as values, stateful operations as functions
  from the state to result and state, sessions that roll back, stable sorting, rows and
  datetimes; its locale \<open>frame_relation\<close> carries what an operation leaves alone through every
  composition.

  \<^bold>\<open>Decisions.\<close> \<open>Domain_Models\<close> (models.py) holds the enumerations and records with the predicates
  their validators check. \<open>Risk_Scoring\<close> (risk.py, trained_risk.py, features.py) states the protocol
  of a scorer as the locale \<open>risk_scorer\<close> with both scorers as interpretations.
  \<open>Recovery_Simulator\<close> (simulator.py), \<open>Decision_Optimizer\<close> (optimizer.py) and \<open>Policy_Gateway\<close>
  (policy.py) are pure; the lemmas show that the simulator is total on bounded orders, that the
  selection is optimal and what each disposition of the policy means. \<open>Orchestrator\<close>
  (orchestrator.py, evaluation.py) composes them over any ledger.

  \<^bold>\<open>Storage.\<close> \<open>Store\<close> (db_models.py, persistence.py, database.py) has the rows, the sessions and the
  repositories, \<open>Decision_Ledger\<close> (ledger.py) the two ledgers behind one contract, and \<open>Schema\<close>
  (db_models.py, \<^verbatim>\<open>src/alembic/versions\<close>) the declared tables and the migrations in both directions,
  with the statements as data and their documented effect as \<open>ddl_step\<close>. The lemmas show that a
  recorded decision never changes, which sequences of migrations and service starts lead to the
  declared tables (those in which the service does not start before the third revision), and which
  events the columns of their table hold.

  \<^bold>\<open>Governance.\<close> \<open>Identity_Feedback\<close> (identity.py, feedback.py), \<open>Approval\<close> (approval.py, with the
  interleaved readers and writers of one approval as a step relation), \<open>Autonomy\<close> (autonomy.py:
  kill switch, profiles, evidence). The lemmas are the invariants of their tables, one winner per
  approval, and when autonomy is earned.

  \<^bold>\<open>Actions.\<close> \<open>Adapters\<close> (\<^verbatim>\<open>adapters/errors.py\<close>, \<^verbatim>\<open>contracts.py\<close>, \<^verbatim>\<open>sandbox.py\<close>) has the sandbox
  systems behind the port of the locale \<open>operations_contract\<close>; \<open>Contracts\<close> the contract descriptors
  and what the gateway and the sandbox keep of them; \<open>Adapter_Responses\<close> the typed requests and
  responses around the port with their correlation identifiers and log lines, and that an execution
  over them is one over the port; \<open>Execution\<close> (execution.py) the durable claim, the
  steps, their verification and compensation; \<open>Verification\<close> (verification.py) the outcome; \<open>Workflow\<close>
  (workflow.py) submission, approval, rejection and verification. The lemmas show that an action is
  taken at most once, never without authority and never under an active kill switch, that its recorded
  status is true of the systems (but for the compensation of an upgrade to the service an order already
  has), where the code leaves a reservation behind, and that a verification reads the systems after it
  has written the stored action back to them. \<open>Healthy_Path\<close> adds
  the converse: the locale \<open>responsive_port\<close> extends the contract by readiness, and an approval that is
  granted on a ready port is carried out.

  \<^bold>\<open>Agent.\<close> \<open>Agent_Models\<close> (openai_models.py), \<open>OpenAI_Cost\<close> (openai_cost.py), \<open>OpenAI_Budget\<close>
  (openai_budget.py) and \<open>OpenAI_Agent\<close> (openai_agent.py): the price of a call, the reservation and
  settlement of its cost, and the run around the provider. A settlement reads its run before it locks the
  budget, so it is two steps, \<open>finalise_read\<close> and \<open>finalise_locked\<close>, that the sessions of others come
  between. The lemmas show what the budget row keeps of its runs under every interleaving: no cost is
  lost, and the row is exact and within its limit up to overruns unless a settlement finds its run
  changed; and that a call of the agent leaves no reservation open, but for the two cases in which the
  code does. \<open>Evals\<close> (\<^verbatim>\<open>src/evals/run_local.py\<close>,
  openai_smoke_cli.py) runs the evaluation cases and the smoke test through the same services and shows
  that they take no action.

  \<^bold>\<open>Service.\<close> \<open>Configuration\<close> (config.py), \<open>Observability\<close> (observability.py),
  \<open>Value_Design\<close> (value_design.py), \<open>Api\<close> (services.py, \<^verbatim>\<open>src/apps/api/main.py\<close>): the container and
  every route as one function \<open>serve\<close> from a request to a response. \<open>Api_Properties\<close> has the step relation
  of requests, restarts and failures, and the properties that span the service. \<open>Metrics\<close> (metrics.py)
  has the families of counters and shows that they count what the answers say.

  \<^bold>\<open>Clients.\<close> \<open>Client\<close> sends requests to the served application over a network that may lose them.
  \<open>Operations_Console\<close> (\<^verbatim>\<open>src/apps/operations_console/app.py\<close>) is one run of the console from the
  values of its widgets to the calls it makes and the items it shows; it acts only as clicked.
  \<open>Stack_Probe\<close> (\<^verbatim>\<open>src/scripts/local_e2e.py\<close>) is the end-to-end probe of a running stack;
  \<open>Probe_Decision\<close> shows how its order is decided, \<open>Acceptance_Steps\<close> what the services do for each of its
  requests, and \<open>Stack_Acceptance\<close>, with triples of total correctness carried from call to call, that the
  probe passes on a stack that works and its replay after a restart.

  \<^bold>\<open>Offline part.\<close> \<open>Synthetic_Data\<close> (synthetic.py) draws orders and labels them, \<open>Synthetic_Soundness\<close>
  and \<open>Synthetic_Records\<close> show that every record is valid and truly labelled; \<open>Synthetic_Events\<close>
  (synthetic_events.py) expands a record into its stream of events; \<open>Value_Evaluation\<close> and
  \<open>Value_Backtest\<close> (value_evaluation.py) evaluate the decisions against the labels and show that the
  report is exact; \<open>Training\<close> (training.py) splits, fits, selects and writes the artifact that the
  service loads.

  \<^bold>\<open>Parameters.\<close> Hashing, JSON text, \<open>isoformat\<close>, the provider behind the agent's client,
  \<open>random.Random\<close>, scikit-learn, LightGBM and numpy are library code: they are arguments of the
  definitions that use them. Where a property needs a law of one of them (a digest that distinguishes,
  a generator that draws within its interval, boundaries that increase) it is a named hypothesis, and
  the witness instantiates it. A clock is a function from the number of the reading to its time.

  \<^bold>\<open>Bounds.\<close> Exponents of floats and decimals and the range of datetimes are not bounded, so overflow,
  infinities and NaN are outside the model; NaN from the environment and from JSON is refused where the
  code refuses it. The log-normal draws of the generator are bounded by \<open>2^20\<close>. Positions computed
  through a float product (the 0.95 quantile, the split of the records) are exact up to \<open>2^40\<close> records.
  No recursion needs fuel: every loop of the code runs over a list, and the waits of the probe end
  because a sleep moves its clock towards the deadline.

  \<^bold>\<open>Limits.\<close> The version and the texts of an event are checked against their columns, as PostgreSQL or
  SQLite does by the dialect in \<open>lib\<close>; all other columns hold what was written to them, and the
  validators bound their texts. Texts have no NUL character and no lone surrogate, which PostgreSQL and its
  driver refuse, and connections are not lost. Foreign keys are not enforced, as on SQLite, and
  amounts in Numeric columns have at most six decimals. The tables exist when a service starts. What a
  session does under a row lock is one step, as on PostgreSQL; the reads before the lock are steps of
  their own where their result can go stale (\<open>decide_read\<close>, \<open>finalise_read\<close>). Durations are read from a clock but not observed in a histogram. Generators
  are run to their end.

  \<^bold>\<open>Not modelled.\<close> The rendering of metrics, logs and reports, the layout of the console, the parsing
  of command lines and the reading and writing of files around the modelled functions, the other
  scripts of \<^verbatim>\<open>src/scripts\<close> and the SQL of \<^verbatim>\<open>src/dbt\<close>: text and glue around what is modelled here.
\<close>

end
